(* ===== verification/Prelude.thy ===== *)
theory Prelude
  imports Complex_Main
begin

text \<open>
  Shared vocabulary of the development: the theorem collections every component uses, Python's
  text helpers on strings (a \<open>char list\<close>, one character per code point up to 255), SQL tables as
  lists of rows with the laws of their statements, and two locales for machines that run a
  sequence of commands: one carries an invariant along a run, the other a preorder as well.
\<close>

named_theorems table_laws
named_theorems text_laws

type_synonym time = real
type_synonym 'r table = "'r list"

section \<open>Python text\<close>

definition py_isspace :: "char \<Rightarrow> bool" where
  "py_isspace c \<longleftrightarrow> c \<in> set [CHR 0x09, CHR 0x0A, CHR 0x0B, CHR 0x0C, CHR 0x0D, CHR 0x1C, CHR 0x1D,
     CHR 0x1E, CHR 0x1F, CHR 0x20, CHR 0x85, CHR 0xA0]"

definition py_strip :: "string \<Rightarrow> string" where
  "py_strip s = rev (dropWhile py_isspace (rev (dropWhile py_isspace s)))"

definition py_lower_char :: "char \<Rightarrow> char" where
  "py_lower_char c = (let n = (of_char c :: nat) in
     if (65 \<le> n \<and> n \<le> 90) \<or> (192 \<le> n \<and> n \<le> 222 \<and> n \<noteq> 215) then char_of (n + 32) else c)"

definition py_lower :: "string \<Rightarrow> string" where
  "py_lower s = map py_lower_char s"

text \<open>\<open>str(x or "")\<close> for an optional text.\<close>

definition text_or_empty :: "string option \<Rightarrow> string" where
  "text_or_empty x = (case x of None \<Rightarrow> [] | Some s \<Rightarrow> s)"

text \<open>\<open>x or y\<close> for a text: the empty text is false.\<close>

definition text_or :: "string \<Rightarrow> string \<Rightarrow> string" where
  "text_or x y = (if x = [] then y else x)"

text \<open>\<open>str(n)\<close> of a natural number.\<close>

fun decimal_digits :: "nat \<Rightarrow> string" where
  "decimal_digits n = (if n < 10 then [char_of (48 + n)] else decimal_digits (n div 10) @ [char_of (48 + n mod 10)])"

declare decimal_digits.simps [simp del]

lemma dropWhile_idem: "dropWhile P (dropWhile P xs) = dropWhile P xs"
  by (induction xs) auto

lemma hd_not_dropped:
  assumes "dropWhile P xs = xs"
  shows "dropWhile P (rev (dropWhile Q (rev xs))) = rev (dropWhile Q (rev xs))"
proof (cases "rev (dropWhile Q (rev xs))")
  case Nil
  then show ?thesis by (simp only: dropWhile.simps)
next
  case (Cons y ys)
  obtain zs where zs: "rev xs = zs @ dropWhile Q (rev xs)"
    by (metis takeWhile_dropWhile_id)
  then have "xs = rev (dropWhile Q (rev xs)) @ rev zs"
    by (metis rev_append rev_rev_ident)
  with Cons have "xs = y # (ys @ rev zs)" by simp
  with assms have "\<not> P y"
    by (metis dropWhile_eq_self_iff list.distinct(1) list.sel(1))
  with Cons show ?thesis by simp
qed

lemma py_strip_idem [text_laws, simp]: "py_strip (py_strip s) = py_strip s"
  unfolding py_strip_def by (simp add: hd_not_dropped dropWhile_idem)

lemma py_strip_Nil [simp]: "py_strip [] = []"
  by (simp add: py_strip_def)

section \<open>SQL tables\<close>

text \<open>
  A table is the list of its rows in insertion order. The statements of the stores are
  \<open>SELECT ... LIMIT 1\<close> (\<open>select_one\<close>), \<open>UPDATE ... WHERE\<close> (\<open>update_where\<close>),
  \<open>DELETE ... WHERE\<close> (\<open>delete_where\<close>), \<open>INSERT OR IGNORE\<close> and
  \<open>INSERT ... ON CONFLICT DO UPDATE\<close>; \<open>rowcount\<close> is the cursor's count of matched rows.
  A comparison with \<open>NULL\<close> is not true, which \<open>sql_gt\<close> and \<open>sql_le\<close> write out.
\<close>

definition select_one :: "('r \<Rightarrow> bool) \<Rightarrow> 'r table \<Rightarrow> 'r option" where
  "select_one P t = List.find P t"

definition update_where :: "('r \<Rightarrow> bool) \<Rightarrow> ('r \<Rightarrow> 'r) \<Rightarrow> 'r table \<Rightarrow> 'r table" where
  "update_where P f t = map (\<lambda>r. if P r then f r else r) t"

definition delete_where :: "('r \<Rightarrow> bool) \<Rightarrow> 'r table \<Rightarrow> 'r table" where
  "delete_where P t = filter (\<lambda>r. \<not> P r) t"

definition rowcount :: "('r \<Rightarrow> bool) \<Rightarrow> 'r table \<Rightarrow> nat" where
  "rowcount P t = length (filter P t)"

definition row_of :: "('r \<Rightarrow> 'k) \<Rightarrow> 'k \<Rightarrow> 'r table \<Rightarrow> 'r option" where
  "row_of key k t = select_one (\<lambda>r. key r = k) t"

definition insert_or_ignore :: "('r \<Rightarrow> 'k) \<Rightarrow> 'r \<Rightarrow> 'r table \<Rightarrow> 'r table" where
  "insert_or_ignore key r t = (if row_of key (key r) t = None then t @ [r] else t)"

definition upsert :: "('r \<Rightarrow> 'k) \<Rightarrow> ('r \<Rightarrow> 'r) \<Rightarrow> 'r \<Rightarrow> 'r table \<Rightarrow> 'r table" where
  "upsert key g r t =
     (if row_of key (key r) t = None then t @ [r] else update_where (\<lambda>x. key x = key r) g t)"

definition unique_on :: "('r \<Rightarrow> 'k) \<Rightarrow> 'r table \<Rightarrow> bool" where
  "unique_on key t \<longleftrightarrow> distinct (map key t)"

definition sql_gt :: "time option \<Rightarrow> time \<Rightarrow> bool" where
  "sql_gt x t = (case x of None \<Rightarrow> False | Some v \<Rightarrow> v > t)"

definition sql_le :: "time option \<Rightarrow> time \<Rightarrow> bool" where
  "sql_le x t = (case x of None \<Rightarrow> False | Some v \<Rightarrow> v \<le> t)"

lemma sql_gt_simps [simp]: "sql_gt None t = False" "sql_gt (Some v) t = (v > t)"
  by (simp_all add: sql_gt_def)

lemma sql_le_simps [simp]: "sql_le None t = False" "sql_le (Some v) t = (v \<le> t)"
  by (simp_all add: sql_le_def)

lemma find_append: "List.find P (xs @ ys) = (case List.find P xs of None \<Rightarrow> List.find P ys | Some x \<Rightarrow> Some x)"
  by (induction xs) auto

lemma find_map_same:
  "(\<And>r. P (f r) = P r) \<Longrightarrow> List.find P (map f t) = map_option f (List.find P t)"
  by (induction t) auto

lemma select_one_None: "select_one P t = None \<longleftrightarrow> (\<forall>r\<in>set t. \<not> P r)"
  by (auto simp: select_one_def find_None_iff)

lemma select_one_SomeD: "select_one P t = Some r \<Longrightarrow> r \<in> set t \<and> P r"
  unfolding select_one_def by (metis find_Some_iff nth_mem)

lemma row_of_Nil [simp]: "row_of key k [] = None"
  by (simp add: row_of_def select_one_def)

lemma row_of_Cons [simp]: "row_of key k (r # t) = (if key r = k then Some r else row_of key k t)"
  by (simp add: row_of_def select_one_def)

lemma row_of_append: "row_of key k (s @ t) = (case row_of key k s of None \<Rightarrow> row_of key k t | Some r \<Rightarrow> Some r)"
  by (induction s) simp_all

lemma row_of_key: "row_of key k t = Some r \<Longrightarrow> key r = k"
  by (auto simp: row_of_def dest: select_one_SomeD)

lemma row_of_mem: "row_of key k t = Some r \<Longrightarrow> r \<in> set t"
  by (auto simp: row_of_def dest: select_one_SomeD)

lemma row_of_None: "row_of key k t = None \<longleftrightarrow> k \<notin> key ` set t"
  by (auto simp: row_of_def select_one_None)

lemma unique_row_of:
  "unique_on key t \<Longrightarrow> r \<in> set t \<Longrightarrow> row_of key (key r) t = Some r"
  by (induction t) (auto simp: unique_on_def image_iff)

lemma row_of_update [table_laws]:
  assumes "\<And>r. key (f r) = key r"
  shows "row_of key k (update_where P f t) = map_option (\<lambda>r. if P r then f r else r) (row_of key k t)"
  using assms by (induction t) (auto simp: update_where_def)

lemma row_of_delete [table_laws]:
  assumes "unique_on key t"
  shows "row_of key k (delete_where P t) =
    (case row_of key k t of None \<Rightarrow> None | Some r \<Rightarrow> if P r then None else Some r)"
  using assms
proof (induction t)
  case Nil
  then show ?case by (simp add: delete_where_def)
next
  case (Cons x t)
  then have "unique_on key t" and fresh: "row_of key (key x) t = None"
    by (auto simp: unique_on_def row_of_None)
  with Cons.IH have IH: "row_of key k (delete_where P t) =
      (case row_of key k t of None \<Rightarrow> None | Some r \<Rightarrow> if P r then None else Some r)"
    by simp
  show ?case
  proof (cases "key x = k")
    case True
    with fresh IH show ?thesis by (auto simp: delete_where_def)
  next
    case False
    with IH show ?thesis by (simp add: delete_where_def)
  qed
qed

lemma row_of_insert_or_ignore [table_laws]:
  "row_of key k (insert_or_ignore key r t) =
    (case row_of key k t of None \<Rightarrow> if key r = k then Some r else None | Some x \<Rightarrow> Some x)"
  by (auto simp: insert_or_ignore_def row_of_append split: option.splits)

lemma row_of_upsert [table_laws]:
  assumes "\<And>x. key (g x) = key x"
  shows "row_of key k (upsert key g r t) =
    (if key r = k then (case row_of key k t of None \<Rightarrow> Some r | Some x \<Rightarrow> Some (g x))
     else row_of key k t)"
proof (cases "row_of key (key r) t = None")
  case True
  then show ?thesis by (auto simp: upsert_def row_of_append split: option.splits)
next
  case False
  have eq: "row_of key k (update_where (\<lambda>x. key x = key r) g t) =
      map_option (\<lambda>x. if key x = key r then g x else x) (row_of key k t)"
    using assms by (rule row_of_update)
  show ?thesis
  proof (cases "row_of key k t")
    case None
    with False eq show ?thesis by (auto simp: upsert_def)
  next
    case (Some x)
    with False eq row_of_key [OF Some] show ?thesis by (auto simp: upsert_def)
  qed
qed

lemma unique_on_Nil [simp]: "unique_on key []"
  by (simp add: unique_on_def)

lemma unique_on_update [table_laws]:
  assumes "\<And>r. key (f r) = key r"
  shows "unique_on key (update_where P f t) = unique_on key t"
proof -
  have "map key (update_where P f t) = map key t"
    using assms by (simp add: update_where_def)
  then show ?thesis by (simp add: unique_on_def)
qed

lemma unique_on_delete [table_laws]: "unique_on key t \<Longrightarrow> unique_on key (delete_where P t)"
  unfolding unique_on_def delete_where_def by (rule distinct_map_filter)

lemma unique_on_insert_or_ignore [table_laws]:
  "unique_on key t \<Longrightarrow> unique_on key (insert_or_ignore key r t)"
  by (auto simp: insert_or_ignore_def unique_on_def row_of_None)

lemma unique_on_upsert [table_laws]:
  "(\<And>x. key (g x) = key x) \<Longrightarrow> unique_on key t \<Longrightarrow> unique_on key (upsert key g r t)"
proof (cases "row_of key (key r) t = None")
  case True
  assume "unique_on key t"
  with True show ?thesis by (auto simp: upsert_def unique_on_def row_of_None)
next
  case False
  assume "\<And>x. key (g x) = key x" and "unique_on key t"
  with False show ?thesis by (auto simp: upsert_def unique_on_update)
qed

lemma rowcount_unique [table_laws]:
  assumes "unique_on key t"
  shows "rowcount (\<lambda>r. key r = k \<and> Q r) t =
    (case row_of key k t of None \<Rightarrow> 0 | Some r \<Rightarrow> if Q r then 1 else 0)"
  using assms
proof (induction t)
  case Nil
  then show ?case by (simp add: rowcount_def)
next
  case (Cons x t)
  then have uniq: "unique_on key t" and fresh: "key x \<notin> key ` set t"
    by (auto simp: unique_on_def)
  show ?case
  proof (cases "key x = k")
    case True
    with fresh have "\<forall>r\<in>set t. key r \<noteq> k" by (metis imageI)
    then have "filter (\<lambda>r. key r = k \<and> Q r) t = []" by simp
    with True show ?thesis by (simp add: rowcount_def)
  next
    case False
    with Cons.IH [OF uniq] show ?thesis by (simp add: rowcount_def)
  qed
qed

lemma rowcount_zero_update: "rowcount P t = 0 \<Longrightarrow> update_where P f t = t"
  by (auto simp: rowcount_def update_where_def filter_empty_conv intro!: map_idI)

lemma unique_row_eq:
  "unique_on key t \<Longrightarrow> r \<in> set t \<Longrightarrow> h \<in> set t \<Longrightarrow> key r = key h \<Longrightarrow> r = h"
  by (metis option.inject unique_row_of)

text \<open>An update whose condition pins the key of a row of the table changes that row only.\<close>

lemma update_where_one:
  assumes "unique_on key t" and "h \<in> set t" and "P h" and "\<And>r. P r \<Longrightarrow> key r = key h"
  shows "update_where P f t = map (\<lambda>r. if r = h then f r else r) t"
  unfolding update_where_def
proof (rule map_cong [OF refl])
  fix r assume "r \<in> set t"
  then have "P r \<longleftrightarrow> r = h" using assms unique_row_eq [OF assms(1)] by blast
  then show "(if P r then f r else r) = (if r = h then f r else r)" by simp
qed

lemma set_update_where: "set (update_where P f t) = (\<lambda>r. if P r then f r else r) ` set t"
  by (simp add: update_where_def)

section \<open>Runs of commands\<close>

text \<open>
  A store is driven by commands of several workers in any order. \<open>guarded_machine\<close> is the contract
  of a step function with an invariant; \<open>ordered_machine\<close> adds a preorder that every step climbs,
  the form of \<open>this row never changes again\<close>.
\<close>

locale guarded_machine =
  fixes step :: "'c \<Rightarrow> 's \<Rightarrow> 's"
    and inv :: "'s \<Rightarrow> bool"
  assumes step_inv: "inv s \<Longrightarrow> inv (step c s)"
begin

lemma run_inv: "inv s \<Longrightarrow> inv (fold step cs s)"
  by (induction cs arbitrary: s) (auto simp: step_inv)

end

locale ordered_machine = guarded_machine +
  fixes leq :: "'s \<Rightarrow> 's \<Rightarrow> bool"
  assumes leq_refl: "leq s s"
    and leq_trans: "leq s t \<Longrightarrow> leq t u \<Longrightarrow> leq s u"
    and step_leq: "inv s \<Longrightarrow> leq s (step c s)"
begin

lemma run_leq: "inv s \<Longrightarrow> leq s (fold step cs s)"
proof (induction cs arbitrary: s)
  case Nil
  show ?case by (simp add: leq_refl)
next
  case (Cons c cs)
  have "leq s (step c s)" using Cons.prems by (rule step_leq)
  moreover have "leq (step c s) (fold step cs (step c s))"
    using Cons.prems by (intro Cons.IH step_inv)
  ultimately show ?case by (auto intro: leq_trans)
qed

end

text \<open>
  \<open>leased_rows\<close> is the contract of a store whose rows are leased: while the lease of a worker runs,
  a command of anybody else leaves the row as it is. A client that holds a lease relies on
  \<open>lease_run\<close>: whatever the others do before the lease ends, the row is still its own.
\<close>

locale leased_rows = guarded_machine +
  fixes entry :: "'s \<Rightarrow> 'k \<Rightarrow> 'r option"
    and lease :: "'r \<Rightarrow> ('w \<times> time) option"
    and actor :: "'c \<Rightarrow> 'w option"
    and clock :: "'c \<Rightarrow> time option"
  assumes lease_respected:
    "inv s \<Longrightarrow> entry s k = Some r \<Longrightarrow> lease r = Some (w, e) \<Longrightarrow> actor c \<noteq> Some w \<Longrightarrow>
       (\<forall>t. clock c = Some t \<longrightarrow> t < e) \<Longrightarrow> entry (step c s) k = Some r"
begin

lemma lease_run:
  assumes "inv s" and "entry s k = Some r" and "lease r = Some (w, e)"
    and "\<forall>c\<in>set cs. actor c \<noteq> Some w \<and> (\<forall>t. clock c = Some t \<longrightarrow> t < e)"
  shows "entry (fold step cs s) k = Some r"
  using assms
proof (induction cs arbitrary: s)
  case Nil
  then show ?case by simp
next
  case (Cons c cs)
  then have "entry (step c s) k = Some r" by (intro lease_respected) auto
  with Cons show ?case by (auto simp: step_inv)
qed

end

end
