(* ===== verification/Python_Json.thy ===== *)
theory Python_Json
  imports Prelude
begin

text \<open>
  The JSON-shaped Python values the stores and event logs carry, with the dictionary operations the
  code uses. Integers are unbounded and floats are a real number or one of the three special values;
  rounding is not modelled. A dictionary is its list of items in insertion order. Serialising a value
  with \<open>json.dumps\<close> and reading it back with \<open>json.loads\<close> is the identity on this type.
\<close>

datatype pyfloat = Fin real | PosInf | NegInf | NaN

datatype json =
    JNull
  | JBool bool
  | JInt int
  | JFloat pyfloat
  | JStr string
  | JList "json list"
  | JObj "(string \<times> json) list"

type_synonym dict = "(string \<times> json) list"

primrec truthy :: "json \<Rightarrow> bool" where
  "truthy JNull = False"
| "truthy (JBool b) = b"
| "truthy (JInt i) = (i \<noteq> 0)"
| "truthy (JFloat f) = (f \<noteq> Fin 0)"
| "truthy (JStr s) = (s \<noteq> [])"
| "truthy (JList xs) = (xs \<noteq> [])"
| "truthy (JObj d) = (d \<noteq> [])"

text \<open>\<open>isinstance\<close> of a dictionary and of a text.\<close>

fun is_object :: "json \<Rightarrow> bool" where
  "is_object (JObj d) = True"
| "is_object _ = False"

fun is_string_value :: "json \<Rightarrow> bool" where
  "is_string_value (JStr s) = True"
| "is_string_value _ = False"

lemma is_object_iff [simp]: "is_object v \<longleftrightarrow> (\<exists>d. v = JObj d)"
  by (cases v) simp_all

lemma is_string_value_iff [simp]: "is_string_value v \<longleftrightarrow> (\<exists>s. v = JStr s)"
  by (cases v) simp_all

text \<open>\<open>a or b\<close>, \<open>d.get(k)\<close>, \<open>d.get(k, v)\<close>, \<open>d[k] = v\<close>, and \<open>d.setdefault(k, v)\<close>.\<close>

definition json_or :: "json \<Rightarrow> json \<Rightarrow> json" where
  "json_or a b = (if truthy a then a else b)"

definition dict_get :: "dict \<Rightarrow> string \<Rightarrow> json" where
  "dict_get d k = (case map_of d k of None \<Rightarrow> JNull | Some v \<Rightarrow> v)"

definition get_default :: "dict \<Rightarrow> string \<Rightarrow> json \<Rightarrow> json" where
  "get_default d k v = (case map_of d k of None \<Rightarrow> v | Some x \<Rightarrow> x)"

definition dict_has :: "dict \<Rightarrow> string \<Rightarrow> bool" where
  "dict_has d k \<longleftrightarrow> map_of d k \<noteq> None"

primrec dict_set :: "string \<Rightarrow> json \<Rightarrow> dict \<Rightarrow> dict" where
  "dict_set k v [] = [(k, v)]"
| "dict_set k v (e # d) = (if fst e = k then (k, v) # d else e # dict_set k v d)"

definition dict_setdefault :: "string \<Rightarrow> json \<Rightarrow> dict \<Rightarrow> dict" where
  "dict_setdefault k v d = (if dict_has d k then d else dict_set k v d)"

definition dict_del :: "string \<Rightarrow> dict \<Rightarrow> dict" where
  "dict_del k d = filter (\<lambda>e. fst e \<noteq> k) d"

definition dict_of :: "json \<Rightarrow> dict" where
  "dict_of v = (case v of JObj d \<Rightarrow> d | _ \<Rightarrow> [])"

definition json_text :: "string option \<Rightarrow> json" where
  "json_text x = (case x of None \<Rightarrow> JNull | Some s \<Rightarrow> JStr s)"

section \<open>Laws of dictionaries\<close>

lemma map_of_dict_set: "map_of (dict_set k v d) = (map_of d)(k \<mapsto> v)"
  by (induction d) (auto simp: fun_eq_iff)

lemma dict_get_set [simp]: "dict_get (dict_set k v d) k' = (if k' = k then v else dict_get d k')"
  by (simp add: dict_get_def map_of_dict_set)

lemma map_of_dict_del: "map_of (dict_del k d) k' = (if k' = k then None else map_of d k')"
  by (induction d) (auto simp: dict_del_def)

lemma dict_get_del [simp]: "dict_get (dict_del k d) k' = (if k' = k then JNull else dict_get d k')"
  by (simp add: dict_get_def map_of_dict_del)

lemma dict_get_append:
  "dict_get (d @ e) k = (case map_of d k of None \<Rightarrow> dict_get e k | Some v \<Rightarrow> v)"
  by (simp add: dict_get_def map_add_def map_of_append split: option.splits)

lemma dict_get_setdefault_same:
  "dict_get (dict_setdefault k v d) k = (if dict_has d k then dict_get d k else v)"
  by (simp add: dict_setdefault_def)

lemma dict_get_setdefault_other: "k' \<noteq> k \<Longrightarrow> dict_get (dict_setdefault k v d) k' = dict_get d k'"
  by (simp add: dict_setdefault_def)

lemma dict_get_Cons: "dict_get ((k, v) # d) k' = (if k' = k then v else dict_get d k')"
  by (simp add: dict_get_def)

lemma dict_get_Nil [simp]: "dict_get [] k = JNull"
  by (simp add: dict_get_def)

lemma dict_get_tabulate: "dict_get (map (\<lambda>k. (k, f k)) ks) k' = (if k' \<in> set ks then f k' else JNull)"
  by (induction ks) (auto simp: dict_get_Cons)

end
