(* ===== verification/Turn_Payload.thy ===== *)
theory Turn_Payload
  imports Python_Json
begin

text \<open>
  The documents a committed turn is stored as (\<open>modules/agent/turn_store.py\<close>, module functions and
  the payload of \<open>persist\<close>): the request context and result a commit carries, the recovery
  descriptor with its process-epoch fence, and the bounded intent snapshot.
\<close>

section \<open>Recovery descriptors\<close>

text \<open>
  \<open>epoch\<close> is \<open>_PROCESS_RECOVERY_EPOCH\<close>, the random identity of the running process.
\<close>

definition persist_recovery_descriptor :: "string \<Rightarrow> json \<Rightarrow> json" where
  "persist_recovery_descriptor epoch value =
     (case value of
        JObj d \<Rightarrow>
          JObj (if dict_get d ''available'' = JBool True
                then dict_set ''_process_epoch'' (JStr epoch) d else d)
      | _ \<Rightarrow> JNull)"

definition stale_fields :: "string list" where
  "stale_fields = [''scope'', ''single_use'', ''failed_step_id'', ''durable_recovery_id'',
     ''recovery_schema'', ''durable_available'']"

definition load_recovery_descriptor :: "string \<Rightarrow> json \<Rightarrow> json" where
  "load_recovery_descriptor epoch value =
     (case value of
        JObj d \<Rightarrow>
          (let descriptor = dict_del ''_process_epoch'' d in
           if dict_get d ''available'' = JBool True \<and> dict_get d ''_process_epoch'' \<noteq> JStr epoch
           then
             (let stale = map (\<lambda>k. (k, dict_get descriptor k))
                            (filter (dict_has descriptor) stale_fields);
                  durable = truthy (dict_get stale ''durable_available'') \<and>
                            truthy (dict_get stale ''durable_recovery_id'')
              in JObj (stale @
                   [(''available'', JBool False),
                    (''action'', JStr (if durable then ''resume_read_step'' else ''inspect_failure'')),
                    (''retryable'', JBool durable),
                    (''confirmation_required'', JBool (\<not> durable)),
                    (''reason'', JStr ''process_state_missing'')]))
           else JObj descriptor)
      | _ \<Rightarrow> JNull)"

definition load_persisted_payload :: "string \<Rightarrow> json \<Rightarrow> dict" where
  "load_persisted_payload epoch value =
     (let payload = dict_of value
      in dict_set ''recovery'' (load_recovery_descriptor epoch (dict_get payload ''recovery'')) payload)"

section \<open>Intent snapshots\<close>

text \<open>
  \<open>float_of\<close> is Python's \<open>float(...)\<close> (\<open>None\<close> where it raises) and \<open>str_of\<close> is \<open>str(...)\<close>;
  both are only applied to values the caller supplied. A value that is not finite becomes \<open>0.0\<close>.
\<close>

definition finite_or_zero :: "pyfloat option \<Rightarrow> real" where
  "finite_or_zero x = (case x of Some (Fin r) \<Rightarrow> r | _ \<Rightarrow> 0)"

definition str_or :: "(json \<Rightarrow> string) \<Rightarrow> json \<Rightarrow> string \<Rightarrow> string" where
  "str_or str_of v fallback = (if truthy v then str_of v else fallback)"

definition intent_envelope_snapshot ::
  "(json \<Rightarrow> pyfloat option) \<Rightarrow> (json \<Rightarrow> string) \<Rightarrow> json \<Rightarrow> json" where
  "intent_envelope_snapshot float_of str_of value =
     (case value of
        JObj d \<Rightarrow>
          (let confidence = finite_or_zero (float_of (json_or (dict_get d ''confidence'') (JFloat (Fin 0))));
               expires_at = finite_or_zero (float_of (json_or (dict_get d ''expiresAt'') (JFloat (Fin 0))));
               evidence_ids = (case dict_get d ''evidenceIds'' of JList xs \<Rightarrow> xs | _ \<Rightarrow> [])
           in JObj
             [(''schemaVersion'', JStr ''yuizaki.intent-envelope.v1''),
              (''intentType'', JStr (take 32 (str_or str_of (dict_get d ''intentType'') ''unknown''))),
              (''normalizedGoal'', JStr (take 2000 (str_or str_of (dict_get d ''normalizedGoal'') ''''))),
              (''confidence'', JFloat (Fin (max 0 (min 1 confidence)))),
              (''evidenceIds'', JList (map (\<lambda>x. JStr (take 160 (str_of x))) (take 16 evidence_ids))),
              (''requiresConfirmation'', JBool (truthy (dict_get d ''requiresConfirmation''))),
              (''sensitivity'', JStr (take 16 (str_or str_of (dict_get d ''sensitivity'') ''normal''))),
              (''expiresAt'', JFloat (Fin expires_at))])
      | _ \<Rightarrow> JNull)"

section \<open>Contexts, results and commits\<close>

record agent_context =
  cx_workspace_id :: "string option"
  cx_session_id :: string
  cx_request_id :: "string option"
  cx_turn_id :: "string option"
  cx_generation_id :: "string option"
  cx_interruption_epoch :: int
  cx_messages :: json
  cx_model :: "string option"
  cx_autonomy_mode :: string
  cx_extra :: dict

record pipeline_result =
  pr_reply :: string
  pr_pet_control :: json
  pr_tool_calls :: json
  pr_action_envelope :: json
  pr_failure :: json
  pr_recovery :: json
  pr_outcome :: string
  pr_retryable :: bool
  pr_configured_budget :: dict
  pr_consumed_usage :: dict

record turn_commit =
  co_idempotency_key :: string
  co_semantic_fingerprint :: string
  co_trigger :: string
  co_context :: agent_context
  co_result :: pipeline_result
  co_claim_owner :: "string option"
  co_claim_fencing_token :: "int option"

text \<open>
  The payload \<open>persist\<close> writes, in the order of the source. The intent envelope enters as the value
  of \<open>_intent_envelope_snapshot\<close>, \<open>JNull\<close> for none.
\<close>

definition job_terminal :: "dict \<Rightarrow> json" where
  "job_terminal payload = JObj
     ((''status'', dict_get payload ''outcome'') #
      map (\<lambda>k. (k, dict_get payload k))
        [''job_id'', ''run_id'', ''task_id'', ''task_name'', ''task_mode'', ''owner_agent_id'',
         ''owner_agent_role'', ''route_reason''])"

definition base_payload :: "string \<Rightarrow> time \<Rightarrow> turn_commit \<Rightarrow> dict" where
  "base_payload epoch committed_at c =
     (let cx = co_context c; r = co_result c; extra = cx_extra cx in
      [(''schema_version'', JInt 1),
       (''idempotency_key'', JStr (co_idempotency_key c)),
       (''semantic_fingerprint'', JStr (co_semantic_fingerprint c)),
       (''trigger'', JStr (co_trigger c)),
       (''workspace_id'', json_text (cx_workspace_id cx)),
       (''session_id'', JStr (cx_session_id cx)),
       (''request_id'', json_text (cx_request_id cx)),
       (''turn_id'', json_or (json_text (cx_turn_id cx)) (dict_get extra ''turn_id'')),
       (''generation_id'',
          json_or (json_text (cx_generation_id cx)) (dict_get extra ''generation_id'')),
       (''interruption_epoch'', JInt (cx_interruption_epoch cx)),
       (''job_id'', dict_get extra ''job_id''),
       (''run_id'', dict_get extra ''run_id''),
       (''task_id'', dict_get extra ''task_id''),
       (''task_name'', dict_get extra ''task_name''),
       (''task_mode'', dict_get extra ''task_mode''),
       (''recovery_id'', dict_get extra ''recovery_id''),
       (''recovery_attempt'', dict_get extra ''recovery_attempt''),
       (''recovery_source'', dict_get extra ''recovery_source''),
       (''owner_agent_id'', dict_get extra ''owner_agent_id''),
       (''owner_agent_role'', dict_get extra ''owner_agent_role''),
       (''route_reason'', dict_get extra ''route_reason''),
       (''source'', dict_get extra ''source''),
       (''source_id'', dict_get extra ''source_id''),
       (''source_kind'', dict_get extra ''source_kind''),
       (''stream_draft'', JBool (truthy (dict_get extra ''stream_draft''))),
       (''autonomy_mode'', JStr (cx_autonomy_mode cx)),
       (''model'', json_text (cx_model cx)),
       (''messages'', cx_messages cx),
       (''reply'', JStr (pr_reply r)),
       (''pet_control'', pr_pet_control r),
       (''tool_calls'', pr_tool_calls r),
       (''action_envelope'', pr_action_envelope r),
       (''failure'', pr_failure r),
       (''recovery'', persist_recovery_descriptor epoch (pr_recovery r)),
       (''outcome'', JStr (pr_outcome r)),
       (''retryable'', JBool (pr_retryable r)),
       (''configured_budget'', JObj (pr_configured_budget r)),
       (''consumed_usage'', JObj (pr_consumed_usage r)),
       (''committed_at'', JFloat (Fin committed_at))])"

definition persist_payload :: "string \<Rightarrow> json \<Rightarrow> time \<Rightarrow> turn_commit \<Rightarrow> dict" where
  "persist_payload epoch intent committed_at c =
     (let payload = base_payload epoch committed_at c;
          payload = (if intent = JNull then payload else dict_set ''intent_envelope'' intent payload)
      in if truthy (dict_get payload ''job_id'') \<or> truthy (dict_get payload ''run_id'')
         then dict_set ''job_terminal'' (job_terminal payload) payload
         else payload)"

section \<open>What the documents keep\<close>

lemma dict_get_append_absent: "dict_get d k = JNull \<Longrightarrow> dict_get e k = JNull \<Longrightarrow> dict_get (d @ e) k = JNull"
  by (auto simp: dict_get_append dict_get_def split: option.splits)

text \<open>The process epoch never leaves the store, whatever the descriptor was.\<close>

lemma load_recovery_no_epoch:
  "dict_get (dict_of (load_recovery_descriptor epoch v)) ''_process_epoch'' = JNull"
proof (cases v)
  case (JObj d)
  have stale: "''_process_epoch'' \<notin> set (filter (dict_has (dict_del ''_process_epoch'' d)) stale_fields)"
    by (simp add: stale_fields_def)
  show ?thesis
    unfolding load_recovery_descriptor_def JObj Let_def
    by (simp only: json.case if_distrib [of dict_of])
      (auto simp: dict_of_def dict_get_Cons dict_get_tabulate stale intro!: dict_get_append_absent)
qed (simp_all add: load_recovery_descriptor_def dict_of_def)

text \<open>A descriptor of this process round-trips.\<close>

lemma dict_del_set: "dict_del k (dict_set k v d) = dict_del k d"
  by (induction d) (auto simp: dict_del_def)

lemma load_persist_recovery:
  assumes "\<not> dict_has d ''_process_epoch''"
  shows "load_recovery_descriptor epoch (persist_recovery_descriptor epoch (JObj d)) = JObj d"
proof -
  have "dict_del ''_process_epoch'' d = d"
    using assms by (force simp: dict_del_def dict_has_def map_of_eq_None_iff intro!: filter_True)
  then show ?thesis
    by (simp add: load_recovery_descriptor_def persist_recovery_descriptor_def dict_del_set)
qed

lemma dict_get_persist_payload:
  "k \<noteq> ''intent_envelope'' \<Longrightarrow> k \<noteq> ''job_terminal'' \<Longrightarrow>
     dict_get (persist_payload epoch intent t c) k = dict_get (base_payload epoch t c) k"
  unfolding persist_payload_def Let_def by (simp del: truthy.simps)

lemma base_payload_result:
  "dict_get (base_payload epoch t c) ''reply'' = JStr (pr_reply (co_result c))"
  "dict_get (base_payload epoch t c) ''outcome'' = JStr (pr_outcome (co_result c))"
  "dict_get (base_payload epoch t c) ''recovery'' =
     persist_recovery_descriptor epoch (pr_recovery (co_result c))"
  unfolding base_payload_def Let_def by (simp_all add: dict_get_Cons)

end
