(* ===== verification/Turn_Tables.thy ===== *)
theory Turn_Tables
  imports Turn_Payload
begin

text \<open>
  The five tables of \<open>TurnCommitStore\<close> (\<open>modules/agent/turn_store.py\<close>, the schema of \<open>__init__\<close>)
  and the store that holds them. \<open>outbox_seq\<close> is SQLite's \<open>AUTOINCREMENT\<close> counter of
  \<open>turn_outbox\<close>; an insert that the \<open>UNIQUE\<close> constraint ignores still uses a number up.
\<close>

record commit_row =
  cm_idempotency_key :: string
  cm_semantic_fingerprint :: string
  cm_trigger :: string
  cm_workspace_id :: "string option"
  cm_session_id :: string
  cm_request_id :: "string option"
  cm_result :: dict
  cm_created_at :: time

record claim_row =
  tc_idempotency_key :: string
  tc_semantic_fingerprint :: string
  tc_owner_id :: string
  tc_fencing_token :: int
  tc_lease_expires_at :: time
  tc_updated_at :: time

record outbox_row =
  ob_event_id :: int
  ob_idempotency_key :: string
  ob_event_type :: string
  ob_payload :: dict
  ob_available_at :: time
  ob_attempt_count :: int
  ob_claimed_by :: "string option"
  ob_claim_expires_at :: "time option"
  ob_last_error :: "string option"
  ob_dead_lettered_at :: "time option"
  ob_delivered_at :: "time option"

record ack_row =
  ak_event_id :: int
  ak_projection_name :: string
  ak_delivered_at :: time

datatype delivery_status = Processing | Sending | Failed | Delivered

record delivery_row =
  cd_delivery_key :: string
  cd_idempotency_key :: string
  cd_connector_id :: string
  cd_event_id :: string
  cd_status :: delivery_status
  cd_attempt_count :: int
  cd_claimed_by :: "string option"
  cd_claim_expires_at :: "time option"
  cd_last_error :: "string option"
  cd_updated_at :: time
  cd_delivered_at :: "time option"
  cd_message :: "dict option"
  cd_reply_text :: "string option"

record turn_store =
  turn_commits :: "commit_row table"
  turn_claims :: "claim_row table"
  turn_outbox :: "outbox_row table"
  projection_acks :: "ack_row table"
  connector_deliveries :: "delivery_row table"
  outbox_seq :: int

definition empty_store :: turn_store where
  "empty_store = \<lparr>turn_commits = [], turn_claims = [], turn_outbox = [], projection_acks = [],
     connector_deliveries = [], outbox_seq = 0\<rparr>"

abbreviation commit_of :: "turn_store \<Rightarrow> string \<Rightarrow> commit_row option" where
  "commit_of s key \<equiv> row_of cm_idempotency_key key (turn_commits s)"

abbreviation claim_of :: "turn_store \<Rightarrow> string \<Rightarrow> claim_row option" where
  "claim_of s key \<equiv> row_of tc_idempotency_key key (turn_claims s)"

abbreviation event_of :: "turn_store \<Rightarrow> int \<Rightarrow> outbox_row option" where
  "event_of s e \<equiv> row_of ob_event_id e (turn_outbox s)"

abbreviation event_for :: "turn_store \<Rightarrow> string \<Rightarrow> outbox_row option" where
  "event_for s key \<equiv> row_of ob_idempotency_key key (turn_outbox s)"

abbreviation delivery_of :: "turn_store \<Rightarrow> string \<Rightarrow> delivery_row option" where
  "delivery_of s key \<equiv> row_of cd_delivery_key key (connector_deliveries s)"

text \<open>A lease is \<open>max(0.1, float(lease_seconds))\<close> long.\<close>

definition lease_end :: "time \<Rightarrow> real \<Rightarrow> time" where
  "lease_end now lease = now + max (1/10) lease"

lemma lease_end_later: "now < lease_end now lease"
  by (auto simp: lease_end_def max_def)

end
