(* ===== verification/Turn_Claims.thy ===== *)
theory Turn_Claims
  imports Turn_Tables "HOL-Library.List_Lexorder" "HOL-Library.Char_ord"
    "HOL-Library.Product_Lexorder"
begin

text \<open>
  The claim and commit operations of \<open>TurnCommitStore\<close>: \<open>claim\<close>, \<open>renew_claim\<close>,
  \<open>release_claim\<close>, \<open>persist\<close>, \<open>load\<close> and \<open>list_commits\<close>. Each runs in one immediate
  transaction and reads the wall clock once, its first argument here. The barrier callbacks only
  report a phase and are left out.
\<close>

section \<open>Operations\<close>

datatype claim_outcome =
    ClaimCommitted
  | ClaimConflict
  | Claimed int time
  | ClaimBusy real

definition claim ::
  "time \<Rightarrow> string \<Rightarrow> string \<Rightarrow> string \<Rightarrow> real \<Rightarrow> turn_store \<Rightarrow> claim_outcome \<times> turn_store" where
  "claim now key fingerprint owner lease s =
     (case commit_of s key of
        Some c \<Rightarrow>
          (if cm_semantic_fingerprint c = fingerprint then ClaimCommitted else ClaimConflict, s)
      | None \<Rightarrow>
          (let current = claim_of s key in
           if \<exists>r\<in>set_option current. tc_semantic_fingerprint r \<noteq> fingerprint
           then (ClaimConflict, s)
           else if (case current of None \<Rightarrow> True
                    | Some r \<Rightarrow> tc_owner_id r = owner \<or> tc_lease_expires_at r \<le> now)
           then
             (let token = (case current of None \<Rightarrow> 1
                           | Some r \<Rightarrow> tc_fencing_token r +
                               (if tc_owner_id r \<noteq> owner \<or> tc_lease_expires_at r \<le> now then 1 else 0));
                  row = \<lparr>tc_idempotency_key = key, tc_semantic_fingerprint = fingerprint,
                         tc_owner_id = owner, tc_fencing_token = token,
                         tc_lease_expires_at = lease_end now lease, tc_updated_at = now\<rparr>
              in (Claimed token (lease_end now lease),
                  s\<lparr>turn_claims := upsert tc_idempotency_key
                      (\<lambda>r. r\<lparr>tc_semantic_fingerprint := fingerprint, tc_owner_id := owner,
                             tc_fencing_token := token, tc_lease_expires_at := lease_end now lease,
                             tc_updated_at := now\<rparr>)
                      row (turn_claims s)\<rparr>))
           else
             (ClaimBusy (case current of None \<Rightarrow> 0
                         | Some r \<Rightarrow> max (1/100) (tc_lease_expires_at r - now)), s)))"

definition renew_claim ::
  "time \<Rightarrow> string \<Rightarrow> string \<Rightarrow> int \<Rightarrow> real \<Rightarrow> turn_store \<Rightarrow> bool \<times> turn_store" where
  "renew_claim now key owner token lease s =
     (let match = (\<lambda>r. tc_idempotency_key r = key \<and> tc_owner_id r = owner \<and>
                       tc_fencing_token r = token \<and> tc_lease_expires_at r > now)
      in (rowcount match (turn_claims s) = 1,
          s\<lparr>turn_claims := update_where match
              (\<lambda>r. r\<lparr>tc_lease_expires_at := lease_end now lease, tc_updated_at := now\<rparr>)
              (turn_claims s)\<rparr>))"

definition release_claim :: "string \<Rightarrow> string \<Rightarrow> int \<Rightarrow> turn_store \<Rightarrow> bool \<times> turn_store" where
  "release_claim key owner token s =
     (let match = (\<lambda>r. tc_idempotency_key r = key \<and> tc_owner_id r = owner \<and>
                       tc_fencing_token r = token)
      in (rowcount match (turn_claims s) = 1,
          s\<lparr>turn_claims := delete_where match (turn_claims s)\<rparr>))"

datatype persist_error = FingerprintConflict | TurnClaimLost

definition claim_owner_of :: "turn_commit \<Rightarrow> string" where
  "claim_owner_of c = py_strip (text_or_empty (co_claim_owner c))"

definition claim_token_of :: "turn_commit \<Rightarrow> int" where
  "claim_token_of c = (case co_claim_fencing_token c of None \<Rightarrow> 0 | Some t \<Rightarrow> t)"

definition claim_is_current :: "time \<Rightarrow> turn_commit \<Rightarrow> turn_store \<Rightarrow> bool" where
  "claim_is_current now c s =
     (case claim_of s (co_idempotency_key c) of
        None \<Rightarrow> False
      | Some r \<Rightarrow> tc_owner_id r = claim_owner_of c \<and> tc_fencing_token r = claim_token_of c \<and>
                  \<not> tc_lease_expires_at r \<le> now)"

definition commit_row_of :: "time \<Rightarrow> dict \<Rightarrow> turn_commit \<Rightarrow> commit_row" where
  "commit_row_of now payload c =
     \<lparr>cm_idempotency_key = co_idempotency_key c,
      cm_semantic_fingerprint = co_semantic_fingerprint c, cm_trigger = co_trigger c,
      cm_workspace_id = cx_workspace_id (co_context c), cm_session_id = cx_session_id (co_context c),
      cm_request_id = cx_request_id (co_context c), cm_result = payload, cm_created_at = now\<rparr>"

definition outbox_row_of :: "time \<Rightarrow> dict \<Rightarrow> int \<Rightarrow> turn_commit \<Rightarrow> outbox_row" where
  "outbox_row_of now payload event_id c =
     \<lparr>ob_event_id = event_id, ob_idempotency_key = co_idempotency_key c,
      ob_event_type = ''turn.committed'', ob_payload = payload, ob_available_at = now,
      ob_attempt_count = 0, ob_claimed_by = None, ob_claim_expires_at = None, ob_last_error = None,
      ob_dead_lettered_at = None, ob_delivered_at = None\<rparr>"

definition persist ::
  "string \<Rightarrow> json \<Rightarrow> time \<Rightarrow> turn_commit \<Rightarrow> turn_store \<Rightarrow> persist_error + turn_store" where
  "persist epoch intent committed_at c s =
     (let key = co_idempotency_key c;
          payload = persist_payload epoch intent committed_at c
      in if \<exists>r\<in>set_option (commit_of s key). cm_semantic_fingerprint r \<noteq> co_semantic_fingerprint c
         then Inl FingerprintConflict
         else if claim_owner_of c \<noteq> [] \<and> \<not> claim_is_current committed_at c s
         then Inl TurnClaimLost
         else
           (let match = (\<lambda>r. tc_idempotency_key r = key \<and> tc_owner_id r = claim_owner_of c \<and>
                             tc_fencing_token r = claim_token_of c)
            in Inr (s\<lparr>turn_commits := insert_or_ignore cm_idempotency_key
                        (commit_row_of committed_at payload c) (turn_commits s),
                      turn_outbox := insert_or_ignore ob_idempotency_key
                        (outbox_row_of committed_at payload (outbox_seq s + 1) c) (turn_outbox s),
                      outbox_seq := outbox_seq s + 1,
                      turn_claims := (if claim_owner_of c \<noteq> [] then delete_where match (turn_claims s)
                                      else turn_claims s)\<rparr>)))"

record loaded_commit =
  ld_idempotency_key :: string
  ld_semantic_fingerprint :: string
  ld_trigger :: string
  ld_result :: dict
  ld_created_at :: time

definition load_result :: "string \<Rightarrow> dict \<Rightarrow> dict" where
  "load_result epoch result =
     (let result = dict_setdefault ''outcome'' (JStr ''completed'') result;
          result = dict_setdefault ''retryable'' (JBool False) result;
          result = dict_set ''recovery''
                     (load_recovery_descriptor epoch (dict_get result ''recovery'')) result;
          result = dict_set ''configured_budget''
                     (json_or (dict_get result ''configured_budget'') (JObj [])) result
      in dict_set ''consumed_usage'' (json_or (dict_get result ''consumed_usage'') (JObj [])) result)"

definition load :: "string \<Rightarrow> string option \<Rightarrow> turn_store \<Rightarrow> loaded_commit option" where
  "load epoch idempotency_key s =
     (let key = py_strip (text_or_empty idempotency_key) in
      if key = [] then None
      else case commit_of s key of
          None \<Rightarrow> None
        | Some row \<Rightarrow>
            Some \<lparr>ld_idempotency_key = cm_idempotency_key row,
                  ld_semantic_fingerprint = cm_semantic_fingerprint row, ld_trigger = cm_trigger row,
                  ld_result = load_result epoch (cm_result row), ld_created_at = cm_created_at row\<rparr>)"

text \<open>
  \<open>list_commits\<close> joins the commits of a workspace with their outbox rows, ordered by creation time
  and key; the limit is clamped to \<open>1..10000\<close>.
\<close>

record replay_event =
  rp_event_id :: int
  rp_event_type :: string
  rp_idempotency_key :: string
  rp_payload :: dict
  rp_created_at :: time

datatype workspace_error = WorkspaceRequired

definition list_commits ::
  "string \<Rightarrow> string option \<Rightarrow> int \<Rightarrow> turn_store \<Rightarrow> workspace_error + replay_event list" where
  "list_commits epoch workspace_id limit s =
     (let workspace = py_strip (text_or_empty workspace_id) in
      if workspace = [] then Inl WorkspaceRequired
      else
        (let joined = concat (map (\<lambda>c. map (\<lambda>e. (c, e))
               (filter (\<lambda>e. ob_idempotency_key e = cm_idempotency_key c) (turn_outbox s)))
               (filter (\<lambda>c. cm_workspace_id c = Some workspace) (turn_commits s)));
             rows = take (nat (max 1 (min 10000 limit)))
               (sort_key (\<lambda>(c, e). (cm_created_at c, cm_idempotency_key c)) joined)
         in Inr (map (\<lambda>(c, e).
              \<lparr>rp_event_id = ob_event_id e, rp_event_type = ob_event_type e,
               rp_idempotency_key = cm_idempotency_key c,
               rp_payload = load_persisted_payload epoch (JObj (cm_result c)),
               rp_created_at = cm_created_at c\<rparr>) rows)))"

end
