(* ===== verification/Claim_Runs.thy ===== *)
theory Claim_Runs
  imports Turn_Claims
begin

text \<open>
  Runs of the claim and commit operations by any number of executors with any clocks: commits are
  written once and never change, a claim is respected until its lease ends, fencing tokens only grow
  while a claim row lives, and a commit is accepted only from the holder of the current claim.
\<close>

datatype claim_cmd =
    CClaim time string string string real
  | CRenew time string string int real
  | CRelease string string int
  | CPersist string json time turn_commit

definition keep_on_failure :: "turn_store \<Rightarrow> persist_error + turn_store \<Rightarrow> turn_store" where
  "keep_on_failure s r = (case r of Inl _ \<Rightarrow> s | Inr t \<Rightarrow> t)"

fun exec_claim :: "claim_cmd \<Rightarrow> turn_store \<Rightarrow> turn_store" where
  "exec_claim (CClaim t k fp w l) s = snd (claim t k fp w l s)"
| "exec_claim (CRenew t k w n l) s = snd (renew_claim t k w n l s)"
| "exec_claim (CRelease k w n) s = snd (release_claim k w n s)"
| "exec_claim (CPersist e i t c) s = keep_on_failure s (persist e i t c s)"

fun claim_actor :: "claim_cmd \<Rightarrow> string option" where
  "claim_actor (CClaim t k fp w l) = Some w"
| "claim_actor (CRenew t k w n l) = Some w"
| "claim_actor (CRelease k w n) = Some w"
| "claim_actor (CPersist e i t c) = (if claim_owner_of c = [] then None else Some (claim_owner_of c))"

fun claim_clock :: "claim_cmd \<Rightarrow> time option" where
  "claim_clock (CClaim t k fp w l) = Some t"
| "claim_clock (CRenew t k w n l) = Some t"
| "claim_clock (CRelease k w n) = None"
| "claim_clock (CPersist e i t c) = Some t"

section \<open>Effects on the tables\<close>

definition claim_inv :: "turn_store \<Rightarrow> bool" where
  "claim_inv s \<longleftrightarrow> unique_on cm_idempotency_key (turn_commits s) \<and>
     unique_on tc_idempotency_key (turn_claims s) \<and> (\<forall>r\<in>set (turn_claims s). 1 \<le> tc_fencing_token r)"

definition grant :: "time \<Rightarrow> string \<Rightarrow> string \<Rightarrow> string \<Rightarrow> real \<Rightarrow> claim_row option \<Rightarrow> claim_row option" where
  "grant t k fp w l x =
     (case x of
        None \<Rightarrow> Some \<lparr>tc_idempotency_key = k, tc_semantic_fingerprint = fp, tc_owner_id = w,
          tc_fencing_token = 1, tc_lease_expires_at = lease_end t l, tc_updated_at = t\<rparr>
      | Some r \<Rightarrow>
          if tc_semantic_fingerprint r \<noteq> fp \<or> (tc_owner_id r \<noteq> w \<and> \<not> tc_lease_expires_at r \<le> t)
          then Some r
          else Some (r\<lparr>tc_semantic_fingerprint := fp, tc_owner_id := w,
            tc_fencing_token := tc_fencing_token r +
              (if tc_owner_id r \<noteq> w \<or> tc_lease_expires_at r \<le> t then 1 else 0),
            tc_lease_expires_at := lease_end t l, tc_updated_at := t\<rparr>))"

lemma claim_of_claim:
  "claim_of (snd (claim t k fp w l s)) x =
     (if x = k \<and> commit_of s k = None then grant t k fp w l (claim_of s k) else claim_of s x)"
  using row_of_key [of tc_idempotency_key k "turn_claims s"]
  by (auto simp: claim_def Let_def row_of_upsert grant_def split: option.splits)

lemma claim_of_renew:
  "claim_of (snd (renew_claim t k w n l s)) x =
     map_option (\<lambda>r. if tc_idempotency_key r = k \<and> tc_owner_id r = w \<and> tc_fencing_token r = n \<and>
                        tc_lease_expires_at r > t
                     then r\<lparr>tc_lease_expires_at := lease_end t l, tc_updated_at := t\<rparr> else r) (claim_of s x)"
  by (simp add: renew_claim_def Let_def row_of_update)

lemma claim_of_release:
  "unique_on tc_idempotency_key (turn_claims s) \<Longrightarrow>
     claim_of (snd (release_claim k w n s)) x =
       (case claim_of s x of None \<Rightarrow> None
        | Some r \<Rightarrow> if tc_idempotency_key r = k \<and> tc_owner_id r = w \<and> tc_fencing_token r = n then None
                    else Some r)"
  by (simp add: release_claim_def Let_def row_of_delete)

text \<open>A successful \<open>persist\<close>: its guard held, and it consumed the claim it was made under.\<close>

lemma persist_InrD:
  assumes "persist e i t c s = Inr s'"
  shows "claim_owner_of c = [] \<or> claim_is_current t c s"
    and "\<And>r. commit_of s (co_idempotency_key c) = Some r \<Longrightarrow>
           cm_semantic_fingerprint r = co_semantic_fingerprint c"
    and "turn_commits s' = insert_or_ignore cm_idempotency_key
           (commit_row_of t (persist_payload e i t c) c) (turn_commits s)"
    and "turn_outbox s' = insert_or_ignore ob_idempotency_key
           (outbox_row_of t (persist_payload e i t c) (outbox_seq s + 1) c) (turn_outbox s)"
    and "outbox_seq s' = outbox_seq s + 1"
    and "turn_claims s' = (if claim_owner_of c = [] then turn_claims s
           else delete_where (\<lambda>r. tc_idempotency_key r = co_idempotency_key c \<and>
             tc_owner_id r = claim_owner_of c \<and> tc_fencing_token r = claim_token_of c) (turn_claims s))"
    and "projection_acks s' = projection_acks s"
    and "connector_deliveries s' = connector_deliveries s"
  using assms by (auto simp: persist_def Let_def split: if_splits)

lemma claim_of_persist:
  assumes "persist e i t c s = Inr s'" and "unique_on tc_idempotency_key (turn_claims s)"
  shows "claim_of s' x = (if x = co_idempotency_key c \<and> claim_owner_of c \<noteq> [] then None else claim_of s x)"
proof (cases "claim_owner_of c = []")
  case True
  then show ?thesis by (simp add: persist_InrD(6) [OF assms(1)])
next
  case False
  then have cur: "claim_is_current t c s" using persist_InrD(1) [OF assms(1)] by simp
  have "claim_of s' x = (case claim_of s x of None \<Rightarrow> None
      | Some r \<Rightarrow> if tc_idempotency_key r = co_idempotency_key c \<and> tc_owner_id r = claim_owner_of c \<and>
          tc_fencing_token r = claim_token_of c then None else Some r)"
    using False by (simp add: persist_InrD(6) [OF assms(1)] row_of_delete [OF assms(2)])
  with False cur show ?thesis
    by (auto simp: claim_is_current_def dest: row_of_key split: option.splits)
qed

lemma row_keys [simp]:
  "cm_idempotency_key (commit_row_of t p c) = co_idempotency_key c"
  "ob_idempotency_key (outbox_row_of t p n c) = co_idempotency_key c"
  by (simp_all add: commit_row_of_def outbox_row_of_def)

lemma commit_of_persist:
  assumes "persist e i t c s = Inr s'"
  shows "commit_of s' x = (case commit_of s x of
      None \<Rightarrow> if x = co_idempotency_key c then Some (commit_row_of t (persist_payload e i t c) c) else None
    | Some r \<Rightarrow> Some r)"
  by (auto simp: persist_InrD(3) [OF assms] row_of_insert_or_ignore split: option.splits)

lemma event_for_persist:
  assumes "persist e i t c s = Inr s'"
  shows "event_for s' x = (case event_for s x of
      None \<Rightarrow> if x = co_idempotency_key c
              then Some (outbox_row_of t (persist_payload e i t c) (outbox_seq s + 1) c) else None
    | Some r \<Rightarrow> Some r)"
  by (auto simp: persist_InrD(4) [OF assms] row_of_insert_or_ignore split: option.splits)

section \<open>The invariant and the order of commits\<close>

definition commits_kept :: "turn_store \<Rightarrow> turn_store \<Rightarrow> bool" where
  "commits_kept s t \<longleftrightarrow> (\<forall>k r. commit_of s k = Some r \<longrightarrow> commit_of t k = Some r)"

lemma claim_keeps:
  "turn_commits (snd (claim t k fp w l s)) = turn_commits s"
  "turn_commits (snd (renew_claim t k w n l s)) = turn_commits s"
  "turn_commits (snd (release_claim k w n s)) = turn_commits s"
  by (auto simp: claim_def renew_claim_def release_claim_def Let_def split: option.splits)

lemma claims_unique_step:
  "unique_on tc_idempotency_key (turn_claims s) \<Longrightarrow>
     unique_on tc_idempotency_key (turn_claims (exec_claim c s))"
  by (cases c)
    (auto simp: claim_def renew_claim_def release_claim_def keep_on_failure_def Let_def
      unique_on_upsert unique_on_update unique_on_delete persist_InrD(6) split: option.splits sum.splits)

lemma commits_unique_step:
  "unique_on cm_idempotency_key (turn_commits s) \<Longrightarrow>
     unique_on cm_idempotency_key (turn_commits (exec_claim c s))"
  by (cases c)
    (auto simp: claim_keeps keep_on_failure_def persist_InrD(3) unique_on_insert_or_ignore split: sum.splits)

lemma tokens_positive_step:
  assumes "claim_inv s" and "claim_of (exec_claim c s) k = Some r"
  shows "1 \<le> tc_fencing_token r"
proof -
  have old: "1 \<le> tc_fencing_token q" if "claim_of s x = Some q" for x q
    using assms(1) row_of_mem [OF that] by (auto simp: claim_inv_def)
  have uniq: "unique_on tc_idempotency_key (turn_claims s)"
    using assms(1) by (simp add: claim_inv_def)
  show ?thesis
  proof (cases c)
    case CClaim
    with assms(2) show ?thesis
      by (auto simp: claim_of_claim grant_def old split: if_splits option.splits dest!: old)
  next
    case CRenew
    with assms(2) show ?thesis by (auto simp: claim_of_renew old)
  next
    case CRelease
    with assms(2) show ?thesis by (auto simp: claim_of_release [OF uniq] split: option.splits if_splits dest: old)
  next
    case CPersist
    with assms(2) show ?thesis
      by (auto simp: keep_on_failure_def claim_of_persist [OF _ uniq] split: sum.splits if_splits dest: old)
  qed
qed

lemma claim_step_inv: "claim_inv s \<Longrightarrow> claim_inv (exec_claim c s)"
proof -
  assume inv: "claim_inv s"
  have u: "unique_on tc_idempotency_key (turn_claims (exec_claim c s))"
    using inv by (simp add: claim_inv_def claims_unique_step)
  have "1 \<le> tc_fencing_token r" if "r \<in> set (turn_claims (exec_claim c s))" for r
    using tokens_positive_step [OF inv unique_row_of [OF u that]] .
  with inv u show ?thesis by (simp add: claim_inv_def commits_unique_step)
qed

interpretation claims: ordered_machine exec_claim claim_inv commits_kept
proof unfold_locales
  show "commits_kept s t \<Longrightarrow> commits_kept t u \<Longrightarrow> commits_kept s u" for s t u
    by (auto simp: commits_kept_def)
  show "commits_kept s (exec_claim c s)" if "claim_inv s" for s c
    by (cases c)
      (auto simp: commits_kept_def claim_keeps keep_on_failure_def commit_of_persist split: sum.splits)
qed (auto simp: claim_step_inv commits_kept_def)

section \<open>Leases and fencing\<close>

definition claim_lease :: "claim_row \<Rightarrow> (string \<times> time) option" where
  "claim_lease r = Some (tc_owner_id r, tc_lease_expires_at r)"

interpretation claims: leased_rows exec_claim claim_inv
  "\<lambda>s k. claim_of s k" claim_lease claim_actor claim_clock
proof unfold_locales
  fix s k r w e c
  assume inv: "claim_inv s" and row: "claim_of s k = Some r" and lease: "claim_lease r = Some (w, e)"
    and actor: "claim_actor c \<noteq> Some w" and clock: "\<forall>t. claim_clock c = Some t \<longrightarrow> t < e"
  have uniq: "unique_on tc_idempotency_key (turn_claims s)" using inv by (simp add: claim_inv_def)
  have r: "tc_owner_id r = w" "tc_lease_expires_at r = e" using lease by (auto simp: claim_lease_def)
  show "claim_of (exec_claim c s) k = Some r"
  proof (cases c)
    case CClaim
    with row actor clock r show ?thesis by (auto simp: claim_of_claim grant_def)
  next
    case CRenew
    with row actor r show ?thesis by (auto simp: claim_of_renew)
  next
    case CRelease
    with row actor r show ?thesis by (auto simp: claim_of_release [OF uniq])
  next
    case (CPersist ep i t co)
    show ?thesis
    proof (cases "persist ep i t co s")
      case (Inr s')
      then have "claim_owner_of co = [] \<or> claim_is_current t co s" by (rule persist_InrD(1))
      with row actor r CPersist Inr show ?thesis
        by (auto simp: keep_on_failure_def claim_of_persist [OF Inr uniq] claim_is_current_def split: if_splits)
    qed (simp add: CPersist keep_on_failure_def row)
  qed
qed

text \<open>Tokens grow while the row lives, strictly so when the owner changes.\<close>

lemma token_step:
  assumes "claim_inv s" and "claim_of s k = Some r" and "claim_of (exec_claim c s) k = Some r'"
  shows "tc_fencing_token r \<le> tc_fencing_token r' \<and>
    (tc_owner_id r' \<noteq> tc_owner_id r \<longrightarrow> tc_fencing_token r < tc_fencing_token r')"
proof -
  have uniq: "unique_on tc_idempotency_key (turn_claims s)" using assms(1) by (simp add: claim_inv_def)
  show ?thesis
  proof (cases c)
    case CClaim
    with assms(2,3) show ?thesis by (auto simp: claim_of_claim grant_def split: if_splits)
  next
    case CRenew
    with assms(2,3) show ?thesis by (auto simp: claim_of_renew split: if_splits)
  next
    case CRelease
    with assms(2,3) show ?thesis by (auto simp: claim_of_release [OF uniq] split: if_splits)
  next
    case CPersist
    with assms(2,3) show ?thesis
      by (auto simp: keep_on_failure_def claim_of_persist [OF _ uniq] split: sum.splits if_splits)
  qed
qed

text \<open>A commit by anybody but the holder of a live claim is refused.\<close>

lemma persist_refused:
  assumes "claim_of s (co_idempotency_key c) = Some r" and "tc_owner_id r \<noteq> claim_owner_of c"
    and "claim_owner_of c \<noteq> []"
  shows "\<exists>err. persist e i t c s = Inl err"
  using assms by (auto simp: persist_def claim_is_current_def Let_def)

lemma claimed_row:
  assumes "claim t k fp w l s = (Claimed n x, s')"
  shows "x = lease_end t l" and "\<exists>r. claim_of s' k = Some r \<and> tc_owner_id r = w \<and>
    tc_fencing_token r = n \<and> tc_lease_expires_at r = lease_end t l \<and> tc_semantic_fingerprint r = fp"
proof -
  have n: "commit_of s k = None" and x: "x = lease_end t l"
    using assms by (auto simp: claim_def Let_def split: option.splits if_splits)
  show "x = lease_end t l" by (rule x)
  show "\<exists>r. claim_of s' k = Some r \<and> tc_owner_id r = w \<and> tc_fencing_token r = n \<and>
      tc_lease_expires_at r = lease_end t l \<and> tc_semantic_fingerprint r = fp"
    using assms n claim_of_claim [where t = t and k = k and fp = fp and w = w and l = l and s = s and x = k]
    by (auto simp: claim_def Let_def grant_def split: option.splits if_splits)
qed

end
