(* ===== verification/Outbox_Store.thy ===== *)
theory Outbox_Store
  imports Turn_Tables
begin

text \<open>
  The outbox operations of \<open>TurnCommitStore\<close>: claiming the head of the queue, renewing and failing
  a claim, the terminal and the per-projection acknowledgements, and the reads. An event is pending
  while it is neither delivered nor dead-lettered.
\<close>

section \<open>Operations\<close>

definition pending :: "outbox_row \<Rightarrow> bool" where
  "pending r \<longleftrightarrow> ob_delivered_at r = None \<and> ob_dead_lettered_at r = None"

definition pending_rows :: "turn_store \<Rightarrow> outbox_row list" where
  "pending_rows s = sort_key ob_event_id (filter pending (turn_outbox s))"

definition pending_outbox :: "int \<Rightarrow> turn_store \<Rightarrow> outbox_row list" where
  "pending_outbox limit s = take (nat (max 1 limit)) (pending_rows s)"

definition pending_head :: "turn_store \<Rightarrow> outbox_row option" where
  "pending_head s = (case pending_rows s of [] \<Rightarrow> None | r # _ \<Rightarrow> Some r)"

record outbox_event =
  ev_event_id :: int
  ev_idempotency_key :: string
  ev_event_type :: string
  ev_payload :: dict
  ev_attempt_count :: int
  ev_claim_expires_at :: time

datatype outbox_claim =
    OutboxEmpty
  | OutboxWaiting real
  | OutboxBusy real
  | OutboxClaimed outbox_event

definition or_zero :: "time option \<Rightarrow> time" where
  "or_zero t = (case t of None \<Rightarrow> 0 | Some v \<Rightarrow> v)"

definition claim_next_outbox ::
  "string \<Rightarrow> time \<Rightarrow> string \<Rightarrow> real \<Rightarrow> turn_store \<Rightarrow> outbox_claim \<times> turn_store" where
  "claim_next_outbox epoch now owner lease s =
     (case pending_head s of
        None \<Rightarrow> (OutboxEmpty, s)
      | Some row \<Rightarrow>
          (if ob_available_at row > now then (OutboxWaiting (ob_available_at row - now), s)
           else if text_or_empty (ob_claimed_by row) \<noteq> [] \<and> or_zero (ob_claim_expires_at row) > now
           then (OutboxBusy (or_zero (ob_claim_expires_at row) - now), s)
           else
             (let match = (\<lambda>r. ob_event_id r = ob_event_id row \<and> ob_delivered_at r = None \<and>
                               ob_dead_lettered_at r = None \<and>
                               (ob_claimed_by r = None \<or> sql_le (ob_claim_expires_at r) now))
              in if rowcount match (turn_outbox s) \<noteq> 1 then (OutboxBusy (1/20), s)
                 else
                   (OutboxClaimed
                      \<lparr>ev_event_id = ob_event_id row, ev_idempotency_key = ob_idempotency_key row,
                       ev_event_type = ob_event_type row,
                       ev_payload = load_persisted_payload epoch (JObj (ob_payload row)),
                       ev_attempt_count = ob_attempt_count row,
                       ev_claim_expires_at = lease_end now lease\<rparr>,
                    s\<lparr>turn_outbox := update_where match
                        (\<lambda>r. r\<lparr>ob_claimed_by := Some owner,
                               ob_claim_expires_at := Some (lease_end now lease)\<rparr>)
                        (turn_outbox s)\<rparr>))))"

record fail_result =
  fr_updated :: bool
  fr_dead_lettered :: bool

definition fail_outbox ::
  "time \<Rightarrow> int \<Rightarrow> string \<Rightarrow> string \<Rightarrow> real \<Rightarrow> int \<Rightarrow> turn_store \<Rightarrow> fail_result \<times> turn_store" where
  "fail_outbox now event_id owner error retry_delay max_attempts s =
     (case select_one (\<lambda>r. ob_event_id r = event_id \<and> ob_claimed_by r = Some owner \<and>
                           ob_delivered_at r = None \<and> ob_dead_lettered_at r = None)
             (turn_outbox s) of
        None \<Rightarrow> (\<lparr>fr_updated = False, fr_dead_lettered = False\<rparr>, s)
      | Some row \<Rightarrow>
          (let attempts = ob_attempt_count row + 1;
               dead = (attempts \<ge> max 1 max_attempts)
           in (\<lparr>fr_updated = True, fr_dead_lettered = dead\<rparr>,
               s\<lparr>turn_outbox := update_where
                   (\<lambda>r. ob_event_id r = event_id \<and> ob_claimed_by r = Some owner)
                   (\<lambda>r. r\<lparr>ob_attempt_count := attempts, ob_last_error := Some (take 2000 error),
                          ob_available_at := now + max 0 retry_delay, ob_claimed_by := None,
                          ob_claim_expires_at := None,
                          ob_dead_lettered_at := (if dead then Some now else None)\<rparr>)
                   (turn_outbox s)\<rparr>)))"

definition renew_outbox_claim ::
  "time \<Rightarrow> int \<Rightarrow> string \<Rightarrow> real \<Rightarrow> turn_store \<Rightarrow> bool \<times> turn_store" where
  "renew_outbox_claim now event_id owner lease s =
     (let match = (\<lambda>r. ob_event_id r = event_id \<and> ob_claimed_by r = Some owner \<and>
                       sql_gt (ob_claim_expires_at r) now \<and> ob_delivered_at r = None \<and>
                       ob_dead_lettered_at r = None)
      in (rowcount match (turn_outbox s) = 1,
          s\<lparr>turn_outbox := update_where match
              (\<lambda>r. r\<lparr>ob_claim_expires_at := Some (lease_end now lease)\<rparr>) (turn_outbox s)\<rparr>))"

definition acknowledge :: "time \<Rightarrow> int \<Rightarrow> string option \<Rightarrow> turn_store \<Rightarrow> bool \<times> turn_store" where
  "acknowledge now event_id owner s =
     (case owner of
        None \<Rightarrow>
          (let match = (\<lambda>r. ob_event_id r = event_id)
           in (rowcount match (turn_outbox s) = 1,
               s\<lparr>turn_outbox := update_where match (\<lambda>r. r\<lparr>ob_delivered_at := Some now\<rparr>)
                   (turn_outbox s)\<rparr>))
      | Some w \<Rightarrow>
          (let match = (\<lambda>r. ob_event_id r = event_id \<and> ob_claimed_by r = Some w \<and>
                            sql_gt (ob_claim_expires_at r) now)
           in (rowcount match (turn_outbox s) = 1,
               s\<lparr>turn_outbox := update_where match
                   (\<lambda>r. r\<lparr>ob_delivered_at := Some now, ob_claimed_by := None,
                          ob_claim_expires_at := None\<rparr>)
                   (turn_outbox s)\<rparr>)))"

definition acknowledged_projections :: "int \<Rightarrow> turn_store \<Rightarrow> string set" where
  "acknowledged_projections event_id s =
     set (map ak_projection_name (filter (\<lambda>a. ak_event_id a = event_id) (projection_acks s)))"

definition ack_key :: "ack_row \<Rightarrow> int \<times> string" where
  "ack_key a = (ak_event_id a, ak_projection_name a)"

definition acknowledge_projection ::
  "time \<Rightarrow> int \<Rightarrow> string \<Rightarrow> string option \<Rightarrow> turn_store \<Rightarrow> bool \<times> turn_store" where
  "acknowledge_projection now event_id name owner s =
     (let held = (case owner of None \<Rightarrow> True
            | Some w \<Rightarrow> select_one (\<lambda>r. ob_event_id r = event_id \<and> ob_claimed_by r = Some w \<and>
                sql_gt (ob_claim_expires_at r) now \<and> ob_delivered_at r = None \<and>
                ob_dead_lettered_at r = None) (turn_outbox s) \<noteq> None);
          row = \<lparr>ak_event_id = event_id, ak_projection_name = name, ak_delivered_at = now\<rparr>
      in if \<not> held then (False, s)
         else (row_of ack_key (ack_key row) (projection_acks s) = None,
               s\<lparr>projection_acks := insert_or_ignore ack_key row (projection_acks s)\<rparr>))"

record found_event =
  fe_event_id :: int
  fe_idempotency_key :: string
  fe_event_type :: string
  fe_payload :: dict
  fe_delivered_at :: "time option"
  fe_dead_lettered_at :: "time option"
  fe_acknowledged :: "string set"

definition find_outbox_by_idempotency_key ::
  "string \<Rightarrow> string option \<Rightarrow> turn_store \<Rightarrow> found_event option" where
  "find_outbox_by_idempotency_key epoch idempotency_key s =
     (let key = py_strip (text_or_empty idempotency_key) in
      if key = [] then None
      else case event_for s key of
          None \<Rightarrow> None
        | Some row \<Rightarrow>
            Some \<lparr>fe_event_id = ob_event_id row, fe_idempotency_key = ob_idempotency_key row,
                  fe_event_type = ob_event_type row,
                  fe_payload = load_persisted_payload epoch (JObj (ob_payload row)),
                  fe_delivered_at = ob_delivered_at row, fe_dead_lettered_at = ob_dead_lettered_at row,
                  fe_acknowledged = acknowledged_projections (ob_event_id row) s\<rparr>)"

record outbox_counts =
  oc_pending :: nat
  oc_delivered :: nat
  oc_dead_lettered :: nat
  oc_max_attempts :: int

definition outbox_diagnostics :: "turn_store \<Rightarrow> outbox_counts" where
  "outbox_diagnostics s =
     \<lparr>oc_pending = rowcount pending (turn_outbox s),
      oc_delivered = rowcount (\<lambda>r. ob_delivered_at r \<noteq> None) (turn_outbox s),
      oc_dead_lettered = rowcount (\<lambda>r. ob_dead_lettered_at r \<noteq> None) (turn_outbox s),
      oc_max_attempts = (if turn_outbox s = [] then 0 else Max (set (map ob_attempt_count (turn_outbox s))))\<rparr>"

end
