(* ===== verification/Outbox_Runs.thy ===== *)
theory Outbox_Runs
  imports Outbox_Store
begin

text \<open>
  Runs of the outbox operations. The queue is strict: a claim is only given on the oldest pending
  event, so at most one pending event is claimed at a time; a lease is respected until it ends; and
  an event that was delivered or dead-lettered never becomes pending again.
\<close>

datatype outbox_cmd =
    OClaim time string real
  | OFail time int string string real int
  | ORenew time int string real
  | OAck time int "string option"
  | OAckProjection time int string "string option"

fun exec_outbox :: "outbox_cmd \<Rightarrow> turn_store \<Rightarrow> turn_store" where
  "exec_outbox (OClaim t w l) s = snd (claim_next_outbox [] t w l s)"
| "exec_outbox (OFail t e w err d m) s = snd (fail_outbox t e w err d m s)"
| "exec_outbox (ORenew t e w l) s = snd (renew_outbox_claim t e w l s)"
| "exec_outbox (OAck t e w) s = snd (acknowledge t e w s)"
| "exec_outbox (OAckProjection t e p w) s = snd (acknowledge_projection t e p w s)"

fun outbox_actor :: "outbox_cmd \<Rightarrow> string option" where
  "outbox_actor (OClaim t w l) = Some w"
| "outbox_actor (OFail t e w err d m) = Some w"
| "outbox_actor (ORenew t e w l) = Some w"
| "outbox_actor (OAck t e w) = w"
| "outbox_actor (OAckProjection t e p w) = w"

fun outbox_clock :: "outbox_cmd \<Rightarrow> time option" where
  "outbox_clock (OClaim t w l) = Some t"
| "outbox_clock (OFail t e w err d m) = Some t"
| "outbox_clock (ORenew t e w l) = Some t"
| "outbox_clock (OAck t e w) = Some t"
| "outbox_clock (OAckProjection t e p w) = Some t"

text \<open>The epoch of the claiming process only enters the returned payload.\<close>

lemma claim_next_outbox_epoch:
  "snd (claim_next_outbox ep t w l s) = exec_outbox (OClaim t w l) s"
  by (simp add: claim_next_outbox_def Let_def split: option.splits)

section \<open>The head of the queue\<close>

lemma pending_head_SomeD:
  assumes "pending_head s = Some h"
  shows "h \<in> set (turn_outbox s)" "pending h"
    "\<And>q. q \<in> set (turn_outbox s) \<Longrightarrow> pending q \<Longrightarrow> ob_event_id h \<le> ob_event_id q"
proof -
  obtain rest where rows: "pending_rows s = h # rest"
    using assms by (auto simp: pending_head_def split: list.splits)
  have eqset: "set (pending_rows s) = {r \<in> set (turn_outbox s). pending r}"
    by (auto simp: pending_rows_def)
  with rows have "h \<in> {r \<in> set (turn_outbox s). pending r}" by (metis list.set_intros(1))
  then show "h \<in> set (turn_outbox s)" "pending h" by auto
  fix q assume "q \<in> set (turn_outbox s)" "pending q"
  with eqset rows have "q \<in> set (h # rest)" by auto
  moreover have "sorted (map ob_event_id (h # rest))"
    using rows by (metis pending_rows_def sorted_sort_key)
  ultimately show "ob_event_id h \<le> ob_event_id q" by auto
qed

lemma pending_head_None: "pending_head s = None \<longleftrightarrow> (\<forall>r\<in>set (turn_outbox s). \<not> pending r)"
proof -
  have "pending_head s = None \<longleftrightarrow> pending_rows s = []"
    by (simp add: pending_head_def split: list.splits)
  also have "\<dots> \<longleftrightarrow> set (pending_rows s) = {}" by simp
  also have "set (pending_rows s) = {r \<in> set (turn_outbox s). pending r}"
    by (auto simp: pending_rows_def)
  finally show ?thesis by auto
qed

section \<open>The invariant\<close>

definition outbox_row_ok :: "outbox_row \<Rightarrow> bool" where
  "outbox_row_ok r \<longleftrightarrow> (ob_claimed_by r = None \<longleftrightarrow> ob_claim_expires_at r = None) \<and>
     (ob_dead_lettered_at r \<noteq> None \<longrightarrow> ob_claimed_by r = None) \<and> 0 \<le> ob_attempt_count r"

definition claimed_first :: "outbox_row set \<Rightarrow> bool" where
  "claimed_first R \<longleftrightarrow> (\<forall>r\<in>R. pending r \<and> ob_claimed_by r \<noteq> None \<longrightarrow>
     (\<forall>q\<in>R. pending q \<longrightarrow> ob_event_id r \<le> ob_event_id q))"

definition outbox_inv :: "turn_store \<Rightarrow> bool" where
  "outbox_inv s \<longleftrightarrow> unique_on ob_event_id (turn_outbox s) \<and>
     unique_on ob_idempotency_key (turn_outbox s) \<and>
     (\<forall>r\<in>set (turn_outbox s). outbox_row_ok r \<and> ob_event_id r \<le> outbox_seq s) \<and>
     claimed_first (set (turn_outbox s))"

section \<open>What an operation does to the rows\<close>

definition claimable :: "time \<Rightarrow> outbox_row \<Rightarrow> bool" where
  "claimable t r \<longleftrightarrow> ob_available_at r \<le> t \<and> (ob_claimed_by r = None \<or> sql_le (ob_claim_expires_at r) t)"

fun outbox_effect :: "outbox_cmd \<Rightarrow> outbox_row option \<Rightarrow> outbox_row \<Rightarrow> outbox_row" where
  "outbox_effect (OClaim t w l) h r =
     (if h = Some r \<and> claimable t r
      then r\<lparr>ob_claimed_by := Some w, ob_claim_expires_at := Some (lease_end t l)\<rparr> else r)"
| "outbox_effect (OFail t e w err d m) h r =
     (if ob_event_id r = e \<and> ob_claimed_by r = Some w \<and> pending r
      then r\<lparr>ob_attempt_count := ob_attempt_count r + 1, ob_last_error := Some (take 2000 err),
             ob_available_at := t + max 0 d, ob_claimed_by := None, ob_claim_expires_at := None,
             ob_dead_lettered_at := (if ob_attempt_count r + 1 \<ge> max 1 m then Some t else None)\<rparr>
      else r)"
| "outbox_effect (ORenew t e w l) h r =
     (if ob_event_id r = e \<and> ob_claimed_by r = Some w \<and> sql_gt (ob_claim_expires_at r) t \<and> pending r
      then r\<lparr>ob_claim_expires_at := Some (lease_end t l)\<rparr> else r)"
| "outbox_effect (OAck t e None) h r =
     (if ob_event_id r = e then r\<lparr>ob_delivered_at := Some t\<rparr> else r)"
| "outbox_effect (OAck t e (Some w)) h r =
     (if ob_event_id r = e \<and> ob_claimed_by r = Some w \<and> sql_gt (ob_claim_expires_at r) t
      then r\<lparr>ob_delivered_at := Some t, ob_claimed_by := None, ob_claim_expires_at := None\<rparr> else r)"
| "outbox_effect (OAckProjection t e p w) h r = r"

lemma claim_rows:
  assumes "outbox_inv s"
  shows "turn_outbox (exec_outbox (OClaim t w l) s) =
    map (outbox_effect (OClaim t w l) (pending_head s)) (turn_outbox s)"
proof (cases "pending_head s")
  case None
  have "map (outbox_effect (OClaim t w l) None) R = R" for R by (rule map_idI) simp
  with None show ?thesis by (simp add: claim_next_outbox_def del: outbox_effect.simps)
next
  case (Some h)
  note h = pending_head_SomeD [OF Some]
  have uniq: "unique_on ob_event_id (turn_outbox s)" using assms by (simp add: outbox_inv_def)
  have ok: "outbox_row_ok h" using assms h(1) by (simp add: outbox_inv_def)
  have found: "row_of ob_event_id (ob_event_id h) (turn_outbox s) = Some h"
    by (rule unique_row_of [OF uniq h(1)])
  have count: "rowcount (\<lambda>r. ob_event_id r = ob_event_id h \<and> ob_delivered_at r = None \<and>
      ob_dead_lettered_at r = None \<and> (ob_claimed_by r = None \<or> sql_le (ob_claim_expires_at r) t))
      (turn_outbox s) = (if ob_claimed_by h = None \<or> sql_le (ob_claim_expires_at h) t then 1 else 0)"
    using h(2) by (simp add: rowcount_unique [OF uniq] found pending_def)
  have upd: "update_where (\<lambda>r. ob_event_id r = ob_event_id h \<and> ob_delivered_at r = None \<and>
      ob_dead_lettered_at r = None \<and> (ob_claimed_by r = None \<or> sql_le (ob_claim_expires_at r) t))
      f (turn_outbox s) = map (\<lambda>r. if r = h then f r else r) (turn_outbox s)"
    if "ob_claimed_by h = None \<or> sql_le (ob_claim_expires_at h) t" for f
    by (rule update_where_one [OF uniq h(1)]) (use that h(2) in \<open>auto simp: pending_def\<close>)
  have idle: "map (outbox_effect (OClaim t w l) (Some h)) (turn_outbox s) = turn_outbox s"
    if "\<not> claimable t h"
    using that by (auto intro!: map_idI)
  have busy: "\<not> claimable t h" if "text_or_empty (ob_claimed_by h) \<noteq> []" "or_zero (ob_claim_expires_at h) > t"
    using that ok by (auto simp: claimable_def text_or_empty_def or_zero_def sql_le_def split: option.splits)
  show ?thesis
  proof (cases "claimable t h")
    case True
    with busy have "\<not> (text_or_empty (ob_claimed_by h) \<noteq> [] \<and> or_zero (ob_claim_expires_at h) > t)"
      by blast
    then have open': "(text_or_empty (ob_claimed_by h) \<noteq> [] \<and> or_zero (ob_claim_expires_at h) > t) = False"
      by blast
    have free: "ob_claimed_by h = None \<or> sql_le (ob_claim_expires_at h) t" and
      due: "(ob_available_at h > t) = False" using True by (auto simp: claimable_def)
    have eff: "outbox_effect (OClaim t w l) (Some h) = (\<lambda>r. if r = h
        then r\<lparr>ob_claimed_by := Some w, ob_claim_expires_at := Some (lease_end t l)\<rparr> else r)"
      using True by (auto simp: fun_eq_iff)
    show ?thesis
      unfolding exec_outbox.simps claim_next_outbox_def Some option.case open' due Let_def count eff
      by (simp add: free upd [OF free])
  next
    case False
    then have shut: "(ob_claimed_by h = None \<or> sql_le (ob_claim_expires_at h) t) = False"
      if "\<not> ob_available_at h > t" using that by (auto simp: claimable_def)
    show ?thesis
    proof (cases "ob_available_at h > t")
      case True
      then show ?thesis
        by (simp add: claim_next_outbox_def Some idle [OF \<open>\<not> claimable t h\<close>] del: outbox_effect.simps)
    next
      case False
      note shut = shut [OF False]
      show ?thesis
        unfolding exec_outbox.simps claim_next_outbox_def Some option.case Let_def count shut
        by (simp add: idle [OF \<open>\<not> claimable t h\<close>] del: outbox_effect.simps)
    qed
  qed
qed

lemma fail_rows:
  assumes "outbox_inv s"
  shows "turn_outbox (exec_outbox (OFail t e w err d m) s) =
    map (outbox_effect (OFail t e w err d m) (pending_head s)) (turn_outbox s)"
proof -
  have uniq: "unique_on ob_event_id (turn_outbox s)" using assms by (simp add: outbox_inv_def)
  let ?P = "\<lambda>r. ob_event_id r = e \<and> ob_claimed_by r = Some w \<and> ob_delivered_at r = None \<and>
    ob_dead_lettered_at r = None"
  show ?thesis
  proof (cases "select_one ?P (turn_outbox s)")
    case None
    then have "map (outbox_effect (OFail t e w err d m) (pending_head s)) (turn_outbox s) = turn_outbox s"
      by (intro map_idI) (auto simp: select_one_None pending_def)
    with None show ?thesis by (simp add: fail_outbox_def)
  next
    case (Some h)
    then have h: "h \<in> set (turn_outbox s)" "?P h" by (auto dest: select_one_SomeD)
    have upd: "update_where (\<lambda>r. ob_event_id r = e \<and> ob_claimed_by r = Some w) f (turn_outbox s) =
        map (\<lambda>r. if r = h then f r else r) (turn_outbox s)" for f
      by (rule update_where_one [OF uniq h(1)]) (use h(2) in auto)
    have eff: "outbox_effect (OFail t e w err d m) (pending_head s) r =
        (if r = h then h\<lparr>ob_attempt_count := ob_attempt_count h + 1, ob_last_error := Some (take 2000 err),
           ob_available_at := t + max 0 d, ob_claimed_by := None, ob_claim_expires_at := None,
           ob_dead_lettered_at := (if ob_attempt_count h + 1 \<ge> max 1 m then Some t else None)\<rparr> else r)"
      if "r \<in> set (turn_outbox s)" for r
    proof (cases "r = h")
      case True
      then show ?thesis using h(2) by (simp add: pending_def)
    next
      case False
      then have "ob_event_id r \<noteq> e" using unique_row_eq [OF uniq that h(1)] h(2) by metis
      with False show ?thesis by simp
    qed
    show ?thesis
      unfolding exec_outbox.simps fail_outbox_def Some option.case Let_def
      by (auto simp: upd eff simp del: outbox_effect.simps intro!: map_cong)
  qed
qed

lemma exec_outbox_rows:
  assumes "outbox_inv s"
  shows "turn_outbox (exec_outbox c s) = map (outbox_effect c (pending_head s)) (turn_outbox s)"
proof (cases c)
  case OClaim
  then show ?thesis by (simp only: claim_rows [OF assms])
next
  case OFail
  then show ?thesis by (simp only: fail_rows [OF assms])
next
  case (OAck t e w)
  then show ?thesis by (cases w) (auto simp: acknowledge_def Let_def update_where_def)
next
  case OAckProjection
  then show ?thesis by (auto simp: acknowledge_projection_def Let_def map_idI)
qed (auto simp: renew_outbox_claim_def Let_def update_where_def pending_def)

lemma outbox_effect_same [simp]:
  "ob_event_id (outbox_effect c h r) = ob_event_id r"
  "ob_idempotency_key (outbox_effect c h r) = ob_idempotency_key r"
  "ob_payload (outbox_effect c h r) = ob_payload r"
  "ob_event_type (outbox_effect c h r) = ob_event_type r"
  by (induction c h r rule: outbox_effect.induct) auto

lemma outbox_effect_pending: "pending (outbox_effect c h r) \<Longrightarrow> pending r"
  by (induction c h r rule: outbox_effect.induct) (auto simp: pending_def split: if_splits)

lemma outbox_effect_ok: "outbox_row_ok r \<Longrightarrow> (h = Some r \<longrightarrow> pending r) \<Longrightarrow> outbox_row_ok (outbox_effect c h r)"
  by (induction c h r rule: outbox_effect.induct) (auto simp: outbox_row_ok_def pending_def)

lemma outbox_effect_claimed:
  "ob_claimed_by (outbox_effect c h r) \<noteq> None \<Longrightarrow> ob_claimed_by r \<noteq> None \<or> h = Some r"
  by (induction c h r rule: outbox_effect.induct) (auto split: if_splits)

lemma map_row_of:
  assumes "\<And>r. key (f r) = key r"
  shows "row_of key k (map f t) = map_option f (row_of key k t)"
  using assms by (induction t) auto

lemma exec_outbox_event:
  "outbox_inv s \<Longrightarrow>
     event_of (exec_outbox c s) e = map_option (outbox_effect c (pending_head s)) (event_of s e)"
  by (simp add: exec_outbox_rows map_row_of)

lemma exec_outbox_seq [simp]: "outbox_seq (exec_outbox c s) = outbox_seq s"
  by (cases c) (auto simp: claim_next_outbox_def fail_outbox_def renew_outbox_claim_def acknowledge_def
      acknowledge_projection_def Let_def split: option.splits)

lemma claimed_first_effect:
  assumes "claimed_first (set (turn_outbox s))"
  shows "claimed_first (outbox_effect c (pending_head s) ` set (turn_outbox s))"
  unfolding claimed_first_def
proof (intro ballI impI)
  fix r' q'
  assume "r' \<in> outbox_effect c (pending_head s) ` set (turn_outbox s)"
    and "pending r' \<and> ob_claimed_by r' \<noteq> None"
    and "q' \<in> outbox_effect c (pending_head s) ` set (turn_outbox s)" and pq': "pending q'"
  then obtain r q where r: "r \<in> set (turn_outbox s)" "r' = outbox_effect c (pending_head s) r"
      "pending r'" "ob_claimed_by r' \<noteq> None"
    and q: "q \<in> set (turn_outbox s)" "q' = outbox_effect c (pending_head s) q" by auto
  have pr: "pending r" and pq: "pending q" using r q pq' outbox_effect_pending by metis+
  from r(2,4) have "ob_claimed_by r \<noteq> None \<or> pending_head s = Some r"
    using outbox_effect_claimed by metis
  then have "ob_event_id r \<le> ob_event_id q"
  proof
    assume "ob_claimed_by r \<noteq> None"
    with assms r(1) pr q(1) pq show ?thesis by (auto simp: claimed_first_def)
  next
    assume "pending_head s = Some r"
    with q(1) pq show ?thesis by (rule pending_head_SomeD(3) [rotated])
  qed
  with r q show "ob_event_id r' \<le> ob_event_id q'" by simp
qed

lemma outbox_step_inv:
  assumes "outbox_inv s"
  shows "outbox_inv (exec_outbox c s)"
proof -
  have ok: "outbox_row_ok (outbox_effect c (pending_head s) r)" if "r \<in> set (turn_outbox s)" for r
    using assms that pending_head_SomeD(2) by (intro outbox_effect_ok) (auto simp: outbox_inv_def)
  have keys: "map (k \<circ> outbox_effect c (pending_head s)) (turn_outbox s) = map k (turn_outbox s)"
    if "\<And>r. k (outbox_effect c (pending_head s) r) = k r" for k :: "outbox_row \<Rightarrow> 'b"
    using that by simp
  show ?thesis
    using assms ok claimed_first_effect [of s c]
    by (auto simp: outbox_inv_def exec_outbox_rows [OF assms] unique_on_def comp_def)
qed

section \<open>Events only move forward\<close>

definition event_kept :: "outbox_row \<Rightarrow> outbox_row \<Rightarrow> bool" where
  "event_kept r r' \<longleftrightarrow> ob_event_id r' = ob_event_id r \<and> ob_idempotency_key r' = ob_idempotency_key r \<and>
     ob_event_type r' = ob_event_type r \<and> ob_payload r' = ob_payload r \<and>
     (pending r' \<longrightarrow> pending r) \<and> ob_attempt_count r \<le> ob_attempt_count r' \<and>
     (ob_delivered_at r \<noteq> None \<longrightarrow> ob_delivered_at r' \<noteq> None)"

definition outbox_kept :: "turn_store \<Rightarrow> turn_store \<Rightarrow> bool" where
  "outbox_kept s t \<longleftrightarrow>
     (\<forall>e r. event_of s e = Some r \<longrightarrow> (\<exists>r'. event_of t e = Some r' \<and> event_kept r r'))"

lemma event_kept_trans: "event_kept q r \<Longrightarrow> event_kept r s \<Longrightarrow> event_kept q s"
  unfolding event_kept_def by (auto intro: order_trans)

lemma event_kept_effect: "event_kept r (outbox_effect c h r)"
  by (induction c h r rule: outbox_effect.induct) (auto simp: event_kept_def pending_def)

interpretation outbox: ordered_machine exec_outbox outbox_inv outbox_kept
proof unfold_locales
  show "outbox_kept s s" for s by (auto simp: outbox_kept_def event_kept_def)
  show "outbox_kept s t \<Longrightarrow> outbox_kept t u \<Longrightarrow> outbox_kept s u" for s t u
    unfolding outbox_kept_def by (meson event_kept_trans)
  show "outbox_inv s \<Longrightarrow> outbox_kept s (exec_outbox c s)" for s c
    by (auto simp: outbox_kept_def exec_outbox_event event_kept_effect)
qed (rule outbox_step_inv)

section \<open>Leases\<close>

text \<open>
  The lease of an event is its claim columns; an acknowledgement without an owner may set
  \<open>delivered_at\<close> under anybody's lease, but leaves these columns.
\<close>

definition event_claim :: "turn_store \<Rightarrow> int \<Rightarrow> (string option \<times> time option) option" where
  "event_claim s e = map_option (\<lambda>r. (ob_claimed_by r, ob_claim_expires_at r)) (event_of s e)"

fun event_lease :: "string option \<times> time option \<Rightarrow> (string \<times> time) option" where
  "event_lease (Some w, Some e) = Some (w, e)"
| "event_lease _ = None"

lemma event_lease_Some: "event_lease x = Some (w, e) \<longleftrightarrow> x = (Some w, Some e)"
  by (cases x rule: event_lease.cases) auto

lemma outbox_effect_leased:
  assumes "ob_claimed_by r = Some w" and "ob_claim_expires_at r = Some e" and "outbox_actor c \<noteq> Some w"
    and "\<forall>t. outbox_clock c = Some t \<longrightarrow> t < e"
  shows "ob_claimed_by (outbox_effect c h r) = Some w \<and> ob_claim_expires_at (outbox_effect c h r) = Some e"
  using assms by (induction c h r rule: outbox_effect.induct) (auto simp: claimable_def)

interpretation outbox: leased_rows exec_outbox outbox_inv event_claim event_lease outbox_actor outbox_clock
proof unfold_locales
  fix s k r w e c
  assume "outbox_inv s" and "event_claim s k = Some r" and "event_lease r = Some (w, e)"
    and "outbox_actor c \<noteq> Some w" and "\<forall>t. outbox_clock c = Some t \<longrightarrow> t < e"
  then show "event_claim (exec_outbox c s) k = Some r"
    using outbox_effect_leased [of _ w e c]
    by (auto simp: event_claim_def exec_outbox_event event_lease_Some)
qed

section \<open>Bounded attempts\<close>

text \<open>
  While every failure report carries a limit of at most \<open>M\<close>, a pending event has fewer than \<open>M\<close>
  attempts: the attempt that reaches the limit dead-letters it.
\<close>

fun within_limit :: "int \<Rightarrow> outbox_cmd \<Rightarrow> bool" where
  "within_limit M (OFail t e w err d m) = (max 1 m \<le> M)"
| "within_limit M _ = True"

definition attempts_below :: "int \<Rightarrow> turn_store \<Rightarrow> bool" where
  "attempts_below M s \<longleftrightarrow> (\<forall>r\<in>set (turn_outbox s). pending r \<longrightarrow> ob_attempt_count r < M)"

lemma attempts_below_step:
  assumes "outbox_inv s" and "attempts_below M s" and "within_limit M c"
  shows "attempts_below M (exec_outbox c s)"
proof -
  have "pending (outbox_effect c h r) \<Longrightarrow> ob_attempt_count (outbox_effect c h r) < M"
    if "pending r \<longrightarrow> ob_attempt_count r < M" for h r
    using that assms(3)
    by (induction c h r rule: outbox_effect.induct) (auto simp: pending_def split: if_splits)
  with assms(2) show ?thesis
    by (auto simp: attempts_below_def exec_outbox_rows [OF assms(1)])
qed

lemma attempts_below_run:
  assumes "outbox_inv s" and "attempts_below M s" and "\<forall>c\<in>set cs. within_limit M c"
  shows "attempts_below M (fold exec_outbox cs s)"
  using assms by (induction cs arbitrary: s) (auto simp: attempts_below_step outbox_step_inv)

section \<open>Claims and acknowledgements\<close>

lemma claim_event_head:
  assumes "claim_next_outbox ep t w l s = (OutboxClaimed ev, s')"
  shows "\<exists>h. pending_head s = Some h \<and> ev_event_id ev = ob_event_id h \<and>
    ev_idempotency_key ev = ob_idempotency_key h \<and> ob_available_at h \<le> t"
  using assms by (auto simp: claim_next_outbox_def Let_def split: option.splits if_splits)

text \<open>When the head of the queue is open, the claim succeeds.\<close>

lemma claim_open_head:
  assumes "outbox_inv s" and "pending_head s = Some h" and "claimable t h"
  shows "\<exists>ev s'. claim_next_outbox ep t w l s = (OutboxClaimed ev, s') \<and>
    ev_event_id ev = ob_event_id h \<and> event_claim s' (ob_event_id h) = Some (Some w, Some (lease_end t l))"
proof -
  note h = pending_head_SomeD [OF assms(2)]
  have uniq: "unique_on ob_event_id (turn_outbox s)" and ok: "outbox_row_ok h"
    using assms(1) h(1) by (auto simp: outbox_inv_def)
  have found: "event_of s (ob_event_id h) = Some h" by (rule unique_row_of [OF uniq h(1)])
  have "fst (claim_next_outbox ep t w l s) = OutboxClaimed
      \<lparr>ev_event_id = ob_event_id h, ev_idempotency_key = ob_idempotency_key h,
       ev_event_type = ob_event_type h, ev_payload = load_persisted_payload ep (JObj (ob_payload h)),
       ev_attempt_count = ob_attempt_count h, ev_claim_expires_at = lease_end t l\<rparr>"
    using assms(2,3) h(2) ok
    by (auto simp: claim_next_outbox_def Let_def rowcount_unique [OF uniq] found claimable_def
        pending_def outbox_row_ok_def text_or_empty_def or_zero_def split: option.splits)
  moreover have "event_claim (snd (claim_next_outbox ep t w l s)) (ob_event_id h) =
      Some (Some w, Some (lease_end t l))"
    using assms(2,3) by (simp add: claim_next_outbox_epoch event_claim_def exec_outbox_event [OF assms(1)] found
        del: exec_outbox.simps)
  ultimately show ?thesis by (cases "claim_next_outbox ep t w l s") auto
qed

lemma claim_result_lease:
  assumes "outbox_inv s" and "claim_next_outbox ep t w l s = (OutboxClaimed ev, s')"
  shows "event_claim s' (ev_event_id ev) = Some (Some w, Some (lease_end t l))"
proof -
  obtain h where h: "pending_head s = Some h" "ev_event_id ev = ob_event_id h" "ob_available_at h \<le> t"
    using claim_event_head [OF assms(2)] by blast
  have uniq: "unique_on ob_event_id (turn_outbox s)" using assms(1) by (simp add: outbox_inv_def)
  have found: "event_of s (ob_event_id h) = Some h"
    by (rule unique_row_of [OF uniq pending_head_SomeD(1) [OF h(1)]])
  have "claimable t h"
    using assms(2) h
    by (auto simp: claim_next_outbox_def Let_def claimable_def rowcount_unique [OF uniq] found split: if_splits)
  from claim_open_head [OF assms(1) h(1) this, of ep w l] h(2) assms(2) show ?thesis by auto
qed

text \<open>The counts of \<open>outbox_diagnostics\<close> when no event is both delivered and dead-lettered.\<close>

lemma outbox_counts_split:
  assumes "\<forall>r\<in>set (turn_outbox s). ob_delivered_at r = None \<or> ob_dead_lettered_at r = None"
  shows "oc_pending (outbox_diagnostics s) + oc_delivered (outbox_diagnostics s) +
    oc_dead_lettered (outbox_diagnostics s) = length (turn_outbox s)"
proof -
  have "length (filter pending R) + length (filter (\<lambda>r. ob_delivered_at r \<noteq> None) R) +
      length (filter (\<lambda>r. ob_dead_lettered_at r \<noteq> None) R) = length R"
    if "\<forall>r\<in>set R. ob_delivered_at r = None \<or> ob_dead_lettered_at r = None" for R
    using that by (induction R) (auto simp: pending_def)
  with assms show ?thesis by (simp add: outbox_diagnostics_def rowcount_def)
qed

end
