(* ===== verification/Connector_Deliveries.thy ===== *)
theory Connector_Deliveries
  imports Turn_Tables
begin

text \<open>
  The connector delivery lease of \<open>TurnCommitStore\<close>: an inbound message is recorded while its turn is
  being computed (\<open>Processing\<close>), sent under a claim (\<open>Sending\<close>), and ends \<open>Delivered\<close> or
  \<open>Failed\<close>; a failed turn can be retried. QQ sends whose outcome is unknown are never resent
  without an explicit resolution.
\<close>

section \<open>Operations\<close>

datatype delivery_error = DeliveryKeyRequired | OwnerRequired | KeyAndOwnerRequired

text \<open>\<open>str(owner_id or "").strip()\<close> and the error text cut to 2000 characters.\<close>

definition record_connector_turn_pending ::
  "time \<Rightarrow> string option \<Rightarrow> string \<Rightarrow> string \<Rightarrow> string \<Rightarrow> string option \<Rightarrow> real \<Rightarrow> dict \<Rightarrow> turn_store
     \<Rightarrow> delivery_error + (bool \<times> turn_store)" where
  "record_connector_turn_pending now delivery_key idempotency_key connector event_id owner_id lease
       message s =
     (let key = py_strip (text_or_empty delivery_key); owner = py_strip (text_or_empty owner_id) in
      if key = [] then Inl DeliveryKeyRequired
      else if owner = [] then Inl OwnerRequired
      else Inr (delivery_of s key = None,
        s\<lparr>connector_deliveries := insert_or_ignore cd_delivery_key
            \<lparr>cd_delivery_key = key, cd_idempotency_key = idempotency_key, cd_connector_id = connector,
             cd_event_id = event_id, cd_status = Processing, cd_attempt_count = 0,
             cd_claimed_by = Some owner, cd_claim_expires_at = Some (lease_end now lease),
             cd_last_error = None, cd_updated_at = now, cd_delivered_at = None,
             cd_message = Some message, cd_reply_text = None\<rparr>
            (connector_deliveries s)\<rparr>))"

text \<open>One \<open>UPDATE connector_deliveries\<close> and its \<open>rowcount == 1\<close>.\<close>

definition update_delivery ::
  "string \<Rightarrow> (delivery_row \<Rightarrow> bool) \<Rightarrow> (delivery_row \<Rightarrow> delivery_row) \<Rightarrow> turn_store \<Rightarrow> bool \<times> turn_store" where
  "update_delivery key P f s =
     (let match = (\<lambda>r. cd_delivery_key r = key \<and> P r)
      in (rowcount match (connector_deliveries s) = 1,
          s\<lparr>connector_deliveries := update_where match f (connector_deliveries s)\<rparr>))"

definition mark_connector_turn_failed ::
  "time \<Rightarrow> string \<Rightarrow> string \<Rightarrow> string \<Rightarrow> turn_store \<Rightarrow> bool \<times> turn_store" where
  "mark_connector_turn_failed now key owner error =
     update_delivery key (\<lambda>r. cd_claimed_by r = Some owner \<and> cd_status r = Processing)
       (\<lambda>r. r\<lparr>cd_status := Failed, cd_claimed_by := None, cd_claim_expires_at := None,
              cd_last_error := Some (take 2000 error), cd_updated_at := now, cd_delivered_at := None\<rparr>)"

definition discard_connector_turn_pending ::
  "string \<Rightarrow> string \<Rightarrow> turn_store \<Rightarrow> bool \<times> turn_store" where
  "discard_connector_turn_pending key owner s =
     (let match = (\<lambda>r. cd_delivery_key r = key \<and> cd_status r = Processing \<and>
                       cd_claimed_by r = Some owner \<and> cd_reply_text r = None)
      in (rowcount match (connector_deliveries s) = 1,
          s\<lparr>connector_deliveries := delete_where match (connector_deliveries s)\<rparr>))"

definition recover_stale_connector_turn :: "time \<Rightarrow> string \<Rightarrow> turn_store \<Rightarrow> bool \<times> turn_store" where
  "recover_stale_connector_turn now key =
     update_delivery key (\<lambda>r. cd_status r = Processing \<and> sql_le (cd_claim_expires_at r) now)
       (\<lambda>r. r\<lparr>cd_status := Failed, cd_claimed_by := None, cd_claim_expires_at := None,
              cd_last_error := Some ''connector_turn_interrupted'', cd_updated_at := now\<rparr>)"

datatype delivery_claim =
    DeliveryDone int "time option"
  | DeliveryBusy real
  | DeliveryUnknown
  | DeliveryClaimed int time
  | DeliveryMissing
  | DeliveryNotRetryable

definition coalesce :: "'a option \<Rightarrow> 'a option \<Rightarrow> 'a option" where
  "coalesce x y = (case x of None \<Rightarrow> y | Some _ \<Rightarrow> x)"

definition expires_or_zero :: "delivery_row \<Rightarrow> time" where
  "expires_or_zero r = (case cd_claim_expires_at r of None \<Rightarrow> 0 | Some t \<Rightarrow> t)"

text \<open>The row is leased by somebody other than \<open>owner\<close>: the guard of both claim operations.\<close>

definition held_by_other :: "time \<Rightarrow> string \<Rightarrow> delivery_row \<Rightarrow> bool" where
  "held_by_other now owner r \<longleftrightarrow>
     text_or_empty (cd_claimed_by r) \<noteq> [] \<and> text_or_empty (cd_claimed_by r) \<noteq> owner \<and>
     expires_or_zero r > now"

definition claim_connector_delivery ::
  "time \<Rightarrow> string option \<Rightarrow> string \<Rightarrow> string \<Rightarrow> string \<Rightarrow> string option \<Rightarrow> real \<Rightarrow> dict option \<Rightarrow>
     string option \<Rightarrow> turn_store \<Rightarrow> delivery_error + (delivery_claim \<times> turn_store)" where
  "claim_connector_delivery now delivery_key idempotency_key connector event_id owner_id lease
       message reply s =
     (let key = py_strip (text_or_empty delivery_key); owner = py_strip (text_or_empty owner_id);
          expires = lease_end now lease; row = delivery_of s key
      in if key = [] \<or> owner = [] then Inl KeyAndOwnerRequired
         else case row of
           Some r \<Rightarrow>
             (if cd_status r = Delivered then Inr (DeliveryDone (cd_attempt_count r) (cd_delivered_at r), s)
              else if held_by_other now owner r
              then Inr (DeliveryBusy (max (1/100) (expires_or_zero r - now)), s)
              else if cd_status r = Sending \<and> cd_connector_id r = ''qq'' then Inr (DeliveryUnknown, s)
              else
                (let attempts = cd_attempt_count r + 1 in
                 Inr (DeliveryClaimed attempts expires,
                   s\<lparr>connector_deliveries := update_where (\<lambda>x. cd_delivery_key x = key)
                       (\<lambda>x. x\<lparr>cd_idempotency_key := idempotency_key, cd_connector_id := connector,
                              cd_event_id := event_id, cd_status := Sending,
                              cd_attempt_count := attempts, cd_claimed_by := Some owner,
                              cd_claim_expires_at := Some expires, cd_last_error := None,
                              cd_updated_at := now, cd_delivered_at := None,
                              cd_message := coalesce message (cd_message x),
                              cd_reply_text := coalesce reply (cd_reply_text x)\<rparr>)
                       (connector_deliveries s)\<rparr>)))
         | None \<Rightarrow>
             Inr (DeliveryClaimed 1 expires,
               s\<lparr>connector_deliveries := connector_deliveries s @
                   [\<lparr>cd_delivery_key = key, cd_idempotency_key = idempotency_key,
                     cd_connector_id = connector, cd_event_id = event_id, cd_status = Sending,
                     cd_attempt_count = 1, cd_claimed_by = Some owner,
                     cd_claim_expires_at = Some expires, cd_last_error = None, cd_updated_at = now,
                     cd_delivered_at = None, cd_message = message, cd_reply_text = reply\<rparr>]\<rparr>))"

definition claim_connector_turn_retry ::
  "time \<Rightarrow> string option \<Rightarrow> string option \<Rightarrow> real \<Rightarrow> turn_store
     \<Rightarrow> delivery_error + (delivery_claim \<times> turn_store)" where
  "claim_connector_turn_retry now delivery_key owner_id lease s =
     (let key = py_strip (text_or_empty delivery_key); owner = py_strip (text_or_empty owner_id);
          expires = lease_end now lease
      in if key = [] \<or> owner = [] then Inl KeyAndOwnerRequired
         else case delivery_of s key of
           None \<Rightarrow> Inr (DeliveryMissing, s)
         | Some r \<Rightarrow>
             (if cd_status r = Delivered then Inr (DeliveryDone (cd_attempt_count r) None, s)
              else if cd_status r \<noteq> Failed then Inr (DeliveryNotRetryable, s)
              else if held_by_other now owner r
              then Inr (DeliveryBusy (max (1/100) (expires_or_zero r - now)), s)
              else
                (let attempts = cd_attempt_count r + 1;
                     res = update_delivery key (\<lambda>x. cd_status x = Failed \<and> cd_reply_text x = None)
                       (\<lambda>x. x\<lparr>cd_status := Failed, cd_attempt_count := attempts,
                              cd_claimed_by := Some owner, cd_claim_expires_at := Some expires,
                              cd_updated_at := now\<rparr>) s
                 in if \<not> fst res then Inr (DeliveryNotRetryable, s)
                    else Inr (DeliveryClaimed attempts expires, snd res))))"

definition promote_connector_turn_retry ::
  "time \<Rightarrow> string \<Rightarrow> string \<Rightarrow> string \<Rightarrow> real \<Rightarrow> turn_store \<Rightarrow> bool \<times> turn_store" where
  "promote_connector_turn_retry now key owner reply lease =
     update_delivery key (\<lambda>r. cd_claimed_by r = Some owner \<and> cd_status r = Failed)
       (\<lambda>r. r\<lparr>cd_status := Sending, cd_reply_text := Some reply, cd_last_error := None,
              cd_claim_expires_at := Some (lease_end now lease), cd_updated_at := now\<rparr>)"

definition release_connector_turn_retry ::
  "time \<Rightarrow> string \<Rightarrow> string \<Rightarrow> string \<Rightarrow> turn_store \<Rightarrow> bool \<times> turn_store" where
  "release_connector_turn_retry now key owner error =
     update_delivery key (\<lambda>r. cd_claimed_by r = Some owner \<and> cd_status r = Failed)
       (\<lambda>r. r\<lparr>cd_status := Failed, cd_claimed_by := None, cd_claim_expires_at := None,
              cd_last_error := Some (take 2000 error), cd_updated_at := now\<rparr>)"

definition mark_connector_delivery_sent ::
  "time \<Rightarrow> string \<Rightarrow> string \<Rightarrow> turn_store \<Rightarrow> bool \<times> turn_store" where
  "mark_connector_delivery_sent now key owner =
     update_delivery key (\<lambda>r. cd_claimed_by r = Some owner \<and> cd_status r = Sending)
       (\<lambda>r. r\<lparr>cd_status := Delivered, cd_claimed_by := None, cd_claim_expires_at := None,
              cd_updated_at := now, cd_delivered_at := Some now\<rparr>)"

definition mark_connector_delivery_failed ::
  "time \<Rightarrow> string \<Rightarrow> string \<Rightarrow> string \<Rightarrow> turn_store \<Rightarrow> bool \<times> turn_store" where
  "mark_connector_delivery_failed now key owner error =
     update_delivery key (\<lambda>r. cd_claimed_by r = Some owner \<and> cd_status r = Sending)
       (\<lambda>r. r\<lparr>cd_status := Failed, cd_claimed_by := None, cd_claim_expires_at := None,
              cd_last_error := Some (take 2000 error), cd_updated_at := now, cd_delivered_at := None\<rparr>)"

definition resolve_connector_delivery ::
  "time \<Rightarrow> string option \<Rightarrow> string option \<Rightarrow> turn_store \<Rightarrow> bool \<times> turn_store" where
  "resolve_connector_delivery now delivery_key outcome s =
     (let key = py_strip (text_or_empty delivery_key);
          normalized = py_lower (py_strip (text_or_empty outcome));
          delivered = (normalized = ''delivered'')
      in if key = [] \<or> normalized \<notin> {''delivered'', ''failed''} then (False, s)
         else update_delivery key
           (\<lambda>r. cd_status r = Sending \<and>
                (cd_claim_expires_at r = None \<or> sql_le (cd_claim_expires_at r) now))
           (\<lambda>r. r\<lparr>cd_status := (if delivered then Delivered else Failed), cd_claimed_by := None,
                  cd_claim_expires_at := None,
                  cd_last_error := (if delivered then None else Some ''manual_resolution_failed''),
                  cd_updated_at := now, cd_delivered_at := (if delivered then Some now else None)\<rparr>) s)"

definition reset_connector_delivery_for_retry ::
  "time \<Rightarrow> string option \<Rightarrow> turn_store \<Rightarrow> bool \<times> turn_store" where
  "reset_connector_delivery_for_retry now delivery_key s =
     (let key = py_strip (text_or_empty delivery_key) in
      if key = [] then (False, s)
      else update_delivery key
        (\<lambda>r. (cd_status r = Failed \<and> (cd_claimed_by r = None \<or> sql_le (cd_claim_expires_at r) now)) \<or>
             (cd_status r = Sending \<and> cd_connector_id r \<noteq> ''qq'' \<and> sql_le (cd_claim_expires_at r) now))
        (\<lambda>r. r\<lparr>cd_status := (if cd_status r = Sending then Failed else cd_status r),
               cd_claimed_by := None, cd_claim_expires_at := None, cd_updated_at := now\<rparr>) s)"

definition connector_delivery :: "string option \<Rightarrow> turn_store \<Rightarrow> delivery_row option" where
  "connector_delivery delivery_key s =
     (let key = py_strip (text_or_empty delivery_key) in if key = [] then None else delivery_of s key)"

definition status_text :: "delivery_status \<Rightarrow> string" where
  "status_text st = (case st of Processing \<Rightarrow> ''processing'' | Sending \<Rightarrow> ''sending''
     | Failed \<Rightarrow> ''failed'' | Delivered \<Rightarrow> ''delivered'')"

definition list_connector_deliveries ::
  "string option \<Rightarrow> string option \<Rightarrow> int \<Rightarrow> turn_store \<Rightarrow> delivery_row list" where
  "list_connector_deliveries connector status limit s =
     take (nat (max 1 (min 500 limit)))
       (sort_key (\<lambda>r. - cd_updated_at r)
         (filter (\<lambda>r. (text_or_empty connector \<noteq> [] \<longrightarrow>
                        cd_connector_id r = py_lower (py_strip (text_or_empty connector))) \<and>
                      (text_or_empty status \<noteq> [] \<longrightarrow>
                        status_text (cd_status r) = py_lower (py_strip (text_or_empty status))))
           (connector_deliveries s)))"

end
