(* ===== verification/Delivery_Runs.thy ===== *)
theory Delivery_Runs
  imports Connector_Deliveries
begin

text \<open>
  Runs of the connector delivery operations by any number of workers with any clocks. The section on
  rows states what an operation does to one row; the invariant, the status graph, the lease and the
  QQ rule are then facts of single commands, and the machine locales carry them along runs.
\<close>

datatype delivery_cmd =
    DRecord time "string option" string string string "string option" real dict
  | DTurnFailed time string string string
  | DDiscard string string
  | DRecoverStale time string
  | DClaim time "string option" string string string "string option" real "dict option" "string option"
  | DClaimRetry time "string option" "string option" real
  | DPromote time string string string real
  | DReleaseRetry time string string string
  | DSent time string string
  | DFailed time string string string
  | DResolve time "string option" "string option"
  | DReset time "string option"

definition keep_on_error :: "turn_store \<Rightarrow> 'e + ('a \<times> turn_store) \<Rightarrow> turn_store" where
  "keep_on_error s r = (case r of Inl _ \<Rightarrow> s | Inr p \<Rightarrow> snd p)"

fun exec_delivery :: "delivery_cmd \<Rightarrow> turn_store \<Rightarrow> turn_store" where
  "exec_delivery (DRecord t k i c e w l m) s =
     keep_on_error s (record_connector_turn_pending t k i c e w l m s)"
| "exec_delivery (DTurnFailed t k w err) s = snd (mark_connector_turn_failed t k w err s)"
| "exec_delivery (DDiscard k w) s = snd (discard_connector_turn_pending k w s)"
| "exec_delivery (DRecoverStale t k) s = snd (recover_stale_connector_turn t k s)"
| "exec_delivery (DClaim t k i c e w l m r) s =
     keep_on_error s (claim_connector_delivery t k i c e w l m r s)"
| "exec_delivery (DClaimRetry t k w l) s = keep_on_error s (claim_connector_turn_retry t k w l s)"
| "exec_delivery (DPromote t k w r l) s = snd (promote_connector_turn_retry t k w r l s)"
| "exec_delivery (DReleaseRetry t k w err) s = snd (release_connector_turn_retry t k w err s)"
| "exec_delivery (DSent t k w) s = snd (mark_connector_delivery_sent t k w s)"
| "exec_delivery (DFailed t k w err) s = snd (mark_connector_delivery_failed t k w err s)"
| "exec_delivery (DResolve t k r) s = snd (resolve_connector_delivery t k r s)"
| "exec_delivery (DReset t k) s = snd (reset_connector_delivery_for_retry t k s)"

text \<open>The worker a command acts for, and the clock it read.\<close>

fun delivery_actor :: "delivery_cmd \<Rightarrow> string option" where
  "delivery_actor (DRecord t k i c e w l m) = Some (py_strip (text_or_empty w))"
| "delivery_actor (DTurnFailed t k w err) = Some w"
| "delivery_actor (DDiscard k w) = Some w"
| "delivery_actor (DClaim t k i c e w l m r) = Some (py_strip (text_or_empty w))"
| "delivery_actor (DClaimRetry t k w l) = Some (py_strip (text_or_empty w))"
| "delivery_actor (DPromote t k w r l) = Some w"
| "delivery_actor (DReleaseRetry t k w err) = Some w"
| "delivery_actor (DSent t k w) = Some w"
| "delivery_actor (DFailed t k w err) = Some w"
| "delivery_actor _ = None"

fun delivery_clock :: "delivery_cmd \<Rightarrow> time option" where
  "delivery_clock (DRecord t k i c e w l m) = Some t"
| "delivery_clock (DTurnFailed t k w err) = Some t"
| "delivery_clock (DDiscard k w) = None"
| "delivery_clock (DRecoverStale t k) = Some t"
| "delivery_clock (DClaim t k i c e w l m r) = Some t"
| "delivery_clock (DClaimRetry t k w l) = Some t"
| "delivery_clock (DPromote t k w r l) = Some t"
| "delivery_clock (DReleaseRetry t k w err) = Some t"
| "delivery_clock (DSent t k w) = Some t"
| "delivery_clock (DFailed t k w err) = Some t"
| "delivery_clock (DResolve t k r) = Some t"
| "delivery_clock (DReset t k) = Some t"

section \<open>The row machine\<close>

text \<open>
  The abstract contract: every delivery key is a machine of its own, and a command moves at most the
  row of its key. \<open>row_effect\<close> is that machine; \<open>None\<close> is the absent row.
\<close>

fun delivery_target :: "delivery_cmd \<Rightarrow> string" where
  "delivery_target (DRecord t k i c e w l m) = py_strip (text_or_empty k)"
| "delivery_target (DTurnFailed t k w err) = k"
| "delivery_target (DDiscard k w) = k"
| "delivery_target (DRecoverStale t k) = k"
| "delivery_target (DClaim t k i c e w l m r) = py_strip (text_or_empty k)"
| "delivery_target (DClaimRetry t k w l) = py_strip (text_or_empty k)"
| "delivery_target (DPromote t k w r l) = k"
| "delivery_target (DReleaseRetry t k w err) = k"
| "delivery_target (DSent t k w) = k"
| "delivery_target (DFailed t k w err) = k"
| "delivery_target (DResolve t k r) = py_strip (text_or_empty k)"
| "delivery_target (DReset t k) = py_strip (text_or_empty k)"

definition when_row :: "(delivery_row \<Rightarrow> bool) \<Rightarrow> (delivery_row \<Rightarrow> delivery_row) \<Rightarrow> delivery_row option \<Rightarrow> delivery_row option" where
  "when_row P f x = map_option (\<lambda>r. if P r then f r else r) x"

definition fail_row :: "time \<Rightarrow> string \<Rightarrow> delivery_row \<Rightarrow> delivery_row" where
  "fail_row t err r = r\<lparr>cd_status := Failed, cd_claimed_by := None, cd_claim_expires_at := None,
     cd_last_error := Some err, cd_updated_at := t\<rparr>"

fun row_effect :: "delivery_cmd \<Rightarrow> delivery_row option \<Rightarrow> delivery_row option" where
  "row_effect (DRecord t k i c e w l m) x =
     (if py_strip (text_or_empty k) = [] \<or> py_strip (text_or_empty w) = [] then x
      else case x of
          Some r \<Rightarrow> Some r
        | None \<Rightarrow> Some \<lparr>cd_delivery_key = py_strip (text_or_empty k), cd_idempotency_key = i,
            cd_connector_id = c, cd_event_id = e, cd_status = Processing, cd_attempt_count = 0,
            cd_claimed_by = Some (py_strip (text_or_empty w)),
            cd_claim_expires_at = Some (lease_end t l), cd_last_error = None, cd_updated_at = t,
            cd_delivered_at = None, cd_message = Some m, cd_reply_text = None\<rparr>)"
| "row_effect (DTurnFailed t k w err) x =
     when_row (\<lambda>r. cd_claimed_by r = Some w \<and> cd_status r = Processing)
       (\<lambda>r. (fail_row t (take 2000 err) r)\<lparr>cd_delivered_at := None\<rparr>) x"
| "row_effect (DDiscard k w) x =
     (case x of None \<Rightarrow> None
      | Some r \<Rightarrow> if cd_status r = Processing \<and> cd_claimed_by r = Some w \<and> cd_reply_text r = None
                  then None else Some r)"
| "row_effect (DRecoverStale t k) x =
     when_row (\<lambda>r. cd_status r = Processing \<and> sql_le (cd_claim_expires_at r) t)
       (fail_row t ''connector_turn_interrupted'') x"
| "row_effect (DClaim t k i c e w l m p) x =
     (let key = py_strip (text_or_empty k); owner = py_strip (text_or_empty w) in
      if key = [] \<or> owner = [] then x
      else case x of
          None \<Rightarrow> Some \<lparr>cd_delivery_key = key, cd_idempotency_key = i, cd_connector_id = c,
            cd_event_id = e, cd_status = Sending, cd_attempt_count = 1, cd_claimed_by = Some owner,
            cd_claim_expires_at = Some (lease_end t l), cd_last_error = None, cd_updated_at = t,
            cd_delivered_at = None, cd_message = m, cd_reply_text = p\<rparr>
        | Some r \<Rightarrow>
            if cd_status r = Delivered \<or> held_by_other t owner r \<or>
               cd_status r = Sending \<and> cd_connector_id r = ''qq''
            then Some r
            else Some (r\<lparr>cd_idempotency_key := i, cd_connector_id := c, cd_event_id := e,
              cd_status := Sending, cd_attempt_count := cd_attempt_count r + 1,
              cd_claimed_by := Some owner, cd_claim_expires_at := Some (lease_end t l),
              cd_last_error := None, cd_updated_at := t, cd_delivered_at := None,
              cd_message := coalesce m (cd_message r), cd_reply_text := coalesce p (cd_reply_text r)\<rparr>))"
| "row_effect (DClaimRetry t k w l) x =
     (let owner = py_strip (text_or_empty w) in
      if py_strip (text_or_empty k) = [] \<or> owner = [] then x
      else when_row (\<lambda>r. cd_status r = Failed \<and> \<not> held_by_other t owner r \<and> cd_reply_text r = None)
        (\<lambda>r. r\<lparr>cd_attempt_count := cd_attempt_count r + 1, cd_claimed_by := Some owner,
               cd_claim_expires_at := Some (lease_end t l), cd_updated_at := t\<rparr>) x)"
| "row_effect (DPromote t k w p l) x =
     when_row (\<lambda>r. cd_claimed_by r = Some w \<and> cd_status r = Failed)
       (\<lambda>r. r\<lparr>cd_status := Sending, cd_reply_text := Some p, cd_last_error := None,
              cd_claim_expires_at := Some (lease_end t l), cd_updated_at := t\<rparr>) x"
| "row_effect (DReleaseRetry t k w err) x =
     when_row (\<lambda>r. cd_claimed_by r = Some w \<and> cd_status r = Failed) (fail_row t (take 2000 err)) x"
| "row_effect (DSent t k w) x =
     when_row (\<lambda>r. cd_claimed_by r = Some w \<and> cd_status r = Sending)
       (\<lambda>r. r\<lparr>cd_status := Delivered, cd_claimed_by := None, cd_claim_expires_at := None,
              cd_updated_at := t, cd_delivered_at := Some t\<rparr>) x"
| "row_effect (DFailed t k w err) x =
     when_row (\<lambda>r. cd_claimed_by r = Some w \<and> cd_status r = Sending)
       (\<lambda>r. (fail_row t (take 2000 err) r)\<lparr>cd_delivered_at := None\<rparr>) x"
| "row_effect (DResolve t k out) x =
     (let outcome = py_lower (py_strip (text_or_empty out)) in
      if py_strip (text_or_empty k) = [] \<or> outcome \<notin> {''delivered'', ''failed''} then x
      else when_row (\<lambda>r. cd_status r = Sending \<and>
              (cd_claim_expires_at r = None \<or> sql_le (cd_claim_expires_at r) t))
        (\<lambda>r. if outcome = ''delivered''
              then r\<lparr>cd_status := Delivered, cd_claimed_by := None, cd_claim_expires_at := None,
                     cd_last_error := None, cd_updated_at := t, cd_delivered_at := Some t\<rparr>
              else (fail_row t ''manual_resolution_failed'' r)\<lparr>cd_delivered_at := None\<rparr>) x)"
| "row_effect (DReset t k) x =
     (if py_strip (text_or_empty k) = [] then x
      else when_row (\<lambda>r. (cd_status r = Failed \<and> (cd_claimed_by r = None \<or> sql_le (cd_claim_expires_at r) t)) \<or>
              (cd_status r = Sending \<and> cd_connector_id r \<noteq> ''qq'' \<and> sql_le (cd_claim_expires_at r) t))
        (\<lambda>r. r\<lparr>cd_status := Failed, cd_claimed_by := None, cd_claim_expires_at := None,
               cd_updated_at := t\<rparr>) x)"

section \<open>The table implements the row machines\<close>

lemma row_of_update_delivery:
  assumes "\<And>r. cd_delivery_key (f r) = cd_delivery_key r"
  shows "delivery_of (snd (update_delivery key P f s)) k =
    (if k = key then when_row P f (delivery_of s k) else delivery_of s k)"
proof (cases "delivery_of s k")
  case (Some r)
  then show ?thesis using assms
    by (auto simp: update_delivery_def row_of_update when_row_def Let_def dest: row_of_key)
qed (auto simp: assms update_delivery_def row_of_update when_row_def Let_def)

lemma unique_on_update_delivery:
  assumes "\<And>r. cd_delivery_key (f r) = cd_delivery_key r"
  shows "unique_on cd_delivery_key (connector_deliveries (snd (update_delivery key P f s))) =
    unique_on cd_delivery_key (connector_deliveries s)"
  using assms by (simp add: update_delivery_def unique_on_update Let_def)

lemma update_delivery_hit:
  assumes "unique_on cd_delivery_key (connector_deliveries s)"
  shows "fst (update_delivery key P f s) \<longleftrightarrow> (\<exists>r. delivery_of s key = Some r \<and> P r)"
  using rowcount_unique [OF assms, of key P]
  by (auto simp: update_delivery_def Let_def split: option.splits if_splits)

lemma when_row_cong:
  "(\<And>r. x = Some r \<Longrightarrow> P r = Q r) \<Longrightarrow> (\<And>r. x = Some r \<Longrightarrow> P r \<Longrightarrow> f r = g r) \<Longrightarrow>
     when_row P f x = when_row Q g x"
  by (cases x) (auto simp: when_row_def)

abbreviation delivery_unique :: "turn_store \<Rightarrow> bool" where
  "delivery_unique s \<equiv> unique_on cd_delivery_key (connector_deliveries s)"

text \<open>The commands that are one guarded update; the others are handled one by one.\<close>

lemmas update_ops = mark_connector_turn_failed_def recover_stale_connector_turn_def
  promote_connector_turn_retry_def release_connector_turn_retry_def mark_connector_delivery_sent_def
  mark_connector_delivery_failed_def resolve_connector_delivery_def
  reset_connector_delivery_for_retry_def

lemma record_row:
  "delivery_of (exec_delivery (DRecord t k i c e w l m) s) x =
     (if x = py_strip (text_or_empty k) then row_effect (DRecord t k i c e w l m) (delivery_of s x)
      else delivery_of s x)"
  by (auto simp: keep_on_error_def record_connector_turn_pending_def Let_def row_of_insert_or_ignore
      split: option.splits)

lemma discard_row:
  assumes "delivery_unique s"
  shows "delivery_of (exec_delivery (DDiscard k w) s) x =
     (if x = k then row_effect (DDiscard k w) (delivery_of s x) else delivery_of s x)"
  using row_of_key [of cd_delivery_key x "connector_deliveries s"]
  by (auto simp: discard_connector_turn_pending_def Let_def row_of_delete [OF assms] split: option.splits)

lemma claim_row:
  "delivery_of (exec_delivery (DClaim t k i c e w l m p) s) x =
     (if x = py_strip (text_or_empty k) then row_effect (DClaim t k i c e w l m p) (delivery_of s x)
      else delivery_of s x)"
  using row_of_key [of cd_delivery_key x "connector_deliveries s"]
  by (auto simp: keep_on_error_def claim_connector_delivery_def Let_def row_of_update row_of_append
      split: option.splits)

lemma claim_retry_row:
  assumes "delivery_unique s"
  shows "delivery_of (exec_delivery (DClaimRetry t k w l) s) x =
     (if x = py_strip (text_or_empty k) then row_effect (DClaimRetry t k w l) (delivery_of s x)
      else delivery_of s x)"
  using row_of_key [of cd_delivery_key x "connector_deliveries s"]
  by (auto simp: keep_on_error_def claim_connector_turn_retry_def Let_def row_of_update_delivery
      update_delivery_hit [OF assms] when_row_def split: option.splits)

lemma exec_delivery_row:
  assumes "delivery_unique s"
  shows "delivery_of (exec_delivery c s) k =
    (if k = delivery_target c then row_effect c (delivery_of s k) else delivery_of s k)"
proof (cases c)
  case DRecord
  then show ?thesis by (simp only: record_row delivery_target.simps)
next
  case DDiscard
  then show ?thesis by (simp only: discard_row [OF assms] delivery_target.simps)
next
  case DClaim
  then show ?thesis by (simp only: claim_row delivery_target.simps)
next
  case DClaimRetry
  then show ?thesis by (simp only: claim_retry_row [OF assms] delivery_target.simps)
qed (auto simp: update_ops Let_def row_of_update_delivery fail_row_def intro!: when_row_cong)

lemma exec_delivery_unique: "delivery_unique s \<Longrightarrow> delivery_unique (exec_delivery c s)"
proof (cases c)
  case DRecord
  assume "delivery_unique s"
  with DRecord show ?thesis
    by (auto simp: keep_on_error_def record_connector_turn_pending_def Let_def unique_on_insert_or_ignore
        split: sum.splits)
next
  case DDiscard
  assume "delivery_unique s"
  with DDiscard show ?thesis by (simp add: discard_connector_turn_pending_def Let_def unique_on_delete)
next
  case DClaim
  assume "delivery_unique s"
  with DClaim show ?thesis
    by (auto simp: keep_on_error_def claim_connector_delivery_def Let_def unique_on_update
        split: option.splits) (auto simp: unique_on_def row_of_None)
next
  case DClaimRetry
  assume "delivery_unique s"
  with DClaimRetry show ?thesis
    by (auto simp: keep_on_error_def claim_connector_turn_retry_def Let_def unique_on_update_delivery
        split: option.splits)
qed (auto simp: update_ops Let_def unique_on_update_delivery)

section \<open>The invariant of the rows\<close>

definition row_ok :: "delivery_row \<Rightarrow> bool" where
  "row_ok r \<longleftrightarrow>
     (cd_claimed_by r = None \<longleftrightarrow> cd_claim_expires_at r = None) \<and> cd_claimed_by r \<noteq> Some [] \<and>
     (cd_delivered_at r \<noteq> None \<longleftrightarrow> cd_status r = Delivered) \<and>
     (cd_status r = Processing \<or> cd_status r = Sending \<longrightarrow> cd_claimed_by r \<noteq> None) \<and>
     (cd_status r = Delivered \<longrightarrow> cd_claimed_by r = None) \<and> 0 \<le> cd_attempt_count r"

definition delivery_inv :: "turn_store \<Rightarrow> bool" where
  "delivery_inv s \<longleftrightarrow> delivery_unique s \<and> (\<forall>r\<in>set (connector_deliveries s). row_ok r)"

lemma delivery_inv_row: "delivery_inv s \<Longrightarrow> delivery_of s k = Some r \<Longrightarrow> row_ok r"
  by (auto simp: delivery_inv_def dest: row_of_mem)

lemma delivery_invI:
  assumes "delivery_unique s" and "\<And>k r. delivery_of s k = Some r \<Longrightarrow> row_ok r"
  shows "delivery_inv s"
  using assms unique_row_of [OF assms(1)] by (auto simp: delivery_inv_def)

lemma when_row_ok:
  assumes "when_row P f x = Some r'" and "\<And>r. x = Some r \<Longrightarrow> row_ok r"
    and "\<And>r. row_ok r \<Longrightarrow> P r \<Longrightarrow> row_ok (f r)"
  shows "row_ok r'"
  using assms by (cases x) (auto simp: when_row_def split: if_splits)

lemma row_effect_ok:
  assumes ok: "\<And>r. x = Some r \<Longrightarrow> row_ok r" and eff: "row_effect c x = Some r'"
  shows "row_ok r'"
proof (cases c)
  case DRecord
  with eff ok show ?thesis by (auto simp: row_ok_def split: if_splits option.splits)
next
  case DDiscard
  with eff ok show ?thesis by (auto split: if_splits option.splits)
next
  case (DClaim t k i c e w l m p)
  show ?thesis
  proof (cases x)
    case None
    with eff DClaim show ?thesis by (auto simp: row_ok_def Let_def split: if_splits)
  next
    case (Some r)
    then have "row_ok r" by (rule ok)
    with eff DClaim Some show ?thesis by (auto simp: Let_def row_ok_def split: if_splits)
  qed
next
  case (DClaimRetry t k w l)
  with eff ok show ?thesis
    by (auto simp: Let_def elim!: when_row_ok split: if_splits) (auto simp: row_ok_def)
next
  case (DResolve t k out)
  with eff ok show ?thesis
    by (auto simp: Let_def elim!: when_row_ok split: if_splits) (auto simp: row_ok_def fail_row_def)
next
  case (DReset t k)
  with eff ok show ?thesis
    by (auto elim!: when_row_ok split: if_splits) (auto simp: row_ok_def)
qed (use eff ok in \<open>auto elim!: when_row_ok\<close>, auto simp: row_ok_def fail_row_def)

lemma delivery_step_inv: "delivery_inv s \<Longrightarrow> delivery_inv (exec_delivery c s)"
proof (rule delivery_invI)
  assume inv: "delivery_inv s"
  then show "delivery_unique (exec_delivery c s)"
    by (simp add: delivery_inv_def exec_delivery_unique)
  fix k r
  assume "delivery_of (exec_delivery c s) k = Some r"
  with inv show "row_ok r"
    using delivery_inv_row [OF inv] row_effect_ok [of "delivery_of s k" c]
    by (auto simp: exec_delivery_row delivery_inv_def split: if_splits)
qed

section \<open>Delivered rows never change\<close>

definition delivered_kept :: "turn_store \<Rightarrow> turn_store \<Rightarrow> bool" where
  "delivered_kept s t \<longleftrightarrow>
     (\<forall>k r. delivery_of s k = Some r \<and> cd_status r = Delivered \<longrightarrow> delivery_of t k = Some r)"

lemma row_effect_delivered: "cd_status r = Delivered \<Longrightarrow> row_effect c (Some r) = Some r"
  by (cases c) (auto simp: when_row_def Let_def)

interpretation delivery: ordered_machine exec_delivery delivery_inv delivered_kept
proof unfold_locales
  show "delivered_kept s t \<Longrightarrow> delivered_kept t u \<Longrightarrow> delivered_kept s u" for s t u
    by (auto simp: delivered_kept_def)
  show "delivery_inv s \<Longrightarrow> delivered_kept s (exec_delivery c s)" for s c
    by (auto simp: delivered_kept_def exec_delivery_row delivery_inv_def row_effect_delivered)
qed (auto simp: delivery_step_inv delivered_kept_def)

section \<open>Leases are respected\<close>

definition delivery_lease :: "delivery_row \<Rightarrow> (string \<times> time) option" where
  "delivery_lease r = (case (cd_claimed_by r, cd_claim_expires_at r) of
     (Some w, Some e) \<Rightarrow> Some (w, e) | _ \<Rightarrow> None)"

lemma delivery_leaseD:
  "delivery_lease r = Some (w, e) \<Longrightarrow> cd_claimed_by r = Some w \<and> cd_claim_expires_at r = Some e"
  by (auto simp: delivery_lease_def split: option.splits)

lemma row_effect_leased:
  assumes "row_ok r" and "delivery_lease r = Some (w, e)" and "delivery_actor c \<noteq> Some w"
    and "\<forall>t. delivery_clock c = Some t \<longrightarrow> t < e"
  shows "row_effect c (Some r) = Some r"
  using assms delivery_leaseD [OF assms(2)]
  by (cases c)
    (auto simp: when_row_def row_ok_def held_by_other_def expires_or_zero_def text_or_empty_def Let_def)

interpretation delivery: leased_rows exec_delivery delivery_inv
  "\<lambda>s k. delivery_of s k" delivery_lease delivery_actor delivery_clock
proof unfold_locales
  fix s k r w e c
  assume "delivery_inv s" and "delivery_of s k = Some r" and "delivery_lease r = Some (w, e)"
    and "delivery_actor c \<noteq> Some w" and "\<forall>t. delivery_clock c = Some t \<longrightarrow> t < e"
  then show "delivery_of (exec_delivery c s) k = Some r"
    using row_effect_leased [of r w e c] delivery_inv_row [of s k r]
    by (auto simp: exec_delivery_row delivery_inv_def)
qed

section \<open>The QQ rule\<close>

text \<open>The commands that may end a QQ send: the sender's own report, or an operator's resolution.\<close>

fun settles_send :: "string \<Rightarrow> delivery_cmd \<Rightarrow> bool" where
  "settles_send w (DSent t k v) = (v = w)"
| "settles_send w (DFailed t k v err) = (v = w)"
| "settles_send w (DResolve t k out) = True"
| "settles_send w _ = False"

lemma row_effect_qq:
  assumes "cd_status r = Sending" and "cd_connector_id r = ''qq''" and "cd_claimed_by r = Some w"
    and "\<not> settles_send w c"
  shows "row_effect c (Some r) = Some r"
  using assms by (cases c) (auto simp: when_row_def Let_def)

lemma qq_run:
  assumes "delivery_inv s" and "delivery_of s k = Some r" and "cd_status r = Sending"
    and "cd_connector_id r = ''qq''" and "cd_claimed_by r = Some w"
    and "\<forall>c\<in>set cs. \<not> settles_send w c"
  shows "delivery_of (fold exec_delivery cs s) k = Some r"
  using assms
proof (induction cs arbitrary: s)
  case (Cons c cs)
  then have "delivery_of (exec_delivery c s) k = Some r"
    by (auto simp: exec_delivery_row delivery_inv_def row_effect_qq)
  with Cons show ?case by (auto simp: delivery_step_inv)
qed simp

section \<open>The status graph\<close>

inductive delivery_edge :: "delivery_status option \<Rightarrow> delivery_status option \<Rightarrow> bool" where
  recorded: "delivery_edge None (Some Processing)"
| claimed_fresh: "delivery_edge None (Some Sending)"
| discarded: "delivery_edge (Some Processing) None"
| turn_failed: "delivery_edge (Some Processing) (Some Failed)"
| turn_done: "delivery_edge (Some Processing) (Some Sending)"
| retried: "delivery_edge (Some Failed) (Some Sending)"
| send_failed: "delivery_edge (Some Sending) (Some Failed)"
| sent: "delivery_edge (Some Sending) (Some Delivered)"

inductive_simps edge_to_delivered: "delivery_edge x (Some Delivered)"
inductive_simps edge_from_delivered: "delivery_edge (Some Delivered) x"

definition status_of :: "turn_store \<Rightarrow> string \<Rightarrow> delivery_status option" where
  "status_of s k = map_option cd_status (delivery_of s k)"

lemma row_effect_edge:
  "map_option cd_status (row_effect c x) = map_option cd_status x \<or>
   delivery_edge (map_option cd_status x) (map_option cd_status (row_effect c x))"
proof (cases x)
  case None
  then show ?thesis by (cases c) (auto simp: when_row_def Let_def intro: delivery_edge.intros)
next
  case (Some r)
  then show ?thesis
    by (cases c; cases "cd_status r")
      (auto simp: when_row_def fail_row_def Let_def intro: delivery_edge.intros)
qed

lemma exec_delivery_edge:
  "delivery_inv s \<Longrightarrow> delivery_edge\<^sup>=\<^sup>= (status_of s k) (status_of (exec_delivery c s) k)"
  using row_effect_edge [of c "delivery_of s k"]
  by (auto simp: status_of_def exec_delivery_row delivery_inv_def)

end
