(* ===== verification/Turn_Runs.thy ===== *)
theory Turn_Runs
  imports Claim_Runs Outbox_Runs Delivery_Runs
begin

text \<open>
  Runs of the whole \<open>TurnCommitStore\<close>: claims and commits, the outbox and the connector deliveries
  interleaved in any order. The transactional outbox is an invariant here: every commit has exactly
  one event, with the same document, and every event belongs to a commit.
\<close>

datatype turn_cmd = TClaim claim_cmd | TOutbox outbox_cmd | TDelivery delivery_cmd

fun exec_turn :: "turn_cmd \<Rightarrow> turn_store \<Rightarrow> turn_store" where
  "exec_turn (TClaim c) s = exec_claim c s"
| "exec_turn (TOutbox c) s = exec_outbox c s"
| "exec_turn (TDelivery c) s = exec_delivery c s"

section \<open>Each group of operations keeps the tables of the others\<close>

lemma claim_frame:
  "connector_deliveries (exec_claim c s) = connector_deliveries s"
  "projection_acks (exec_claim c s) = projection_acks s"
  by (cases c; auto simp: claim_def renew_claim_def release_claim_def Let_def keep_on_failure_def
      persist_InrD(7,8) split: option.splits sum.splits)+

lemma claim_frame_outbox:
  "(\<forall>e i t co. c \<noteq> CPersist e i t co) \<Longrightarrow>
     turn_outbox (exec_claim c s) = turn_outbox s \<and> outbox_seq (exec_claim c s) = outbox_seq s \<and>
     turn_commits (exec_claim c s) = turn_commits s"
  by (cases c) (auto simp: claim_def renew_claim_def release_claim_def Let_def split: option.splits)

lemma outbox_frame:
  "turn_commits (exec_outbox c s) = turn_commits s"
  "turn_claims (exec_outbox c s) = turn_claims s"
  "connector_deliveries (exec_outbox c s) = connector_deliveries s"
  by (cases c; auto simp: claim_next_outbox_def fail_outbox_def renew_outbox_claim_def acknowledge_def
      acknowledge_projection_def Let_def split: option.splits)+

lemma delivery_frame:
  "turn_commits (exec_delivery c s) = turn_commits s"
  "turn_claims (exec_delivery c s) = turn_claims s"
  "turn_outbox (exec_delivery c s) = turn_outbox s"
  "outbox_seq (exec_delivery c s) = outbox_seq s"
  by (cases c; auto simp: update_ops update_delivery_def keep_on_error_def claim_connector_turn_retry_def
      record_connector_turn_pending_def discard_connector_turn_pending_def claim_connector_delivery_def
      Let_def split: option.splits sum.splits)+

section \<open>A commit appends one fresh event\<close>

lemma persist_outbox_inv:
  assumes "outbox_inv s" and "persist e i t c s = Inr s'"
  shows "outbox_inv s'"
proof -
  let ?r = "outbox_row_of t (persist_payload e i t c) (outbox_seq s + 1) c"
  have new: "ob_event_id ?r = outbox_seq s + 1" "outbox_row_ok ?r" "ob_claimed_by ?r = None"
    by (simp_all add: outbox_row_of_def outbox_row_ok_def)
  have ids: "\<forall>r\<in>set (turn_outbox s). outbox_row_ok r \<and> ob_event_id r \<le> outbox_seq s"
    and first: "claimed_first (set (turn_outbox s))"
    and uniq: "unique_on ob_event_id (turn_outbox s)" "unique_on ob_idempotency_key (turn_outbox s)"
    using assms(1) by (auto simp: outbox_inv_def)
  show ?thesis
  proof (cases "event_for s (co_idempotency_key c)")
    case (Some r)
    then have "turn_outbox s' = turn_outbox s"
      by (simp add: persist_InrD(4) [OF assms(2)] insert_or_ignore_def)
    with ids first uniq show ?thesis
      by (auto simp: outbox_inv_def persist_InrD(5) [OF assms(2)])
  next
    case None
    then have out: "turn_outbox s' = turn_outbox s @ [?r]"
      by (simp add: persist_InrD(4) [OF assms(2)] insert_or_ignore_def)
    have "unique_on ob_event_id (turn_outbox s')"
      using uniq(1) ids new(1) by (force simp: out unique_on_def)
    moreover have "unique_on ob_idempotency_key (turn_outbox s')"
      using uniq(2) unique_on_insert_or_ignore [OF uniq(2)] by (simp add: persist_InrD(4) [OF assms(2)])
    moreover have "claimed_first (set (turn_outbox s'))"
      using first ids new by (fastforce simp: out claimed_first_def)
    moreover have "\<forall>r\<in>set (turn_outbox s'). outbox_row_ok r \<and> ob_event_id r \<le> outbox_seq s'"
      using ids new by (auto simp: out persist_InrD(5) [OF assms(2)])
    ultimately show ?thesis by (simp add: outbox_inv_def)
  qed
qed

section \<open>The transactional outbox\<close>

definition transactional :: "turn_store \<Rightarrow> bool" where
  "transactional s \<longleftrightarrow>
     (\<forall>k. map_option cm_result (commit_of s k) = map_option ob_payload (event_for s k)) \<and>
     (\<forall>r\<in>set (turn_outbox s). ob_event_type r = ''turn.committed'')"

lemma persist_transactional:
  assumes "transactional s" and "persist e i t c s = Inr s'"
  shows "transactional s'"
proof -
  have same: "map_option cm_result (commit_of s k) = map_option ob_payload (event_for s k)" for k
    using assms(1) by (simp add: transactional_def)
  have "map_option cm_result (commit_of s' k) = map_option ob_payload (event_for s' k)" for k
    using same [of k]
    by (auto simp: commit_of_persist [OF assms(2)] event_for_persist [OF assms(2)] commit_row_of_def
        outbox_row_of_def split: option.splits)
  moreover have "ob_event_type r = ''turn.committed''" if "r \<in> set (turn_outbox s')" for r
    using that assms(1)
    by (auto simp: persist_InrD(4) [OF assms(2)] insert_or_ignore_def transactional_def outbox_row_of_def
        split: if_splits)
  ultimately show ?thesis by (simp add: transactional_def)
qed

lemma event_for_outbox:
  "outbox_inv s \<Longrightarrow>
     event_for (exec_outbox c s) k = map_option (outbox_effect c (pending_head s)) (event_for s k)"
  by (simp add: exec_outbox_rows map_row_of)

definition turn_inv :: "turn_store \<Rightarrow> bool" where
  "turn_inv s \<longleftrightarrow> claim_inv s \<and> outbox_inv s \<and> delivery_inv s \<and> transactional s"

lemma turn_inv_empty: "turn_inv empty_store"
  by (simp add: turn_inv_def empty_store_def claim_inv_def outbox_inv_def delivery_inv_def
      transactional_def claimed_first_def)

lemma claim_turn_inv:
  assumes "turn_inv s"
  shows "turn_inv (exec_claim c s)"
proof -
  have "outbox_inv (exec_claim c s) \<and> transactional (exec_claim c s)"
  proof (cases "\<exists>e i t co. c = CPersist e i t co")
    case True
    then obtain e i t co where c: "c = CPersist e i t co" by blast
    with assms show ?thesis
      by (auto simp: turn_inv_def keep_on_failure_def persist_outbox_inv persist_transactional
          split: sum.splits)
  next
    case False
    with claim_frame_outbox [of c s] assms show ?thesis
      by (simp add: turn_inv_def outbox_inv_def transactional_def)
  qed
  with assms show ?thesis
    by (simp add: turn_inv_def claim_step_inv delivery_inv_def claim_frame)
qed

lemma outbox_turn_inv:
  assumes "turn_inv s"
  shows "turn_inv (exec_outbox c s)"
proof -
  have ob: "outbox_inv s" and tr: "transactional s" using assms by (auto simp: turn_inv_def)
  have "map_option ob_payload (event_for (exec_outbox c s) k) = map_option ob_payload (event_for s k)" for k
    by (simp add: event_for_outbox [OF ob] option.map_comp comp_def)
  with tr have "transactional (exec_outbox c s)"
    by (auto simp: transactional_def outbox_frame exec_outbox_rows [OF ob])
  with assms show ?thesis
    by (simp add: turn_inv_def outbox_step_inv claim_inv_def delivery_inv_def outbox_frame)
qed

lemma delivery_turn_inv: "turn_inv s \<Longrightarrow> turn_inv (exec_delivery c s)"
  by (simp add: turn_inv_def delivery_step_inv claim_inv_def outbox_inv_def transactional_def delivery_frame)

section \<open>What a run keeps\<close>

definition turn_kept :: "turn_store \<Rightarrow> turn_store \<Rightarrow> bool" where
  "turn_kept s t \<longleftrightarrow> commits_kept s t \<and> outbox_kept s t \<and> delivered_kept s t"

lemma persist_outbox_kept:
  assumes "persist e i t c s = Inr s'"
  shows "outbox_kept s s'"
  by (auto simp: outbox_kept_def persist_InrD(4) [OF assms] insert_or_ignore_def row_of_append
      event_kept_def split: option.splits)

lemma claim_turn_kept:
  assumes "turn_inv s"
  shows "turn_kept s (exec_claim c s)"
proof -
  have "outbox_kept s (exec_claim c s)"
  proof (cases "\<exists>e i t co. c = CPersist e i t co")
    case True
    then show ?thesis
      by (auto simp: keep_on_failure_def persist_outbox_kept outbox.leq_refl split: sum.splits)
  next
    case False
    with claim_frame_outbox [of c s] show ?thesis by (simp add: outbox_kept_def event_kept_def)
  qed
  moreover have "commits_kept s (exec_claim c s)"
    using assms by (auto simp: turn_inv_def intro: claims.step_leq)
  moreover have "delivered_kept s (exec_claim c s)"
    by (simp add: delivered_kept_def claim_frame)
  ultimately show ?thesis by (simp add: turn_kept_def)
qed

lemma outbox_turn_kept: "turn_inv s \<Longrightarrow> turn_kept s (exec_outbox c s)"
  by (auto simp: turn_kept_def turn_inv_def commits_kept_def delivered_kept_def outbox_frame
      intro: outbox.step_leq)

lemma delivery_turn_kept: "turn_inv s \<Longrightarrow> turn_kept s (exec_delivery c s)"
  by (auto simp: turn_kept_def turn_inv_def commits_kept_def outbox_kept_def event_kept_def
      delivery_frame intro: delivery.step_leq)

interpretation turns: ordered_machine exec_turn turn_inv turn_kept
proof unfold_locales
  show "turn_kept s s" for s
    by (simp add: turn_kept_def claims.leq_refl outbox.leq_refl delivery.leq_refl)
  show "turn_kept s t \<Longrightarrow> turn_kept t u \<Longrightarrow> turn_kept s u" for s t u
    unfolding turn_kept_def by (meson claims.leq_trans outbox.leq_trans delivery.leq_trans)
  show "turn_inv s \<Longrightarrow> turn_inv (exec_turn c s)" for s c
    by (cases c) (simp_all add: claim_turn_inv outbox_turn_inv delivery_turn_inv)
  show "turn_inv s \<Longrightarrow> turn_kept s (exec_turn c s)" for s c
    by (cases c) (simp_all add: claim_turn_kept outbox_turn_kept delivery_turn_kept)
qed

text \<open>The stores the program can reach.\<close>

inductive reachable :: "turn_store \<Rightarrow> bool" where
  start: "reachable empty_store"
| step: "reachable s \<Longrightarrow> reachable (exec_turn c s)"

lemma reachable_inv: "reachable s \<Longrightarrow> turn_inv s"
  by (induction rule: reachable.induct) (auto simp: turn_inv_empty turns.step_inv)

lemma reachable_run: "reachable s \<Longrightarrow> reachable (fold exec_turn cs s)"
  by (induction cs arbitrary: s) (auto intro: reachable.step)

section \<open>One event at a time\<close>

lemma single_pending_claim:
  assumes "turn_inv s" and "event_of s d = Some q" and "event_of s e = Some r"
    and "pending q" and "pending r" and "ob_claimed_by q \<noteq> None" and "ob_claimed_by r \<noteq> None"
  shows "d = e"
proof -
  have "claimed_first (set (turn_outbox s))" using assms(1) by (simp add: turn_inv_def outbox_inv_def)
  with assms have "ob_event_id q = ob_event_id r"
    using row_of_mem [OF assms(2)] row_of_mem [OF assms(3)] by (auto simp: claimed_first_def intro: order.antisym)
  with assms(2,3) show ?thesis by (auto dest: row_of_key)
qed

text \<open>The claim table under the whole machine: the lease contract survives the other operations.\<close>

fun turn_actor :: "turn_cmd \<Rightarrow> string option" where
  "turn_actor (TClaim c) = claim_actor c"
| "turn_actor _ = None"

fun turn_clock :: "turn_cmd \<Rightarrow> time option" where
  "turn_clock (TClaim c) = claim_clock c"
| "turn_clock _ = None"

interpretation turns: leased_rows exec_turn turn_inv
  "\<lambda>s k. claim_of s k" claim_lease turn_actor turn_clock
proof unfold_locales
  fix s k r w e c
  assume "turn_inv s" and "claim_of s k = Some r" and "claim_lease r = Some (w, e)"
    and "turn_actor c \<noteq> Some w" and "\<forall>t. turn_clock c = Some t \<longrightarrow> t < e"
  then show "claim_of (exec_turn c s) k = Some r"
    by (cases c) (auto simp: outbox_frame delivery_frame turn_inv_def intro: claims.lease_respected)
qed

text \<open>The attempt bound under the whole machine: new events start at zero attempts.\<close>

lemma attempts_below_turn_step:
  assumes "turn_inv s" and "attempts_below M s" and "0 < M" and "\<forall>c'. c = TOutbox c' \<longrightarrow> within_limit M c'"
  shows "attempts_below M (exec_turn c s)"
proof (cases c)
  case (TClaim c')
  show ?thesis
  proof (cases "\<exists>e i t co. c' = CPersist e i t co")
    case True
    with TClaim assms(2,3) show ?thesis
      by (auto simp: attempts_below_def keep_on_failure_def persist_InrD(4) insert_or_ignore_def
          outbox_row_of_def split: sum.splits if_splits)
  next
    case False
    with claim_frame_outbox [of c' s] TClaim assms(2) show ?thesis by (simp add: attempts_below_def)
  qed
next
  case TOutbox
  with assms show ?thesis by (auto simp: turn_inv_def attempts_below_step)
next
  case TDelivery
  with assms(2) show ?thesis by (simp add: attempts_below_def delivery_frame)
qed

lemma attempts_below_turn_run:
  assumes "turn_inv s" and "attempts_below M s" and "\<forall>c\<in>set cs. \<forall>c'. c = TOutbox c' \<longrightarrow> within_limit M c'"
    and "0 < M"
  shows "attempts_below M (fold exec_turn cs s)"
  using assms by (induction cs arbitrary: s) (auto simp: attempts_below_turn_step turns.step_inv)

end
