(* ===== verification/Ordered_Dict.thy ===== *)
theory Ordered_Dict
  imports Main
begin

text \<open>
  Python's \<open>OrderedDict\<close> as its list of items in order, with the lookups, key sets and sizes after
  each operation.
\<close>

section \<open>Ordered dictionaries\<close>

text \<open>\<open>d.get(k)\<close>, \<open>d[k] = v\<close> (an existing key keeps its place), \<open>d.pop(k, None)\<close> and \<open>move_to_end\<close>.\<close>

definition od_set :: "'k \<Rightarrow> 'v \<Rightarrow> ('k \<times> 'v) list \<Rightarrow> ('k \<times> 'v) list" where
  "od_set k v d = (if map_of d k = None then d @ [(k, v)] else map (\<lambda>e. if fst e = k then (k, v) else e) d)"

definition od_pop :: "'k \<Rightarrow> ('k \<times> 'v) list \<Rightarrow> ('k \<times> 'v) list" where
  "od_pop k d = filter (\<lambda>e. fst e \<noteq> k) d"

definition od_to_end :: "'k \<Rightarrow> ('k \<times> 'v) list \<Rightarrow> ('k \<times> 'v) list" where
  "od_to_end k d = (case map_of d k of None \<Rightarrow> d | Some v \<Rightarrow> od_pop k d @ [(k, v)])"

section \<open>Laws of ordered dictionaries\<close>

lemma map_of_pop: "map_of (od_pop k d) x = (if x = k then None else map_of d x)"
  by (induction d) (auto simp: od_pop_def)

lemma map_of_od_set: "map_of (od_set k v d) x = (if x = k then Some v else map_of d x)"
proof (cases "map_of d k")
  case None
  then show ?thesis by (auto simp: od_set_def map_add_def split: option.splits)
next
  case (Some u)
  have "map_of (map (\<lambda>e. if fst e = k then (k, v) else e) d) x =
      (if x = k then map_option (\<lambda>_. v) (map_of d k) else map_of d x)"
    by (induction d) auto
  with Some show ?thesis by (simp add: od_set_def)
qed

lemma map_of_to_end: "map_of (od_to_end k d) x = map_of d x"
  by (auto simp: od_to_end_def map_of_pop map_add_def split: option.splits)

lemmas od_lookup [simp] = map_of_pop map_of_od_set map_of_to_end

lemma fst_set_dict: "fst ` set d = {k. map_of d k \<noteq> None}"
  by (auto simp: map_of_eq_None_iff)

lemma keys_pop: "map fst (od_pop k d) = filter (\<lambda>x. x \<noteq> k) (map fst d)"
  by (induction d) (auto simp: od_pop_def)

lemma keys_set: "map fst (od_set k v d) = (if map_of d k = None then map fst d @ [k] else map fst d)"
  by (auto simp: od_set_def)

lemma distinct_od [simp]:
  "distinct (map fst d) \<Longrightarrow> distinct (map fst (od_pop k d))"
  "distinct (map fst d) \<Longrightarrow> distinct (map fst (od_set k v d))"
  "distinct (map fst d) \<Longrightarrow> distinct (map fst (od_to_end k d))"
proof -
  assume d: "distinct (map fst d)"
  then show pop: "distinct (map fst (od_pop k d))" by (simp only: keys_pop distinct_filter)
  show "distinct (map fst (od_set k v d))"
    using d unfolding keys_set by (auto simp: map_of_eq_None_iff)
  from d pop show "distinct (map fst (od_to_end k d))"
    by (auto simp: od_to_end_def keys_pop od_pop_def split: option.splits)
qed

lemma length_pop:
  "distinct (map fst d) \<Longrightarrow> length (od_pop k d) = (if map_of d k = None then length d else length d - 1)"
proof (induction d)
  case (Cons e d)
  show ?case
  proof (cases "fst e = k")
    case True
    with Cons.prems have "filter (\<lambda>e. fst e \<noteq> k) d = d" by (intro filter_True) (auto simp: rev_image_eqI)
    with True show ?thesis by (simp add: od_pop_def)
  next
    case False
    with Cons have "length (od_pop k d) = (if map_of d k = None then length d else length d - 1)" by simp
    moreover have "d \<noteq> []" if "map_of d k \<noteq> None" using that by auto
    ultimately show ?thesis using False by (auto simp: od_pop_def)
  qed
qed (simp add: od_pop_def)

lemma length_set: "length (od_set k v d) = (if map_of d k = None then Suc (length d) else length d)"
  by (simp add: od_set_def)

lemma length_to_end: "distinct (map fst d) \<Longrightarrow> length (od_to_end k d) = length d"
  using length_pop [of d k] by (cases d) (auto simp: od_to_end_def split: option.splits)

lemmas od_length [simp] = length_pop length_set length_to_end

lemma map_of_all: "distinct (map fst d) \<Longrightarrow> (\<forall>e\<in>set d. P (fst e) (snd e)) \<longleftrightarrow> (\<forall>k v. map_of d k = Some v \<longrightarrow> P k v)"
  by (metis (full_types) map_of_SomeD map_of_is_SomeI prod.collapse fst_conv snd_conv)

end
