(* ===== verification/Turn_Service.thy ===== *)
theory Turn_Service
  imports Turn_Runs Ordered_Dict
begin

text \<open>
  The execution of one semantic turn (\<open>modules/agent/turn_service.py\<close>), wired to the turn store as the
  runtime does: the durable result is looked up, else the claim of the turn is obtained or another
  executor's result awaited, the runner is run while the claim is renewed, and the result is
  committed, read back, projected and remembered. What the environment does is the record
  \<open>execution_io\<close>: clocks, fresh identifiers, how the runner and the projection end, and the store
  commands of all other executors between any two steps of this one. The key and the fingerprint of a
  request are given; \<open>str_of\<close> is Python's \<open>str\<close> of a value that is not a text.
\<close>

section \<open>Results\<close>

text \<open>\<open>any\<close> over parts: a credential for resuming at any depth.\<close>

fun contains_raw_resume_token :: "json \<Rightarrow> bool" where
  "contains_raw_resume_token (JObj d) =
     list_ex (\<lambda>(k, v). k \<in> {''resume_token'', ''resumeToken''} \<or> contains_raw_resume_token v) d"
| "contains_raw_resume_token (JList xs) = list_ex contains_raw_resume_token xs"
| "contains_raw_resume_token _ = False"

definition valid_terminal_turn_outcomes :: "string list" where
  "valid_terminal_turn_outcomes = [''completed'', ''cancelled'', ''failed'', ''unknown_effect'']"

text \<open>\<open>__post_init__\<close> of the result accepts it; its descriptors are dictionaries or absent.\<close>

definition result_accepted :: "pipeline_result \<Rightarrow> bool" where
  "result_accepted r \<longleftrightarrow>
     (let recovery = dict_of (pr_recovery r)
      in pr_outcome r \<in> set valid_terminal_turn_outcomes \<and> \<not> (pr_outcome r = ''unknown_effect'' \<and> pr_retryable r) \<and>
         list_all (\<lambda>v. (case v of JNull \<Rightarrow> True | JObj d \<Rightarrow> \<not> contains_raw_resume_token v | _ \<Rightarrow> False))
           [pr_failure r, pr_recovery r] \<and>
         \<not> (pr_outcome r = ''unknown_effect'' \<and> truthy (dict_get recovery ''available'')) \<and>
         \<not> (dict_get recovery ''available'' = JBool True \<and> dict_get recovery ''retryable'' = JBool False))"

definition plain_result :: "string \<Rightarrow> json \<Rightarrow> dict \<Rightarrow> dict \<Rightarrow> pipeline_result" where
  "plain_result outcome failure budget usage =
     \<lparr>pr_reply = [], pr_pet_control = JNull, pr_tool_calls = JList [], pr_action_envelope = JNull,
      pr_failure = failure, pr_recovery = JNull, pr_outcome = outcome, pr_retryable = False,
      pr_configured_budget = budget, pr_consumed_usage = usage\<rparr>"

section \<open>Requests, commits and the service\<close>

record turn_request =
  rq_key :: string
  rq_fingerprint :: string
  rq_trigger :: string
  rq_context :: agent_context
  rq_max_tokens :: int
  rq_replays :: bool

record service_config =
  sv_epoch :: string
  sv_lease :: real
  sv_wait :: real
  sv_retained :: nat
  sv_finalizes :: bool

definition new_turn_service :: "string \<Rightarrow> int \<Rightarrow> real \<Rightarrow> real \<Rightarrow> bool \<Rightarrow> service_config" where
  "new_turn_service epoch retained lease wait finalizes =
     \<lparr>sv_epoch = epoch, sv_lease = max (1/10) lease, sv_wait = max (1/10) wait, sv_retained = nat (max 1 retained),
      sv_finalizes = finalizes\<rparr>"

record service_commit =
  sc_commit :: turn_commit
  sc_persisted :: bool
  sc_replayed :: bool
  sc_projection_pending :: bool
  sc_projection_error :: "string option"

record service_world =
  sw_store :: turn_store
  sw_commits :: "(string \<times> service_commit) list"
  sw_runs :: "string list"

datatype service_exception =
    IdentityConflict
  | StoredInvalid
  | InvalidToken
  | ClaimTimeout
  | ServiceClaimLost
  | PersistFailed persist_error
  | InvalidResult
  | ReplayFailed string
  | ServiceCancelled

definition turn_commit_of :: "turn_request \<Rightarrow> pipeline_result \<Rightarrow> (string \<times> int) option \<Rightarrow> turn_commit" where
  "turn_commit_of rq r claimed =
     \<lparr>co_idempotency_key = rq_key rq, co_semantic_fingerprint = rq_fingerprint rq, co_trigger = rq_trigger rq,
      co_context = rq_context rq, co_result = r, co_claim_owner = map_option fst claimed,
      co_claim_fencing_token = map_option snd claimed\<rparr>"

definition configured_budget :: "turn_request \<Rightarrow> dict" where
  "configured_budget rq =
     (let extra = cx_extra (rq_context rq);
          budget = dict_setdefault ''output_tokens'' (JInt (max 0 (rq_max_tokens rq)))
                     (dict_of (json_or (dict_get extra ''configured_budget'') (JObj [])))
      in fold (\<lambda>name b. if dict_get extra name = JNull then b else dict_setdefault name (dict_get extra name) b)
           [''max_iterations'', ''retry_limit'', ''tool_budget''] budget)"

section \<open>Loading a stored turn\<close>

definition stored_outcome :: "(json \<Rightarrow> string) \<Rightarrow> json \<Rightarrow> string option" where
  "stored_outcome str_of v =
     (let o' = (case json_or v (JStr ''completed'') of JStr s \<Rightarrow> s | x \<Rightarrow> str_of x)
      in if o' \<in> set valid_terminal_turn_outcomes then Some o' else None)"

definition null_or_object :: "json \<Rightarrow> bool" where
  "null_or_object v = (case v of JNull \<Rightarrow> True | JObj d \<Rightarrow> True | _ \<Rightarrow> False)"

definition stored_result :: "(json \<Rightarrow> string) \<Rightarrow> dict \<Rightarrow> service_exception + pipeline_result" where
  "stored_result str_of raw =
     (case dict_get raw ''tool_calls'' of
        JList xs \<Rightarrow>
          if \<not> list_all (\<lambda>x. case x of JObj d \<Rightarrow> True | _ \<Rightarrow> False) xs \<or>
             \<not> list_all (\<lambda>k. null_or_object (dict_get raw k)) [''pet_control'', ''action_envelope'', ''failure'', ''recovery'']
          then Inl StoredInvalid
          else case stored_outcome str_of (dict_get raw ''outcome'') of
              None \<Rightarrow> Inl StoredInvalid
            | Some outcome \<Rightarrow>
                (let r = \<lparr>pr_reply = (case json_or (dict_get raw ''reply'') (JStr []) of JStr s \<Rightarrow> s | x \<Rightarrow> str_of x),
                     pr_pet_control = dict_get raw ''pet_control'', pr_tool_calls = JList xs,
                     pr_action_envelope = dict_get raw ''action_envelope'', pr_failure = dict_get raw ''failure'',
                     pr_recovery = dict_get raw ''recovery'', pr_outcome = outcome,
                     pr_retryable = truthy (dict_get raw ''retryable''),
                     pr_configured_budget = dict_of (json_or (dict_get raw ''configured_budget'') (JObj [])),
                     pr_consumed_usage = dict_of (json_or (dict_get raw ''consumed_usage'') (JObj []))\<rparr>
                 in if result_accepted r then Inr r else Inl StoredInvalid)
      | _ \<Rightarrow> Inl StoredInvalid)"

definition replayed_commit :: "turn_request \<Rightarrow> pipeline_result \<Rightarrow> service_commit" where
  "replayed_commit rq r = \<lparr>sc_commit = turn_commit_of rq r None, sc_persisted = True, sc_replayed = True,
     sc_projection_pending = False, sc_projection_error = None\<rparr>"

definition load_persisted :: "service_config \<Rightarrow> (json \<Rightarrow> string) \<Rightarrow> turn_request \<Rightarrow> turn_store
    \<Rightarrow> service_exception + service_commit option" where
  "load_persisted cfg str_of rq s =
     (case load (sv_epoch cfg) (Some (rq_key rq)) s of
        None \<Rightarrow> Inr None
      | Some d \<Rightarrow>
          if ld_semantic_fingerprint d \<noteq> rq_fingerprint rq then Inl IdentityConflict
          else map_sum id (\<lambda>r. Some (replayed_commit rq r)) (stored_result str_of (ld_result d)))"

section \<open>The claim\<close>

record poll_io =
  pl_others :: "turn_cmd list"
  pl_now :: time
  pl_others_load :: "turn_cmd list"
  pl_elapsed :: real
  pl_cancelled :: bool
  pl_overslept :: real

datatype claim_result = ClaimGranted int | StoredTurn service_commit

definition retry_after :: "claim_outcome \<Rightarrow> real" where
  "retry_after x = max (1/100) (case x of ClaimBusy r \<Rightarrow> if r = 0 then 1/20 else r | _ \<Rightarrow> 1/20)"

lemma retry_after_positive: "1/100 \<le> retry_after x"
  by (simp add: retry_after_def)

text \<open>
  One poll at the loop's clock \<open>t\<close>: the claim, then the stored result of another executor, then the pause.
  Time passes during a poll and while asleep. The result ends the loop or tells when it goes on.
\<close>

definition poll_claim :: "service_config \<Rightarrow> (json \<Rightarrow> string) \<Rightarrow> turn_request \<Rightarrow> string \<Rightarrow> poll_io \<Rightarrow> time \<Rightarrow> time \<Rightarrow> turn_store
    \<Rightarrow> (service_exception + claim_result + time) \<times> turn_store" where
  "poll_claim cfg str_of rq owner p t deadline s =
     (let (outcome, s) = claim (pl_now p) (rq_key rq) (rq_fingerprint rq) owner (sv_lease cfg) (fold exec_turn (pl_others p) s)
      in case outcome of
           Claimed token until_ \<Rightarrow> (if token \<le> 0 then Inl InvalidToken else Inr (Inl (ClaimGranted token)), s)
         | ClaimConflict \<Rightarrow> (Inl IdentityConflict, s)
         | _ \<Rightarrow>
             (let s = fold exec_turn (pl_others_load p) s
              in (case load_persisted cfg str_of rq s of
                    Inl e \<Rightarrow> Inl e
                  | Inr (Some c) \<Rightarrow> Inr (Inl (StoredTurn c))
                  | Inr None \<Rightarrow>
                      (let now = t + max 0 (pl_elapsed p); remaining = deadline - now
                       in if remaining \<le> 0 then Inl ClaimTimeout
                          else if pl_cancelled p then Inl ServiceCancelled
                          else Inr (Inr (now + min (1/10) (min (retry_after outcome) remaining) + max 0 (pl_overslept p)))), s)))"

definition polls_left :: "time \<Rightarrow> time \<Rightarrow> nat" where
  "polls_left t deadline = nat \<lceil>100 * (deadline - t)\<rceil>"

lemma pause_progress:
  assumes "1/100 \<le> r" and "\<not> d - (t + max 0 e) \<le> 0"
  shows "polls_left (t + max 0 e + min (1/10) (min r (d - (t + max 0 e))) + max 0 u) d < polls_left t d"
proof -
  let ?t = "t + max 0 e + min (1/10) (min r (d - (t + max 0 e))) + max 0 u"
  have pos: "0 < \<lceil>100 * (d - t)\<rceil>" using assms(2) by (simp add: max_def split: if_splits)
  have "100 * (d - ?t) \<le> max 0 (100 * (d - t) - 1)" using assms by (auto simp: min_def max_def)
  then have "\<lceil>100 * (d - ?t)\<rceil> \<le> \<lceil>max 0 (100 * (d - t) - 1)\<rceil>" by (rule ceiling_mono)
  also have "\<dots> < \<lceil>100 * (d - t)\<rceil>" using pos by (auto simp: max_def)
  finally show ?thesis using pos by (simp add: polls_left_def)
qed

lemma poll_progress:
  "fst (poll_claim cfg str_of rq owner p t deadline s) = Inr (Inr t') \<Longrightarrow> polls_left t' deadline < polls_left t deadline"
  unfolding poll_claim_def Let_def
  by (auto split: prod.splits claim_outcome.splits sum.splits option.splits if_splits
      intro!: pause_progress retry_after_positive)

text \<open>The polling loop from poll \<open>n\<close>; the last component counts the polls.\<close>

function claim_or_load :: "service_config \<Rightarrow> (json \<Rightarrow> string) \<Rightarrow> turn_request \<Rightarrow> string \<Rightarrow> (nat \<Rightarrow> poll_io) \<Rightarrow> nat
    \<Rightarrow> time \<Rightarrow> time \<Rightarrow> turn_store \<Rightarrow> (service_exception + claim_result) \<times> turn_store \<times> nat" where
  "claim_or_load cfg str_of rq owner polls n t deadline s =
     (case poll_claim cfg str_of rq owner (polls n) t deadline s of
        (Inl e, s') \<Rightarrow> (Inl e, s', n + 1)
      | (Inr (Inl c), s') \<Rightarrow> (Inr c, s', n + 1)
      | (Inr (Inr t'), s') \<Rightarrow> claim_or_load cfg str_of rq owner polls (n + 1) t' deadline s')"
  by pat_completeness auto
termination
  by (relation "measure (\<lambda>(cfg, str_of, rq, owner, polls, n, t, deadline, s). polls_left t deadline)")
     (simp, simp, metis poll_progress fst_conv)

declare claim_or_load.simps [simp del]

section \<open>The runner\<close>

text \<open>
  How the runner ends: with a result, with something else, with an exception, or cancelled together with
  the caller, where the flag tells that the runner's own task ended as cancelled.
\<close>

datatype run_end = RunReturned pipeline_result | RunInvalid | RunRaised string | RunCancelled bool

datatype finalize_end = Finalized pipeline_result | FinalizeInvalid | FinalizeRaised string | FinalizeCancelled

record execution_io =
  xo_others_load :: "turn_cmd list"
  xo_owner :: string
  xo_polls :: "nat \<Rightarrow> poll_io"
  xo_loop_time :: time
  xo_renewals :: "(turn_cmd list \<times> time) list"
  xo_others_run :: "turn_cmd list"
  xo_run :: run_end
  xo_cancelling :: bool
  xo_renewals_finalize :: "(turn_cmd list \<times> time) list"
  xo_finalize :: finalize_end
  xo_others_persist :: "turn_cmd list"
  xo_now :: time
  xo_intent :: json
  xo_others_reload :: "turn_cmd list"
  xo_dispatch :: "turn_cmd list \<times> string option"
  xo_replay_fails :: "string option"
  xo_others_release :: "turn_cmd list"

text \<open>The renewals while the turn runs, each after what others did; whether the claim was lost.\<close>

fun renew_claim_loop :: "service_config \<Rightarrow> string \<Rightarrow> string \<Rightarrow> int \<Rightarrow> (turn_cmd list \<times> time) list \<Rightarrow> turn_store \<Rightarrow> bool \<times> turn_store" where
  "renew_claim_loop cfg key owner token [] s = (False, s)"
| "renew_claim_loop cfg key owner token ((others, now) # rest) s =
     (let (renewed, s) = renew_claim now key owner token (sv_lease cfg) (fold exec_turn others s)
      in if renewed then renew_claim_loop cfg key owner token rest s else (True, s))"

definition runner_failure :: "string \<Rightarrow> string \<Rightarrow> string \<Rightarrow> json" where
  "runner_failure kind message exception =
     JObj [(''kind'', JStr kind), (''exception_type'', JStr (take 120 exception)), (''message'', JStr message)]"

definition with_budget :: "turn_request \<Rightarrow> pipeline_result \<Rightarrow> pipeline_result" where
  "with_budget rq r = (if pr_configured_budget r = [] then r\<lparr>pr_configured_budget := configured_budget rq\<rparr> else r)"

text \<open>The result of the run: what happened outside is unknown after an exception or a late cancellation.\<close>

definition run_result :: "turn_request \<Rightarrow> execution_io \<Rightarrow> service_exception + pipeline_result" where
  "run_result rq io = (case xo_run io of
     RunInvalid \<Rightarrow> Inl InvalidResult
   | RunRaised exception \<Rightarrow> Inr (plain_result ''unknown_effect'' (runner_failure ''turn_runner_exception''
       ''turn runner failed after execution began; external effect is unknown'' exception) (configured_budget rq) [])
   | RunCancelled cancelled \<Rightarrow>
       Inr (plain_result (if cancelled then ''cancelled'' else ''unknown_effect'') JNull (configured_budget rq) [])
   | RunReturned r \<Rightarrow>
       Inr (with_budget rq (if pr_outcome r = ''completed'' \<and> xo_cancelling io
         then plain_result ''unknown_effect'' JNull (pr_configured_budget (with_budget rq r)) (pr_consumed_usage r) else r)))"

definition finalize_result :: "service_config \<Rightarrow> turn_request \<Rightarrow> execution_io \<Rightarrow> pipeline_result \<Rightarrow> service_exception + pipeline_result" where
  "finalize_result cfg rq io r =
     (if \<not> sv_finalizes cfg then Inr r
      else case xo_finalize io of
          Finalized r' \<Rightarrow> Inr (with_budget rq r')
        | FinalizeInvalid \<Rightarrow> Inl InvalidResult
        | FinalizeCancelled \<Rightarrow> Inr (plain_result ''unknown_effect'' JNull (configured_budget rq) (pr_consumed_usage r))
        | FinalizeRaised exception \<Rightarrow> Inr (plain_result ''unknown_effect'' (runner_failure ''turn_finalizer_exception''
            ''turn finalization failed; external effect is unknown'' exception) (configured_budget rq) (pr_consumed_usage r)))"

section \<open>Projection and memory\<close>

text \<open>\<open>_dispatch_commit\<close>: the commit is durable, so a failing projection is only noted.\<close>

definition project_commit :: "execution_io \<Rightarrow> service_commit \<Rightarrow> turn_store \<Rightarrow> service_commit \<times> turn_store" where
  "project_commit io c s =
     (case snd (xo_dispatch io) of
        None \<Rightarrow> c
      | Some e \<Rightarrow> c\<lparr>sc_projection_pending := True, sc_projection_error := Some (take 120 e)\<rparr>,
      fold exec_turn (fst (xo_dispatch io)) s)"

definition remember_commit :: "service_config \<Rightarrow> string \<Rightarrow> service_commit \<Rightarrow> (string \<times> service_commit) list \<Rightarrow> (string \<times> service_commit) list" where
  "remember_commit cfg key c commits =
     (let kept = od_to_end key (od_set key c commits) in drop (length kept - sv_retained cfg) kept)"

text \<open>A stored turn is projected again, replayed to the caller's stream, and remembered.\<close>

definition deliver_stored :: "service_config \<Rightarrow> turn_request \<Rightarrow> execution_io \<Rightarrow> service_commit \<Rightarrow> service_world
    \<Rightarrow> (service_exception + service_commit) \<times> service_world" where
  "deliver_stored cfg rq io stored w =
     (let (c, s) = project_commit io stored (sw_store w); w = w\<lparr>sw_store := s\<rparr>
      in case (if rq_replays rq then xo_replay_fails io else None) of
           Some e \<Rightarrow> (Inl (ReplayFailed e), w)
         | None \<Rightarrow> (Inr c, w\<lparr>sw_commits := remember_commit cfg (rq_key rq) c (sw_commits w)\<rparr>))"

section \<open>One execution\<close>

text \<open>The result is committed under the claim and read back: the stored result is the authority.\<close>

definition commit_turn :: "service_config \<Rightarrow> (json \<Rightarrow> string) \<Rightarrow> turn_request \<Rightarrow> execution_io \<Rightarrow> int \<Rightarrow> pipeline_result \<Rightarrow> service_world
    \<Rightarrow> (service_exception + service_commit) \<times> service_world" where
  "commit_turn cfg str_of rq io token r w =
     (let c = turn_commit_of rq r (Some (xo_owner io, token)); s = fold exec_turn (xo_others_persist io) (sw_store w)
      in case persist (sv_epoch cfg) (xo_intent io) (xo_now io) c s of
           Inl e \<Rightarrow> (Inl (PersistFailed e), w\<lparr>sw_store := s\<rparr>)
         | Inr s' \<Rightarrow>
             (let s' = fold exec_turn (xo_others_reload io) s'; w = w\<lparr>sw_store := s'\<rparr>
              in case load_persisted cfg str_of rq s' of
                   Inl e \<Rightarrow> (Inl e, w)
                 | Inr authority \<Rightarrow>
                     (let c = (case authority of None \<Rightarrow> c | Some a \<Rightarrow> c\<lparr>co_result := co_result (sc_commit a)\<rparr>);
                          (c, s'') = project_commit io \<lparr>sc_commit = c, sc_persisted = True, sc_replayed = False,
                             sc_projection_pending = False, sc_projection_error = None\<rparr> s'
                      in (Inr c, w\<lparr>sw_store := s'', sw_commits := remember_commit cfg (rq_key rq) c (sw_commits w)\<rparr>))))"

text \<open>The run under the claim, its end, and the commit.\<close>

definition run_turn :: "service_config \<Rightarrow> (json \<Rightarrow> string) \<Rightarrow> turn_request \<Rightarrow> execution_io \<Rightarrow> int \<Rightarrow> service_world
    \<Rightarrow> (service_exception + service_commit) \<times> service_world" where
  "run_turn cfg str_of rq io token w =
     (let (lost, s) = renew_claim_loop cfg (rq_key rq) (xo_owner io) token (xo_renewals io) (sw_store w);
          w = w\<lparr>sw_store := fold exec_turn (xo_others_run io) s, sw_runs := sw_runs w @ [rq_key rq]\<rparr>
      in if lost then (Inl ServiceClaimLost, w)
         else case run_result rq io of
             Inl e \<Rightarrow> (Inl e, w)
           | Inr r \<Rightarrow>
               (let (lost, s) = (if sv_finalizes cfg
                      then renew_claim_loop cfg (rq_key rq) (xo_owner io) token (xo_renewals_finalize io) (sw_store w)
                      else (False, sw_store w));
                    w = w\<lparr>sw_store := s\<rparr>
                in case finalize_result cfg rq io r of
                     Inl e \<Rightarrow> (Inl e, w)
                   | Inr r \<Rightarrow> if lost then (Inl ServiceClaimLost, w) else commit_turn cfg str_of rq io token r w))"

text \<open>\<open>_execute_once\<close>; a claim that was obtained is released however the execution ends.\<close>

definition execute_once :: "service_config \<Rightarrow> (json \<Rightarrow> string) \<Rightarrow> turn_request \<Rightarrow> execution_io \<Rightarrow> service_world
    \<Rightarrow> (service_exception + service_commit) \<times> service_world" where
  "execute_once cfg str_of rq io w =
     (let w = w\<lparr>sw_store := fold exec_turn (xo_others_load io) (sw_store w)\<rparr>
      in case load_persisted cfg str_of rq (sw_store w) of
           Inl e \<Rightarrow> (Inl e, w)
         | Inr (Some stored) \<Rightarrow> deliver_stored cfg rq io stored w
         | Inr None \<Rightarrow>
             (let (claimed, s, polls) = claim_or_load cfg str_of rq (xo_owner io) (xo_polls io) 0 (xo_loop_time io)
                    (xo_loop_time io + sv_wait cfg) (sw_store w);
                  w = w\<lparr>sw_store := s\<rparr>
              in case claimed of
                   Inl e \<Rightarrow> (Inl e, w)
                 | Inr (StoredTurn stored) \<Rightarrow> deliver_stored cfg rq io stored w
                 | Inr (ClaimGranted token) \<Rightarrow>
                     (let (res, w) = run_turn cfg str_of rq io token w
                      in (res, w\<lparr>sw_store := snd (release_claim (rq_key rq) (xo_owner io) token
                                  (fold exec_turn (xo_others_release io) (sw_store w)))\<rparr>))))"

section \<open>Requests of the same turn\<close>

text \<open>
  The tasks of the service: \<open>sv_inflight\<close> holds, per key, the fingerprint of the task that executes it. A
  request is answered from memory, joins the running task, starts one, or is refused.
\<close>

record turn_service =
  ts_world :: service_world
  ts_inflight :: "string \<Rightarrow> string option"

datatype arrival = ServiceAnswer "service_exception + service_commit" | Joins | Starts | Refused

definition arrive :: "turn_request \<Rightarrow> execution_io \<Rightarrow> turn_service \<Rightarrow> arrival \<times> turn_service" where
  "arrive rq io ts =
     (let w = ts_world ts; key = rq_key rq
      in case map_of (sw_commits w) key of
           Some c \<Rightarrow>
             if co_semantic_fingerprint (sc_commit c) \<noteq> rq_fingerprint rq then (Refused, ts)
             else (let (c, s) = project_commit io c (sw_store w);
                       w = w\<lparr>sw_store := s, sw_commits := od_to_end key (od_set key c (sw_commits w))\<rparr>
                   in (ServiceAnswer (case (if rq_replays rq then xo_replay_fails io else None) of
                         Some e \<Rightarrow> Inl (ReplayFailed e) | None \<Rightarrow> Inr c), ts\<lparr>ts_world := w\<rparr>))
         | None \<Rightarrow>
             (case ts_inflight ts key of
                None \<Rightarrow> (Starts, ts\<lparr>ts_inflight := (ts_inflight ts)(key \<mapsto> rq_fingerprint rq)\<rparr>)
              | Some fp \<Rightarrow> if fp \<noteq> rq_fingerprint rq then (Refused, ts) else (Joins, ts)))"

text \<open>The task ends; everybody who joined it has its outcome.\<close>

definition finish_turn :: "service_config \<Rightarrow> (json \<Rightarrow> string) \<Rightarrow> turn_request \<Rightarrow> execution_io \<Rightarrow> turn_service
    \<Rightarrow> (service_exception + service_commit) \<times> turn_service" where
  "finish_turn cfg str_of rq io ts =
     (let (res, w) = execute_once cfg str_of rq io (ts_world ts)
      in (res, ts\<lparr>ts_world := w, ts_inflight := (ts_inflight ts)(rq_key rq := None)\<rparr>))"

end
