(* ===== verification/Outbox_Dispatcher.thy ===== *)
theory Outbox_Dispatcher
  imports Turn_Runs
begin

text \<open>
  \<open>TurnOutboxDispatcher\<close> of \<open>modules/agent/turn_outbox.py\<close> on top of the store: it claims the head of
  the outbox, runs the projections that are not acknowledged yet, and closes the event once all are.
  The handlers are not under the dispatcher's control: a \<open>handler_run\<close> says how one call ends, which
  clock the store reads afterwards, and what happens to the store while it runs (the ticks of the
  renewal task and commands of anybody else), so every interleaving is an argument.
\<close>

section \<open>Configuration\<close>

record dispatcher =
  dp_projections :: "string list"
  dp_claim_lease_seconds :: real
  dp_max_attempts :: int
  dp_base_retry_seconds :: real
  dp_max_retry_seconds :: real
  dp_worker_id :: string

datatype dispatch_error =
    ProjectionNameRequired
  | ProjectionNamesNotUnique
  | CommitKeyRequired
  | NotAcknowledged string string
  | DispatchCancelled

definition make_dispatcher ::
  "string list \<Rightarrow> real \<Rightarrow> int \<Rightarrow> real \<Rightarrow> real \<Rightarrow> string \<Rightarrow> dispatch_error + dispatcher" where
  "make_dispatcher names lease max_attempts base_retry max_retry worker =
     (if \<exists>n\<in>set names. py_strip n = [] then Inl ProjectionNameRequired
      else if \<not> distinct names then Inl ProjectionNamesNotUnique
      else Inr \<lparr>dp_projections = names, dp_claim_lease_seconds = max (1/10) lease,
        dp_max_attempts = max 1 max_attempts, dp_base_retry_seconds = max (1/100) base_retry,
        dp_max_retry_seconds = max (max (1/100) base_retry) max_retry, dp_worker_id = worker\<rparr>)"

section \<open>The renewal task and the handlers\<close>

text \<open>
  A tick while a handler runs: the renewal task renews at some clock, its store call raises, or
  another command reaches the store. The task ends, with the claim lost, at its first failure.
\<close>

datatype tick = RenewAt time | RenewRaises | Interfere turn_cmd

fun renew_tick :: "dispatcher \<Rightarrow> int \<Rightarrow> tick \<Rightarrow> bool \<times> turn_store \<Rightarrow> bool \<times> turn_store" where
  "renew_tick d e (RenewAt t) (lost, s) =
     (if lost then (lost, s)
      else (let (renewed, s') = renew_outbox_claim t e (dp_worker_id d) (dp_claim_lease_seconds d) s
            in (\<not> renewed, s')))"
| "renew_tick d e RenewRaises (lost, s) = (True, s)"
| "renew_tick d e (Interfere c) (lost, s) = (lost, exec_turn c s)"

definition run_ticks :: "dispatcher \<Rightarrow> int \<Rightarrow> tick list \<Rightarrow> bool \<times> turn_store \<Rightarrow> bool \<times> turn_store" where
  "run_ticks d e ticks x = fold (renew_tick d e) ticks x"

record handler_run =
  hr_ticks :: "tick list"
  hr_error :: "string option"
  hr_cancelled :: bool
  hr_store_at :: time
  hr_fail_at :: time
  hr_jitter :: real

section \<open>Failure and backoff\<close>

text \<open>
  The exponent is at most 16 (\<open>2 ** e\<close> is a fraction for a negative \<open>e\<close>); \<open>jitter\<close> is the number
  \<open>random.uniform(0.8, 1.2)\<close> returned.
\<close>

definition two_to :: "int \<Rightarrow> real" where
  "two_to e = (if e \<ge> 0 then 2 ^ nat e else 1 / 2 ^ nat (- e))"

definition retry_delay_of :: "dispatcher \<Rightarrow> int \<Rightarrow> real \<Rightarrow> real" where
  "retry_delay_of d attempt jitter =
     min (dp_max_retry_seconds d) (dp_base_retry_seconds d * two_to (min attempt 16)) * jitter"

definition record_projection_failure ::
  "dispatcher \<Rightarrow> outbox_event \<Rightarrow> time \<Rightarrow> real \<Rightarrow> string \<Rightarrow> turn_store \<Rightarrow> (fail_result \<times> real) \<times> turn_store" where
  "record_projection_failure d ev now jitter error s =
     (let delay = retry_delay_of d (ev_attempt_count ev) jitter;
          (failure, s') = fail_outbox now (ev_event_id ev) (dp_worker_id d) error delay (dp_max_attempts d) s
      in ((failure, delay), s'))"

section \<open>One event\<close>

record dispatch_entry =
  de_event_id :: int
  de_projection :: string
  de_error :: string

record delivery_result =
  dr_failed :: bool
  dr_projection_deliveries :: nat
  dr_errors :: "dispatch_entry list"
  dr_dead_lettered :: nat
  dr_retry_after :: "real option"
  dr_cancellation_deferred :: bool
  dr_acknowledged :: "string set"
  dr_called :: "string list"

definition failed_result ::
  "dispatcher \<Rightarrow> outbox_event \<Rightarrow> handler_run \<Rightarrow> string \<Rightarrow> string \<Rightarrow> nat \<Rightarrow> string set \<Rightarrow> string list \<Rightarrow> turn_store
     \<Rightarrow> delivery_result \<times> turn_store" where
  "failed_result d ev h name error n acked called s =
     (let ((failure, delay), s') = record_projection_failure d ev (hr_fail_at h) (hr_jitter h) error s
      in (\<lparr>dr_failed = True, dr_projection_deliveries = n,
            dr_errors = [\<lparr>de_event_id = ev_event_id ev, de_projection = name, de_error = error\<rparr>],
            dr_dead_lettered = (if fr_dead_lettered failure then 1 else 0),
            dr_retry_after = (if fr_dead_lettered failure then None else Some delay),
            dr_cancellation_deferred = False, dr_acknowledged = acked, dr_called = called\<rparr>, s'))"

text \<open>
  The loop over the projections, with the number delivered so far, the deferred cancellation, the
  acknowledged names, the handlers called, and the renewal task's flag.
\<close>

primrec deliver_projections ::
  "dispatcher \<Rightarrow> (string \<Rightarrow> handler_run) \<Rightarrow> outbox_event \<Rightarrow> string list \<Rightarrow> nat \<Rightarrow> bool \<Rightarrow> string set \<Rightarrow>
     string list \<Rightarrow> bool \<times> turn_store \<Rightarrow> delivery_result \<times> turn_store" where
  "deliver_projections d io ev [] n cancelled acked called x =
     (\<lparr>dr_failed = False, dr_projection_deliveries = n, dr_errors = [], dr_dead_lettered = 0,
       dr_retry_after = None, dr_cancellation_deferred = cancelled, dr_acknowledged = acked,
       dr_called = called\<rparr>, snd x)"
| "deliver_projections d io ev (name # names) n cancelled acked called x =
     (if name \<in> acked then deliver_projections d io ev names n cancelled acked called x
      else
        (let h = io name; (lost, s) = run_ticks d (ev_event_id ev) (hr_ticks h) x;
             called = called @ [name]
         in case hr_error h of
              Some err \<Rightarrow> failed_result d ev h name err n acked called s
            | None \<Rightarrow>
                if lost
                then failed_result d ev h name ''outbox claim was lost during projection'' n acked called s
                else
                  (let (ok, s') = acknowledge_projection (hr_store_at h) (ev_event_id ev) name
                                    (Some (dp_worker_id d)) s
                   in if \<not> ok
                      then failed_result d ev h name
                             ''outbox claim expired before projection acknowledgement'' n acked called s'
                      else deliver_projections d io ev names (n + 1) (cancelled \<or> hr_cancelled h)
                             (insert name acked) called (lost, s'))))"

section \<open>The dispatch loop\<close>

text \<open>
  What the environment does in one iteration: the commands before the claim, the clock of the
  claim, the handlers, whether the caller is cancelled while the delivery runs, the commands between
  the delivery and the terminal acknowledgement, and the clock of that acknowledgement.
\<close>

record dispatch_io =
  di_before :: "turn_cmd list"
  di_claim_at :: time
  di_handler :: "string \<Rightarrow> handler_run"
  di_outer_cancel :: bool
  di_after :: "turn_cmd list"
  di_ack_at :: time

record dispatch_result =
  ds_delivered_event_ids :: "int list"
  ds_delivered_idempotency_keys :: "string list"
  ds_projection_deliveries :: nat
  ds_errors :: "dispatch_entry list"
  ds_dead_lettered :: nat
  ds_retry_after :: "real option"
  ds_target_delivered :: "bool option"
  ds_calls :: "(int \<times> string) list"
  ds_claimed :: "int list"

definition no_result :: dispatch_result where
  "no_result = \<lparr>ds_delivered_event_ids = [], ds_delivered_idempotency_keys = [],
     ds_projection_deliveries = 0, ds_errors = [], ds_dead_lettered = 0, ds_retry_after = None,
     ds_target_delivered = None, ds_calls = [], ds_claimed = []\<rparr>"

text \<open>\<open>x or y\<close> for an optional delay: zero is false.\<close>

definition delay_or :: "real option \<Rightarrow> real option \<Rightarrow> real option" where
  "delay_or x y = (case x of Some r \<Rightarrow> if r = 0 then y else x | None \<Rightarrow> y)"

definition add_delivery :: "outbox_event \<Rightarrow> delivery_result \<Rightarrow> dispatch_result \<Rightarrow> dispatch_result" where
  "add_delivery ev r acc = acc\<lparr>
     ds_projection_deliveries := ds_projection_deliveries acc + dr_projection_deliveries r,
     ds_errors := ds_errors acc @ dr_errors r,
     ds_dead_lettered := ds_dead_lettered acc + dr_dead_lettered r,
     ds_retry_after := delay_or (dr_retry_after r) (ds_retry_after acc),
     ds_calls := ds_calls acc @ map (\<lambda>p. (ev_event_id ev, p)) (dr_called r),
     ds_claimed := ds_claimed acc @ [ev_event_id ev]\<rparr>"

definition add_delivered :: "outbox_event \<Rightarrow> dispatch_result \<Rightarrow> dispatch_result" where
  "add_delivered ev acc = acc\<lparr>
     ds_delivered_event_ids := ds_delivered_event_ids acc @ [ev_event_id ev],
     ds_delivered_idempotency_keys := ds_delivered_idempotency_keys acc @ [ev_idempotency_key ev]\<rparr>"

definition add_ack_error :: "outbox_event \<Rightarrow> dispatch_result \<Rightarrow> dispatch_result" where
  "add_ack_error ev acc = acc\<lparr>ds_errors := ds_errors acc @
     [\<lparr>de_event_id = ev_event_id ev, de_projection = ''<terminal-ack>'',
       de_error = ''outbox claim expired before terminal acknowledgement''\<rparr>]\<rparr>"

datatype loop_end = LoopDone dispatch_result | LoopCancelled dispatch_result

primrec loop_result :: "loop_end \<Rightarrow> dispatch_result" where
  "loop_result (LoopDone r) = r"
| "loop_result (LoopCancelled r) = r"

text \<open>One claimed event: deliver, and close it when every projection is acknowledged.\<close>

datatype iteration = Stop dispatch_result | Cancelled dispatch_result | Next dispatch_result

primrec iteration_result :: "iteration \<Rightarrow> dispatch_result" where
  "iteration_result (Stop r) = r"
| "iteration_result (Cancelled r) = r"
| "iteration_result (Next r) = r"

definition dispatch_event ::
  "dispatcher \<Rightarrow> dispatch_io \<Rightarrow> string option \<Rightarrow> outbox_event \<Rightarrow> bool \<Rightarrow> dispatch_result \<Rightarrow> turn_store
     \<Rightarrow> iteration \<times> bool \<times> turn_store" where
  "dispatch_event d io target ev cancelled acc s =
     (let acked = acknowledged_projections (ev_event_id ev) s;
          (r, s1) = deliver_projections d (di_handler io) ev (dp_projections d) 0 False acked [] (False, s);
          s1 = fold exec_turn (di_after io) s1;
          acc = add_delivery ev r acc;
          cancelled = (cancelled \<or> di_outer_cancel io \<or> dr_cancellation_deferred r);
          hit = (target = Some (ev_idempotency_key ev))
      in if dr_failed r then (Stop acc, cancelled, s1)
         else if \<forall>p\<in>set (dp_projections d). p \<in> dr_acknowledged r
         then
           (let (ok, s2) = acknowledge (di_ack_at io) (ev_event_id ev) (Some (dp_worker_id d)) s1
            in if \<not> ok then (Stop (add_ack_error ev acc), cancelled, s2)
               else (let acc = add_delivered ev acc
                     in if cancelled then (Cancelled acc, cancelled, s2)
                        else if hit then (Stop acc, cancelled, s2)
                        else (Next acc, cancelled, s2)))
         else if hit then (Stop acc, cancelled, s1)
         else (Next acc, cancelled, s1))"

definition waiting_delay :: "real \<Rightarrow> real" where
  "waiting_delay r = max (1/100) (if r = 0 then 1/20 else r)"

primrec dispatch_loop ::
  "string \<Rightarrow> dispatcher \<Rightarrow> (nat \<Rightarrow> dispatch_io) \<Rightarrow> string option \<Rightarrow> nat \<Rightarrow> bool \<Rightarrow> dispatch_result \<Rightarrow> turn_store
     \<Rightarrow> loop_end \<times> turn_store" where
  "dispatch_loop ep d env target 0 cancelled acc s = (LoopDone acc, s)"
| "dispatch_loop ep d env target (Suc n) cancelled acc s =
     (let io = env n; s = fold exec_turn (di_before io) s;
          (claim, s1) = claim_next_outbox ep (di_claim_at io) (dp_worker_id d) (dp_claim_lease_seconds d) s
      in case claim of
           OutboxEmpty \<Rightarrow> (LoopDone acc, s1)
         | OutboxBusy r \<Rightarrow> (LoopDone (acc\<lparr>ds_retry_after := Some (waiting_delay r)\<rparr>), s1)
         | OutboxWaiting r \<Rightarrow> (LoopDone (acc\<lparr>ds_retry_after := Some (waiting_delay r)\<rparr>), s1)
         | OutboxClaimed ev \<Rightarrow>
             (case dispatch_event d io target ev cancelled acc s1 of
                (Stop acc, _, s2) \<Rightarrow> (LoopDone acc, s2)
              | (Cancelled acc, _, s2) \<Rightarrow> (LoopCancelled acc, s2)
              | (Next acc, cancelled, s2) \<Rightarrow> dispatch_loop ep d env target n cancelled acc s2))"

section \<open>Confirming the target\<close>

definition all_acknowledged :: "dispatcher \<Rightarrow> string set \<Rightarrow> bool" where
  "all_acknowledged d acked \<longleftrightarrow> (\<forall>p\<in>set (dp_projections d). p \<in> acked)"

definition listed_event :: "string \<Rightarrow> string \<Rightarrow> string \<Rightarrow> turn_store \<Rightarrow> replay_event option" where
  "listed_event ep workspace key s =
     (if workspace = [] then None
      else case list_commits ep (Some workspace) 10000 s of
          Inl _ \<Rightarrow> None
        | Inr items \<Rightarrow> List.find (\<lambda>i. rp_idempotency_key i = key) items)"

definition recover_or_confirm_target_ack ::
  "string \<Rightarrow> dispatcher \<Rightarrow> time \<Rightarrow> string \<Rightarrow> string option \<Rightarrow> turn_store \<Rightarrow> bool \<times> turn_store" where
  "recover_or_confirm_target_ack ep d now key workspace_id s =
     (case find_outbox_by_idempotency_key ep (Some key) s of
        Some f \<Rightarrow>
          (if fe_dead_lettered_at f \<noteq> None then (False, s)
           else if fe_delivered_at f \<noteq> None then (True, s)
           else if all_acknowledged d (if fe_acknowledged f = {}
                     then acknowledged_projections (fe_event_id f) s else fe_acknowledged f)
           then (True, snd (acknowledge now (fe_event_id f) None s))
           else (False, s))
      | None \<Rightarrow>
          (case listed_event ep (py_strip (text_or_empty workspace_id)) key s of
             None \<Rightarrow> (False, s)
           | Some item \<Rightarrow>
               (if all_acknowledged d (acknowledged_projections (rp_event_id item) s)
                then (True, snd (acknowledge now (rp_event_id item) None s))
                else (False, s))))"

definition dispatch_pending ::
  "string \<Rightarrow> dispatcher \<Rightarrow> (nat \<Rightarrow> dispatch_io) \<Rightarrow> time \<Rightarrow> string option \<Rightarrow> int \<Rightarrow> string option \<Rightarrow> turn_store
     \<Rightarrow> (dispatch_error + dispatch_result) \<times> turn_store" where
  "dispatch_pending ep d env confirm_at workspace_id limit target_key s =
     (let key = py_strip (text_or_empty target_key);
          target = (if key = [] then None else Some key)
      in case dispatch_loop ep d env target (nat (max 1 limit)) False no_result s of
           (LoopCancelled r, s1) \<Rightarrow> (Inl DispatchCancelled, s1)
         | (LoopDone r, s1) \<Rightarrow>
             (case target of
                None \<Rightarrow> (Inr r, s1)
              | Some k \<Rightarrow>
                  if k \<in> set (ds_delivered_idempotency_keys r)
                  then (Inr (r\<lparr>ds_target_delivered := Some True\<rparr>), s1)
                  else (let (ok, s2) = recover_or_confirm_target_ack ep d confirm_at k workspace_id s1
                        in (Inr (r\<lparr>ds_target_delivered := Some ok\<rparr>), s2))))"

text \<open>
  \<open>__call__\<close>: dispatching for one commit. It fails unless the commit's event is confirmed delivered;
  the wake callback runs on every path that got past the key check.
\<close>

definition dispatch_commit ::
  "string \<Rightarrow> dispatcher \<Rightarrow> (nat \<Rightarrow> dispatch_io) \<Rightarrow> time \<Rightarrow> string option \<Rightarrow> string option \<Rightarrow> turn_store
     \<Rightarrow> (dispatch_error + dispatch_result) \<times> bool \<times> turn_store" where
  "dispatch_commit ep d env confirm_at workspace_id idempotency_key s =
     (let key = py_strip (text_or_empty idempotency_key) in
      if key = [] then (Inl CommitKeyRequired, False, s)
      else case dispatch_pending ep d env confirm_at workspace_id 100 (Some key) s of
          (Inl e, s1) \<Rightarrow> (Inl e, True, s1)
        | (Inr r, s1) \<Rightarrow>
            if ds_target_delivered r = Some True then (Inr r, True, s1)
            else (Inl (NotAcknowledged key (case ds_errors r of
                    [] \<Rightarrow> ''the target event was not claimable'' | e # _ \<Rightarrow> de_error e)), True, s1))"

section \<open>The worker's pause\<close>

text \<open>
  \<open>_run\<close>: the error it remembers and how long the worker sleeps after a dispatch. An exception of
  the dispatch is remembered by its text; a cancellation is no \<open>Exception\<close> and ends the worker.
\<close>

definition worker_wait :: "real \<Rightarrow> real option \<Rightarrow> real" where
  "worker_wait idle_poll retry_after =
     (case retry_after of None \<Rightarrow> idle_poll | Some r \<Rightarrow> min idle_poll (max (1/100) r))"

definition worker_iteration ::
  "(dispatch_error \<Rightarrow> string) \<Rightarrow> real \<Rightarrow> dispatch_error + dispatch_result \<Rightarrow> (string option \<times> real) option" where
  "worker_iteration error_text idle_poll outcome =
     (case outcome of
        Inr r \<Rightarrow> Some ((case ds_errors r of [] \<Rightarrow> None | e # _ \<Rightarrow> Some (de_error e)),
                       worker_wait idle_poll (ds_retry_after r))
      | Inl e \<Rightarrow> (if e = DispatchCancelled then None
                  else Some (Some (error_text e), worker_wait idle_poll (Some idle_poll))))"

end
