(* ===== verification/Dispatcher_Runs.thy ===== *)
theory Dispatcher_Runs
  imports Outbox_Dispatcher "HOL-Library.Sublist"
begin

text \<open>
  What a dispatch does, for every behaviour of the handlers, clocks and other workers: it only uses
  the store's operations, it reports an event as delivered only when every projection is
  acknowledged and the event is closed, it takes events in order, and it never runs a handler
  whose projection is already acknowledged, nor one handler twice for an event.
\<close>

section \<open>A dispatch is a run of the store\<close>

definition later :: "turn_store \<Rightarrow> turn_store \<Rightarrow> bool" where
  "later s t \<longleftrightarrow> (\<exists>cs. t = fold exec_turn cs s)"

lemma later_refl [simp, intro]: "later s s"
  unfolding later_def by (metis fold_Nil id_apply)

lemma later_trans: "later s t \<Longrightarrow> later t u \<Longrightarrow> later s u"
  unfolding later_def by (metis comp_apply fold_append)

lemma later_fold [simp, intro]: "later s (fold exec_turn cs s)"
  by (auto simp: later_def)

lemma later_exec [simp, intro]: "later s (exec_turn c s)"
  using later_fold [of s "[c]"] by simp

lemma later_ops:
  "later s (snd (claim_next_outbox ep t w l s))"
  "later s (snd (fail_outbox t e w err r m s))"
  "later s (snd (renew_outbox_claim t e w l s))"
  "later s (snd (acknowledge t e o' s))"
  "later s (snd (acknowledge_projection t e p o' s))"
proof -
  show "later s (snd (claim_next_outbox ep t w l s))"
    using later_exec [of s "TOutbox (OClaim t w l)"] by (simp only: exec_turn.simps claim_next_outbox_epoch)
  show "later s (snd (fail_outbox t e w err r m s))"
    using later_exec [of s "TOutbox (OFail t e w err r m)"] by simp
  show "later s (snd (renew_outbox_claim t e w l s))"
    using later_exec [of s "TOutbox (ORenew t e w l)"] by simp
  show "later s (snd (acknowledge t e o' s))"
    using later_exec [of s "TOutbox (OAck t e o')"] by simp
  show "later s (snd (acknowledge_projection t e p o' s))"
    using later_exec [of s "TOutbox (OAckProjection t e p o')"] by simp
qed

lemma later_snd:
  "claim_next_outbox ep t w l s = (x, s') \<Longrightarrow> later s s'"
  "fail_outbox t e w err r m s = (y, s') \<Longrightarrow> later s s'"
  "renew_outbox_claim t e w l s = (z, s') \<Longrightarrow> later s s'"
  "acknowledge t e o' s = (z, s') \<Longrightarrow> later s s'"
  "acknowledge_projection t e p o' s = (z, s') \<Longrightarrow> later s s'"
  using later_ops by (metis snd_conv)+

lemma later_renew_tick: "later (snd x) (snd (renew_tick d e k x))"
  by (cases "(d, e, k, x)" rule: renew_tick.cases)
    (auto simp: Let_def later_ops split: prod.splits dest: later_snd)

lemma later_run_ticks: "later (snd x) (snd (run_ticks d e ks x))"
  unfolding run_ticks_def
proof (induction ks arbitrary: x)
  case (Cons k ks)
  show ?case
    using later_trans [OF later_renew_tick [of x d e k] Cons.IH [of "renew_tick d e k x"]] by simp
qed simp

lemma later_failed_result: "later s (snd (failed_result d ev h name err n acked called s))"
  by (auto simp: failed_result_def record_projection_failure_def Let_def split: prod.splits dest: later_snd)

lemma later_deliver:
  "later (snd x) (snd (deliver_projections d io ev names n cancelled acked called x))"
proof (induction names arbitrary: n cancelled acked called x)
  case (Cons name names)
  obtain lost s where ticks: "run_ticks d (ev_event_id ev) (hr_ticks (io name)) x = (lost, s)"
    by (cases "run_ticks d (ev_event_id ev) (hr_ticks (io name)) x")
  obtain ok s' where ack: "acknowledge_projection (hr_store_at (io name)) (ev_event_id ev) name
      (Some (dp_worker_id d)) s = (ok, s')" by (cases "acknowledge_projection (hr_store_at (io name))
      (ev_event_id ev) name (Some (dp_worker_id d)) s")
  have 1: "later (snd x) s" using later_run_ticks [of x d] ticks by (metis snd_conv)
  have 2: "later (snd x) s'" using later_snd(5) [OF ack] 1 by (rule later_trans [rotated])
  show ?case
    using Cons.IH [of x n cancelled acked called]
      Cons.IH [of "(lost, s')" "n + 1" "cancelled \<or> hr_cancelled (io name)" "insert name acked" "called @ [name]"]
    by (auto simp: Let_def ticks ack split: option.split
        intro: later_trans [OF 1 later_failed_result] later_trans [OF 2 later_failed_result] later_trans [OF 2])
qed simp

lemma later_dispatch_event: "later s (snd (snd (dispatch_event d io target ev cancelled acc s)))"
proof -
  obtain r s1 where del: "deliver_projections d (di_handler io) ev (dp_projections d) 0 False
      (acknowledged_projections (ev_event_id ev) s) [] (False, s) = (r, s1)" by fastforce
  let ?s = "fold exec_turn (di_after io) s1"
  obtain ok s2 where ack: "acknowledge (di_ack_at io) (ev_event_id ev) (Some (dp_worker_id d)) ?s = (ok, s2)"
    by fastforce
  have 1: "later s s1" using later_deliver [of "(False, s)"] del by (metis snd_conv)
  have 2: "later s ?s" by (rule later_trans [OF 1]) simp
  have 3: "later s s2" using later_snd(4) [OF ack] 2 by (rule later_trans [rotated])
  show ?thesis using 2 3 by (simp add: dispatch_event_def Let_def del ack)
qed

section \<open>What later stores keep\<close>

lemma later_inv: "turn_inv s \<Longrightarrow> later s t \<Longrightarrow> turn_inv t"
  by (auto simp: later_def turns.run_inv)

lemma later_kept: "turn_inv s \<Longrightarrow> later s t \<Longrightarrow> turn_kept s t"
  by (auto simp: later_def turns.run_leq)

lemma acks_step: "acknowledged_projections e s \<subseteq> acknowledged_projections e (exec_turn c s)"
proof (cases c)
  case (TClaim c')
  then show ?thesis by (simp add: acknowledged_projections_def claim_frame)
next
  case (TOutbox c')
  then show ?thesis
    by (cases c') (auto simp: acknowledged_projections_def claim_next_outbox_def fail_outbox_def
        renew_outbox_claim_def acknowledge_def acknowledge_projection_def insert_or_ignore_def Let_def
        split: option.splits)
next
  case (TDelivery c')
  then show ?thesis
    by (cases c') (auto simp: acknowledged_projections_def update_ops update_delivery_def keep_on_error_def
        claim_connector_turn_retry_def record_connector_turn_pending_def Let_def
        discard_connector_turn_pending_def claim_connector_delivery_def split: option.splits sum.splits)
qed

lemma later_acks: "later s t \<Longrightarrow> acknowledged_projections e s \<subseteq> acknowledged_projections e t"
proof -
  have "acknowledged_projections e s \<subseteq> acknowledged_projections e (fold exec_turn cs s)" for cs
    by (induction cs arbitrary: s) (use acks_step in fastforce)+
  then show "later s t \<Longrightarrow> ?thesis" by (auto simp: later_def)
qed

text \<open>
  \<open>queue_floor s e\<close>: no pending event of \<open>s\<close>, and none a later store will ever add, has a number
  below \<open>e\<close>.
\<close>

definition queue_floor :: "turn_store \<Rightarrow> int \<Rightarrow> bool" where
  "queue_floor s e \<longleftrightarrow> e \<le> outbox_seq s + 1 \<and> (\<forall>q\<in>set (turn_outbox s). pending q \<longrightarrow> e \<le> ob_event_id q)"

lemma floor_step:
  assumes "turn_inv s" and "queue_floor s e"
  shows "queue_floor (exec_turn c s) e"
proof (cases c)
  case (TClaim c')
  show ?thesis
  proof (cases c')
    case (CPersist ep i t co)
    show ?thesis
    proof (cases "persist ep i t co s")
      case (Inr s')
      with TClaim CPersist assms(2) show ?thesis
        by (auto simp: keep_on_failure_def queue_floor_def persist_InrD(4,5) [OF Inr] insert_or_ignore_def
            outbox_row_of_def)
    qed (use TClaim CPersist assms(2) in \<open>simp add: keep_on_failure_def\<close>)
  qed (use TClaim claim_frame_outbox [of c' s] assms(2) in \<open>simp_all add: queue_floor_def\<close>)
next
  case (TOutbox c')
  have "outbox_inv s" using assms(1) by (simp add: turn_inv_def)
  with TOutbox assms(2) show ?thesis
    by (auto simp: queue_floor_def exec_outbox_rows dest: outbox_effect_pending)
next
  case (TDelivery c')
  with assms(2) show ?thesis by (simp add: queue_floor_def delivery_frame)
qed

lemma later_floor:
  assumes "turn_inv s" and "queue_floor s e" and "later s t"
  shows "queue_floor t e"
proof -
  have "turn_inv s \<Longrightarrow> queue_floor s e \<Longrightarrow> queue_floor (fold exec_turn cs s) e" for cs
    by (induction cs arbitrary: s) (auto simp: floor_step turns.step_inv)
  with assms show ?thesis by (auto simp: later_def)
qed

section \<open>Delivering one event\<close>

lemma acknowledge_projection_ok:
  "acknowledge_projection t e p w s = (True, s') \<Longrightarrow> p \<in> acknowledged_projections e s'"
  by (auto simp: acknowledge_projection_def Let_def insert_or_ignore_def acknowledged_projections_def
      intro!: image_eqI [where x = "\<lparr>ak_event_id = e, ak_projection_name = p, ak_delivered_at = t\<rparr>"]
      split: if_splits)

text \<open>
  The handlers a delivery calls, in order, are among the projections that were not acknowledged;
  what it reports as acknowledged is acknowledged in the store; unless it fails, that is all of them.
\<close>

lemma failed_result_fields:
  "dr_failed (fst (failed_result d ev h name err n acked called s))"
  "dr_acknowledged (fst (failed_result d ev h name err n acked called s)) = acked"
  "dr_called (fst (failed_result d ev h name err n acked called s)) = called"
  by (simp_all add: failed_result_def record_projection_failure_def Let_def split: prod.splits)

lemma deliver_sound:
  assumes "acked \<subseteq> acknowledged_projections (ev_event_id ev) (snd x)"
  shows "dr_acknowledged (fst (deliver_projections d io ev names n cancelled acked called x))
      \<subseteq> acknowledged_projections (ev_event_id ev) (snd (deliver_projections d io ev names n cancelled acked called x)) \<and>
    (\<exists>xs. dr_called (fst (deliver_projections d io ev names n cancelled acked called x)) = called @ xs \<and>
      subseq xs names \<and> set xs \<inter> acked = {}) \<and>
    (\<not> dr_failed (fst (deliver_projections d io ev names n cancelled acked called x)) \<longrightarrow>
      acked \<union> set names \<subseteq> dr_acknowledged (fst (deliver_projections d io ev names n cancelled acked called x)))"
  using assms
proof (induction names arbitrary: n cancelled acked called x)
  case Nil
  then show ?case by (auto intro: exI [of _ "[]"])
next
  case (Cons name names)
  show ?case
  proof (cases "name \<in> acked")
    case True
    with Cons.IH [OF Cons.prems(1), of n cancelled called] show ?thesis by auto
  next
    case False
    obtain lost s where ticks: "run_ticks d (ev_event_id ev) (hr_ticks (io name)) x = (lost, s)"
      by fastforce
    obtain ok s' where ack: "acknowledge_projection (hr_store_at (io name)) (ev_event_id ev) name
        (Some (dp_worker_id d)) s = (ok, s')" by fastforce
    have 1: "later (snd x) s" using later_run_ticks [of x d] ticks by (metis snd_conv)
    have 2: "later (snd x) s'" using later_snd(5) [OF ack] 1 by (rule later_trans [rotated])
    have failed: "acked \<subseteq> acknowledged_projections (ev_event_id ev)
        (snd (failed_result d ev h name err n acked (called @ [name]) u))" if "later (snd x) u" for h err u
      using Cons.prems(1) later_acks [OF later_trans [OF that later_failed_result]] by blast
    have one: "\<exists>xs. called @ [name] = called @ xs \<and> subseq xs (name # names) \<and> set xs \<inter> acked = {}"
      using False by (intro exI [of _ "[name]"]) auto
    show ?thesis
    proof (cases "hr_error (io name) = None \<and> \<not> lost \<and> ok")
      case True
      then have "insert name acked \<subseteq> acknowledged_projections (ev_event_id ev) s'"
        using Cons.prems(1) later_acks [OF 2] acknowledge_projection_ok ack by fastforce
      then show ?thesis
        using True \<open>name \<notin> acked\<close>
          Cons.IH [of "insert name acked" "(lost, s')" "n + 1" "cancelled \<or> hr_cancelled (io name)"
            "called @ [name]"]
        by (fastforce simp: Let_def ticks ack)
    next
      case failure: False
      then show ?thesis
        using False one failed [OF 1] failed [OF 2]
        by (auto simp: Let_def ticks ack failed_result_fields split: option.split)
    qed
  qed
qed

section \<open>Closing an event\<close>

definition closed_event :: "dispatcher \<Rightarrow> turn_store \<Rightarrow> int \<Rightarrow> string \<Rightarrow> bool" where
  "closed_event d s e k \<longleftrightarrow> (\<exists>r. event_of s e = Some r \<and> ob_idempotency_key r = k \<and>
     ob_delivered_at r \<noteq> None) \<and> set (dp_projections d) \<subseteq> acknowledged_projections e s"

lemma later_closed:
  assumes "turn_inv s" and "later s t" and "closed_event d s e k"
  shows "closed_event d t e k"
proof -
  obtain r where r: "event_of s e = Some r" "ob_idempotency_key r = k" "ob_delivered_at r \<noteq> None"
    and acks: "set (dp_projections d) \<subseteq> acknowledged_projections e s"
    using assms(3) by (auto simp: closed_event_def)
  have "outbox_kept s t" using later_kept [OF assms(1,2)] by (simp add: turn_kept_def)
  with r obtain r' where r': "event_of t e = Some r'" "event_kept r r'"
    unfolding outbox_kept_def by blast
  with r have "ob_idempotency_key r' = k" "ob_delivered_at r' \<noteq> None" by (auto simp: event_kept_def)
  with r' acks later_acks [OF assms(2)] show ?thesis unfolding closed_event_def by blast
qed

lemma acknowledge_ok:
  assumes "turn_inv s" and "acknowledge t e (Some w) s = (True, s')"
  shows "\<exists>r. event_of s' e = Some r \<and> ob_delivered_at r \<noteq> None"
proof -
  have uniq: "unique_on ob_event_id (turn_outbox s)" using assms(1) by (simp add: turn_inv_def outbox_inv_def)
  show ?thesis
    using assms(2)
    by (auto simp: acknowledge_def Let_def rowcount_unique [OF uniq] row_of_update
        split: option.splits if_splits dest: row_of_key)
qed

lemma acknowledge_any:
  assumes "event_of s e = Some r"
  shows "\<exists>r'. event_of (snd (acknowledge t e None s)) e = Some r' \<and> ob_delivered_at r' \<noteq> None"
  using assms row_of_key [OF assms] by (simp add: acknowledge_def Let_def row_of_update)

lemma claim_floor:
  assumes "turn_inv s" and "claim_next_outbox ep t w l s = (OutboxClaimed ev, s')"
  shows "queue_floor s (ev_event_id ev)" and
    "\<exists>r. event_of s (ev_event_id ev) = Some r \<and> ob_idempotency_key r = ev_idempotency_key ev"
proof -
  obtain h where h: "pending_head s = Some h" "ev_event_id ev = ob_event_id h"
      "ev_idempotency_key ev = ob_idempotency_key h"
    using claim_event_head [OF assms(2)] by blast
  note head = pending_head_SomeD [OF h(1)]
  have ob: "outbox_inv s" using assms(1) by (simp add: turn_inv_def)
  then have "ob_event_id h \<le> outbox_seq s" using head(1) by (auto simp: outbox_inv_def)
  with head(3) h(2) show "queue_floor s (ev_event_id ev)" by (auto simp: queue_floor_def)
  have "event_of s (ob_event_id h) = Some h"
    using ob head(1) by (intro unique_row_of) (auto simp: outbox_inv_def)
  with h show "\<exists>r. event_of s (ev_event_id ev) = Some r \<and> ob_idempotency_key r = ev_idempotency_key ev"
    by auto
qed

lemma closed_passed:
  assumes "turn_inv s" and "queue_floor s e" and "event_of s e = Some r" and "ob_delivered_at r \<noteq> None"
  shows "queue_floor s (e + 1)"
proof -
  have ob: "outbox_inv s" using assms(1) by (simp add: turn_inv_def)
  have "e \<le> outbox_seq s" using ob row_of_mem [OF assms(3)] row_of_key [OF assms(3)] by (auto simp: outbox_inv_def)
  moreover have "e + 1 \<le> ob_event_id q" if q: "q \<in> set (turn_outbox s)" "pending q" for q
  proof -
    have "event_of s (ob_event_id q) = Some q" using ob q by (intro unique_row_of) (auto simp: outbox_inv_def)
    with assms(3,4) q(2) have "ob_event_id q \<noteq> e" by (auto simp: pending_def)
    with assms(2) q show ?thesis by (force simp: queue_floor_def)
  qed
  ultimately show ?thesis by (simp add: queue_floor_def)
qed

section \<open>The loop\<close>

definition loop_ok :: "dispatcher \<Rightarrow> turn_store \<Rightarrow> turn_store \<Rightarrow> dispatch_result \<Rightarrow> bool" where
  "loop_ok d s0 s acc \<longleftrightarrow> later s0 s \<and>
     list_all2 (closed_event d s) (ds_delivered_event_ids acc) (ds_delivered_idempotency_keys acc) \<and>
     sorted_wrt (<) (ds_claimed acc) \<and> distinct (ds_calls acc) \<and>
     (\<forall>e p. (e, p) \<in> set (ds_calls acc) \<longrightarrow>
        e \<in> set (ds_claimed acc) \<and> p \<in> set (dp_projections d) \<and> p \<notin> acknowledged_projections e s0)"

definition loop_passed :: "turn_store \<Rightarrow> dispatch_result \<Rightarrow> bool" where
  "loop_passed s acc \<longleftrightarrow> (\<forall>e\<in>set (ds_claimed acc). queue_floor s (e + 1))"

lemma loop_ok_later:
  assumes "turn_inv s" and "later s t" and "loop_ok d s0 s acc"
  shows "loop_ok d s0 t acc"
  using assms later_trans [of s0 s t] list_all2_mono [of "closed_event d s" _ _ "closed_event d t"]
  by (auto simp: loop_ok_def later_closed)

lemma loop_passed_later: "turn_inv s \<Longrightarrow> later s t \<Longrightarrow> loop_passed s acc \<Longrightarrow> loop_passed t acc"
  by (auto simp: loop_passed_def intro: later_floor)

lemma loop_ok_add_delivery:
  assumes ok: "loop_ok d s0 s acc" and names: "distinct (dp_projections d)"
    and new: "\<forall>e\<in>set (ds_claimed acc). e < ev_event_id ev"
    and called: "subseq (dr_called r) (dp_projections d)"
      "set (dr_called r) \<inter> acknowledged_projections (ev_event_id ev) s = {}"
  shows "loop_ok d s0 s (add_delivery ev r acc)"
proof -
  have sub: "set (dr_called r) \<subseteq> set (dp_projections d)" "distinct (dr_called r)"
    using called(1) names by (auto simp: subseq_conv_nths dest: in_set_nthsD)
  have fresh: "p \<notin> acknowledged_projections (ev_event_id ev) s0" if "p \<in> set (dr_called r)" for p
    using that called(2) later_acks [of s0 s] ok by (auto simp: loop_ok_def)
  have "distinct (ds_calls acc @ map (\<lambda>p. (ev_event_id ev, p)) (dr_called r))"
    using ok sub(2) new by (fastforce simp: loop_ok_def distinct_map inj_on_def)
  with ok sub fresh new show ?thesis
    by (auto simp: loop_ok_def add_delivery_def sorted_wrt_append)
qed

lemma loop_ok_add_delivered:
  "loop_ok d s0 s acc \<Longrightarrow> closed_event d s (ev_event_id ev) (ev_idempotency_key ev) \<Longrightarrow>
     loop_ok d s0 s (add_delivered ev acc)"
  by (auto simp: loop_ok_def add_delivered_def list_all2_appendI)

lemma add_delivered_claimed [simp]: "ds_claimed (add_delivered ev acc) = ds_claimed acc"
  by (simp add: add_delivered_def)

lemma loop_ok_add_ack_error: "loop_ok d s0 s acc \<Longrightarrow> loop_ok d s0 s (add_ack_error ev acc)"
  by (auto simp: loop_ok_def add_ack_error_def)

lemma dispatch_event_ok:
  assumes inv: "turn_inv s" and ok: "loop_ok d s0 s acc" and passed: "loop_passed s acc"
    and names: "distinct (dp_projections d)"
    and new: "\<forall>e\<in>set (ds_claimed acc). e < ev_event_id ev"
    and head: "queue_floor s (ev_event_id ev)"
    and row: "\<exists>r. event_of s (ev_event_id ev) = Some r \<and> ob_idempotency_key r = ev_idempotency_key ev"
    and run: "dispatch_event d io target ev cancelled acc s = (it, c', t)"
  shows "loop_ok d s0 t (iteration_result it) \<and> (\<forall>acc'. it = Next acc' \<longrightarrow> loop_passed t acc')"
proof -
  let ?e = "ev_event_id ev" and ?acc = "\<lambda>r. add_delivery ev r acc"
  obtain r u where del: "deliver_projections d (di_handler io) ev (dp_projections d) 0 False
      (acknowledged_projections ?e s) [] (False, s) = (r, u)" by fastforce
  let ?s1 = "fold exec_turn (di_after io) u"
  obtain fin s2 where ack: "acknowledge (di_ack_at io) ?e (Some (dp_worker_id d)) ?s1 = (fin, s2)"
    by fastforce
  have su: "later s u" using later_deliver [of "(False, s)"] del by (metis snd_conv)
  then have s1: "later s ?s1" by (rule later_trans) simp
  have s2: "later s s2" using later_snd(4) [OF ack] s1 by (rule later_trans [rotated])
  have sound: "dr_acknowledged r \<subseteq> acknowledged_projections ?e u"
      "subseq (dr_called r) (dp_projections d)"
      "set (dr_called r) \<inter> acknowledged_projections ?e s = {}"
      "\<not> dr_failed r \<longrightarrow> set (dp_projections d) \<subseteq> dr_acknowledged r"
    using deliver_sound [of "acknowledged_projections ?e s" ev "(False, s)" d "di_handler io"
        "dp_projections d" 0 False "[]"] del by auto
  have acc: "loop_ok d s0 s (?acc r)"
    by (rule loop_ok_add_delivery [OF ok names new sound(2,3)])
  have acc1: "loop_ok d s0 ?s1 (?acc r)" and acc2: "loop_ok d s0 s2 (?acc r)"
    using loop_ok_later [OF inv s1 acc] loop_ok_later [OF inv s2 acc] by auto
  have closed: "closed_event d s2 ?e (ev_idempotency_key ev)"
    and passed2: "loop_passed s2 (?acc r)" if "fin" and "\<not> dr_failed r"
  proof -
    have inv1: "turn_inv ?s1" and inv2: "turn_inv s2"
      using later_inv [OF inv s1] later_inv [OF inv s2] by auto
    obtain r2 where r2: "event_of s2 ?e = Some r2" "ob_delivered_at r2 \<noteq> None"
      using acknowledge_ok [OF inv1, of "di_ack_at io" ?e "dp_worker_id d" s2] ack \<open>fin\<close> by auto
    obtain q where q: "event_of s ?e = Some q" "ob_idempotency_key q = ev_idempotency_key ev"
      using row by blast
    have "outbox_kept s s2" using later_kept [OF inv s2] by (simp add: turn_kept_def)
    with q r2 have "ob_idempotency_key r2 = ev_idempotency_key ev"
      unfolding outbox_kept_def event_kept_def by (metis option.inject)
    moreover have "later u s2" using later_snd(4) [OF ack] by (rule later_trans [OF later_fold])
    then have "set (dp_projections d) \<subseteq> acknowledged_projections ?e s2"
      using sound(1,4) \<open>\<not> dr_failed r\<close> later_acks [of u s2 ?e] by auto
    ultimately show "closed_event d s2 ?e (ev_idempotency_key ev)"
      using r2 by (auto simp: closed_event_def)
    have "queue_floor s2 (?e + 1)"
      by (rule closed_passed [OF inv2 later_floor [OF inv head s2] r2])
    with loop_passed_later [OF inv s2 passed] show "loop_passed s2 (?acc r)"
      by (auto simp: loop_passed_def add_delivery_def)
  qed
  show ?thesis
    using run acc1 acc2 closed passed2 sound(4)
    by (auto simp: dispatch_event_def Let_def del ack loop_ok_add_delivered loop_ok_add_ack_error
        loop_passed_def split: if_splits)
qed

lemma dispatch_loop_ok:
  assumes "turn_inv s" and "loop_ok d s0 s acc" and "loop_passed s acc" and "distinct (dp_projections d)"
    and "dispatch_loop ep d env target n cancelled acc s = (res, t)"
  shows "loop_ok d s0 t (loop_result res)"
  using assms
proof (induction n arbitrary: cancelled acc s)
  case (Suc n)
  let ?io = "env n"
  let ?s = "fold exec_turn (di_before ?io) s"
  obtain claim s1 where claim: "claim_next_outbox ep (di_claim_at ?io) (dp_worker_id d)
      (dp_claim_lease_seconds d) ?s = (claim, s1)" by fastforce
  have s: "later s ?s" by simp
  have s1: "later ?s s1" by (rule later_snd(1) [OF claim])
  have inv: "turn_inv ?s" and inv1: "turn_inv s1"
    using later_inv [OF Suc.prems(1) s] later_inv [OF later_inv [OF Suc.prems(1) s] s1] by auto
  have ok: "loop_ok d s0 s1 acc" and passed: "loop_passed ?s acc"
    using loop_ok_later [OF inv s1 loop_ok_later [OF Suc.prems(1) s Suc.prems(2)]]
      loop_passed_later [OF Suc.prems(1) s Suc.prems(3)] by auto
  show ?case
  proof (cases claim)
    case (OutboxClaimed ev)
    note claimed = claim_floor [OF inv claim [unfolded OutboxClaimed]]
    obtain h where h: "pending_head ?s = Some h" "ev_event_id ev = ob_event_id h"
      using claim_event_head claim OutboxClaimed by blast
    have new: "\<forall>e\<in>set (ds_claimed acc). e < ev_event_id ev"
      using passed h pending_head_SomeD [OF h(1)] by (force simp: loop_passed_def queue_floor_def)
    have row: "\<exists>r. event_of s1 (ev_event_id ev) = Some r \<and> ob_idempotency_key r = ev_idempotency_key ev"
      using claimed(2) later_kept [OF inv s1] unfolding turn_kept_def outbox_kept_def event_kept_def by metis
    obtain it c' u where ev: "dispatch_event d ?io target ev cancelled acc s1 = (it, c', u)"
      by (metis prod_cases3)
    note step = dispatch_event_ok [OF inv1 ok loop_passed_later [OF inv s1 passed] Suc.prems(4) new
        later_floor [OF inv claimed(1) s1] row ev]
    have u: "turn_inv u" using later_inv [OF inv1 later_dispatch_event] ev by (metis snd_conv)
    show ?thesis
    proof (cases it)
      case (Next acc')
      with step Suc.prems(5) show ?thesis
        by (intro Suc.IH [OF u _ _ Suc.prems(4)]) (auto simp: Let_def claim OutboxClaimed ev)
    qed (use step Suc.prems(5) in \<open>auto simp: Let_def claim OutboxClaimed ev\<close>)
  qed (use ok Suc.prems(5) in \<open>auto simp: Let_def claim loop_ok_def\<close>)
qed auto

lemma loop_start: "loop_ok d s s no_result" "loop_passed s no_result"
  by (simp_all add: loop_ok_def loop_passed_def no_result_def)

section \<open>The target\<close>

lemma listed_event_None:
  assumes "find_outbox_by_idempotency_key ep (Some key) s = None" and "py_strip key = key" and "key \<noteq> []"
  shows "listed_event ep ws key s = None"
proof (rule ccontr)
  assume "listed_event ep ws key s \<noteq> None"
  then obtain items i where items: "list_commits ep (Some ws) 10000 s = Inr items"
      "List.find (\<lambda>i. rp_idempotency_key i = key) items = Some i"
    by (auto simp: listed_event_def split: if_splits sum.splits)
  then have "i \<in> set items" "rp_idempotency_key i = key" by (auto simp: find_Some_iff)
  with items(1) have "\<exists>e\<in>set (turn_outbox s). ob_idempotency_key e = key"
    by (auto simp: list_commits_def Let_def dest!: in_set_takeD split: if_splits) blast
  then have "event_for s key \<noteq> None" by (auto simp: row_of_None)
  with assms show False
    by (auto simp: find_outbox_by_idempotency_key_def text_or_empty_def)
qed

lemma confirm_sound:
  assumes "turn_inv s" and "py_strip key = key" and "key \<noteq> []"
    and "recover_or_confirm_target_ack ep d now key ws s = (True, t)"
  shows "\<exists>r. event_for t key = Some r \<and> ob_delivered_at r \<noteq> None"
proof -
  obtain f where f: "find_outbox_by_idempotency_key ep (Some key) s = Some f"
    using assms(4) listed_event_None [OF _ assms(2,3)]
    by (cases "find_outbox_by_idempotency_key ep (Some key) s")
      (auto simp: recover_or_confirm_target_ack_def)
  then obtain r where r: "event_for s key = Some r" "fe_event_id f = ob_event_id r"
      "fe_delivered_at f = ob_delivered_at r"
    using assms(2,3) by (auto simp: find_outbox_by_idempotency_key_def text_or_empty_def split: option.splits)
  show ?thesis
  proof (cases "ob_delivered_at r")
    case None
    with assms(4) f r have t: "t = snd (acknowledge now (ob_event_id r) None s)"
      by (auto simp: recover_or_confirm_target_ack_def split: if_splits)
    show ?thesis
      using r by (simp add: t acknowledge_def Let_def row_of_update)
  next
    case Some
    with assms(4) f r have "t = s" by (auto simp: recover_or_confirm_target_ack_def split: if_splits)
    with Some r show ?thesis by auto
  qed
qed

lemma later_confirm: "later s (snd (recover_or_confirm_target_ack ep d now key ws s))"
  by (auto simp: recover_or_confirm_target_ack_def later_ops split: option.split)

lemma loop_keeps_target:
  "dispatch_loop ep d env target n cancelled acc s = (res, t) \<Longrightarrow>
     ds_target_delivered (loop_result res) = ds_target_delivered acc"
proof (induction n arbitrary: cancelled acc s)
  case (Suc n)
  have keep: "ds_target_delivered (iteration_result it) = ds_target_delivered acc"
    if "dispatch_event d io target ev c acc s = (it, c', t)" for io ev c s it c' t
    using that by (auto simp: dispatch_event_def Let_def add_delivery_def add_delivered_def
        add_ack_error_def split: prod.splits if_splits)
  obtain claim s1 where claim: "claim_next_outbox ep (di_claim_at (env n)) (dp_worker_id d)
      (dp_claim_lease_seconds d) (fold exec_turn (di_before (env n)) s) = (claim, s1)" by fastforce
  show ?case
  proof (cases claim)
    case (OutboxClaimed ev)
    obtain it c' u where ev: "dispatch_event d (env n) target ev cancelled acc s1 = (it, c', u)"
      by (metis prod_cases3)
    show ?thesis
    proof (cases it)
      case (Next acc')
      with Suc.prems have "dispatch_loop ep d env target n c' acc' u = (res, t)"
        by (simp add: Let_def claim OutboxClaimed ev)
      with Suc.IH keep [OF ev] Next show ?thesis by simp
    qed (use Suc.prems keep [OF ev] in \<open>auto simp: Let_def claim OutboxClaimed ev\<close>)
  qed (use Suc.prems in \<open>auto simp: Let_def claim\<close>)
qed auto

lemma closed_event_for:
  assumes "turn_inv s" and "closed_event d s e k"
  shows "\<exists>q. event_for s k = Some q \<and> ob_delivered_at q \<noteq> None"
proof -
  obtain q where q: "event_of s e = Some q" "ob_idempotency_key q = k" "ob_delivered_at q \<noteq> None"
    using assms(2) by (auto simp: closed_event_def)
  have "event_for s (ob_idempotency_key q) = Some q"
    using assms(1) row_of_mem [OF q(1)] by (intro unique_row_of) (auto simp: turn_inv_def outbox_inv_def)
  with q show ?thesis by auto
qed

lemma dispatch_pending_later:
  assumes "turn_inv s" and "distinct (dp_projections d)"
    and "dispatch_pending ep d env clk ws limit target s = (res, t)"
  shows "later s t"
proof -
  let ?target = "if py_strip (text_or_empty target) = [] then None else Some (py_strip (text_or_empty target))"
  obtain e u where loop: "dispatch_loop ep d env ?target (nat (max 1 limit)) False no_result s = (e, u)"
    by fastforce
  have su: "later s u"
    using dispatch_loop_ok [OF assms(1) loop_start assms(2) loop] by (simp add: loop_ok_def)
  show ?thesis
    using assms(3) su loop later_trans [OF su later_confirm]
    by (auto simp: dispatch_pending_def Let_def split: loop_end.splits if_splits prod.splits) (metis snd_conv)+
qed

lemma dispatch_pending_result:
  assumes "turn_inv s" and "distinct (dp_projections d)"
    and "dispatch_pending ep d env clk ws limit target s = (Inr r, t)"
  shows "loop_ok d s t (r\<lparr>ds_target_delivered := None\<rparr>)" and
    "ds_target_delivered r = Some True \<Longrightarrow>
       \<exists>q. event_for t (py_strip (text_or_empty target)) = Some q \<and> ob_delivered_at q \<noteq> None"
proof -
  let ?k = "py_strip (text_or_empty target)"
  let ?target = "if ?k = [] then None else Some ?k"
  obtain e u where loop: "dispatch_loop ep d env ?target (nat (max 1 limit)) False no_result s = (e, u)"
    by fastforce
  note ok = dispatch_loop_ok [OF assms(1) loop_start assms(2) loop]
  have su: "later s u" and inv: "turn_inv u" using ok later_inv [OF assms(1)] by (auto simp: loop_ok_def)
  obtain b v where conf: "recover_or_confirm_target_ack ep d clk ?k ws u = (b, v)" by fastforce
  have uv: "later u v" using later_confirm conf by (metis snd_conv)
  have ok_v: "loop_ok d s v (loop_result e)" by (rule loop_ok_later [OF inv uv ok])
  show "loop_ok d s t (r\<lparr>ds_target_delivered := None\<rparr>)"
    using assms(3) loop ok ok_v conf
    by (auto simp: dispatch_pending_def Let_def loop_ok_def split: loop_end.splits if_splits)
  assume hit: "ds_target_delivered r = Some True"
  have idle: "ds_target_delivered (loop_result e) = None"
    using loop_keeps_target [OF loop] by (simp add: no_result_def)
  show "\<exists>q. event_for t ?k = Some q \<and> ob_delivered_at q \<noteq> None"
  proof (cases "?k \<noteq> [] \<and> ?k \<notin> set (ds_delivered_idempotency_keys (loop_result e))")
    case True
    with assms(3) loop conf hit have "b" and "v = t"
      by (auto simp: dispatch_pending_def Let_def split: loop_end.splits)
    with True confirm_sound [OF inv, of ?k ep d clk ws t] conf show ?thesis by auto
  next
    case False
    have "?k \<in> set (ds_delivered_idempotency_keys (loop_result e)) \<and> t = u"
      using False assms(3) loop hit idle
      by (auto simp: dispatch_pending_def Let_def split: loop_end.splits if_splits)
    then obtain i where "closed_event d t i ?k"
      using ok by (auto simp: loop_ok_def list_all2_conv_all_nth in_set_conv_nth)
    with closed_event_for inv \<open>_ \<and> t = u\<close> show ?thesis by blast
  qed
qed

end
