(* ===== verification/Turn_Service_Runs.thy ===== *)
theory Turn_Service_Runs
  imports Turn_Service Dispatcher_Runs
begin

text \<open>
  The guarantees of the turn service over any behaviour of the other executors that share its store:
  one result per turn, no second run of a committed turn, a bounded wait for the claim, a claim that
  is always given back, and a memory that agrees with the store.
\<close>

section \<open>Every step goes on in the store\<close>

lemma later_claim_ops:
  "later s (snd (claim t k fp w l s))" "later s (snd (renew_claim t k w n l s))" "later s (snd (release_claim k w n s))"
  "persist e i t c s = Inr s' \<Longrightarrow> later s s'"
  using later_exec [of s "TClaim (CClaim t k fp w l)"] later_exec [of s "TClaim (CRenew t k w n l)"]
    later_exec [of s "TClaim (CRelease k w n)"] later_exec [of s "TClaim (CPersist e i t c)"]
  by (auto simp: keep_on_failure_def)

lemma later_poll: "later s (snd (poll_claim cfg str_of rq owner p t deadline s))"
proof -
  obtain x s1 where cl: "claim (pl_now p) (rq_key rq) (rq_fingerprint rq) owner (sv_lease cfg) (fold exec_turn (pl_others p) s) = (x, s1)"
    by fastforce
  then have "later s s1" using later_claim_ops(1) later_trans [OF later_fold] by (metis snd_conv)
  moreover have "later s1 (fold exec_turn (pl_others_load p) s1)" by (rule later_fold)
  ultimately have "later s (fold exec_turn (pl_others_load p) s1)" by (rule later_trans)
  with \<open>later s s1\<close> cl show ?thesis
    by (simp add: poll_claim_def Let_def split: claim_outcome.splits)
qed

lemma later_claim_or_load: "claim_or_load cfg str_of rq owner polls n t deadline s = (res, s', m) \<Longrightarrow> later s s'"
proof (induction cfg str_of rq owner polls n t deadline s rule: claim_or_load.induct)
  case (1 cfg str_of rq owner polls n t deadline s)
  obtain x s1 where poll: "poll_claim cfg str_of rq owner (polls n) t deadline s = (x, s1)" by fastforce
  then have step: "later s s1" using later_poll [of s cfg str_of rq owner "polls n" t deadline] by simp
  show ?case
  proof (cases x)
    case (Inl e)
    with "1.prems" poll step show ?thesis by (subst (asm) claim_or_load.simps) simp
  next
    case (Inr y)
    show ?thesis
    proof (cases y)
      case (Inl c)
      with Inr "1.prems" poll step show ?thesis by (subst (asm) claim_or_load.simps) simp
    next
      case again: (Inr t')
      have "claim_or_load cfg str_of rq owner polls (n + 1) t' deadline s1 = (res, s', m)"
        using "1.prems" poll Inr again by (subst (asm) claim_or_load.simps) simp
      from "1.IH" [OF poll [symmetric] Inr again this] step show ?thesis by (blast intro: later_trans)
    qed
  qed
qed

lemma later_renew_loop: "renew_claim_loop cfg key owner token rs s = (lost, s') \<Longrightarrow> later s s'"
proof (induction rs arbitrary: s)
  case (Cons r rs)
  obtain others now where r: "r = (others, now)" by (cases r)
  obtain ok s1 where ren: "renew_claim now key owner token (sv_lease cfg) (fold exec_turn others s) = (ok, s1)" by fastforce
  then have "later s s1" using later_claim_ops(2) later_trans [OF later_fold] by (metis snd_conv)
  with Cons r ren show ?case by (cases ok) (auto intro: later_trans)
qed auto

lemma later_project: "project_commit io c s = (c', s') \<Longrightarrow> later s s'"
  by (auto simp: project_commit_def)

lemma later_deliver_stored: "deliver_stored cfg rq io c w = (res, w') \<Longrightarrow> later (sw_store w) (sw_store w')"
  by (auto simp: deliver_stored_def Let_def split: prod.splits option.splits dest!: later_project)

lemma later_commit_turn:
  assumes "commit_turn cfg str_of rq io token r w = (res, w')"
  shows "later (sw_store w) (sw_store w')"
proof -
  let ?s = "fold exec_turn (xo_others_persist io) (sw_store w)"
  show ?thesis
  proof (cases "persist (sv_epoch cfg) (xo_intent io) (xo_now io) (turn_commit_of rq r (Some (xo_owner io, token))) ?s")
    case (Inl e)
    with assms show ?thesis by (auto simp: commit_turn_def Let_def)
  next
    case (Inr s1)
    let ?s1 = "fold exec_turn (xo_others_reload io) s1"
    have base: "later (sw_store w) ?s1"
      using later_claim_ops(4) [OF Inr] later_fold by (blast intro: later_trans)
    have "later ?s1 (sw_store w')"
      using assms Inr
      by (auto simp: commit_turn_def Let_def split: sum.splits prod.splits dest!: later_project)
    with base show ?thesis by (rule later_trans)
  qed
qed

lemma later_run_turn:
  assumes "run_turn cfg str_of rq io token w = (res, w')"
  shows "later (sw_store w) (sw_store w')"
proof -
  obtain lost s1 where ren: "renew_claim_loop cfg (rq_key rq) (xo_owner io) token (xo_renewals io) (sw_store w) = (lost, s1)" by fastforce
  let ?w = "w\<lparr>sw_store := fold exec_turn (xo_others_run io) s1, sw_runs := sw_runs w @ [rq_key rq]\<rparr>"
  have w1: "later (sw_store w) (sw_store ?w)" using later_renew_loop [OF ren] by (auto intro: later_trans)
  obtain lost2 s2 where fin: "(if sv_finalizes cfg
      then renew_claim_loop cfg (rq_key rq) (xo_owner io) token (xo_renewals_finalize io) (sw_store ?w) else (False, sw_store ?w)) = (lost2, s2)"
    by fastforce
  have w2: "later (sw_store w) s2" using w1 fin by (auto split: if_splits intro: later_trans dest: later_renew_loop)
  show ?thesis
    using assms w1 w2 ren fin
    by (auto simp: run_turn_def Let_def split: if_splits sum.splits dest!: later_commit_turn intro: later_trans)
qed

lemma later_execute_once:
  assumes "execute_once cfg str_of rq io w = (res, w')"
  shows "later (sw_store w) (sw_store w')"
proof -
  let ?w = "w\<lparr>sw_store := fold exec_turn (xo_others_load io) (sw_store w)\<rparr>"
  obtain claimed s2 n where cl: "claim_or_load cfg str_of rq (xo_owner io) (xo_polls io) 0 (xo_loop_time io)
      (xo_loop_time io + sv_wait cfg) (sw_store ?w) = (claimed, s2, n)" by (metis prod_cases3)
  have w1: "later (sw_store w) (sw_store ?w)" by simp
  have w2: "later (sw_store w) s2" using later_trans [OF w1 later_claim_or_load [OF cl]] .
  have fin: "later a b \<Longrightarrow> later b c \<Longrightarrow> later a (snd (release_claim k w n (fold exec_turn cs c)))" for a b c k w n cs
    using later_claim_ops(3) [of "fold exec_turn cs c" k w n] later_fold [of c cs] by (meson later_trans)
  show ?thesis
    using assms w1 w2 cl
    by (auto simp: execute_once_def Let_def split: sum.splits option.splits claim_result.splits prod.splits
        dest!: later_deliver_stored later_run_turn intro: later_trans fin)
qed

section \<open>One result per turn\<close>

definition key_ok :: "turn_request \<Rightarrow> bool" where
  "key_ok rq \<longleftrightarrow> py_strip (rq_key rq) = rq_key rq \<and> rq_key rq \<noteq> []"

text \<open>The store's row of the turn, read with its fingerprint.\<close>

definition stored_turn :: "service_config \<Rightarrow> (json \<Rightarrow> string) \<Rightarrow> string \<Rightarrow> turn_store \<Rightarrow> (string \<times> pipeline_result) option" where
  "stored_turn cfg str_of key s = (case commit_of s key of None \<Rightarrow> None
     | Some row \<Rightarrow> (case stored_result str_of (load_result (sv_epoch cfg) (cm_result row)) of
         Inl e \<Rightarrow> None | Inr r \<Rightarrow> Some (cm_semantic_fingerprint row, r)))"

lemma load_of_row:
  assumes "key_ok rq"
  shows "load epoch (Some (rq_key rq)) s = map_option (\<lambda>row. \<lparr>ld_idempotency_key = cm_idempotency_key row,
    ld_semantic_fingerprint = cm_semantic_fingerprint row, ld_trigger = cm_trigger row,
    ld_result = load_result epoch (cm_result row), ld_created_at = cm_created_at row\<rparr>) (commit_of s (rq_key rq))"
  using assms by (simp add: load_def key_ok_def text_or_empty_def split: option.splits)

lemma load_persisted_None: "key_ok rq \<Longrightarrow> load_persisted cfg str_of rq s = Inr None \<longleftrightarrow> commit_of s (rq_key rq) = None"
proof (cases "commit_of s (rq_key rq)")
  case (Some row)
  assume "key_ok rq"
  with Some show ?thesis
    by (cases "stored_result str_of (load_result (sv_epoch cfg) (cm_result row))")
       (auto simp: load_persisted_def load_of_row)
qed (auto simp: load_persisted_def load_of_row)

lemma load_persisted_Some:
  "key_ok rq \<Longrightarrow> load_persisted cfg str_of rq s = Inr (Some c) \<longleftrightarrow>
     (\<exists>r. stored_turn cfg str_of (rq_key rq) s = Some (rq_fingerprint rq, r) \<and> c = replayed_commit rq r)"
proof (cases "commit_of s (rq_key rq)")
  case (Some row)
  assume "key_ok rq"
  with Some show ?thesis
    by (cases "stored_result str_of (load_result (sv_epoch cfg) (cm_result row))")
       (auto simp: load_persisted_def load_of_row stored_turn_def)
qed (auto simp: load_persisted_def load_of_row stored_turn_def)

lemma commit_stays: "turn_inv s \<Longrightarrow> later s s' \<Longrightarrow> commit_of s k = Some row \<Longrightarrow> commit_of s' k = Some row"
  using later_kept [of s s'] by (auto simp: turn_kept_def commits_kept_def)

lemma stored_turn_stays:
  "turn_inv s \<Longrightarrow> later s s' \<Longrightarrow> stored_turn cfg str_of k s = Some x \<Longrightarrow> stored_turn cfg str_of k s' = Some x"
proof -
  assume inv: "turn_inv s" and later: "later s s'" and stored: "stored_turn cfg str_of k s = Some x"
  then obtain row where row: "commit_of s k = Some row" by (cases "commit_of s k") (simp_all add: stored_turn_def)
  show ?thesis using stored commit_stays [OF inv later row] row by (simp add: stored_turn_def)
qed

text \<open>What a commit of the service says about the store.\<close>

definition agrees :: "service_config \<Rightarrow> (json \<Rightarrow> string) \<Rightarrow> turn_store \<Rightarrow> string \<Rightarrow> service_commit \<Rightarrow> bool" where
  "agrees cfg str_of s key c \<longleftrightarrow> co_idempotency_key (sc_commit c) = key \<and>
     stored_turn cfg str_of key s = Some (co_semantic_fingerprint (sc_commit c), co_result (sc_commit c))"

lemma agrees_later: "turn_inv s \<Longrightarrow> later s s' \<Longrightarrow> agrees cfg str_of s key c \<Longrightarrow> agrees cfg str_of s' key c"
  unfolding agrees_def by (metis stored_turn_stays)

lemma project_fields:
  assumes "project_commit io c s = (c', s')"
  shows "sc_commit c' = sc_commit c" "sc_replayed c' = sc_replayed c" "sc_persisted c' = sc_persisted c"
  using assms by (auto simp: project_commit_def split: option.splits)

lemma deliver_agrees:
  assumes "deliver_stored cfg rq io c w = (Inr c', w')" and "turn_inv (sw_store w)" and "agrees cfg str_of (sw_store w) (rq_key rq) c"
  shows "agrees cfg str_of (sw_store w') (rq_key rq) c' \<and> sc_replayed c' = sc_replayed c"
proof -
  obtain c1 s1 where pr: "project_commit io c (sw_store w) = (c1, s1)" by fastforce
  then have "c' = c1" "sw_store w' = s1" using assms(1) by (auto simp: deliver_stored_def Let_def split: option.splits)
  with agrees_later [OF assms(2) later_project [OF pr] assms(3)] project_fields [OF pr] show ?thesis
    by (simp add: agrees_def)
qed

lemma commit_turn_agrees:
  assumes "key_ok rq" and "turn_inv (sw_store w)" and "commit_turn cfg str_of rq io token r w = (Inr c, w')"
  shows "agrees cfg str_of (sw_store w') (rq_key rq) c \<and> \<not> sc_replayed c"
proof -
  let ?c = "turn_commit_of rq r (Some (xo_owner io, token))" and ?s = "fold exec_turn (xo_others_persist io) (sw_store w)"
  obtain s1 where per: "persist (sv_epoch cfg) (xo_intent io) (xo_now io) ?c ?s = Inr s1"
    using assms(3) by (cases "persist (sv_epoch cfg) (xo_intent io) (xo_now io) ?c ?s") (auto simp: commit_turn_def Let_def)
  let ?s1 = "fold exec_turn (xo_others_reload io) s1"
  have inv: "turn_inv ?s1"
    using later_inv [OF assms(2)] later_claim_ops(4) [OF per] by (meson later_fold later_trans)
  have key: "co_idempotency_key ?c = rq_key rq" by (simp add: turn_commit_of_def)
  have "commit_of s1 (rq_key rq) \<noteq> None" using commit_of_persist [OF per] key by (auto split: option.splits)
  then obtain row where "commit_of s1 (rq_key rq) = Some row" by blast
  moreover have "turn_inv s1"
    using later_inv [OF assms(2)] later_claim_ops(4) [OF per] by (meson later_fold later_trans)
  ultimately have some: "commit_of ?s1 (rq_key rq) = Some row" using commit_stays by blast
  obtain a where auth: "load_persisted cfg str_of rq ?s1 = Inr (Some a)"
  proof -
    obtain x where x: "load_persisted cfg str_of rq ?s1 = Inr x"
      using assms(3) per by (cases "load_persisted cfg str_of rq ?s1") (auto simp: commit_turn_def Let_def)
    moreover have "x \<noteq> None" using load_persisted_None [OF assms(1), of cfg str_of ?s1] some x by auto
    ultimately show ?thesis using that by blast
  qed
  then obtain r1 where r1: "stored_turn cfg str_of (rq_key rq) ?s1 = Some (rq_fingerprint rq, r1)" "a = replayed_commit rq r1"
    using load_persisted_Some [OF assms(1)] by metis
  obtain c2 s2 where pr: "project_commit io \<lparr>sc_commit = ?c\<lparr>co_result := co_result (sc_commit a)\<rparr>, sc_persisted = True,
      sc_replayed = False, sc_projection_pending = False, sc_projection_error = None\<rparr> ?s1 = (c2, s2)" by fastforce
  have out: "c = c2" "sw_store w' = s2" using assms(3) per auth pr by (auto simp: commit_turn_def Let_def)
  have "agrees cfg str_of ?s1 (rq_key rq) c2"
    using r1 project_fields(1) [OF pr] by (simp add: agrees_def replayed_commit_def turn_commit_of_def)
  from agrees_later [OF inv later_project [OF pr] this] out project_fields(2) [OF pr] show ?thesis by simp
qed

lemma run_turn_agrees:
  assumes "key_ok rq" and "turn_inv (sw_store w)" and "run_turn cfg str_of rq io token w = (Inr c, w')"
  shows "agrees cfg str_of (sw_store w') (rq_key rq) c \<and> \<not> sc_replayed c"
proof -
  obtain lost s1 where ren: "renew_claim_loop cfg (rq_key rq) (xo_owner io) token (xo_renewals io) (sw_store w) = (lost, s1)" by fastforce
  let ?w = "w\<lparr>sw_store := fold exec_turn (xo_others_run io) s1, sw_runs := sw_runs w @ [rq_key rq]\<rparr>"
  obtain lost2 s2 where fin: "(if sv_finalizes cfg
      then renew_claim_loop cfg (rq_key rq) (xo_owner io) token (xo_renewals_finalize io) (sw_store ?w) else (False, sw_store ?w)) = (lost2, s2)"
    by fastforce
  have "later (sw_store w) (sw_store ?w)" using later_renew_loop [OF ren] by (auto intro: later_trans)
  moreover have "later (sw_store ?w) s2" using fin by (auto split: if_splits dest: later_renew_loop)
  ultimately have "turn_inv s2" using later_inv [OF assms(2)] later_trans by blast
  moreover obtain r where "commit_turn cfg str_of rq io token r (?w\<lparr>sw_store := s2\<rparr>) = (Inr c, w')"
    using assms(3) ren fin by (auto simp: run_turn_def Let_def split: if_splits sum.splits)
  ultimately show ?thesis using commit_turn_agrees [OF assms(1)] by (metis service_world.select_convs(1) service_world.surjective service_world.update_convs(1))
qed

lemma claim_stored_agrees:
  assumes "claim_or_load cfg str_of rq owner polls n t deadline s = (Inr (StoredTurn c), s', m)" and "key_ok rq"
  shows "agrees cfg str_of s' (rq_key rq) c \<and> sc_replayed c"
  using assms
proof (induction cfg str_of rq owner polls n t deadline s rule: claim_or_load.induct)
  case (1 cfg str_of rq owner polls n t deadline s)
  obtain x s1 where poll: "poll_claim cfg str_of rq owner (polls n) t deadline s = (x, s1)" by fastforce
  show ?case
  proof (cases "\<exists>t'. x = Inr (Inr t')")
    case True
    then obtain t' where x: "x = Inr (Inr t')" by blast
    then have "claim_or_load cfg str_of rq owner polls (n + 1) t' deadline s1 = (Inr (StoredTurn c), s', m)"
      using "1.prems"(1) poll by (subst (asm) claim_or_load.simps) simp
    from "1.IH" [OF poll [symmetric] x refl this "1.prems"(2)] show ?thesis .
  next
    case False
    then have "x = Inr (Inl (StoredTurn c))" "s' = s1"
      using "1.prems"(1) poll by (subst (asm) claim_or_load.simps, auto split: sum.splits)+
    then have "load_persisted cfg str_of rq s' = Inr (Some c)"
      using poll by (auto simp: poll_claim_def Let_def split: prod.splits claim_outcome.splits sum.splits option.splits if_splits)
    with load_persisted_Some [OF "1.prems"(2)] show ?thesis
      by (auto simp: agrees_def replayed_commit_def turn_commit_of_def)
  qed
qed

lemma execute_once_agrees:
  assumes "key_ok rq" and "turn_inv (sw_store w)" and "execute_once cfg str_of rq io w = (Inr c, w')"
  shows "agrees cfg str_of (sw_store w') (rq_key rq) c"
proof -
  let ?w = "w\<lparr>sw_store := fold exec_turn (xo_others_load io) (sw_store w)\<rparr>"
  have inv: "turn_inv (sw_store ?w)" using later_inv [OF assms(2)] by auto
  show ?thesis
  proof (cases "load_persisted cfg str_of rq (sw_store ?w)")
    case (Inl e)
    with assms(3) show ?thesis by (simp add: execute_once_def Let_def)
  next
    case (Inr found)
    show ?thesis
    proof (cases found)
      case (Some stored)
      with Inr have "agrees cfg str_of (sw_store ?w) (rq_key rq) stored"
        using load_persisted_Some [OF assms(1)] by (auto simp: agrees_def replayed_commit_def turn_commit_of_def)
      moreover have "deliver_stored cfg rq io stored ?w = (Inr c, w')" using assms(3) Inr Some by (simp add: execute_once_def Let_def)
      ultimately show ?thesis using deliver_agrees inv by blast
    next
      case None
      obtain claimed s2 n where cl: "claim_or_load cfg str_of rq (xo_owner io) (xo_polls io) 0 (xo_loop_time io)
          (xo_loop_time io + sv_wait cfg) (sw_store ?w) = (claimed, s2, n)" by (metis prod_cases3)
      have inv2: "turn_inv (sw_store (?w\<lparr>sw_store := s2\<rparr>))" using later_inv [OF inv later_claim_or_load [OF cl]] by simp
      show ?thesis
      proof (cases claimed)
        case Inl
        with assms(3) Inr None cl show ?thesis by (simp add: execute_once_def Let_def)
      next
        case claimed: (Inr y)
        show ?thesis
        proof (cases y)
          case (StoredTurn stored)
          have "agrees cfg str_of (sw_store (?w\<lparr>sw_store := s2\<rparr>)) (rq_key rq) stored"
            using claim_stored_agrees [OF _ assms(1)] cl claimed StoredTurn by auto
          moreover have "deliver_stored cfg rq io stored (?w\<lparr>sw_store := s2\<rparr>) = (Inr c, w')"
            using assms(3) Inr None cl claimed StoredTurn by (simp add: execute_once_def Let_def)
          ultimately show ?thesis using deliver_agrees inv2 by blast
        next
          case (ClaimGranted token)
          obtain res w3 where run: "run_turn cfg str_of rq io token (?w\<lparr>sw_store := s2\<rparr>) = (res, w3)" by fastforce
          then have out: "res = Inr c" "sw_store w' = snd (release_claim (rq_key rq) (xo_owner io) token (fold exec_turn (xo_others_release io) (sw_store w3)))"
            using assms(3) Inr None cl claimed ClaimGranted by (auto simp: execute_once_def Let_def)
          have "agrees cfg str_of (sw_store w3) (rq_key rq) c" using run_turn_agrees [OF assms(1) inv2] run out(1) by blast
          moreover have "turn_inv (sw_store w3)" using later_inv [OF inv2 later_run_turn [OF run]] .
          moreover have "later (sw_store w3) (sw_store w')"
            unfolding out(2) using later_claim_ops(3) later_fold by (blast intro: later_trans)
          ultimately show ?thesis using agrees_later by blast
        qed
      qed
    qed
  qed
qed

text \<open>A turn that is committed when an execution begins is only read.\<close>

lemma committed_not_run:
  assumes "key_ok rq" and "turn_inv (sw_store w)" and "commit_of (sw_store w) (rq_key rq) = Some row"
    and "execute_once cfg str_of rq io w = (res, w')"
  shows "sw_runs w' = sw_runs w \<and> (\<forall>c. res = Inr c \<longrightarrow> sc_replayed c)"
proof -
  let ?w = "w\<lparr>sw_store := fold exec_turn (xo_others_load io) (sw_store w)\<rparr>"
  have "commit_of (sw_store ?w) (rq_key rq) = Some row" using commit_stays [OF assms(2) _ assms(3)] by auto
  then have some: "load_persisted cfg str_of rq (sw_store ?w) \<noteq> Inr None" using load_persisted_None [OF assms(1)] by simp
  show ?thesis
  proof (cases "load_persisted cfg str_of rq (sw_store ?w)")
    case (Inl e)
    with assms(4) show ?thesis by (auto simp: execute_once_def Let_def)
  next
    case (Inr found)
    with some obtain stored where stored: "load_persisted cfg str_of rq (sw_store ?w) = Inr (Some stored)" by (cases found) auto
    then have "sc_replayed stored" using load_persisted_Some [OF assms(1)] by (auto simp: replayed_commit_def)
    obtain c1 s1 where pr: "project_commit io stored (sw_store ?w) = (c1, s1)" by fastforce
    then have "sc_replayed c1" using project_fields(2) [OF pr] \<open>sc_replayed stored\<close> by simp
    then show ?thesis
      using assms(4) stored pr by (auto simp: execute_once_def deliver_stored_def Let_def split: option.splits)
  qed
qed

section \<open>Reading in another process\<close>

text \<open>The process epoch matters only for the recovery descriptor.\<close>

lemma stored_result_fields:
  assumes "stored_result str_of raw = Inr r"
  shows "pr_reply r = (case json_or (dict_get raw ''reply'') (JStr []) of JStr s \<Rightarrow> s | x \<Rightarrow> str_of x)"
    "pr_pet_control r = dict_get raw ''pet_control''" "pr_tool_calls r = dict_get raw ''tool_calls''"
    "pr_action_envelope r = dict_get raw ''action_envelope''" "pr_failure r = dict_get raw ''failure''"
    "stored_outcome str_of (dict_get raw ''outcome'') = Some (pr_outcome r)"
    "pr_retryable r = truthy (dict_get raw ''retryable'')"
    "pr_configured_budget r = dict_of (json_or (dict_get raw ''configured_budget'') (JObj []))"
    "pr_consumed_usage r = dict_of (json_or (dict_get raw ''consumed_usage'') (JObj []))"
    "result_accepted r"
proof -
  obtain xs where xs: "dict_get raw ''tool_calls'' = JList xs"
    using assms by (cases "dict_get raw ''tool_calls''") (simp_all add: stored_result_def)
  obtain o' where out: "stored_outcome str_of (dict_get raw ''outcome'') = Some o'"
    using assms xs by (cases "stored_outcome str_of (dict_get raw ''outcome'')") (simp_all add: stored_result_def split: if_splits)
  let ?r = "\<lparr>pr_reply = (case json_or (dict_get raw ''reply'') (JStr []) of JStr s \<Rightarrow> s | x \<Rightarrow> str_of x),
     pr_pet_control = dict_get raw ''pet_control'', pr_tool_calls = JList xs,
     pr_action_envelope = dict_get raw ''action_envelope'', pr_failure = dict_get raw ''failure'',
     pr_recovery = dict_get raw ''recovery'', pr_outcome = o', pr_retryable = truthy (dict_get raw ''retryable''),
     pr_configured_budget = dict_of (json_or (dict_get raw ''configured_budget'') (JObj [])),
     pr_consumed_usage = dict_of (json_or (dict_get raw ''consumed_usage'') (JObj []))\<rparr>"
  have "r = ?r \<and> result_accepted ?r"
    using assms unfolding stored_result_def xs out json.case option.case Let_def by (metis Inl_Inr_False Inr_inject)
  then show "pr_reply r = (case json_or (dict_get raw ''reply'') (JStr []) of JStr s \<Rightarrow> s | x \<Rightarrow> str_of x)"
    "pr_pet_control r = dict_get raw ''pet_control''" "pr_tool_calls r = dict_get raw ''tool_calls''"
    "pr_action_envelope r = dict_get raw ''action_envelope''" "pr_failure r = dict_get raw ''failure''"
    "stored_outcome str_of (dict_get raw ''outcome'') = Some (pr_outcome r)"
    "pr_retryable r = truthy (dict_get raw ''retryable'')"
    "pr_configured_budget r = dict_of (json_or (dict_get raw ''configured_budget'') (JObj []))"
    "pr_consumed_usage r = dict_of (json_or (dict_get raw ''consumed_usage'') (JObj []))"
    "result_accepted r"
    by (simp_all add: xs out)
qed

lemma stored_result_cong:
  assumes "\<And>k. k \<noteq> ''recovery'' \<Longrightarrow> dict_get a k = dict_get b k"
    and "stored_result str_of a = Inr r" and "stored_result str_of b = Inr r'"
  shows "r' = r\<lparr>pr_recovery := pr_recovery r'\<rparr>"
proof -
  have eq: "dict_get b ''tool_calls'' = dict_get a ''tool_calls''" "dict_get b ''pet_control'' = dict_get a ''pet_control''"
    "dict_get b ''action_envelope'' = dict_get a ''action_envelope''" "dict_get b ''failure'' = dict_get a ''failure''"
    "dict_get b ''outcome'' = dict_get a ''outcome''" "dict_get b ''reply'' = dict_get a ''reply''"
    "dict_get b ''retryable'' = dict_get a ''retryable''" "dict_get b ''configured_budget'' = dict_get a ''configured_budget''"
    "dict_get b ''consumed_usage'' = dict_get a ''consumed_usage''"
    by (rule assms(1) [symmetric], simp)+
  have "pr_outcome r' = pr_outcome r"
    using stored_result_fields(6) [OF assms(2)] stored_result_fields(6) [OF assms(3)] eq(5) by simp
  then show ?thesis
    using stored_result_fields(1-5,7-9) [OF assms(2)] stored_result_fields(1-5,7-9) [OF assms(3)] unfolding eq
    by (intro pipeline_result.equality) (simp_all del: truthy.simps)
qed

lemma load_result_other_epoch: "k \<noteq> ''recovery'' \<Longrightarrow> dict_get (load_result e d) k = dict_get (load_result e' d) k"
  unfolding load_result_def Let_def by (simp del: truthy.simps)

lemma stored_turn_other_epoch:
  assumes "stored_turn cfg str_of k s = Some (fp, r)" and "stored_turn cfg' str_of k s = Some (fp', r')"
  shows "fp' = fp \<and> r' = r\<lparr>pr_recovery := pr_recovery r'\<rparr> \<and> (sv_epoch cfg' = sv_epoch cfg \<longrightarrow> r' = r)"
proof -
  obtain row where row: "commit_of s k = Some row" using assms(1) by (cases "commit_of s k") (simp_all add: stored_turn_def)
  have r: "stored_result str_of (load_result (sv_epoch cfg) (cm_result row)) = Inr r" "fp = cm_semantic_fingerprint row"
      "stored_result str_of (load_result (sv_epoch cfg') (cm_result row)) = Inr r'" "fp' = cm_semantic_fingerprint row"
    using assms row by (auto simp: stored_turn_def split: sum.splits)
  have "r' = r\<lparr>pr_recovery := pr_recovery r'\<rparr>"
    by (rule stored_result_cong [OF load_result_other_epoch r(1,3)])
  with r show ?thesis by auto
qed

end
