(* ===== verification/Turn_Properties.thy ===== *)
theory Turn_Properties
  imports Dispatcher_Runs
begin

text \<open>
  The guarantees of the turn store and its outbox, stated over the stores the program can reach and
  over every interleaving of operations, each with an instance on a small concrete store.
\<close>

section \<open>Sample data\<close>

definition sample_context :: agent_context where
  "sample_context = \<lparr>cx_workspace_id = Some ''main'', cx_session_id = ''s1'', cx_request_id = None,
     cx_turn_id = None, cx_generation_id = None, cx_interruption_epoch = 0, cx_messages = JList [],
     cx_model = None, cx_autonomy_mode = ''companion'', cx_extra = []\<rparr>"

definition sample_commit :: "string option \<Rightarrow> int option \<Rightarrow> turn_commit" where
  "sample_commit w n = \<lparr>co_idempotency_key = ''k'', co_semantic_fingerprint = ''f'', co_trigger = ''chat'',
     co_context = sample_context,
     co_result = \<lparr>pr_reply = ''hi'', pr_pet_control = JNull, pr_tool_calls = JList [],
       pr_action_envelope = JNull, pr_failure = JNull, pr_recovery = JObj [(''kind'', JStr ''manual'')],
       pr_outcome = ''completed'', pr_retryable = False, pr_configured_budget = [],
       pr_consumed_usage = []\<rparr>,
     co_claim_owner = w, co_claim_fencing_token = n\<rparr>"

definition sample_store :: turn_store where
  "sample_store = exec_claim (CPersist ''ep'' JNull 1 (sample_commit None None)) empty_store"

lemma sample_simps [simp]:
  "co_idempotency_key (sample_commit w n) = ''k''" "co_semantic_fingerprint (sample_commit w n) = ''f''"
  "claim_owner_of (sample_commit None n) = []"
  "claim_owner_of (sample_commit (Some ''a'') n) = ''a''"
  "claim_token_of (sample_commit w (Some m)) = m"
  by (simp_all add: sample_commit_def claim_owner_of_def claim_token_of_def text_or_empty_def
      py_strip_def py_isspace_def)

lemma persist_empty:
  "persist ep i t (sample_commit None None) empty_store = Inr (exec_claim (CPersist ep i t (sample_commit None None)) empty_store)"
  by (simp add: keep_on_failure_def persist_def Let_def empty_store_def)

lemma reachable_sample: "reachable sample_store"
  unfolding sample_store_def using reachable.step [OF reachable.start, of "TClaim (CPersist ''ep'' JNull 1 (sample_commit None None))"]
  by simp

text \<open>The single row of the sample's outbox.\<close>

definition sample_event :: outbox_row where
  "sample_event = outbox_row_of 1 (persist_payload ''ep'' JNull 1 (sample_commit None None)) 1 (sample_commit None None)"

lemma sample_outbox: "turn_outbox sample_store = [sample_event]" "outbox_seq sample_store = 1"
  using persist_InrD(4,5) [OF persist_empty [of "''ep''" JNull 1]]
  by (simp_all add: sample_store_def sample_event_def empty_store_def insert_or_ignore_def)

lemma sample_event_fields:
  "ob_event_id sample_event = 1" "ob_idempotency_key sample_event = ''k''" "pending sample_event"
  "ob_available_at sample_event = 1" "ob_claimed_by sample_event = None" "ob_claim_expires_at sample_event = None"
  "ob_attempt_count sample_event = 0" "ob_delivered_at sample_event = None" "ob_dead_lettered_at sample_event = None"
  by (simp_all add: sample_event_def outbox_row_of_def pending_def)

lemma sample_head: "pending_head sample_store = Some sample_event"
  by (simp add: pending_head_def pending_rows_def sample_outbox sample_event_fields)

section \<open>Claims and commits\<close>

text \<open>C3. A turn claim that was granted stays with its owner, with its token and its lease, whatever
  the other executors, dispatchers and delivery workers do before the lease ends.\<close>

theorem turn_claim_exclusive:
  assumes "reachable s" and "claim t k fp w l s = (Claimed n e, s')"
    and "\<forall>c\<in>set cs. turn_actor c \<noteq> Some w \<and> (\<forall>u. turn_clock c = Some u \<longrightarrow> u < e)"
  shows "\<exists>r. claim_of (fold exec_turn cs s') k = Some r \<and> tc_owner_id r = w \<and>
    tc_fencing_token r = n \<and> tc_lease_expires_at r = e"
proof -
  have "s' = exec_turn (TClaim (CClaim t k fp w l)) s" using assms(2) by simp
  then have inv: "turn_inv s'" using reachable.step [OF assms(1)] reachable_inv by blast
  obtain r where r: "claim_of s' k = Some r" "tc_owner_id r = w" "tc_fencing_token r = n"
      "tc_lease_expires_at r = e"
    using claimed_row [OF assms(2)] by blast
  then have "claim_of (fold exec_turn cs s') k = Some r"
    using turns.lease_run [OF inv r(1), of w e cs] assms(3) by (simp add: claim_lease_def)
  with r show ?thesis by blast
qed

lemma claim_empty:
  "claim 0 ''k'' ''f'' ''a'' 30 empty_store = (Claimed 1 30, exec_claim (CClaim 0 ''k'' ''f'' ''a'' 30) empty_store)"
  by (simp add: claim_def empty_store_def Let_def lease_end_def)

theorem turn_claim_exclusive_witness:
  "\<exists>r. claim_of (fold exec_turn [TClaim (CClaim 5 ''k'' ''f'' ''b'' 30), TOutbox (OClaim 6 ''b'' 30)]
      (exec_claim (CClaim 0 ''k'' ''f'' ''a'' 30) empty_store)) ''k'' = Some r \<and>
    tc_owner_id r = ''a'' \<and> tc_fencing_token r = 1 \<and> tc_lease_expires_at r = 30"
  by (rule turn_claim_exclusive [OF reachable.start claim_empty]) simp

text \<open>C4. Fencing: once another executor was granted the claim of a turn, a commit that still names a
  previous owner is refused, at any clock and after anything that happens before the new lease ends.\<close>

theorem stale_owner_cannot_commit:
  assumes "reachable s" and "claim t (co_idempotency_key c) fp w l s = (Claimed n e, s')"
    and "claim_owner_of c \<noteq> []" and "claim_owner_of c \<noteq> w"
    and "\<forall>x\<in>set cs. turn_actor x \<noteq> Some w \<and> (\<forall>u. turn_clock x = Some u \<longrightarrow> u < e)"
  shows "\<exists>err. persist ep i now c (fold exec_turn cs s') = Inl err"
proof -
  have "s' = exec_turn (TClaim (CClaim t (co_idempotency_key c) fp w l)) s" using assms(2) by simp
  then have inv: "turn_inv s'" using reachable.step [OF assms(1)] reachable_inv by blast
  obtain r where r: "claim_of s' (co_idempotency_key c) = Some r" "tc_owner_id r = w"
      "tc_lease_expires_at r = e"
    using claimed_row [OF assms(2)] by blast
  then have "claim_of (fold exec_turn cs s') (co_idempotency_key c) = Some r"
    using turns.lease_run [OF inv r(1), of w e cs] assms(5) by (simp add: claim_lease_def)
  with r(2) assms(3,4) show ?thesis by (intro persist_refused) auto
qed

theorem stale_owner_cannot_commit_witness:
  "\<exists>err. persist ''ep'' JNull 6 (sample_commit (Some ''a'') (Some 1))
     (fold exec_turn [TClaim (CRenew 5 ''k'' ''a'' 1 30)] (snd (claim 0 ''k'' ''f'' ''b'' 30 empty_store))) = Inl err"
proof (rule stale_owner_cannot_commit [of empty_store 0 _ "''f''" "''b''" 30 1 30])
  show "claim 0 (co_idempotency_key (sample_commit (Some ''a'') (Some 1))) ''f'' ''b'' 30 empty_store =
      (Claimed 1 30, snd (claim 0 ''k'' ''f'' ''b'' 30 empty_store))"
    by (simp add: claim_def empty_store_def Let_def lease_end_def)
qed (simp_all add: reachable.start)

text \<open>While the row of a claim lives its fencing token never decreases, and it grows strictly
  when the owner changes.\<close>

theorem fencing_token_grows:
  assumes "reachable s" and "claim_of s k = Some r" and "claim_of (exec_claim c s) k = Some r'"
  shows "tc_fencing_token r \<le> tc_fencing_token r' \<and>
    (tc_owner_id r' \<noteq> tc_owner_id r \<longrightarrow> tc_fencing_token r < tc_fencing_token r')"
  using token_step [OF _ assms(2,3)] reachable_inv [OF assms(1)] by (simp add: turn_inv_def)

theorem fencing_token_grows_witness:
  "tc_fencing_token \<lparr>tc_idempotency_key = ''k'', tc_semantic_fingerprint = ''f'', tc_owner_id = ''a'',
     tc_fencing_token = 1, tc_lease_expires_at = 30, tc_updated_at = 0\<rparr> < (2 :: int)"
  using fencing_token_grows [of "exec_turn (TClaim (CClaim 0 ''k'' ''f'' ''a'' 30)) empty_store" "''k''"
      "\<lparr>tc_idempotency_key = ''k'', tc_semantic_fingerprint = ''f'', tc_owner_id = ''a'',
       tc_fencing_token = 1, tc_lease_expires_at = 30, tc_updated_at = 0\<rparr>" "CClaim 40 ''k'' ''f'' ''b'' 30"
      "\<lparr>tc_idempotency_key = ''k'', tc_semantic_fingerprint = ''f'', tc_owner_id = ''b'',
       tc_fencing_token = 2, tc_lease_expires_at = 70, tc_updated_at = 40\<rparr>"]
    reachable.step [OF reachable.start, of "TClaim (CClaim 0 ''k'' ''f'' ''a'' 30)"]
  by (simp add: claim_def empty_store_def Let_def lease_end_def upsert_def update_where_def)

text \<open>C1. A successful commit is durable and unique: in every later store the turn's key has one
  commit row with the committed fingerprint, one outbox event with the same document, and both are
  what they were right after the commit.\<close>

theorem commit_is_durable:
  assumes "reachable s" and "persist ep i t c s = Inr s'"
  shows "\<exists>r q. commit_of (fold exec_turn cs s') (co_idempotency_key c) = Some r \<and>
    event_for (fold exec_turn cs s') (co_idempotency_key c) = Some q \<and>
    cm_semantic_fingerprint r = co_semantic_fingerprint c \<and> ob_payload q = cm_result r \<and>
    commit_of s' (co_idempotency_key c) = Some r \<and>
    (commit_of s (co_idempotency_key c) = None \<longrightarrow> cm_result r = persist_payload ep i t c)"
proof -
  let ?k = "co_idempotency_key c"
  have "s' = exec_turn (TClaim (CPersist ep i t c)) s" using assms(2) by (simp add: keep_on_failure_def)
  then have inv: "turn_inv s'" using reachable.step [OF assms(1)] reachable_inv by blast
  obtain r where r: "commit_of s' ?k = Some r" "cm_semantic_fingerprint r = co_semantic_fingerprint c"
      "commit_of s ?k = None \<longrightarrow> cm_result r = persist_payload ep i t c"
    using commit_of_persist [OF assms(2), of ?k] persist_InrD(2) [OF assms(2)]
    by (cases "commit_of s ?k") (auto simp: commit_row_of_def)
  have later: "commit_of (fold exec_turn cs s') ?k = Some r"
    using turns.run_leq [OF inv, of cs] r(1) by (auto simp: turn_kept_def commits_kept_def)
  have "transactional (fold exec_turn cs s')"
    using turns.run_inv [OF inv] by (simp add: turn_inv_def)
  then obtain q where "event_for (fold exec_turn cs s') ?k = Some q" "ob_payload q = cm_result r"
    using later unfolding transactional_def by (metis (no_types, lifting) map_option_eq_Some)
  with r later show ?thesis by (intro exI [of _ r] exI [of _ q]) simp
qed

theorem commit_is_durable_witness:
  "\<exists>r q. commit_of (fold exec_turn [TOutbox (OAck 2 1 None)] sample_store) ''k'' = Some r \<and>
    event_for (fold exec_turn [TOutbox (OAck 2 1 None)] sample_store) ''k'' = Some q \<and>
    ob_payload q = cm_result r"
  using commit_is_durable [OF reachable.start persist_empty, of "[TOutbox (OAck 2 1 None)]" "''ep''" JNull 1]
  unfolding sample_store_def sample_simps by blast

text \<open>C2. The transactional outbox: in every reachable store a turn has a commit exactly when it has
  an event, with the same document, and no key or event number occurs twice.\<close>

theorem outbox_mirrors_commits:
  assumes "reachable s"
  shows "map_option cm_result (commit_of s k) = map_option ob_payload (event_for s k) \<and>
    distinct (map cm_idempotency_key (turn_commits s)) \<and>
    distinct (map ob_idempotency_key (turn_outbox s)) \<and> distinct (map ob_event_id (turn_outbox s))"
  using reachable_inv [OF assms]
  by (simp add: turn_inv_def transactional_def claim_inv_def outbox_inv_def unique_on_def)

theorem outbox_mirrors_commits_witness:
  "map_option cm_result (commit_of sample_store ''k'') = map_option ob_payload (event_for sample_store ''k'')"
  using outbox_mirrors_commits [OF reachable_sample] by blast

text \<open>A committed result is read back as it was written: reply and outcome are the turn's, the
  recovery descriptor of the same process is restored exactly, and no reader ever sees the
  identity of the writing process.\<close>

theorem load_returns_commit:
  assumes "persist ep i t c s = Inr s'" and "commit_of s (co_idempotency_key c) = None"
    and "py_strip (co_idempotency_key c) = co_idempotency_key c" and "co_idempotency_key c \<noteq> []"
    and "pr_recovery (co_result c) = JObj rec" and "\<not> dict_has rec ''_process_epoch''"
  shows "\<exists>d. load ep' (Some (co_idempotency_key c)) s' = Some d \<and>
    ld_semantic_fingerprint d = co_semantic_fingerprint c \<and>
    dict_get (ld_result d) ''reply'' = JStr (pr_reply (co_result c)) \<and>
    dict_get (ld_result d) ''outcome'' = JStr (pr_outcome (co_result c)) \<and>
    (ep' = ep \<longrightarrow> dict_get (ld_result d) ''recovery'' = JObj rec) \<and>
    dict_get (dict_of (dict_get (ld_result d) ''recovery'')) ''_process_epoch'' = JNull"
proof -
  let ?p = "persist_payload ep i t c"
  have row: "commit_of s' (co_idempotency_key c) = Some (commit_row_of t ?p c)"
    using commit_of_persist [OF assms(1), of "co_idempotency_key c"] assms(2) by simp
  have get: "dict_get ?p ''reply'' = JStr (pr_reply (co_result c))"
    "dict_get ?p ''outcome'' = JStr (pr_outcome (co_result c))"
    "dict_get ?p ''recovery'' = persist_recovery_descriptor ep (JObj rec)"
    by (simp_all add: dict_get_persist_payload base_payload_result assms(5))
  have has: "dict_has ?p ''outcome''"
    using get(2) by (auto simp: dict_get_def dict_has_def split: option.splits)
  show ?thesis
    using assms(3,4) row
    by (auto simp: load_def Let_def text_or_empty_def commit_row_of_def load_result_def get
        dict_setdefault_def has load_recovery_no_epoch load_persist_recovery [OF assms(6)])
qed

theorem load_returns_commit_witness:
  "\<exists>d. load ''other'' (Some ''k'') sample_store = Some d \<and> dict_get (ld_result d) ''reply'' = JStr ''hi''"
  using load_returns_commit [OF persist_empty, of "[(''kind'', JStr ''manual'')]" "''other''" "''ep''" JNull 1]
  by (auto simp: sample_commit_def empty_store_def py_strip_def py_isspace_def dict_has_def sample_store_def)

section \<open>The outbox\<close>

text \<open>C5. Events are taken strictly in commit order: when one is claimed, every event with a smaller
  number is delivered or dead-lettered, and stays so in every later store.\<close>

theorem outbox_claims_in_order:
  assumes "reachable s" and "claim_next_outbox ep t w l s = (OutboxClaimed ev, s')"
  shows "\<forall>d q. event_of (fold exec_turn cs s') d = Some q \<and> d < ev_event_id ev \<longrightarrow> \<not> pending q"
proof (intro allI impI)
  fix d q
  assume q: "event_of (fold exec_turn cs s') d = Some q \<and> d < ev_event_id ev"
  have inv: "turn_inv s" by (rule reachable_inv [OF assms(1)])
  have "later s (fold exec_turn cs s')" using later_trans [OF later_snd(1) [OF assms(2)]] by blast
  with claim_floor(1) [OF inv assms(2)] inv have "queue_floor (fold exec_turn cs s') (ev_event_id ev)"
    by (auto intro: later_floor)
  with q show "\<not> pending q" by (force simp: queue_floor_def dest: row_of_mem row_of_key)
qed

definition sample_two :: turn_store where
  "sample_two = fold exec_turn [TOutbox (OAck 2 1 None),
     TClaim (CPersist ''ep'' JNull 3 ((sample_commit None None)\<lparr>co_idempotency_key := ''k2''\<rparr>))] sample_store"

definition sample_event_two :: outbox_row where
  "sample_event_two = outbox_row_of 3 (persist_payload ''ep'' JNull 3 ((sample_commit None None)\<lparr>co_idempotency_key := ''k2''\<rparr>)) 2
     ((sample_commit None None)\<lparr>co_idempotency_key := ''k2''\<rparr>)"

lemma sample_event_two_fields:
  "ob_event_id sample_event_two = 2" "pending sample_event_two" "ob_available_at sample_event_two = 3"
  "ob_claimed_by sample_event_two = None"
  by (simp_all add: sample_event_two_def outbox_row_of_def pending_def)

lemma sample_two_outbox: "turn_outbox sample_two = [sample_event\<lparr>ob_delivered_at := Some 2\<rparr>, sample_event_two]"
proof -
  let ?c = "(sample_commit None None)\<lparr>co_idempotency_key := ''k2''\<rparr>"
  let ?s = "snd (acknowledge 2 1 None sample_store)"
  have out: "turn_outbox ?s = [sample_event\<lparr>ob_delivered_at := Some 2\<rparr>]" "outbox_seq ?s = 1"
      "turn_commits ?s = turn_commits sample_store"
    by (simp_all add: acknowledge_def Let_def update_where_def sample_outbox sample_event_fields)
  have "commit_of sample_store ''k2'' = None"
    using persist_InrD(3) [OF persist_empty [of "''ep''" JNull 1]]
    by (simp add: sample_store_def empty_store_def insert_or_ignore_def)
  then have "\<exists>t. persist ''ep'' JNull 3 ?c ?s = Inr t"
    by (simp add: persist_def Let_def out claim_owner_of_def sample_commit_def text_or_empty_def)
  then obtain t where t: "persist ''ep'' JNull 3 ?c ?s = Inr t" by blast
  from persist_InrD(4) [OF t] t show ?thesis
    by (simp add: sample_two_def keep_on_failure_def out insert_or_ignore_def sample_event_fields
        sample_event_two_def)
qed

theorem outbox_claims_in_order_witness:
  "\<exists>q. event_of (fold exec_turn [] (snd (claim_next_outbox ''ep'' 4 ''w'' 30 sample_two))) 1 = Some q \<and> \<not> pending q"
proof -
  have reach: "reachable sample_two" unfolding sample_two_def by (rule reachable_run [OF reachable_sample])
  then have ob: "outbox_inv sample_two" using reachable_inv by (auto simp: turn_inv_def)
  have head: "pending_head sample_two = Some sample_event_two"
    by (simp add: pending_head_def pending_rows_def sample_two_outbox sample_event_two_fields)
      (simp add: pending_def)
  obtain ev where claim: "claim_next_outbox ''ep'' 4 ''w'' 30 sample_two =
      (OutboxClaimed ev, snd (claim_next_outbox ''ep'' 4 ''w'' 30 sample_two))" "ev_event_id ev = 2"
    using claim_open_head [OF ob head, of 4 "''ep''" "''w''" 30]
    by (auto simp: claimable_def sample_event_two_fields)
  have "event_of (snd (claim_next_outbox ''ep'' 4 ''w'' 30 sample_two)) 1 \<noteq> None"
    unfolding claim_next_outbox_epoch exec_outbox_event [OF ob]
    by (simp add: sample_two_outbox sample_event_fields)
  with outbox_claims_in_order [OF reach claim(1), of "[]"] claim(2) show ?thesis by force
qed

text \<open>No two pending events are ever claimed at once: the outbox delivers one event at a time.\<close>

theorem one_event_in_flight:
  assumes "reachable s" and "event_of s d = Some q" and "event_of s e = Some r"
    and "pending q" and "pending r" and "ob_claimed_by q \<noteq> None" and "ob_claimed_by r \<noteq> None"
  shows "d = e"
  using single_pending_claim [OF reachable_inv [OF assms(1)] assms(2-7)] .

theorem one_event_in_flight_witness:
  "{d. \<exists>q. event_of (exec_turn (TOutbox (OClaim 2 ''w'' 30)) sample_store) d = Some q \<and> pending q \<and>
     ob_claimed_by q \<noteq> None} = {1}"
proof -
  let ?s = "exec_turn (TOutbox (OClaim 2 ''w'' 30)) sample_store"
  have ob: "outbox_inv sample_store" using reachable_inv [OF reachable_sample] by (simp add: turn_inv_def)
  obtain q where "event_of ?s 1 = Some q" "pending q" "ob_claimed_by q \<noteq> None"
    using exec_outbox_event [OF ob, of 1 "OClaim 2 ''w'' 30"]
    by (auto simp: sample_outbox sample_head sample_event_fields claimable_def pending_def)
  then show ?thesis
    using one_event_in_flight [OF reachable.step [OF reachable_sample, of "TOutbox (OClaim 2 ''w'' 30)"]] by blast
qed

text \<open>The lease on a claimed event is respected: until it ends, no other worker can take it, fail it
  or renew it, whatever outbox operations they run.\<close>

theorem outbox_lease_exclusive:
  assumes "reachable s" and "claim_next_outbox ep t w l s = (OutboxClaimed ev, s')"
    and "\<forall>c\<in>set cs. outbox_actor c \<noteq> Some w \<and> (\<forall>u. outbox_clock c = Some u \<longrightarrow> u < lease_end t l)"
  shows "\<exists>r. event_of (fold exec_outbox cs s') (ev_event_id ev) = Some r \<and>
    ob_claimed_by r = Some w \<and> ob_claim_expires_at r = Some (lease_end t l)"
proof -
  have inv: "outbox_inv s" using reachable_inv [OF assms(1)] by (simp add: turn_inv_def)
  have s': "s' = exec_outbox (OClaim t w l) s" using claim_next_outbox_epoch [of ep t w l s] assms(2) by simp
  then have inv': "outbox_inv s'" using outbox_step_inv [OF inv, of "OClaim t w l"] by simp
  obtain h where h: "pending_head s = Some h" "ev_event_id ev = ob_event_id h"
    using claim_event_head [OF assms(2)] by blast
  have claim: "event_claim s' (ev_event_id ev) = Some (Some w, Some (lease_end t l))"
    using claim_result_lease [OF inv assms(2)] .
  have "event_claim (fold exec_outbox cs s') (ev_event_id ev) = Some (Some w, Some (lease_end t l))"
    by (rule outbox.lease_run [OF inv' claim]) (use assms(3) in auto)
  then show ?thesis by (auto simp: event_claim_def)
qed

theorem outbox_lease_exclusive_witness:
  "\<exists>r. event_of (fold exec_outbox [OClaim 3 ''v'' 30, OFail 4 1 ''v'' ''x'' 1 8]
      (snd (claim_next_outbox ''ep'' 2 ''w'' 30 sample_store))) 1 = Some r \<and>
    ob_claimed_by r = Some ''w'' \<and> ob_claim_expires_at r = Some (lease_end 2 30)"
proof -
  obtain ev where "claim_next_outbox ''ep'' 2 ''w'' 30 sample_store =
      (OutboxClaimed ev, snd (claim_next_outbox ''ep'' 2 ''w'' 30 sample_store))" "ev_event_id ev = 1"
    using claim_open_head [OF _ sample_head, of 2 "''ep''" "''w''" 30] reachable_inv [OF reachable_sample]
    by (auto simp: turn_inv_def claimable_def sample_event_fields)
  with outbox_lease_exclusive [OF reachable_sample this(1), of "[OClaim 3 ''v'' 30, OFail 4 1 ''v'' ''x'' 1 8]"]
  show ?thesis by (simp add: lease_end_def)
qed

text \<open>An idle outbox makes progress: whenever the oldest pending event is due and its last lease is
  over, a claim takes that very event.\<close>

theorem due_head_is_claimed:
  assumes "reachable s" and "pending_head s = Some h" and "ob_available_at h \<le> t"
    and "ob_claimed_by h = None \<or> sql_le (ob_claim_expires_at h) t"
  shows "\<exists>ev s'. claim_next_outbox ep t w l s = (OutboxClaimed ev, s') \<and> ev_event_id ev = ob_event_id h"
  using claim_open_head [OF _ assms(2), of t ep w l] reachable_inv [OF assms(1)] assms(3,4)
  by (auto simp: claimable_def turn_inv_def)

theorem due_head_is_claimed_witness:
  "\<exists>ev s'. claim_next_outbox ''ep'' 2 ''w'' 30 sample_store = (OutboxClaimed ev, s') \<and> ev_event_id ev = 1"
  using due_head_is_claimed [OF reachable_sample sample_head, of 2 "''ep''" "''w''" 30]
  by (simp add: sample_event_fields)

text \<open>Retries are bounded: while failures are reported with a limit of at most \<open>M\<close> attempts, no
  pending event ever has \<open>M\<close> of them, so the attempt that reaches the limit dead-letters it.\<close>

theorem attempts_are_bounded:
  assumes "reachable s" and "attempts_below M s"
    and "\<forall>x\<in>set cs. \<forall>c. x = TOutbox c \<longrightarrow> within_limit M c" and "0 < M"
    and "event_of (fold exec_turn cs s) e = Some r" and "M \<le> ob_attempt_count r"
  shows "\<not> pending r"
proof -
  have "attempts_below M (fold exec_turn cs s)"
    using attempts_below_turn_run [OF reachable_inv [OF assms(1)] assms(2) _ assms(4), of cs] assms(3) by auto
  with row_of_mem [OF assms(5)] assms(6) show ?thesis by (auto simp: attempts_below_def)
qed

theorem attempts_are_bounded_witness:
  "\<exists>r. event_of (fold exec_turn [TOutbox (OClaim 2 ''w'' 30), TOutbox (OFail 3 1 ''w'' ''x'' 1 1)] sample_store) 1 = Some r \<and>
     \<not> pending r"
proof -
  let ?cs = "[TOutbox (OClaim 2 ''w'' 30), TOutbox (OFail 3 1 ''w'' ''x'' 1 1)]"
  have ob: "outbox_inv sample_store" using reachable_inv [OF reachable_sample] by (simp add: turn_inv_def)
  note step = outbox_step_inv [OF ob, of "OClaim 2 ''w'' 30"]
  obtain r where r: "event_of (fold exec_turn ?cs sample_store) 1 = Some r" "ob_attempt_count r = 1"
    using exec_outbox_event [OF step, of 1 "OFail 3 1 ''w'' ''x'' 1 1"] exec_outbox_event [OF ob, of 1 "OClaim 2 ''w'' 30"]
    by (auto simp: sample_outbox sample_head sample_event_fields claimable_def pending_def simp del: exec_outbox.simps)
  have "attempts_below 1 sample_store" by (simp add: attempts_below_def sample_outbox sample_event_fields)
  from attempts_are_bounded [OF reachable_sample this _ _ r(1)] r show ?thesis by auto
qed

section \<open>Connector deliveries\<close>

definition sample_delivery :: turn_store where
  "sample_delivery = exec_delivery
     (DClaim 0 (Some ''d1'') ''k'' ''qq'' ''e1'' (Some ''a'') 30 None (Some ''hi'')) empty_store"

lemma delivery_inv_empty: "delivery_inv empty_store"
  by (simp add: delivery_inv_def empty_store_def)

lemma delivery_inv_sample: "delivery_inv sample_delivery"
  unfolding sample_delivery_def by (rule delivery_step_inv [OF delivery_inv_empty])

lemma strip_samples [simp]: "py_strip ''d1'' = ''d1''" "py_strip ''a'' = ''a''" "py_strip ''k'' = ''k''"
  by (simp_all add: py_strip_def py_isspace_def)

definition sample_delivery_row :: delivery_row where
  "sample_delivery_row = \<lparr>cd_delivery_key = ''d1'', cd_idempotency_key = ''k'', cd_connector_id = ''qq'',
     cd_event_id = ''e1'', cd_status = Sending, cd_attempt_count = 1, cd_claimed_by = Some ''a'',
     cd_claim_expires_at = Some 30, cd_last_error = None, cd_updated_at = 0, cd_delivered_at = None,
     cd_message = None, cd_reply_text = Some ''hi''\<rparr>"

lemma sample_delivery_rows: "connector_deliveries sample_delivery = [sample_delivery_row]"
  by (simp add: sample_delivery_def sample_delivery_row_def keep_on_error_def claim_connector_delivery_def
      empty_store_def Let_def lease_end_def text_or_empty_def)

text \<open>C7. Refinement: the delivery table is one small state machine per delivery key. An operation moves
  exactly the row of its key, by that machine's transition, and no other row.\<close>

theorem deliveries_refine_row_machines:
  assumes "delivery_inv s"
  shows "delivery_of (exec_delivery c s) k =
    (if k = delivery_target c then row_effect c (delivery_of s k) else delivery_of s k)"
  using exec_delivery_row assms by (simp add: delivery_inv_def)

theorem deliveries_refine_row_machines_witness:
  "delivery_of (exec_delivery (DSent 5 ''d1'' ''b'') sample_delivery) ''d1'' = Some sample_delivery_row"
  using deliveries_refine_row_machines [OF delivery_inv_sample, of "''d1''" "DSent 5 ''d1'' ''b''"]
  by (simp add: sample_delivery_rows when_row_def) (simp add: sample_delivery_row_def)

text \<open>A delivered message is final: no sequence of operations by anybody changes its row again.\<close>

theorem delivered_is_final:
  assumes "delivery_inv s" and "delivery_of s k = Some r" and "cd_status r = Delivered"
  shows "delivery_of (fold exec_delivery cs s) k = Some r"
  using delivery.run_leq [OF assms(1), of cs] assms(2,3) unfolding delivered_kept_def by blast

theorem delivered_is_final_witness:
  "delivery_of (fold exec_delivery [DFailed 6 ''d1'' ''a'' ''late''] (exec_delivery (DSent 5 ''d1'' ''a'') sample_delivery)) ''d1''
     = Some (sample_delivery_row\<lparr>cd_status := Delivered, cd_claimed_by := None, cd_claim_expires_at := None,
         cd_updated_at := 5, cd_delivered_at := Some 5\<rparr>)"
proof (rule delivered_is_final)
  show "delivery_of (exec_delivery (DSent 5 ''d1'' ''a'') sample_delivery) ''d1''
     = Some (sample_delivery_row\<lparr>cd_status := Delivered, cd_claimed_by := None, cd_claim_expires_at := None,
         cd_updated_at := 5, cd_delivered_at := Some 5\<rparr>)"
    by (simp add: mark_connector_delivery_sent_def update_delivery_def Let_def update_where_def
        sample_delivery_rows) (simp add: sample_delivery_row_def)
qed (simp_all add: delivery_step_inv delivery_inv_sample del: exec_delivery.simps)

text \<open>A leased delivery is left alone: while the lease runs, the row stays exactly as it is whatever
  the other workers, the recovery of stale turns or an operator do.\<close>

theorem delivery_lease_exclusive:
  assumes "delivery_inv s" and "delivery_of s k = Some r" and "cd_claimed_by r = Some w"
    and "cd_claim_expires_at r = Some e"
    and "\<forall>c\<in>set cs. delivery_actor c \<noteq> Some w \<and> (\<forall>t. delivery_clock c = Some t \<longrightarrow> t < e)"
  shows "delivery_of (fold exec_delivery cs s) k = Some r"
  using assms by (intro delivery.lease_run) (auto simp: delivery_lease_def)

theorem delivery_lease_exclusive_witness:
  "delivery_of (fold exec_delivery [DReset 9 (Some ''d1''), DResolve 9 (Some ''d1'') (Some ''failed''),
     DClaim 9 (Some ''d1'') ''k'' ''qq'' ''e1'' (Some ''b'') 30 None None] sample_delivery) ''d1'' = Some sample_delivery_row"
  by (rule delivery_lease_exclusive [OF delivery_inv_sample, of _ _ "''a''" 30])
    (simp_all add: sample_delivery_rows text_or_empty_def py_strip_def py_isspace_def,
     simp_all add: sample_delivery_row_def)

text \<open>C8. A QQ send whose outcome is unknown is never repeated behind the operator's back: even after its
  lease is over, only the sender's own report or an explicit resolution moves the row.\<close>

theorem qq_send_not_repeated:
  assumes "delivery_inv s" and "delivery_of s k = Some r" and "cd_status r = Sending"
    and "cd_connector_id r = ''qq''" and "cd_claimed_by r = Some w"
    and "\<forall>c\<in>set cs. \<not> settles_send w c"
  shows "delivery_of (fold exec_delivery cs s) k = Some r"
  using assms by (rule qq_run)

theorem qq_send_not_repeated_witness:
  "delivery_of (fold exec_delivery [DReset 99 (Some ''d1''),
     DClaim 99 (Some ''d1'') ''k'' ''qq'' ''e1'' (Some ''a'') 30 None None] sample_delivery) ''d1'' = Some sample_delivery_row"
  by (rule qq_send_not_repeated [OF delivery_inv_sample, of _ _ "''a''"])
    (simp_all add: sample_delivery_rows, simp_all add: sample_delivery_row_def)

text \<open>A delivery's status only moves along the edges of the delivery life cycle; in particular it
  becomes delivered only from sending, and a delivered one has no further edge.\<close>

theorem delivery_status_follows_graph:
  assumes "delivery_inv s"
  shows "delivery_edge\<^sup>*\<^sup>* (status_of s k) (status_of (fold exec_delivery cs s) k)"
  using assms
proof (induction cs arbitrary: s)
  case (Cons c cs)
  have "delivery_edge\<^sup>*\<^sup>* (status_of s k) (status_of (exec_delivery c s) k)"
    using exec_delivery_edge [OF Cons.prems, of k c] by auto
  with Cons.IH [OF delivery_step_inv [OF Cons.prems], of c] show ?case by simp
qed simp

theorem delivery_status_follows_graph_witness:
  "delivery_edge\<^sup>*\<^sup>* (status_of sample_delivery ''d1'')
     (status_of (fold exec_delivery [DSent 5 ''d1'' ''a''] sample_delivery) ''d1'')"
  by (rule delivery_status_follows_graph [OF delivery_inv_sample])

section \<open>The dispatcher\<close>

definition sample_dispatcher :: dispatcher where
  "sample_dispatcher = \<lparr>dp_projections = [''memory'', ''events''], dp_claim_lease_seconds = 30,
     dp_max_attempts = 8, dp_base_retry_seconds = 1/4, dp_max_retry_seconds = 30, dp_worker_id = ''w''\<rparr>"

definition calm_io :: dispatch_io where
  "calm_io = \<lparr>di_before = [], di_claim_at = 2,
     di_handler = (\<lambda>p. \<lparr>hr_ticks = [RenewAt 2], hr_error = None, hr_cancelled = False, hr_store_at = 3,
       hr_fail_at = 3, hr_jitter = 1\<rparr>),
     di_outer_cancel = False, di_after = [], di_ack_at = 4\<rparr>"

lemma sample_acks: "projection_acks sample_store = []"
  using persist_InrD(7) [OF persist_empty [of "''ep''" JNull 1]]
  by (simp add: sample_store_def empty_store_def)

lemma sample_dispatch:
  "\<exists>r t. dispatch_pending ''ep'' sample_dispatcher (\<lambda>_. calm_io) 5 None 100 (Some ''k'') sample_store = (Inr r, t) \<and>
     ds_calls r = [(1, ''memory''), (1, ''events'')] \<and> ds_delivered_event_ids r = [1] \<and>
     ds_target_delivered r = Some True"
  by (simp add: dispatch_pending_def sample_dispatcher_def calm_io_def numeral_eq_Suc Let_def
      claim_next_outbox_def sample_head sample_event_fields sample_outbox sample_acks rowcount_def
      update_where_def lease_end_def text_or_empty_def dispatch_event_def acknowledged_projections_def
      run_ticks_def renew_outbox_claim_def acknowledge_projection_def select_one_def insert_or_ignore_def
      ack_key_def acknowledge_def add_delivery_def add_delivered_def no_result_def
      pending_def)

text \<open>A dispatch never confirms a commit that is not delivered: when it reports its target as
  delivered, the target's event is recorded as delivered, whatever the handlers and the other
  workers did meanwhile.\<close>

theorem confirmed_target_is_delivered:
  assumes "reachable s" and "distinct (dp_projections d)"
    and "dispatch_commit ep d env clk ws (Some k) s = (Inr r, woke, t)"
  shows "woke \<and> (\<exists>q. event_for t (py_strip k) = Some q \<and> ob_delivered_at q \<noteq> None)"
proof -
  have "dispatch_pending ep d env clk ws 100 (Some (py_strip k)) s = (Inr r, t) \<and> woke"
    and "ds_target_delivered r = Some True"
    using assms(3) by (auto simp: dispatch_commit_def Let_def text_or_empty_def split: if_splits sum.splits prod.splits)
  then show ?thesis
    using dispatch_pending_result(2) [OF reachable_inv [OF assms(1)] assms(2)] by (fastforce simp: text_or_empty_def)
qed

theorem confirmed_target_is_delivered_witness:
  "\<exists>r woke t q. dispatch_commit ''ep'' sample_dispatcher (\<lambda>_. calm_io) 5 None (Some ''k'') sample_store = (Inr r, woke, t) \<and>
     woke \<and> event_for t ''k'' = Some q \<and> ob_delivered_at q \<noteq> None"
proof -
  obtain r t where "dispatch_commit ''ep'' sample_dispatcher (\<lambda>_. calm_io) 5 None (Some ''k'') sample_store = (Inr r, True, t)"
    using sample_dispatch by (auto simp: dispatch_commit_def text_or_empty_def)
  from confirmed_target_is_delivered [OF reachable_sample _ this] this show ?thesis
    by (auto simp: sample_dispatcher_def)
qed

text \<open>Every event a dispatch reports as delivered is closed: its row is marked delivered and every
  configured projection is acknowledged for it.\<close>

theorem delivered_events_are_closed:
  assumes "reachable s" and "distinct (dp_projections d)"
    and "dispatch_pending ep d env clk ws limit target s = (Inr r, t)"
    and "e \<in> set (ds_delivered_event_ids r)"
  shows "(\<exists>q. event_of t e = Some q \<and> ob_delivered_at q \<noteq> None) \<and>
    set (dp_projections d) \<subseteq> acknowledged_projections e t"
proof -
  have "list_all2 (closed_event d t) (ds_delivered_event_ids r) (ds_delivered_idempotency_keys r)"
    using dispatch_pending_result(1) [OF reachable_inv [OF assms(1)] assms(2,3)] by (simp add: loop_ok_def)
  with assms(4) obtain k where "closed_event d t e k"
    by (auto simp: list_all2_conv_all_nth in_set_conv_nth)
  then show ?thesis by (auto simp: closed_event_def)
qed

theorem delivered_events_are_closed_witness:
  "\<exists>r t. dispatch_pending ''ep'' sample_dispatcher (\<lambda>_. calm_io) 5 None 100 (Some ''k'') sample_store = (Inr r, t) \<and>
     {''memory'', ''events''} \<subseteq> acknowledged_projections 1 t"
proof -
  obtain r t where run: "dispatch_pending ''ep'' sample_dispatcher (\<lambda>_. calm_io) 5 None 100 (Some ''k'') sample_store = (Inr r, t)"
      "ds_delivered_event_ids r = [1]" using sample_dispatch by blast
  from delivered_events_are_closed [OF reachable_sample _ run(1), of 1] run show ?thesis
    by (simp add: sample_dispatcher_def)
qed

text \<open>C6. Within a dispatch the events are taken in increasing order, a handler runs only for a
  projection that was not acknowledged when the dispatch began, and no handler runs twice for the
  same event.\<close>

theorem handlers_run_at_most_once:
  assumes "reachable s" and "distinct (dp_projections d)"
    and "dispatch_pending ep d env clk ws limit target s = (Inr r, t)"
  shows "sorted_wrt (<) (ds_claimed r) \<and> distinct (ds_calls r) \<and>
    (\<forall>e p. (e, p) \<in> set (ds_calls r) \<longrightarrow> p \<in> set (dp_projections d) \<and> p \<notin> acknowledged_projections e s)"
  using dispatch_pending_result(1) [OF reachable_inv [OF assms(1)] assms(2,3)] by (simp add: loop_ok_def)

theorem handlers_run_at_most_once_witness:
  "\<exists>r t. dispatch_pending ''ep'' sample_dispatcher (\<lambda>_. calm_io) 5 None 100 (Some ''k'') sample_store = (Inr r, t) \<and>
     ds_calls r = [(1, ''memory''), (1, ''events'')] \<and> distinct (ds_calls r) \<and>
     ''memory'' \<notin> acknowledged_projections 1 sample_store"
proof -
  obtain r t where run: "dispatch_pending ''ep'' sample_dispatcher (\<lambda>_. calm_io) 5 None 100 (Some ''k'') sample_store = (Inr r, t)"
      "ds_calls r = [(1, ''memory''), (1, ''events'')]" using sample_dispatch by blast
  from handlers_run_at_most_once [OF reachable_sample _ run(1)] run show ?thesis
    by (simp add: sample_dispatcher_def)
qed

text \<open>Backoff: for the store's attempt counts a retry waits at least 0.8 times the base delay and at
  most 1.2 times the maximum, and an undisturbed delay doubles with each attempt up to the maximum.\<close>

theorem retry_delay_bounds:
  assumes "make_dispatcher names lease attempts base mx w = Inr d" and "0 \<le> n"
    and "4/5 \<le> jitter" and "jitter \<le> 6/5"
  shows "4/5 * dp_base_retry_seconds d \<le> retry_delay_of d n jitter \<and>
    retry_delay_of d n jitter \<le> 6/5 * dp_max_retry_seconds d \<and>
    (n < 16 \<longrightarrow> retry_delay_of d (n + 1) 1 = min (dp_max_retry_seconds d) (2 * retry_delay_of d n 1))"
proof -
  let ?b = "dp_base_retry_seconds d" and ?m = "dp_max_retry_seconds d"
  have b: "0 < ?b" "?b \<le> ?m" using assms(1) by (auto simp: make_dispatcher_def split: if_splits)
  have p: "1 \<le> two_to (min n 16)" using assms(2) by (simp add: two_to_def)
  let ?x = "min ?m (?b * two_to (min n 16))"
  have "?b * 1 \<le> ?b * two_to (min n 16)" using b p by (intro mult_left_mono) auto
  then have lo: "?b \<le> ?x" and hi: "?x \<le> ?m" using b by auto
  have "?b * (4/5) \<le> ?x * jitter" using lo b assms(3) by (intro mult_mono) auto
  moreover have "?x * jitter \<le> ?m * (6/5)" using hi lo b assms(3,4) by (intro mult_mono) auto
  moreover have "retry_delay_of d (n + 1) 1 = min ?m (2 * retry_delay_of d n 1)" if "n < 16"
  proof -
    have "two_to (min (n + 1) 16) = 2 * two_to (min n 16)"
      using that assms(2) by (simp add: two_to_def nat_add_distrib)
    then show ?thesis using b by (auto simp: retry_delay_of_def min_def)
  qed
  ultimately show ?thesis by (simp add: retry_delay_of_def mult.commute)
qed

theorem retry_delay_bounds_witness:
  "retry_delay_of (sample_dispatcher\<lparr>dp_projections := []\<rparr>) 2 1 \<le> 6/5 * 30"
  using retry_delay_bounds [of "[]" 30 8 "1/4" 30 "''w''" "sample_dispatcher\<lparr>dp_projections := []\<rparr>" 2 1]
  by (simp add: make_dispatcher_def sample_dispatcher_def)

end
