(* ===== verification/Turn_Service_Properties.thy ===== *)
theory Turn_Service_Properties
  imports Turn_Service_Runs Turn_Properties
begin

text \<open>
  The properties of the turn service: one result per turn, faithful reading back, interrupted turns of
  unknown effect, a bounded wait, claims that are given back, and a memory that agrees with the store.
\<close>

section \<open>The wait for the claim\<close>

lemma claim_polls:
  "claim_or_load cfg str_of rq owner polls n t deadline s = (res, s', m) \<Longrightarrow> m \<le> n + polls_left t deadline + 1"
proof (induction cfg str_of rq owner polls n t deadline s rule: claim_or_load.induct)
  case (1 cfg str_of rq owner polls n t deadline s)
  obtain x s1 where poll: "poll_claim cfg str_of rq owner (polls n) t deadline s = (x, s1)" by fastforce
  show ?case
  proof (cases "\<exists>t'. x = Inr (Inr t')")
    case True
    then obtain t' where x: "x = Inr (Inr t')" by blast
    then have "claim_or_load cfg str_of rq owner polls (n + 1) t' deadline s1 = (res, s', m)"
      using "1.prems" poll by (subst (asm) claim_or_load.simps) simp
    from "1.IH" [OF poll [symmetric] x refl this] have "m \<le> n + 1 + polls_left t' deadline + 1" .
    moreover have "polls_left t' deadline < polls_left t deadline"
      using poll_progress [of cfg str_of rq owner "polls n" t deadline s t'] poll x by simp
    ultimately show ?thesis by simp
  next
    case False
    with "1.prems" poll show ?thesis by (subst (asm) claim_or_load.simps) (auto split: sum.splits)
  qed
qed

text \<open>C28. The wait for another executor ends: whatever the clocks show and the other executors do, an execution
  asks for the claim at most once per hundredth of a second of its waiting time, and once more.\<close>

theorem claim_wait_is_bounded:
  "snd (snd (claim_or_load cfg str_of rq owner polls 0 t (t + sv_wait cfg) s)) \<le> nat \<lceil>100 * sv_wait cfg\<rceil> + 1"
proof -
  obtain res s' m where "claim_or_load cfg str_of rq owner polls 0 t (t + sv_wait cfg) s = (res, s', m)" by (metis prod_cases3)
  with claim_polls [OF this] show ?thesis by (simp add: polls_left_def)
qed

section \<open>The claim is given back\<close>

text \<open>The claims of an owner on a key have one of the tokens.\<close>

definition holds :: "string \<Rightarrow> string \<Rightarrow> int set \<Rightarrow> turn_store \<Rightarrow> bool" where
  "holds w k S s \<longleftrightarrow> (\<forall>r. claim_of s k = Some r \<longrightarrow> tc_owner_id r = w \<longrightarrow> tc_fencing_token r \<in> S)"

lemma holds_step:
  assumes inv: "turn_inv s" and "turn_actor c \<noteq> Some w" and hold: "holds w k S s"
  shows "holds w k S (exec_turn c s)"
proof (cases c)
  case (TClaim c')
  have uniq: "unique_on tc_idempotency_key (turn_claims s)" using inv by (simp add: turn_inv_def claim_inv_def)
  show ?thesis
  proof (cases c')
    case CClaim
    with TClaim assms(2) hold show ?thesis
      by (auto simp: holds_def claim_of_claim grant_def split: option.splits if_splits)
  next
    case CRenew
    with TClaim hold show ?thesis by (auto simp: holds_def claim_of_renew)
  next
    case CRelease
    with TClaim hold show ?thesis by (auto simp: holds_def claim_of_release [OF uniq] split: option.splits if_splits)
  next
    case (CPersist e i t co)
    show ?thesis
    proof (cases "persist e i t co s")
      case (Inr s')
      with CPersist TClaim hold show ?thesis by (auto simp: holds_def keep_on_failure_def claim_of_persist [OF Inr uniq])
    qed (use CPersist TClaim hold in \<open>simp add: keep_on_failure_def\<close>)
  qed
qed (use hold in \<open>simp_all add: holds_def outbox_frame delivery_frame\<close>)

definition strange :: "string \<Rightarrow> turn_cmd list \<Rightarrow> bool" where
  "strange w cs \<longleftrightarrow> (\<forall>c\<in>set cs. turn_actor c \<noteq> Some w)"

lemma holds_run: "turn_inv s \<Longrightarrow> strange w cs \<Longrightarrow> holds w k S s \<Longrightarrow> turn_inv (fold exec_turn cs s) \<and> holds w k S (fold exec_turn cs s)"
  unfolding strange_def by (induction cs arbitrary: s) (auto simp: holds_step turns.step_inv)

lemma holds_renew: "holds w k S s \<Longrightarrow> holds w k S (snd (renew_claim t k' w' n l s))"
  by (auto simp: holds_def claim_of_renew)

lemma holds_claim:
  assumes "claim t k fp w l s = (x, s')" and "turn_inv s" and "holds w k {} s"
  shows "(\<exists>n e. x = Claimed n e \<and> 1 \<le> n \<and> holds w k {n} s') \<or> (\<forall>n e. x \<noteq> Claimed n e) \<and> s' = s"
proof (cases "\<exists>n e. x = Claimed n e")
  case True
  then obtain n e where x: "x = Claimed n e" by blast
  obtain r where r: "claim_of s' k = Some r" "tc_fencing_token r = n" using claimed_row(2) [of t k fp w l s n e s'] assms(1) x by blast
  have "turn_inv s'" using turns.step_inv [OF assms(2), of "TClaim (CClaim t k fp w l)"] assms(1) by simp
  then have "1 \<le> n" using row_of_mem [OF r(1)] r(2) by (auto simp: turn_inv_def claim_inv_def)
  with x r show ?thesis by (auto simp: holds_def)
next
  case False
  with assms(1) show ?thesis by (auto simp: claim_def Let_def split: option.splits if_splits)
qed

lemma holds_release:
  assumes "turn_inv s" and "holds w k {n} s"
  shows "holds w k {} (snd (release_claim k w n s))"
proof -
  have uniq: "unique_on tc_idempotency_key (turn_claims s)" using assms(1) by (simp add: turn_inv_def claim_inv_def)
  show ?thesis using assms(2) by (auto simp: holds_def claim_of_release [OF uniq] dest: row_of_key split: option.splits if_splits)
qed

text \<open>What everybody else does never names the owner of this execution.\<close>

definition strangers :: "execution_io \<Rightarrow> bool" where
  "strangers io \<longleftrightarrow> strange (xo_owner io) (xo_others_load io) \<and>
     (\<forall>n. strange (xo_owner io) (pl_others (xo_polls io n)) \<and> strange (xo_owner io) (pl_others_load (xo_polls io n))) \<and>
     (\<forall>r\<in>set (xo_renewals io @ xo_renewals_finalize io). strange (xo_owner io) (fst r)) \<and>
     strange (xo_owner io) (xo_others_run io) \<and> strange (xo_owner io) (xo_others_persist io) \<and>
     strange (xo_owner io) (xo_others_reload io) \<and> strange (xo_owner io) (fst (xo_dispatch io)) \<and>
     strange (xo_owner io) (xo_others_release io)"

lemma holds_poll:
  assumes "poll_claim cfg str_of rq w p t deadline s = (x, s')" and "turn_inv s" and "holds w (rq_key rq) {} s"
    and "strange w (pl_others p)" and "strange w (pl_others_load p)"
  shows "turn_inv s' \<and> (if \<exists>n. x = Inr (Inl (ClaimGranted n)) then \<exists>n. x = Inr (Inl (ClaimGranted n)) \<and> holds w (rq_key rq) {n} s'
    else holds w (rq_key rq) {} s')"
proof -
  let ?s = "fold exec_turn (pl_others p) s"
  have s: "turn_inv ?s" "holds w (rq_key rq) {} ?s" using holds_run [OF assms(2,4,3)] by simp_all
  obtain y s1 where cl: "claim (pl_now p) (rq_key rq) (rq_fingerprint rq) w (sv_lease cfg) ?s = (y, s1)" by fastforce
  have inv1: "turn_inv s1" using later_inv [OF s(1)] later_claim_ops(1) cl by (metis snd_conv)
  from holds_claim [OF cl s] show ?thesis
  proof
    assume "\<exists>n e. y = Claimed n e \<and> 1 \<le> n \<and> holds w (rq_key rq) {n} s1"
    with assms(1) cl inv1 show ?thesis by (auto simp: poll_claim_def Let_def)
  next
    assume y: "(\<forall>n e. y \<noteq> Claimed n e) \<and> s1 = ?s"
    have next_s: "turn_inv (fold exec_turn (pl_others_load p) ?s)" "holds w (rq_key rq) {} (fold exec_turn (pl_others_load p) ?s)"
      using holds_run [OF s(1) assms(5) s(2)] by simp_all
    have "(s' = s1 \<or> s' = fold exec_turn (pl_others_load p) s1) \<and> (\<forall>n. x \<noteq> Inr (Inl (ClaimGranted n)))"
      using assms(1) cl y
      by (auto simp: poll_claim_def Let_def split: claim_outcome.splits sum.splits option.splits if_splits)
    with y s next_s show ?thesis by auto
  qed
qed

lemma holds_claim_or_load:
  assumes "claim_or_load cfg str_of rq w polls n t deadline s = (res, s', m)" and "turn_inv s" and "holds w (rq_key rq) {} s"
    and "\<forall>n. strange w (pl_others (polls n)) \<and> strange w (pl_others_load (polls n))"
  shows "turn_inv s' \<and> (if \<exists>n. res = Inr (ClaimGranted n) then \<exists>n. res = Inr (ClaimGranted n) \<and> holds w (rq_key rq) {n} s'
    else holds w (rq_key rq) {} s')"
  using assms
proof (induction cfg str_of rq w polls n t deadline s rule: claim_or_load.induct)
  case (1 cfg str_of rq w polls n t deadline s)
  obtain x s1 where poll: "poll_claim cfg str_of rq w (polls n) t deadline s = (x, s1)" by fastforce
  note step = holds_poll [OF poll "1.prems"(2,3)]
  have strange: "strange w (pl_others (polls n))" "strange w (pl_others_load (polls n))" using "1.prems"(4) by auto
  show ?case
  proof (cases "\<exists>t'. x = Inr (Inr t')")
    case True
    then obtain t' where x: "x = Inr (Inr t')" by blast
    then have rest: "claim_or_load cfg str_of rq w polls (n + 1) t' deadline s1 = (res, s', m)"
      using "1.prems"(1) poll by (subst (asm) claim_or_load.simps) simp
    have "turn_inv s1 \<and> holds w (rq_key rq) {} s1" using step [OF strange] x by simp
    with "1.IH" [OF poll [symmetric] x refl rest] "1.prems"(4) show ?thesis by blast
  next
    case False
    then have "s' = s1 \<and> (\<forall>n. res = Inr (ClaimGranted n) \<longleftrightarrow> x = Inr (Inl (ClaimGranted n)))"
      using "1.prems"(1) poll by (subst (asm) claim_or_load.simps) (auto split: sum.splits)
    with step [OF strange] show ?thesis by simp
  qed
qed

lemma holds_renew_loop:
  assumes "renew_claim_loop cfg k w token rs s = (lost, s')" and "turn_inv s" and "holds w k S s" and "\<forall>r\<in>set rs. strange w (fst r)"
  shows "turn_inv s' \<and> holds w k S s'"
  using assms
proof (induction rs arbitrary: s)
  case (Cons r rs)
  obtain others now where r: "r = (others, now)" by (cases r)
  obtain ok s1 where ren: "renew_claim now k w token (sv_lease cfg) (fold exec_turn others s) = (ok, s1)" by fastforce
  have "turn_inv (fold exec_turn others s) \<and> holds w k S (fold exec_turn others s)"
    using holds_run [OF Cons.prems(2) _ Cons.prems(3)] Cons.prems(4) r by simp
  then have "turn_inv s1 \<and> holds w k S s1"
    using ren later_inv later_claim_ops(2) holds_renew by (metis snd_conv)
  with Cons r ren show ?case by (cases ok) auto
qed simp

lemma holds_persist:
  assumes "persist e i t c s = Inr s'" and "turn_inv s" and "holds w k S s"
  shows "turn_inv s' \<and> holds w k S s'"
proof -
  have uniq: "unique_on tc_idempotency_key (turn_claims s)" using assms(2) by (simp add: turn_inv_def claim_inv_def)
  have "holds w k S s'" using assms(3) by (auto simp: holds_def claim_of_persist [OF assms(1) uniq])
  with later_inv [OF assms(2) later_claim_ops(4) [OF assms(1)]] show ?thesis by simp
qed

lemma holds_commit_turn:
  assumes "commit_turn cfg str_of rq io token r w = (res, w')" and "strangers io"
    and "turn_inv (sw_store w)" and "holds (xo_owner io) k S (sw_store w)"
  shows "turn_inv (sw_store w') \<and> holds (xo_owner io) k S (sw_store w')"
proof -
  let ?s = "fold exec_turn (xo_others_persist io) (sw_store w)"
  have st: "strange (xo_owner io) (xo_others_persist io)" "strange (xo_owner io) (xo_others_reload io)" "strange (xo_owner io) (fst (xo_dispatch io))"
    using assms(2) by (simp_all add: strangers_def)
  have s: "turn_inv ?s" "holds (xo_owner io) k S ?s" using holds_run [OF assms(3) st(1) assms(4)] by simp_all
  show ?thesis
  proof (cases "persist (sv_epoch cfg) (xo_intent io) (xo_now io) (turn_commit_of rq r (Some (xo_owner io, token))) ?s")
    case (Inl e)
    with assms(1) s show ?thesis by (auto simp: commit_turn_def Let_def)
  next
    case (Inr s1)
    let ?s1 = "fold exec_turn (xo_others_reload io) s1"
    have s1: "turn_inv ?s1" "holds (xo_owner io) k S ?s1" using holds_run [OF conjunct1 [OF holds_persist [OF Inr s]] st(2) conjunct2 [OF holds_persist [OF Inr s]]] by simp_all
    have "turn_inv (fold exec_turn (fst (xo_dispatch io)) ?s1)" "holds (xo_owner io) k S (fold exec_turn (fst (xo_dispatch io)) ?s1)"
      using holds_run [OF s1(1) st(3) s1(2)] by simp_all
    moreover have "sw_store w' = ?s1 \<or> sw_store w' = fold exec_turn (fst (xo_dispatch io)) ?s1"
      using assms(1) Inr by (auto simp: commit_turn_def project_commit_def Let_def split: sum.splits)
    ultimately show ?thesis using s1 by auto
  qed
qed

lemma holds_run_turn:
  assumes "run_turn cfg str_of rq io token w = (res, w')" and "strangers io"
    and "turn_inv (sw_store w)" and "holds (xo_owner io) (rq_key rq) S (sw_store w)"
  shows "turn_inv (sw_store w') \<and> holds (xo_owner io) (rq_key rq) S (sw_store w')"
proof -
  obtain lost s1 where ren: "renew_claim_loop cfg (rq_key rq) (xo_owner io) token (xo_renewals io) (sw_store w) = (lost, s1)" by fastforce
  let ?w = "w\<lparr>sw_store := fold exec_turn (xo_others_run io) s1, sw_runs := sw_runs w @ [rq_key rq]\<rparr>"
  have st: "\<forall>r\<in>set (xo_renewals io). strange (xo_owner io) (fst r)" "\<forall>r\<in>set (xo_renewals_finalize io). strange (xo_owner io) (fst r)"
      "strange (xo_owner io) (xo_others_run io)" using assms(2) by (simp_all add: strangers_def)
  have "turn_inv s1 \<and> holds (xo_owner io) (rq_key rq) S s1" using holds_renew_loop [OF ren assms(3,4) st(1)] .
  then have w1: "turn_inv (sw_store ?w)" "holds (xo_owner io) (rq_key rq) S (sw_store ?w)"
    using holds_run [OF _ st(3), of s1 "rq_key rq" S] by auto
  obtain lost2 s2 where fin: "(if sv_finalizes cfg
      then renew_claim_loop cfg (rq_key rq) (xo_owner io) token (xo_renewals_finalize io) (sw_store ?w) else (False, sw_store ?w)) = (lost2, s2)"
    by fastforce
  have w2: "turn_inv s2" "holds (xo_owner io) (rq_key rq) S s2"
    using fin w1 holds_renew_loop [OF _ w1 st(2)] by (auto split: if_splits)
  have "sw_store w' = sw_store ?w \<or> sw_store w' = s2 \<or> (\<exists>r. commit_turn cfg str_of rq io token r (?w\<lparr>sw_store := s2\<rparr>) = (res, w'))"
    using assms(1) ren fin by (auto simp: run_turn_def Let_def split: if_splits sum.splits)
  with w1 w2 holds_commit_turn [OF _ assms(2)] show ?thesis by fastforce
qed

lemma holds_deliver:
  assumes "deliver_stored cfg rq io c w = (res, w')" and "strangers io" and "turn_inv (sw_store w)" and "holds (xo_owner io) k S (sw_store w)"
  shows "holds (xo_owner io) k S (sw_store w')"
proof -
  have "sw_store w' = fold exec_turn (fst (xo_dispatch io)) (sw_store w)"
    using assms(1) by (auto simp: deliver_stored_def project_commit_def Let_def split: option.splits)
  moreover have "strange (xo_owner io) (fst (xo_dispatch io))" using assms(2) by (simp add: strangers_def)
  ultimately show ?thesis using holds_run [OF assms(3) _ assms(4)] by simp
qed

text \<open>C27. A claim is always given back: an execution whose claim identity nobody else uses leaves no claim of
  its own on the turn behind, whether it returns or raises, however the runner ends and whatever the
  other executors do in between.\<close>

theorem claim_is_given_back:
  assumes "reachable (sw_store w)" and "\<forall>r. claim_of (sw_store w) (rq_key rq) = Some r \<longrightarrow> tc_owner_id r \<noteq> xo_owner io"
    and "strangers io" and "execute_once cfg str_of rq io w = (res, w')" and "claim_of (sw_store w') (rq_key rq) = Some r"
  shows "tc_owner_id r \<noteq> xo_owner io"
proof -
  let ?o = "xo_owner io" and ?k = "rq_key rq"
  let ?w = "w\<lparr>sw_store := fold exec_turn (xo_others_load io) (sw_store w)\<rparr>"
  have st: "strange ?o (xo_others_load io)" "strange ?o (xo_others_release io)"
      "\<forall>n. strange ?o (pl_others (xo_polls io n)) \<and> strange ?o (pl_others_load (xo_polls io n))"
    using assms(3) by (simp_all add: strangers_def)
  have "holds ?o ?k {} (sw_store w)" using assms(2) by (simp add: holds_def)
  then have w1: "turn_inv (sw_store ?w)" "holds ?o ?k {} (sw_store ?w)"
    using holds_run [OF reachable_inv [OF assms(1)] st(1)] by simp_all
  obtain claimed s2 n where cl: "claim_or_load cfg str_of rq ?o (xo_polls io) 0 (xo_loop_time io)
      (xo_loop_time io + sv_wait cfg) (sw_store ?w) = (claimed, s2, n)" by (metis prod_cases3)
  note loop = holds_claim_or_load [OF cl w1 st(3)]
  have "holds ?o ?k {} (sw_store w')"
  proof (cases "load_persisted cfg str_of rq (sw_store ?w) = Inr None \<and> (\<exists>token. claimed = Inr (ClaimGranted token))")
    case True
    then obtain token where token: "claimed = Inr (ClaimGranted token)" by blast
    have w2: "turn_inv (sw_store (?w\<lparr>sw_store := s2\<rparr>))" "holds ?o ?k {token} (sw_store (?w\<lparr>sw_store := s2\<rparr>))"
      using loop token by auto
    obtain res3 w3 where run: "run_turn cfg str_of rq io token (?w\<lparr>sw_store := s2\<rparr>) = (res3, w3)" by fastforce
    have "turn_inv (fold exec_turn (xo_others_release io) (sw_store w3)) \<and> holds ?o ?k {token} (fold exec_turn (xo_others_release io) (sw_store w3))"
      using holds_run_turn [OF run assms(3) w2] holds_run [OF _ st(2)] by blast
    moreover have "sw_store w' = snd (release_claim ?k ?o token (fold exec_turn (xo_others_release io) (sw_store w3)))"
      using assms(4) True token cl run by (auto simp: execute_once_def Let_def)
    ultimately show ?thesis using holds_release by auto
  next
    case False
    have "sw_store w' = sw_store ?w \<or> (\<exists>c. deliver_stored cfg rq io c ?w = (res, w')) \<or>
        ((\<forall>token. claimed \<noteq> Inr (ClaimGranted token)) \<and>
          (sw_store w' = s2 \<or> (\<exists>c. deliver_stored cfg rq io c (?w\<lparr>sw_store := s2\<rparr>) = (res, w'))))"
      using assms(4) False cl
      by (auto simp: execute_once_def Let_def split: sum.splits option.splits claim_result.splits)
    moreover have "(\<forall>token. claimed \<noteq> Inr (ClaimGranted token)) \<Longrightarrow> turn_inv s2 \<and> holds ?o ?k {} s2" using loop by auto
    ultimately show ?thesis using w1 holds_deliver [OF _ assms(3)] by fastforce
  qed
  with assms(5) show ?thesis by (auto simp: holds_def)
qed

section \<open>One result per turn\<close>

text \<open>C26. A turn has one result: after an execution returned a commit of a turn, any later execution that returns
  one for the same key, in this process or another and whatever happened in between, has the same
  fingerprint, does not start a runner, and returns the same result; only the recovery descriptor is
  adapted when the process has changed.\<close>

theorem one_result_per_turn:
  assumes "reachable (sw_store w)" and "key_ok rq" and "execute_once cfg str_of rq io w = (Inr c, w1)"
    and "sw_store v = fold exec_turn cs (sw_store w1)" and "rq_key rq2 = rq_key rq"
    and "execute_once cfg2 str_of rq2 io2 v = (Inr c2, v2)"
  shows "co_semantic_fingerprint (sc_commit c2) = co_semantic_fingerprint (sc_commit c) \<and> sw_runs v2 = sw_runs v \<and> sc_replayed c2 \<and>
    co_result (sc_commit c2) = (co_result (sc_commit c))\<lparr>pr_recovery := pr_recovery (co_result (sc_commit c2))\<rparr> \<and>
    (sv_epoch cfg2 = sv_epoch cfg \<longrightarrow> co_result (sc_commit c2) = co_result (sc_commit c))"
proof -
  have inv: "turn_inv (sw_store w)" by (rule reachable_inv [OF assms(1)])
  have inv1: "turn_inv (sw_store w1)" by (rule later_inv [OF inv later_execute_once [OF assms(3)]])
  have inv2: "turn_inv (sw_store v)" unfolding assms(4) by (rule later_inv [OF inv1 later_fold])
  have ok2: "key_ok rq2" using assms(2,5) by (simp add: key_ok_def)
  have a1: "agrees cfg str_of (sw_store w1) (rq_key rq) c" by (rule execute_once_agrees [OF assms(2) inv assms(3)])
  have av: "agrees cfg str_of (sw_store v) (rq_key rq) c" unfolding assms(4) by (rule agrees_later [OF inv1 later_fold a1])
  then obtain row where row: "commit_of (sw_store v) (rq_key rq2) = Some row"
    using assms(5) by (cases "commit_of (sw_store v) (rq_key rq)") (simp_all add: agrees_def stored_turn_def)
  note replay = committed_not_run [OF ok2 inv2 row assms(6)]
  have first: "agrees cfg str_of (sw_store v2) (rq_key rq) c" by (rule agrees_later [OF inv2 later_execute_once [OF assms(6)] av])
  have second: "agrees cfg2 str_of (sw_store v2) (rq_key rq) c2" using execute_once_agrees [OF ok2 inv2 assms(6)] assms(5) by simp
  have "stored_turn cfg str_of (rq_key rq) (sw_store v2) = Some (co_semantic_fingerprint (sc_commit c), co_result (sc_commit c))"
      "stored_turn cfg2 str_of (rq_key rq) (sw_store v2) = Some (co_semantic_fingerprint (sc_commit c2), co_result (sc_commit c2))"
    using first second by (simp_all add: agrees_def)
  from stored_turn_other_epoch [OF this] replay show ?thesis by blast
qed

section \<open>Reading back\<close>

lemma dict_has_get: "dict_get d k \<noteq> JNull \<Longrightarrow> dict_has d k"
  by (auto simp: dict_get_def dict_has_def split: option.splits)

lemma load_result_get:
  "k \<notin> {''outcome'', ''retryable'', ''recovery'', ''configured_budget'', ''consumed_usage''} \<Longrightarrow> dict_get (load_result e d) k = dict_get d k"
  "dict_get d ''outcome'' \<noteq> JNull \<Longrightarrow> dict_get (load_result e d) ''outcome'' = dict_get d ''outcome''"
  "dict_get d ''retryable'' \<noteq> JNull \<Longrightarrow> dict_get (load_result e d) ''retryable'' = dict_get d ''retryable''"
  "dict_get (load_result e d) ''recovery'' = load_recovery_descriptor e (dict_get d ''recovery'')"
  "dict_get (load_result e d) ''configured_budget'' = json_or (dict_get d ''configured_budget'') (JObj [])"
  "dict_get (load_result e d) ''consumed_usage'' = json_or (dict_get d ''consumed_usage'') (JObj [])"
  unfolding load_result_def Let_def
  by (simp_all add: dict_get_setdefault_other dict_get_setdefault_same dict_has_get del: truthy.simps)

lemma base_payload_gets:
  "dict_get (base_payload epoch t c) ''pet_control'' = pr_pet_control (co_result c)"
  "dict_get (base_payload epoch t c) ''tool_calls'' = pr_tool_calls (co_result c)"
  "dict_get (base_payload epoch t c) ''action_envelope'' = pr_action_envelope (co_result c)"
  "dict_get (base_payload epoch t c) ''failure'' = pr_failure (co_result c)"
  "dict_get (base_payload epoch t c) ''retryable'' = JBool (pr_retryable (co_result c))"
  "dict_get (base_payload epoch t c) ''configured_budget'' = JObj (pr_configured_budget (co_result c))"
  "dict_get (base_payload epoch t c) ''consumed_usage'' = JObj (pr_consumed_usage (co_result c))"
  unfolding base_payload_def Let_def by (simp_all add: dict_get_Cons)

text \<open>A result as the runner's type has it, its descriptor not carrying the store's own mark.\<close>

definition well_typed_result :: "pipeline_result \<Rightarrow> bool" where
  "well_typed_result r \<longleftrightarrow> result_accepted r \<and>
     (\<exists>xs. pr_tool_calls r = JList xs \<and> list_all (\<lambda>x. case x of JObj d \<Rightarrow> True | _ \<Rightarrow> False) xs) \<and>
     null_or_object (pr_pet_control r) \<and> null_or_object (pr_action_envelope r) \<and>
     \<not> dict_has (dict_of (pr_recovery r)) ''_process_epoch''"

lemma accepted_descriptors:
  assumes "result_accepted r"
  shows "null_or_object (pr_failure r)" "null_or_object (pr_recovery r)" "pr_outcome r \<in> set valid_terminal_turn_outcomes"
  using assms by (auto simp: result_accepted_def null_or_object_def Let_def split: json.splits)

lemma json_or_object: "dict_of (json_or (json_or (JObj d) (JObj [])) (JObj [])) = d"
  by (cases d) (simp_all add: json_or_def dict_of_def)

lemma stored_document:
  assumes "well_typed_result (co_result c)"
  shows "stored_result str_of (load_result epoch (persist_payload epoch intent t c)) = Inr (co_result c)"
proof -
  let ?r = "co_result c" and ?d = "load_result epoch (persist_payload epoch intent t c)"
  obtain xs where xs: "pr_tool_calls ?r = JList xs" "list_all (\<lambda>x. case x of JObj d \<Rightarrow> True | _ \<Rightarrow> False) xs"
    using assms by (auto simp: well_typed_result_def)
  have ok: "result_accepted ?r" "null_or_object (pr_pet_control ?r)" "null_or_object (pr_action_envelope ?r)"
    using assms by (simp_all add: well_typed_result_def)
  note accepted = accepted_descriptors [OF ok(1)]
  have recovery: "load_recovery_descriptor epoch (persist_recovery_descriptor epoch (pr_recovery ?r)) = pr_recovery ?r"
    using assms accepted(2) load_persist_recovery
    by (cases "pr_recovery ?r") (auto simp: well_typed_result_def null_or_object_def dict_of_def load_recovery_descriptor_def persist_recovery_descriptor_def)
  have get: "dict_get ?d ''tool_calls'' = JList xs" "dict_get ?d ''pet_control'' = pr_pet_control ?r"
      "dict_get ?d ''action_envelope'' = pr_action_envelope ?r" "dict_get ?d ''failure'' = pr_failure ?r"
      "dict_get ?d ''reply'' = JStr (pr_reply ?r)" "dict_get ?d ''outcome'' = JStr (pr_outcome ?r)"
      "dict_get ?d ''retryable'' = JBool (pr_retryable ?r)" "dict_get ?d ''recovery'' = pr_recovery ?r"
      "dict_get ?d ''configured_budget'' = json_or (JObj (pr_configured_budget ?r)) (JObj [])"
      "dict_get ?d ''consumed_usage'' = json_or (JObj (pr_consumed_usage ?r)) (JObj [])"
    using xs(1) recovery by (simp_all add: load_result_get dict_get_persist_payload base_payload_result base_payload_gets)
  have "pr_outcome ?r \<noteq> []" using accepted(3) by (auto simp: valid_terminal_turn_outcomes_def)
  then have outcome: "stored_outcome str_of (JStr (pr_outcome ?r)) = Some (pr_outcome ?r)"
    using accepted(3) by (simp add: stored_outcome_def json_or_def Let_def)
  have objects: "list_all (\<lambda>k. null_or_object (dict_get ?d k)) [''pet_control'', ''action_envelope'', ''failure'', ''recovery'']"
    using ok accepted by (simp add: get)
  have reply: "(case json_or (JStr (pr_reply ?r)) (JStr []) of JStr s \<Rightarrow> s | x \<Rightarrow> str_of x) = pr_reply ?r" by (simp add: json_or_def)
  have whole: "\<lparr>pr_reply = pr_reply ?r, pr_pet_control = pr_pet_control ?r, pr_tool_calls = JList xs,
      pr_action_envelope = pr_action_envelope ?r, pr_failure = pr_failure ?r, pr_recovery = pr_recovery ?r,
      pr_outcome = pr_outcome ?r, pr_retryable = pr_retryable ?r, pr_configured_budget = pr_configured_budget ?r,
      pr_consumed_usage = pr_consumed_usage ?r\<rparr> = ?r"
    using xs(1) by (cases "co_result c") simp
  show ?thesis
    unfolding stored_result_def get(1) json.case
    using xs(2) objects ok(1)
    by (simp only: get outcome reply json_or_object truthy.simps whole option.case Let_def if_True if_False not_True_eq_False simp_thms)
qed

lemma reads_back:
  assumes "persist (sv_epoch cfg) i t c s = Inr s'" and "commit_of s (co_idempotency_key c) = None" and "well_typed_result (co_result c)"
  shows "stored_turn cfg str_of (co_idempotency_key c) s' = Some (co_semantic_fingerprint c, co_result c)"
  using commit_of_persist [OF assms(1), of "co_idempotency_key c"] assms(2) stored_document [OF assms(3), of str_of "sv_epoch cfg" i t]
  by (simp add: stored_turn_def commit_row_of_def)

text \<open>A commit is read back as it was written: the first commit of a turn with a result of the runner's type is
  loaded by every later request for the turn, in every later store, with exactly this result - reply,
  tool calls, pet control, action envelope, failure, recovery descriptor, outcome and budgets.\<close>

theorem commit_reads_back:
  assumes "reachable s" and "persist (sv_epoch cfg) i t c s = Inr s1" and "commit_of s (co_idempotency_key c) = None"
    and "well_typed_result (co_result c)" and "key_ok rq"
    and "rq_key rq = co_idempotency_key c" and "rq_fingerprint rq = co_semantic_fingerprint c"
  shows "load_persisted cfg str_of rq (fold exec_turn cs s1) = Inr (Some (replayed_commit rq (co_result c)))"
proof -
  have "turn_inv s1" by (rule later_inv [OF reachable_inv [OF assms(1)] later_claim_ops(4) [OF assms(2)]])
  from stored_turn_stays [OF this later_fold reads_back [OF assms(2-4)], of str_of cs]
  show ?thesis using load_persisted_Some [OF assms(5)] assms(6,7) by metis
qed

section \<open>Interrupted turns\<close>

text \<open>Commands that do not commit the turn.\<close>

definition foreign :: "string \<Rightarrow> turn_cmd list \<Rightarrow> bool" where
  "foreign key cs \<longleftrightarrow> list_all (\<lambda>c. case c of TClaim (CPersist e i t co) \<Rightarrow> co_idempotency_key co \<noteq> key | _ \<Rightarrow> True) cs"

lemma foreign_step: "foreign k [c] \<Longrightarrow> commit_of (exec_turn c s) k = commit_of s k"
proof (cases c)
  case (TClaim d)
  assume "foreign k [c]"
  with TClaim show ?thesis
    by (cases d) (auto simp: foreign_def claim_keeps keep_on_failure_def commit_of_persist split: sum.splits option.splits)
qed (simp_all add: outbox_frame delivery_frame)

lemma foreign_fold: "foreign k cs \<Longrightarrow> commit_of (fold exec_turn cs s) k = commit_of s k"
  by (induction cs arbitrary: s) (simp_all add: foreign_step foreign_def)

lemma foreign_renewals:
  "renew_claim_loop cfg key owner token rs s = (lost, s') \<Longrightarrow> list_all (\<lambda>r. foreign k (fst r)) rs \<Longrightarrow> commit_of s' k = commit_of s k"
proof (induction rs arbitrary: s)
  case (Cons r rs)
  obtain others now where r: "r = (others, now)" by (cases r)
  obtain ok s1 where ren: "renew_claim now key owner token (sv_lease cfg) (fold exec_turn others s) = (ok, s1)" by fastforce
  then have "commit_of s1 k = commit_of s k"
    using claim_keeps(2) [of now key owner token "sv_lease cfg" "fold exec_turn others s"] foreign_fold [of k others s] Cons.prems(2) r by simp
  with Cons r ren show ?case by (cases ok) auto
qed simp

lemma granted_uncommitted:
  "claim_or_load cfg str_of rq owner polls n t deadline s = (Inr (ClaimGranted token), s', m) \<Longrightarrow> commit_of s' (rq_key rq) = None"
proof (induction cfg str_of rq owner polls n t deadline s rule: claim_or_load.induct)
  case (1 cfg str_of rq owner polls n t deadline s)
  obtain x s1 where poll: "poll_claim cfg str_of rq owner (polls n) t deadline s = (x, s1)" by fastforce
  show ?case
  proof (cases "\<exists>t'. x = Inr (Inr t')")
    case True
    then obtain t' where x: "x = Inr (Inr t')" by blast
    then have "claim_or_load cfg str_of rq owner polls (n + 1) t' deadline s1 = (Inr (ClaimGranted token), s', m)"
      using "1.prems"(1) poll by (subst (asm) claim_or_load.simps) simp
    from "1.IH" [OF poll [symmetric] x refl this] show ?thesis .
  next
    case False
    then have "x = Inr (Inl (ClaimGranted token)) \<and> s1 = s'"
      using "1.prems"(1) poll by (subst (asm) claim_or_load.simps) (auto split: sum.splits)
    with poll show ?thesis
      by (auto simp: poll_claim_def Let_def claim_def split: option.splits claim_outcome.splits sum.splits if_splits)
  qed
qed

lemma commit_turn_exact:
  assumes "commit_turn cfg str_of rq io token r w = (Inr c, w')" and "key_ok rq" and "turn_inv (sw_store w)"
    and "commit_of (sw_store w) (rq_key rq) = None" and "foreign (rq_key rq) (xo_others_persist io)" and "well_typed_result r"
  shows "co_result (sc_commit c) = r"
proof -
  let ?c = "turn_commit_of rq r (Some (xo_owner io, token))" and ?s = "fold exec_turn (xo_others_persist io) (sw_store w)"
  have c: "co_idempotency_key ?c = rq_key rq" "co_result ?c = r" "co_semantic_fingerprint ?c = rq_fingerprint rq" by (simp_all add: turn_commit_of_def)
  obtain s1 where per: "persist (sv_epoch cfg) (xo_intent io) (xo_now io) ?c ?s = Inr s1"
    using assms(1) by (cases "persist (sv_epoch cfg) (xo_intent io) (xo_now io) ?c ?s") (auto simp: commit_turn_def Let_def)
  have "turn_inv s1" using later_inv [OF assms(3)] later_claim_ops(4) [OF per] by (meson later_fold later_trans)
  moreover have "stored_turn cfg str_of (rq_key rq) s1 = Some (rq_fingerprint rq, r)"
    using reads_back [OF per, of str_of] assms(4,6) foreign_fold [OF assms(5), of "sw_store w"] c by simp
  ultimately have "stored_turn cfg str_of (rq_key rq) (fold exec_turn (xo_others_reload io) s1) = Some (rq_fingerprint rq, r)"
    by (rule stored_turn_stays [OF _ later_fold])
  then have auth: "load_persisted cfg str_of rq (fold exec_turn (xo_others_reload io) s1) = Inr (Some (replayed_commit rq r))"
    using load_persisted_Some [OF assms(2)] by blast
  obtain c2 s2 where pr: "project_commit io \<lparr>sc_commit = ?c\<lparr>co_result := co_result (sc_commit (replayed_commit rq r))\<rparr>, sc_persisted = True,
      sc_replayed = False, sc_projection_pending = False, sc_projection_error = None\<rparr> (fold exec_turn (xo_others_reload io) s1) = (c2, s2)" by fastforce
  have "c = c2" using assms(1) per auth pr by (auto simp: commit_turn_def Let_def)
  then show ?thesis using project_fields(1) [OF pr] by (simp add: replayed_commit_def turn_commit_of_def)
qed

text \<open>Nobody else commits the turn while it runs.\<close>

definition undisturbed :: "string \<Rightarrow> execution_io \<Rightarrow> bool" where
  "undisturbed key io \<longleftrightarrow> list_all (\<lambda>r. foreign key (fst r)) (xo_renewals io @ xo_renewals_finalize io) \<and>
     foreign key (xo_others_run io) \<and> foreign key (xo_others_persist io)"

lemma run_turn_exact:
  assumes "run_turn cfg str_of rq io token w = (Inr c, w')" and "key_ok rq" and "turn_inv (sw_store w)"
    and "commit_of (sw_store w) (rq_key rq) = None" and "undisturbed (rq_key rq) io"
  shows "\<exists>r0 r. run_result rq io = Inr r0 \<and> finalize_result cfg rq io r0 = Inr r \<and> (well_typed_result r \<longrightarrow> co_result (sc_commit c) = r)"
proof -
  obtain lost s1 where ren: "renew_claim_loop cfg (rq_key rq) (xo_owner io) token (xo_renewals io) (sw_store w) = (lost, s1)" by fastforce
  let ?w = "w\<lparr>sw_store := fold exec_turn (xo_others_run io) s1, sw_runs := sw_runs w @ [rq_key rq]\<rparr>"
  obtain lost2 s2 where fin: "(if sv_finalizes cfg
      then renew_claim_loop cfg (rq_key rq) (xo_owner io) token (xo_renewals_finalize io) (sw_store ?w) else (False, sw_store ?w)) = (lost2, s2)"
    by fastforce
  have quiet: "list_all (\<lambda>r. foreign (rq_key rq) (fst r)) (xo_renewals io)" "list_all (\<lambda>r. foreign (rq_key rq) (fst r)) (xo_renewals_finalize io)"
      "foreign (rq_key rq) (xo_others_run io)" "foreign (rq_key rq) (xo_others_persist io)"
    using assms(5) by (simp_all add: undisturbed_def)
  have "commit_of (sw_store ?w) (rq_key rq) = None"
    using foreign_renewals [OF ren quiet(1)] foreign_fold [OF quiet(3), of s1] assms(4) by simp
  then have none: "commit_of s2 (rq_key rq) = None" using fin foreign_renewals [OF _ quiet(2)] by (auto split: if_splits)
  have "later (sw_store w) (sw_store ?w)" using later_renew_loop [OF ren] by (auto intro: later_trans)
  moreover have "later (sw_store ?w) s2" using fin by (auto split: if_splits dest: later_renew_loop)
  ultimately have inv: "turn_inv s2" using later_inv [OF assms(3)] later_trans by blast
  obtain r0 r where r: "run_result rq io = Inr r0" "finalize_result cfg rq io r0 = Inr r"
      "commit_turn cfg str_of rq io token r (?w\<lparr>sw_store := s2\<rparr>) = (Inr c, w')"
    using assms(1) ren fin by (auto simp: run_turn_def Let_def split: if_splits sum.splits)
  with commit_turn_exact [OF r(3) assms(2) _ _ quiet(4)] none inv show ?thesis by auto
qed

lemma execution_exact:
  assumes "execute_once cfg str_of rq io w = (Inr c, w')" and "\<not> sc_replayed c" and "key_ok rq" and "turn_inv (sw_store w)"
    and "undisturbed (rq_key rq) io"
  shows "\<exists>r0 r. run_result rq io = Inr r0 \<and> finalize_result cfg rq io r0 = Inr r \<and> (well_typed_result r \<longrightarrow> co_result (sc_commit c) = r)"
proof -
  let ?w = "w\<lparr>sw_store := fold exec_turn (xo_others_load io) (sw_store w)\<rparr>"
  obtain claimed s2 n where cl: "claim_or_load cfg str_of rq (xo_owner io) (xo_polls io) 0 (xo_loop_time io)
      (xo_loop_time io + sv_wait cfg) (sw_store ?w) = (claimed, s2, n)" by (metis prod_cases3)
  have replay: "sc_replayed x \<Longrightarrow> deliver_stored cfg rq io x v \<noteq> (Inr c, w')" for x v
    using assms(2) project_fields(2)
    by (auto simp: deliver_stored_def Let_def split: prod.splits option.splits)
  have "later (sw_store w) s2" using later_fold later_claim_or_load [OF cl] by (auto intro: later_trans)
  then have inv: "turn_inv s2" by (rule later_inv [OF assms(4)])
  have stored: "load_persisted cfg str_of rq s = Inr (Some x) \<Longrightarrow> sc_replayed x" for s x
    using load_persisted_Some [OF assms(3)] by (auto simp: replayed_commit_def)
  have polled: "claimed = Inr (StoredTurn x) \<Longrightarrow> sc_replayed x" for x
    using claim_stored_agrees [OF _ assms(3)] cl by blast
  have "\<exists>token v. claimed = Inr (ClaimGranted token) \<and> run_turn cfg str_of rq io token (?w\<lparr>sw_store := s2\<rparr>) = (Inr c, v)"
    using assms(1) cl replay stored polled
    by (auto simp: execute_once_def Let_def split: sum.splits option.splits claim_result.splits prod.splits)
  then obtain token v where run: "claimed = Inr (ClaimGranted token)" "run_turn cfg str_of rq io token (?w\<lparr>sw_store := s2\<rparr>) = (Inr c, v)" by blast
  have "commit_of s2 (rq_key rq) = None" using granted_uncommitted cl run(1) by blast
  with run_turn_exact [OF run(2) assms(3) _ _ assms(5)] inv show ?thesis by simp
qed

text \<open>How the turn ended, so that nobody knows what it did: the runner or the finalizer raised or was cancelled.\<close>

definition effect_unknown :: "service_config \<Rightarrow> execution_io \<Rightarrow> bool" where
  "effect_unknown cfg io \<longleftrightarrow>
     (if sv_finalizes cfg then (case xo_finalize io of FinalizeRaised e \<Rightarrow> True | FinalizeCancelled \<Rightarrow> True | _ \<Rightarrow> False)
      else (case xo_run io of RunRaised e \<Rightarrow> True | RunCancelled cancelled \<Rightarrow> \<not> cancelled
            | RunReturned r \<Rightarrow> pr_outcome r = ''completed'' \<and> xo_cancelling io | RunInvalid \<Rightarrow> False))"

lemma plain_well_typed:
  "failure = JNull \<or> (\<exists>k m e. failure = runner_failure k m e) \<Longrightarrow> well_typed_result (plain_result ''unknown_effect'' failure b u)"
  by (auto simp: well_typed_result_def plain_result_def result_accepted_def null_or_object_def runner_failure_def
      valid_terminal_turn_outcomes_def dict_of_def dict_get_def dict_has_def)

lemma with_budget_fields:
  "pr_outcome (with_budget rq r) = pr_outcome r" "well_typed_result (with_budget rq r) = well_typed_result r"
  "pr_retryable (with_budget rq r) = pr_retryable r" "pr_reply (with_budget rq r) = pr_reply r"
  "pr_recovery (with_budget rq r) = pr_recovery r" "pr_tool_calls (with_budget rq r) = pr_tool_calls r"
  by (simp_all add: with_budget_def well_typed_result_def result_accepted_def Let_def split: json.splits)

lemma plain_result_fields:
  "pr_outcome (plain_result out f b u) = out" "pr_retryable (plain_result out f b u) = False" "pr_reply (plain_result out f b u) = []"
  "pr_recovery (plain_result out f b u) = JNull" "pr_tool_calls (plain_result out f b u) = JList []"
  by (simp_all add: plain_result_def)

text \<open>An interrupted turn is never reported as done or as safe to repeat: when the runner or the finalizer raised
  or was cancelled after work had begun, the committed result is an unknown effect that is not
  retryable and carries no reply, no tool call and no recovery.\<close>

theorem interrupted_turn_is_unknown:
  assumes "execute_once cfg str_of rq io w = (Inr c, w')" and "\<not> sc_replayed c" and "key_ok rq" and "reachable (sw_store w)"
    and "undisturbed (rq_key rq) io" and "effect_unknown cfg io"
  shows "pr_outcome (co_result (sc_commit c)) = ''unknown_effect'' \<and> \<not> pr_retryable (co_result (sc_commit c)) \<and>
    pr_reply (co_result (sc_commit c)) = [] \<and> pr_tool_calls (co_result (sc_commit c)) = JList [] \<and>
    pr_recovery (co_result (sc_commit c)) = JNull"
proof -
  obtain r0 r where r: "run_result rq io = Inr r0" "finalize_result cfg rq io r0 = Inr r" "well_typed_result r \<longrightarrow> co_result (sc_commit c) = r"
    using execution_exact [OF assms(1-3) reachable_inv [OF assms(4)] assms(5)] by blast
  have "\<exists>f b u. (f = JNull \<or> (\<exists>k m e. f = runner_failure k m e)) \<and> (r = plain_result ''unknown_effect'' f b u \<or> r = with_budget rq (plain_result ''unknown_effect'' f b u))"
    using r(1,2) assms(6) unfolding run_result_def finalize_result_def effect_unknown_def
    by (auto split: if_splits run_end.splits finalize_end.splits)
  then obtain f b u where f: "f = JNull \<or> (\<exists>k m e. f = runner_failure k m e)"
      "r = plain_result ''unknown_effect'' f b u \<or> r = with_budget rq (plain_result ''unknown_effect'' f b u)" by blast
  then have "well_typed_result r" using plain_well_typed [OF f(1)] by (auto simp: with_budget_fields)
  with r(3) f(2) show ?thesis by (auto simp: with_budget_fields plain_result_fields)
qed

section \<open>Witnesses\<close>

definition sample_request :: turn_request where
  "sample_request = \<lparr>rq_key = ''turn:k'', rq_fingerprint = ''f'', rq_trigger = ''chat'', rq_context = sample_context,
     rq_max_tokens = 512, rq_replays = False\<rparr>"

definition quiet_poll :: "time \<Rightarrow> poll_io" where
  "quiet_poll t = \<lparr>pl_others = [], pl_now = t, pl_others_load = [], pl_elapsed = 0, pl_cancelled = False, pl_overslept = 0\<rparr>"

text \<open>An execution, at a time, by an owner, while nobody else works.\<close>

definition quiet_io :: "string \<Rightarrow> time \<Rightarrow> run_end \<Rightarrow> execution_io" where
  "quiet_io owner t run = \<lparr>xo_others_load = [], xo_owner = owner, xo_polls = (\<lambda>n. quiet_poll t), xo_loop_time = t,
     xo_renewals = [([], t + 10)], xo_others_run = [], xo_run = run, xo_cancelling = False, xo_renewals_finalize = [],
     xo_finalize = FinalizeInvalid, xo_others_persist = [], xo_now = t + 20, xo_intent = JNull, xo_others_reload = [],
     xo_dispatch = ([], None), xo_replay_fails = None, xo_others_release = []\<rparr>"

definition sample_config :: "string \<Rightarrow> service_config" where
  "sample_config epoch = new_turn_service epoch 256 30 30 False"

definition empty_world :: service_world where
  "empty_world = \<lparr>sw_store = empty_store, sw_commits = [], sw_runs = []\<rparr>"

definition no_text :: "json \<Rightarrow> string" where
  "no_text v = []"

definition sample_run_end :: "bool \<Rightarrow> run_end" where
  "sample_run_end ok = (if ok then RunReturned (plain_result ''completed'' JNull [] []) else RunRaised ''ValueError'')"

abbreviation first_run :: "bool \<Rightarrow> (service_exception + service_commit) \<times> service_world" where
  "first_run ok \<equiv> execute_once (sample_config ''ep'') no_text sample_request (quiet_io ''claim:a'' 1 (sample_run_end ok)) empty_world"

lemma first_runs:
  "case fst (first_run True) of Inr c \<Rightarrow> True | Inl e \<Rightarrow> False"
  by code_simp

lemma first_runs2:
  "case fst (first_run False) of Inr c \<Rightarrow> \<not> sc_replayed c | Inl e \<Rightarrow> False"
  by code_simp

text \<open>The same turn asked for again by another process, whose runner would fail.\<close>

abbreviation second_run :: "(service_exception + service_commit) \<times> service_world" where
  "second_run \<equiv> execute_once (sample_config ''other'') no_text sample_request (quiet_io ''claim:b'' 50 (sample_run_end False)) (snd (first_run True))"

lemma second_runs: "case fst second_run of Inr c \<Rightarrow> True | Inl e \<Rightarrow> False"
  by code_simp

text \<open>Another process holds the claim for the whole wait.\<close>

definition held_store :: turn_store where
  "held_store = exec_turn (TClaim (CClaim 0 ''turn:k'' ''f'' ''claim:b'' 30)) empty_store"

definition held_world :: service_world where
  "held_world = empty_world\<lparr>sw_store := held_store\<rparr>"

definition waiting_io :: execution_io where
  "waiting_io = (quiet_io ''claim:a'' 1 (sample_run_end True))\<lparr>xo_polls := (\<lambda>n. (quiet_poll 1)\<lparr>pl_elapsed := 100\<rparr>)\<rparr>"

abbreviation waiting_run :: "(service_exception + service_commit) \<times> service_world" where
  "waiting_run \<equiv> execute_once (sample_config ''ep'') no_text sample_request waiting_io held_world"

lemma waiting_runs:
  "case claim_of (sw_store (snd waiting_run)) ''turn:k'' of Some r \<Rightarrow> True | None \<Rightarrow> False"
  "case claim_of held_store ''turn:k'' of Some r \<Rightarrow> tc_owner_id r \<noteq> ''claim:a'' | None \<Rightarrow> False"
  by code_simp+

lemma sample_reachable: "reachable (sw_store empty_world)" "reachable (sw_store held_world)"
proof -
  show "reachable (sw_store empty_world)" using reachable.start by (simp add: empty_world_def)
  have "reachable held_store" unfolding held_store_def by (rule reachable.step [OF reachable.start])
  then show "reachable (sw_store held_world)" by (simp add: held_world_def)
qed

lemma sample_key: "key_ok sample_request" "rq_key sample_request = ''turn:k''"
  by (simp_all add: key_ok_def sample_request_def py_strip_def py_isspace_def)

theorem claim_is_given_back_witness:
  "case claim_of (sw_store (snd waiting_run)) ''turn:k'' of Some r \<Rightarrow> tc_owner_id r \<noteq> ''claim:a'' | None \<Rightarrow> False"
proof -
  obtain r where r: "claim_of (sw_store (snd waiting_run)) ''turn:k'' = Some r"
    using waiting_runs(1) by (auto split: option.splits)
  have "\<forall>r. claim_of (sw_store held_world) (rq_key sample_request) = Some r \<longrightarrow> tc_owner_id r \<noteq> xo_owner waiting_io"
    using waiting_runs(2) by (simp add: held_world_def sample_key waiting_io_def quiet_io_def split: option.splits)
  moreover have "strangers waiting_io"
    by (simp add: strangers_def strange_def waiting_io_def quiet_io_def quiet_poll_def)
  ultimately have "tc_owner_id r \<noteq> xo_owner waiting_io"
    using claim_is_given_back [OF sample_reachable(2), of sample_request waiting_io "sample_config ''ep''" no_text "fst waiting_run" "snd waiting_run" r] r
    by (simp add: sample_key)
  with r show ?thesis by (simp add: waiting_io_def quiet_io_def)
qed

theorem one_result_per_turn_witness:
  "case (fst (first_run True), fst second_run) of
     (Inr c, Inr c2) \<Rightarrow> sc_replayed c2 \<and> sw_runs (snd second_run) = sw_runs (snd (first_run True)) | _ \<Rightarrow> False"
proof -
  obtain c where c: "fst (first_run True) = Inr c" using first_runs by (auto split: sum.splits)
  obtain c2 where c2: "fst second_run = Inr c2" using second_runs by (auto split: sum.splits)
  have "first_run True = (Inr c, snd (first_run True))" "second_run = (Inr c2, snd second_run)"
    using c c2 by (metis prod.collapse)+
  note both = this
  have store: "sw_store (snd (first_run True)) = fold exec_turn [] (sw_store (snd (first_run True)))" by simp
  from one_result_per_turn [OF sample_reachable(1) sample_key(1) both(1) store refl both(2)] c c2 show ?thesis by simp
qed

definition done_commit :: turn_commit where
  "done_commit = turn_commit_of sample_request (plain_result ''completed'' JNull [(''output_tokens'', JInt 512)] []) None"

theorem commit_reads_back_witness:
  "case persist ''ep'' JNull 1 done_commit empty_store of
     Inr s \<Rightarrow> load_persisted (sample_config ''ep'') no_text sample_request s = Inr (Some (replayed_commit sample_request (co_result done_commit)))
   | Inl e \<Rightarrow> False"
proof -
  have "case persist ''ep'' JNull 1 done_commit empty_store of Inr s \<Rightarrow> True | Inl e \<Rightarrow> False" by code_simp
  then obtain s where s: "persist (sv_epoch (sample_config ''ep'')) JNull 1 done_commit empty_store = Inr s"
    by (auto simp: sample_config_def new_turn_service_def split: sum.splits)
  have "well_typed_result (co_result done_commit)"
    by (simp add: done_commit_def turn_commit_of_def well_typed_result_def plain_result_def result_accepted_def null_or_object_def
        valid_terminal_turn_outcomes_def dict_of_def dict_has_def)
  moreover have "commit_of empty_store (co_idempotency_key done_commit) = None" by (simp add: empty_store_def)
  moreover have "rq_key sample_request = co_idempotency_key done_commit" "rq_fingerprint sample_request = co_semantic_fingerprint done_commit"
    by (simp_all add: done_commit_def turn_commit_of_def)
  ultimately have "load_persisted (sample_config ''ep'') no_text sample_request (fold exec_turn [] s) = Inr (Some (replayed_commit sample_request (co_result done_commit)))"
    using commit_reads_back [OF reachable.start s, of sample_request no_text "[]"] sample_key(1) by blast
  moreover have "persist ''ep'' JNull 1 done_commit empty_store = Inr s"
    using s by (simp add: sample_config_def new_turn_service_def)
  ultimately show ?thesis by simp
qed

theorem interrupted_turn_is_unknown_witness:
  "case fst (first_run False) of Inr c \<Rightarrow> pr_outcome (co_result (sc_commit c)) = ''unknown_effect'' | Inl e \<Rightarrow> False"
proof -
  obtain c where c: "fst (first_run False) = Inr c" "\<not> sc_replayed c" using first_runs2 by (auto split: sum.splits)
  then have run: "first_run False = (Inr c, snd (first_run False))" by (metis prod.collapse)
  have quiet: "undisturbed (rq_key sample_request) (quiet_io ''claim:a'' 1 (sample_run_end False))"
    by (simp add: undisturbed_def foreign_def quiet_io_def)
  have "effect_unknown (sample_config ''ep'') (quiet_io ''claim:a'' 1 (sample_run_end False))"
    by (simp add: effect_unknown_def sample_config_def new_turn_service_def quiet_io_def sample_run_end_def)
  from interrupted_turn_is_unknown [OF run c(2) sample_key(1) sample_reachable(1) quiet this] c show ?thesis by simp
qed

end
