(* ===== verification/Context_Window.thy ===== *)
theory Context_Window
  imports Python_Json "HOL-Library.Sublist"
begin

text \<open>
  The context window of the language model (\<open>modules/llm/context_window.py\<close>): token counting, the
  truncation of one message by binary search, and the sliding window over a conversation. The tokenizer
  (the package \<open>tiktoken\<close>) is the parameter \<open>encode\<close>, \<open>None\<close> where it is missing or raises; Python's
  \<open>str\<close> of a value that is not a text is the parameter \<open>str_of\<close>; the fixed heading of a summary is the
  parameter \<open>heading\<close>. The \<open>type\<close> of a content block is taken to be hashable.
\<close>

section \<open>Messages\<close>

datatype content = TextContent string | BlockContent "dict list"

record chat_message =
  cm_role :: string
  cm_content :: content

record truncation_stats =
  ts_input_tokens :: nat
  ts_budget_tokens :: nat
  ts_dropped_messages :: nat

record layered_context =
  lc_system :: "chat_message list"
  lc_rag :: "chat_message list"
  lc_summary :: "chat_message option"
  lc_recent :: "chat_message list"

definition is_text_block :: "dict \<Rightarrow> bool" where
  "is_text_block b \<longleftrightarrow> dict_get b ''type'' = JStr ''text'' \<and> is_string_value (dict_get b ''text'')"

definition is_image_block :: "dict \<Rightarrow> bool" where
  "is_image_block b \<longleftrightarrow> dict_get b ''type'' \<in> {JStr ''image_url'', JStr ''image''}"

definition text_of_json :: "json \<Rightarrow> string option" where
  "text_of_json v = (case v of JStr s \<Rightarrow> Some s | _ \<Rightarrow> None)"

text \<open>The text of a block, empty if it has none.\<close>

definition block_text :: "dict \<Rightarrow> string" where
  "block_text b = (if is_text_block b then text_or_empty (text_of_json (dict_get b ''text''))
     else text_or_empty (text_of_json (dict_get b ''content'')))"

fun join_lines :: "string list \<Rightarrow> string" where
  "join_lines [] = []"
| "join_lines [s] = s"
| "join_lines (s # ss) = s @ [CHR 0x0A] @ join_lines ss"

definition content_text :: "content \<Rightarrow> string" where
  "content_text c = (case c of TextContent s \<Rightarrow> s
     | BlockContent bs \<Rightarrow> join_lines (filter (\<lambda>s. s \<noteq> []) (map block_text bs)))"

definition normalize_content :: "(json \<Rightarrow> string) \<Rightarrow> json \<Rightarrow> content" where
  "normalize_content str_of v = (case v of
     JList xs \<Rightarrow> BlockContent (concat (map (\<lambda>x. case x of JObj d \<Rightarrow> [d] | _ \<Rightarrow> []) xs))
   | JStr s \<Rightarrow> TextContent s
   | _ \<Rightarrow> TextContent (if truthy v then str_of v else []))"

definition normalize_message :: "(json \<Rightarrow> string) \<Rightarrow> dict \<Rightarrow> chat_message" where
  "normalize_message str_of m =
     \<lparr>cm_role = (case get_default m ''role'' (JStr ''user'') of JStr s \<Rightarrow> s | v \<Rightarrow> str_of v),
      cm_content = normalize_content str_of (get_default m ''content'' (JStr []))\<rparr>"

definition normalize_messages :: "(json \<Rightarrow> string) \<Rightarrow> dict list \<Rightarrow> chat_message list" where
  "normalize_messages str_of ms = map (normalize_message str_of) ms"

text \<open>A normalised message as the dictionary it is in Python.\<close>

definition message_dict :: "chat_message \<Rightarrow> dict" where
  "message_dict m = [(''role'', JStr (cm_role m)),
     (''content'', case cm_content m of TextContent s \<Rightarrow> JStr s | BlockContent bs \<Rightarrow> JList (map JObj bs))]"

lemma normalize_message_dict [simp]: "normalize_message str_of (message_dict m) = m"
proof -
  have "concat (map (\<lambda>x. case x of JObj d \<Rightarrow> [d] | _ \<Rightarrow> []) (map JObj bs)) = bs" for bs
    by (induction bs) simp_all
  then show ?thesis
    by (cases m; cases "cm_content m")
       (simp_all add: normalize_message_def message_dict_def get_default_def normalize_content_def)
qed

section \<open>Counting\<close>

definition count_text :: "(string \<Rightarrow> nat option) \<Rightarrow> string \<Rightarrow> nat" where
  "count_text encode s = (if s = [] then 0 else case encode s of Some n \<Rightarrow> n | None \<Rightarrow> max 1 ((length s + 3) div 4))"

definition count_content :: "(string \<Rightarrow> nat option) \<Rightarrow> content \<Rightarrow> nat" where
  "count_content encode c = count_text encode (content_text c) + (case c of TextContent s \<Rightarrow> 0
     | BlockContent bs \<Rightarrow> 1024 * length (filter is_image_block bs))"

definition count_message :: "(string \<Rightarrow> nat option) \<Rightarrow> chat_message \<Rightarrow> nat" where
  "count_message encode m = 4 + count_text encode (cm_role m) + count_content encode (cm_content m) + 2"

definition count_messages :: "(string \<Rightarrow> nat option) \<Rightarrow> chat_message list \<Rightarrow> nat" where
  "count_messages encode ms = sum_list (map (count_message encode) ms)"

section \<open>Truncating one message\<close>

text \<open>The binary search for the longest text that fits; \<open>fits n\<close> tells whether the first \<open>n\<close> characters do.\<close>

function search_prefix :: "(nat \<Rightarrow> bool) \<Rightarrow> int \<Rightarrow> int \<Rightarrow> nat \<Rightarrow> nat" where
  "search_prefix fits lo hi best =
     (if lo \<le> hi then
        (let mid = (lo + hi) div 2
         in if fits (nat mid) then search_prefix fits (mid + 1) hi (nat mid) else search_prefix fits lo (mid - 1) best)
      else best)"
  by pat_completeness auto
termination
  by (relation "measure (\<lambda>(fits, lo, hi, best). nat (hi + 1 - lo))") auto

declare search_prefix.simps [simp del]

definition truncate_text :: "(string \<Rightarrow> nat option) \<Rightarrow> string \<Rightarrow> nat \<Rightarrow> string \<Rightarrow> string" where
  "truncate_text encode role budget s =
     (let fits = (\<lambda>t. count_message encode \<lparr>cm_role = role, cm_content = TextContent t\<rparr> \<le> budget)
      in if fits s then s else take (search_prefix (\<lambda>n. fits (take n s)) 0 (int (length s)) 0) s)"

definition truncate_block :: "(string \<Rightarrow> nat option) \<Rightarrow> string \<Rightarrow> nat \<Rightarrow> dict \<Rightarrow> dict" where
  "truncate_block encode role budget b =
     (if is_text_block b then dict_set ''text'' (JStr (truncate_text encode role budget (block_text b))) b else b)"

definition truncate_message :: "(string \<Rightarrow> nat option) \<Rightarrow> nat \<Rightarrow> chat_message \<Rightarrow> chat_message" where
  "truncate_message encode budget m =
     (if count_message encode m \<le> budget then m
      else case cm_content m of
          TextContent s \<Rightarrow> m\<lparr>cm_content := TextContent (truncate_text encode (cm_role m) budget s)\<rparr>
        | BlockContent bs \<Rightarrow>
            (let images = m\<lparr>cm_content := BlockContent (filter is_image_block bs)\<rparr>
             in m\<lparr>cm_content := BlockContent (map (truncate_block encode (cm_role m) (budget - count_message encode images)) bs)\<rparr>))"

section \<open>The sliding window\<close>

text \<open>The system messages that are kept, in their order, and their tokens.\<close>

fun keep_system :: "(string \<Rightarrow> nat option) \<Rightarrow> nat \<Rightarrow> chat_message list \<Rightarrow> nat \<Rightarrow> chat_message list \<Rightarrow> chat_message list \<times> nat" where
  "keep_system encode budget kept used [] = (kept, used)"
| "keep_system encode budget kept used (m # ms) =
     (if used + count_message encode m \<le> budget
      then keep_system encode budget (kept @ [m]) (used + count_message encode m) ms
      else if kept = [] \<and> budget > 0
      then (let t = truncate_message encode budget m
            in if py_strip (content_text (cm_content t)) \<noteq> [] then ([t], count_message encode t) else (kept, used))
      else (kept, used))"

text \<open>The messages, newest first, that still fit.\<close>

fun take_older :: "(string \<Rightarrow> nat option) \<Rightarrow> nat \<Rightarrow> chat_message list \<Rightarrow> chat_message list" where
  "take_older encode remaining [] = []"
| "take_older encode remaining (m # ms) =
     (if count_message encode m > remaining then []
      else m # take_older encode (remaining - count_message encode m) ms)"

text \<open>The latest message of the user and what precedes it.\<close>

definition latest_user :: "chat_message list \<Rightarrow> chat_message option \<times> chat_message list" where
  "latest_user dialog = (case dropWhile (\<lambda>m. cm_role m \<noteq> ''user'') (rev dialog) of
     [] \<Rightarrow> (None, dialog) | u # earlier \<Rightarrow> (Some u, rev earlier))"

text \<open>The position trimmed last: the last message that is not a system message, else the last one.\<close>

definition trim_index :: "chat_message list \<Rightarrow> nat" where
  "trim_index ms = (case List.find (\<lambda>i. cm_role (ms ! i) \<noteq> ''system'') (rev [0..<length ms]) of
     Some i \<Rightarrow> i | None \<Rightarrow> length ms - 1)"

definition final_trim :: "(string \<Rightarrow> nat option) \<Rightarrow> nat \<Rightarrow> chat_message list \<Rightarrow> chat_message list" where
  "final_trim encode budget ms =
     (if count_messages encode ms > budget \<and> ms \<noteq> []
      then (let i = trim_index ms;
                available = max 1 (budget - count_messages encode (take i ms @ drop (i + 1) ms))
            in ms[i := truncate_message encode available (ms ! i)])
      else ms)"

definition input_budget :: "int \<Rightarrow> int \<Rightarrow> nat" where
  "input_budget max_context reserved_output = nat (max 256 (max_context - reserved_output))"

definition select_messages :: "(string \<Rightarrow> nat option) \<Rightarrow> nat \<Rightarrow> chat_message list \<Rightarrow> chat_message list" where
  "select_messages encode budget ms =
     (let system = filter (\<lambda>m. cm_role m = ''system'') ms;
          dialog = filter (\<lambda>m. cm_role m \<noteq> ''system'') ms;
          (user, older) = latest_user dialog;
          min_system = (if system = [] then 0 else min 256 (budget div 2));
          reserved = (case user of None \<Rightarrow> 0 | Some u \<Rightarrow> min (count_message encode u) (budget - min_system));
          (kept, used) = keep_system encode (budget - reserved) [] 0 system;
          remaining = budget - used;
          turn = (case user of None \<Rightarrow> []
            | Some u \<Rightarrow> [if count_message encode u > remaining then truncate_message encode (max 1 remaining) u else u]);
          remaining = remaining - count_messages encode turn
      in kept @ rev (take_older encode remaining (rev older)) @ turn)"

definition apply_sliding_window :: "(string \<Rightarrow> nat option) \<Rightarrow> (json \<Rightarrow> string) \<Rightarrow> dict list \<Rightarrow> int \<Rightarrow> int
    \<Rightarrow> chat_message list \<times> truncation_stats" where
  "apply_sliding_window encode str_of messages max_context reserved_output =
     (let ms = normalize_messages str_of messages;
          budget = input_budget max_context reserved_output;
          selected = final_trim encode budget (select_messages encode budget ms)
      in (selected, \<lparr>ts_input_tokens = count_messages encode selected, ts_budget_tokens = budget,
                     ts_dropped_messages = length ms - length selected\<rparr>))"

section \<open>The layered context\<close>

definition build_layered_context :: "(json \<Rightarrow> string) \<Rightarrow> string \<Rightarrow> dict list \<Rightarrow> string \<Rightarrow> layered_context" where
  "build_layered_context str_of heading messages summary =
     (let ms = normalize_messages str_of messages; s = py_strip summary
      in \<lparr>lc_system = filter (\<lambda>m. cm_role m = ''system'') ms, lc_rag = [],
          lc_summary = (if s = [] then None else Some \<lparr>cm_role = ''system'', cm_content = TextContent (heading @ s)\<rparr>),
          lc_recent = filter (\<lambda>m. cm_role m \<noteq> ''system'') ms\<rparr>)"

definition has_compiled_summary :: "chat_message list \<Rightarrow> bool" where
  "has_compiled_summary ms \<longleftrightarrow> list_ex (\<lambda>m. cm_role m = ''system'' \<and>
     sublist ''[PROMPT_BLOCK id=session_summary '' (content_text (cm_content m))) ms"

definition build_and_truncate_layered_context :: "(string \<Rightarrow> nat option) \<Rightarrow> (json \<Rightarrow> string) \<Rightarrow> string \<Rightarrow> dict list
    \<Rightarrow> int \<Rightarrow> int \<Rightarrow> string \<Rightarrow> chat_message list \<times> truncation_stats" where
  "build_and_truncate_layered_context encode str_of heading messages max_context reserved_output summary =
     (let layers = build_layered_context str_of heading messages summary;
          extra = (case lc_summary layers of Some m \<Rightarrow> if has_compiled_summary (lc_system layers) then [] else [m] | None \<Rightarrow> [])
      in apply_sliding_window encode str_of
           (map message_dict (lc_system layers @ extra @ lc_rag layers @ lc_recent layers)) max_context reserved_output)"

end
