(* ===== verification/Context_Properties.thy ===== *)
theory Context_Properties
  imports Context_Window
begin

text \<open>
  What the context window guarantees: truncation leaves a text that fits and cannot be extended, the selected
  messages fit the budget, the latest user turn comes last, the dialogue before it is a contiguous
  part, and an oversized user message does not push out the core policy.
\<close>

section \<open>Truncation\<close>

text \<open>The search returns a length that fits or the one it starts from; if shorter texts fit whenever a longer one
  does, it returns the greatest one.\<close>

lemma search_fits: "best = 0 \<or> fits best \<Longrightarrow> search_prefix fits lo hi best = 0 \<or> fits (search_prefix fits lo hi best)"
proof (induction fits lo hi best rule: search_prefix.induct)
  case (1 fits lo hi best)
  then show ?case by (subst (1 2) search_prefix.simps) (auto simp: Let_def)
qed

lemma search_greatest:
  assumes "0 \<le> lo" "lo \<le> hi + 1" "hi \<le> int n" "int best = max 0 (lo - 1)"
    and "\<And>i j. i \<le> j \<Longrightarrow> j \<le> n \<Longrightarrow> fits j \<Longrightarrow> fits i" and "\<And>m. hi < int m \<Longrightarrow> m \<le> n \<Longrightarrow> \<not> fits m"
  shows "search_prefix fits lo hi best \<le> n \<and> (\<forall>m\<le>n. fits m \<longrightarrow> m \<le> search_prefix fits lo hi best)"
  using assms
proof (induction fits lo hi best rule: search_prefix.induct)
  case (1 fits lo hi best)
  let ?mid = "(lo + hi) div 2"
  show ?case
  proof (cases "lo \<le> hi")
    case False
    with "1.prems" have "hi = lo - 1" by simp
    with "1.prems"(1,3,4) have "best \<le> n" by linarith
    moreover have "m \<le> best" if "m \<le> n" "fits m" for m
      using "1.prems"(4) "1.prems"(6) [of m] that \<open>hi = lo - 1\<close> by force
    ultimately show ?thesis using False by (subst (1 2) search_prefix.simps) simp
  next
    case True
    then have mid: "lo \<le> ?mid" "?mid \<le> hi" by simp_all
    show ?thesis
    proof (cases "fits (nat ?mid)")
      case fit: True
      have "int (nat ?mid) = max 0 (?mid + 1 - 1)" by simp
      with "1.IH"(1) [OF True refl fit] "1.prems"(1,3,5,6) mid fit True show ?thesis
        by (subst (1 2) search_prefix.simps) (simp add: Let_def)
    next
      case False
      have above: "\<not> fits m" if "?mid - 1 < int m" "m \<le> n" for m
        using "1.prems"(5) [of "nat ?mid" m] that False by (auto simp: nat_le_iff)
      have lo: "lo \<le> ?mid - 1 + 1" "?mid - 1 \<le> int n" using mid "1.prems"(3) by simp_all
      from "1.IH"(2) [OF True refl False "1.prems"(1) lo "1.prems"(4,5) above] False True show ?thesis
        by (subst (1 2) search_prefix.simps) (simp add: Let_def)
    qed
  qed
qed

definition text_fits :: "(string \<Rightarrow> nat option) \<Rightarrow> string \<Rightarrow> nat \<Rightarrow> string \<Rightarrow> bool" where
  "text_fits encode role budget s \<longleftrightarrow> count_message encode \<lparr>cm_role = role, cm_content = TextContent s\<rparr> \<le> budget"

lemma text_fits_iff: "text_fits encode role budget s \<longleftrightarrow> 6 + count_text encode role + count_text encode s \<le> budget"
  by (auto simp: text_fits_def count_message_def count_content_def content_text_def)

lemma truncate_text_eq:
  "truncate_text encode role budget s = (if text_fits encode role budget s then s
     else take (search_prefix (\<lambda>n. text_fits encode role budget (take n s)) 0 (int (length s)) 0) s)"
  by (simp add: truncate_text_def text_fits_def Let_def)

lemma truncate_text_prefix: "\<exists>n. truncate_text encode role budget s = take n s"
  unfolding truncate_text_eq by (metis take_all_iff order_refl)

text \<open>What is left fits, unless nothing is left.\<close>

lemma truncate_text_fits: "truncate_text encode role budget s = [] \<or> text_fits encode role budget (truncate_text encode role budget s)"
  using search_fits [of 0 "\<lambda>n. text_fits encode role budget (take n s)" 0 "int (length s)"]
  by (auto simp: truncate_text_eq)

definition prefix_monotone :: "(string \<Rightarrow> nat option) \<Rightarrow> string \<Rightarrow> bool" where
  "prefix_monotone encode s \<longleftrightarrow> (\<forall>i j. i \<le> j \<longrightarrow> j \<le> length s \<longrightarrow> count_text encode (take i s) \<le> count_text encode (take j s))"

definition longest_fitting :: "(string \<Rightarrow> nat option) \<Rightarrow> string \<Rightarrow> nat \<Rightarrow> string \<Rightarrow> nat" where
  "longest_fitting encode role budget s = Max {n. n \<le> length s \<and> (n = 0 \<or> text_fits encode role budget (take n s))}"

lemma heuristic_monotone: "prefix_monotone (\<lambda>_. None) s"
proof (unfold prefix_monotone_def, intro allI impI)
  fix i j assume "i \<le> j" "j \<le> length s"
  then have "length (take i s) \<le> length (take j s)" by simp
  moreover have "take j s = [] \<Longrightarrow> take i s = []" using \<open>i \<le> j\<close> by auto
  ultimately show "count_text (\<lambda>_. None) (take i s) \<le> count_text (\<lambda>_. None) (take j s)"
    by (auto simp: count_text_def intro!: div_le_mono)
qed

lemma truncation_longest:
  assumes "prefix_monotone encode s"
  shows "truncate_text encode role budget s = take (longest_fitting encode role budget s) s"
proof -
  let ?fits = "\<lambda>n. text_fits encode role budget (take n s)"
  let ?S = "{n. n \<le> length s \<and> (n = 0 \<or> ?fits n)}"
  have mono: "i \<le> j \<Longrightarrow> j \<le> length s \<Longrightarrow> ?fits j \<Longrightarrow> ?fits i" for i j
    using assms unfolding text_fits_iff prefix_monotone_def by (meson add_le_mono order_refl order_trans)
  define n where "n = search_prefix ?fits 0 (int (length s)) 0"
  have n: "n \<le> length s" "\<And>m. m \<le> length s \<Longrightarrow> ?fits m \<Longrightarrow> m \<le> n"
    using search_greatest [of 0 "int (length s)" "length s" 0 ?fits] mono unfolding n_def by auto
  have fits: "n = 0 \<or> ?fits n" unfolding n_def by (rule search_fits) simp
  have fin: "finite ?S" by simp
  show ?thesis
  proof (cases "text_fits encode role budget s")
    case True
    then have "Max ?S = length s" using fin by (intro Max_eqI) auto
    with True show ?thesis by (simp add: truncate_text_eq longest_fitting_def)
  next
    case False
    have "Max ?S = n" using fin n fits by (intro Max_eqI) auto
    with False show ?thesis by (simp add: truncate_text_eq longest_fitting_def n_def)
  qed
qed

text \<open>Without any assumption about the tokenizer: the length after the one returned does not fit.\<close>

lemma search_maximal:
  assumes "0 \<le> lo" "lo \<le> hi + 1" "hi \<le> int n" "int best = max 0 (lo - 1)"
    and "hi = int n \<or> \<not> fits (nat (hi + 1))" and "\<not> fits 0 \<Longrightarrow> \<not> fits 1"
  shows "search_prefix fits lo hi best \<le> n \<and> (search_prefix fits lo hi best = n \<or> \<not> fits (Suc (search_prefix fits lo hi best)))"
  using assms
proof (induction fits lo hi best rule: search_prefix.induct)
  case (1 fits lo hi best)
  let ?mid = "(lo + hi) div 2"
  show ?case
  proof (cases "lo \<le> hi")
    case False
    then have hi: "hi = lo - 1" using "1.prems"(2) by simp
    have "best = n \<or> \<not> fits (Suc best)"
    proof (cases "lo = 0")
      case True
      with hi "1.prems"(3,5) have "\<not> fits 0" by auto
      then have "\<not> fits 1" by (rule "1.prems"(6))
      with True "1.prems"(4) show ?thesis by simp
    next
      case False
      then have "int best = hi" using hi "1.prems"(1,4) by simp
      then have "nat (hi + 1) = Suc best" "hi = int n \<longrightarrow> best = n" by auto
      with "1.prems"(5) show ?thesis by auto
    qed
    moreover have "best \<le> n" using hi "1.prems"(1,3,4) by (auto simp: max_def split: if_splits)
    ultimately show ?thesis using False by (subst (1 2 3) search_prefix.simps) simp
  next
    case True
    then have mid: "lo \<le> ?mid" "?mid \<le> hi" by simp_all
    show ?thesis
    proof (cases "fits (nat ?mid)")
      case fit: True
      have "int (nat ?mid) = max 0 (?mid + 1 - 1)" by simp
      with "1.IH"(1) [OF True refl fit] "1.prems"(1,3,5,6) mid fit True show ?thesis
        by (subst (1 2 3) search_prefix.simps) (simp add: Let_def)
    next
      case False
      have lo: "lo \<le> ?mid - 1 + 1" "?mid - 1 \<le> int n" "?mid - 1 = int n \<or> \<not> fits (nat (?mid - 1 + 1))"
        using mid "1.prems"(3) False by simp_all
      from "1.IH"(2) [OF True refl False "1.prems"(1) lo(1,2) "1.prems"(4) lo(3) "1.prems"(6)] False True show ?thesis
        by (subst (1 2 3) search_prefix.simps) (simp add: Let_def)
    qed
  qed
qed

text \<open>C30. Truncation never cuts too much: whatever the tokenizer, what is left is a prefix of the text; the message
  fits its budget with it, or nothing is left; and it is the whole text, or the prefix with one more
  character no longer fits. A text that fits is left alone. (With a tokenizer under which a longer prefix can
  count less, a still longer prefix may fit; under the length heuristic, where it cannot, the result is the
  longest prefix that fits.)\<close>

theorem truncation_is_maximal:
  "(\<exists>n\<le>length s. truncate_text encode role budget s = take n s \<and> (n = 0 \<or> text_fits encode role budget (take n s)) \<and>
      (n = length s \<or> \<not> text_fits encode role budget (take (Suc n) s)) \<and> (text_fits encode role budget s \<longrightarrow> n = length s)) \<and>
   truncate_text (\<lambda>_. None) role budget s = take (longest_fitting (\<lambda>_. None) role budget s) s"
proof
  let ?fits = "\<lambda>n. text_fits encode role budget (take n s)"
  show "\<exists>n\<le>length s. truncate_text encode role budget s = take n s \<and> (n = 0 \<or> ?fits n) \<and>
      (n = length s \<or> \<not> ?fits (Suc n)) \<and> (text_fits encode role budget s \<longrightarrow> n = length s)"
  proof (cases "text_fits encode role budget s")
    case True
    then show ?thesis by (intro exI [of _ "length s"]) (simp add: truncate_text_eq)
  next
    case False
    have "\<not> ?fits 1" if "\<not> ?fits 0" using that by (simp add: text_fits_iff count_text_def)
    then have "search_prefix ?fits 0 (int (length s)) 0 \<le> length s \<and>
        (search_prefix ?fits 0 (int (length s)) 0 = length s \<or> \<not> ?fits (Suc (search_prefix ?fits 0 (int (length s)) 0)))"
      by (intro search_maximal) simp_all
    moreover have "search_prefix ?fits 0 (int (length s)) 0 = 0 \<or> ?fits (search_prefix ?fits 0 (int (length s)) 0)"
      by (rule search_fits) simp
    ultimately show ?thesis
      using False by (intro exI [of _ "search_prefix ?fits 0 (int (length s)) 0"]) (simp add: truncate_text_eq)
  qed
  show "truncate_text (\<lambda>_. None) role budget s = take (longest_fitting (\<lambda>_. None) role budget s) s"
    by (rule truncation_longest [OF heuristic_monotone])
qed

lemma sample_fitting: "longest_fitting (\<lambda>_. None) ''user'' 9 (replicate 40 CHR ''x'') = 8"
proof -
  have "text_fits (\<lambda>_. None) ''user'' 9 (take n (replicate 40 CHR ''x'')) \<longleftrightarrow> n \<le> 8" for n
    by (auto simp: text_fits_iff count_text_def)
  then have eq: "{n. n \<le> length (replicate 40 CHR ''x'') \<and> (n = 0 \<or> text_fits (\<lambda>_. None) ''user'' 9 (take n (replicate 40 CHR ''x'')))} = {..8}"
    by auto
  show ?thesis unfolding longest_fitting_def eq by (rule Max_eqI) auto
qed

theorem truncation_is_maximal_witness:
  "truncate_text (\<lambda>_. None) ''user'' 9 (replicate 40 CHR ''x'') = replicate 8 CHR ''x''"
  using truncation_is_maximal [of "replicate 40 CHR ''x''" "\<lambda>_. None" "''user''" 9, THEN conjunct2] unfolding sample_fitting by simp

section \<open>The selected messages\<close>

definition is_text :: "chat_message \<Rightarrow> bool" where
  "is_text m \<longleftrightarrow> (\<exists>s. cm_content m = TextContent s)"

lemma truncate_message_text:
  assumes "is_text m"
  obtains n s where "cm_content m = TextContent s" "truncate_message encode budget m = m\<lparr>cm_content := TextContent (take n s)\<rparr>"
    "take n s = truncate_text encode (cm_role m) budget s"
proof -
  obtain s where s: "cm_content m = TextContent s" using assms by (auto simp: is_text_def)
  show ?thesis
  proof (cases "count_message encode m \<le> budget")
    case True
    have "text_fits encode (cm_role m) budget s"
      using True s by (simp add: text_fits_def count_message_def)
    show ?thesis
      by (rule that [of s "length s"]) (use True s \<open>text_fits encode (cm_role m) budget s\<close> in \<open>simp_all add: truncate_message_def truncate_text_eq\<close>)
  next
    case False
    obtain n where n: "truncate_text encode (cm_role m) budget s = take n s" using truncate_text_prefix by blast
    show ?thesis by (rule that [of s n]) (use False s n in \<open>simp_all add: truncate_message_def\<close>)
  qed
qed

lemma truncate_message_fits:
  assumes "is_text m" and "6 + count_text encode (cm_role m) \<le> budget \<or> content_text (cm_content (truncate_message encode budget m)) \<noteq> []"
  shows "count_message encode (truncate_message encode budget m) \<le> budget"
proof -
  obtain n s where m: "cm_content m = TextContent s" "truncate_message encode budget m = m\<lparr>cm_content := TextContent (take n s)\<rparr>"
    "take n s = truncate_text encode (cm_role m) budget s" using truncate_message_text [OF assms(1)] by metis
  have "count_message encode (truncate_message encode budget m) = 6 + count_text encode (cm_role m) + count_text encode (take n s)"
    by (simp add: m(2) count_message_def count_content_def content_text_def)
  moreover have "count_text encode [] = 0" by (simp add: count_text_def)
  ultimately show ?thesis
    using assms(2) truncate_text_fits [of encode "cm_role m" budget s]
    by (auto simp: m(2) m(3) [symmetric] text_fits_iff content_text_def)
qed

lemma count_messages_simps [simp]:
  "count_messages encode [] = 0" "count_messages encode (m # ms) = count_message encode m + count_messages encode ms"
  "count_messages encode (xs @ ys) = count_messages encode xs + count_messages encode ys"
  "count_messages encode (rev xs) = count_messages encode xs"
  by (simp_all add: count_messages_def sum_list_rev rev_map [symmetric])

text \<open>The kept system messages are a beginning of the system messages, or the shortened first one.\<close>

lemma keep_system_append:
  assumes "keep_system encode budget kept used ms = (out, u)" and "kept \<noteq> []"
    and "count_messages encode kept = used" and "used \<le> budget"
  shows "(\<exists>k. out = kept @ take k ms) \<and> u = count_messages encode out \<and> u \<le> budget"
  using assms
proof (induction encode budget kept used ms rule: keep_system.induct)
  case (2 encode budget kept used m ms)
  show ?case
  proof (cases "used + count_message encode m \<le> budget")
    case True
    then obtain k where "out = (kept @ [m]) @ take k ms" "u = count_messages encode out" "u \<le> budget"
      using "2.IH"(1) "2.prems" by auto
    then show ?thesis by (intro conjI exI [of _ "Suc k"]) auto
  next
    case False
    with "2.prems" show ?thesis by (auto intro: exI [of _ 0])
  qed
qed auto

lemma keep_system_cases:
  assumes "keep_system encode budget [] 0 ms = (out, u)" and "list_all is_text ms"
  shows "u = count_messages encode out \<and> u \<le> budget \<and> ((\<exists>k. out = take k ms) \<or> (\<exists>m ms'. ms = m # ms' \<and> out = [truncate_message encode budget m]))"
proof (cases ms)
  case Nil
  with assms show ?thesis by simp
next
  case (Cons m ms')
  then have texts: "is_text m" using assms(2) by simp
  show ?thesis
  proof (cases "count_message encode m \<le> budget")
    case True
    then obtain k where "out = [m] @ take k ms'" "u = count_messages encode out" "u \<le> budget"
      using keep_system_append [of encode budget "[m]" "count_message encode m" ms' out u] assms(1) Cons by auto
    then show ?thesis using Cons by (intro conjI disjI1 exI [of _ "Suc k"]) auto
  next
    case False
    show ?thesis
    proof (cases "budget > 0 \<and> py_strip (content_text (cm_content (truncate_message encode budget m))) \<noteq> []")
      case True
      then have "count_message encode (truncate_message encode budget m) \<le> budget"
        using truncate_message_fits [OF texts, of encode budget] py_strip_Nil by metis
      with True False Cons assms(1) show ?thesis by (auto simp: Let_def)
    next
      case keep: False
      with False Cons assms(1) have "out = [] \<and> u = 0" by (auto simp: Let_def split: if_splits)
      then show ?thesis by (auto intro: exI [of _ 0])
    qed
  qed
qed

lemma take_older_spec:
  "\<exists>k. take_older encode remaining ms = take k ms \<and> count_messages encode (take k ms) \<le> remaining \<and>
     (k < length ms \<longrightarrow> remaining < count_messages encode (take (Suc k) ms))"
proof (induction encode remaining ms rule: take_older.induct)
  case (2 encode remaining m ms)
  show ?case
  proof (cases "count_message encode m > remaining")
    case True
    then show ?thesis by (intro exI [of _ 0]) simp
  next
    case False
    then obtain k where "take_older encode (remaining - count_message encode m) ms = take k ms"
        "count_messages encode (take k ms) \<le> remaining - count_message encode m"
        "k < length ms \<longrightarrow> remaining - count_message encode m < count_messages encode (take (Suc k) ms)"
      using "2.IH" by auto
    with False show ?thesis by (intro exI [of _ "Suc k"]) auto
  qed
qed simp

lemma latest_user_cases:
  assumes "latest_user dialog = (user, older)"
  shows "(user = None \<and> older = dialog \<and> (\<forall>m\<in>set dialog. cm_role m \<noteq> ''user'')) \<or>
    (\<exists>u later. user = Some u \<and> cm_role u = ''user'' \<and> dialog = older @ u # later \<and> (\<forall>m\<in>set later. cm_role m \<noteq> ''user''))"
proof (cases "dropWhile (\<lambda>m. cm_role m \<noteq> ''user'') (rev dialog)")
  case Nil
  with assms show ?thesis by (auto simp: latest_user_def dropWhile_eq_Nil_conv)
next
  case (Cons u earlier)
  let ?P = "\<lambda>m. cm_role m \<noteq> ''user''"
  define later where "later = rev (takeWhile ?P (rev dialog))"
  have "rev (rev dialog) = rev (rev later @ u # earlier)"
    unfolding later_def Cons [symmetric] by (simp only: rev_rev_ident takeWhile_dropWhile_id)
  then have "dialog = rev earlier @ u # later" by simp
  moreover have "\<not> ?P u" using Cons using hd_dropWhile [of ?P "rev dialog"] by simp
  moreover have "\<forall>m\<in>set later. ?P m" unfolding later_def by (auto dest: set_takeWhileD)
  moreover have "user = Some u" "older = rev earlier" using Cons assms by (simp_all add: latest_user_def)
  ultimately show ?thesis by blast
qed

text \<open>The messages the window may shorten have a text.\<close>

definition textual :: "chat_message list \<Rightarrow> bool" where
  "textual ms \<longleftrightarrow> (\<forall>m\<in>set ms. cm_role m \<in> {''system'', ''user''} \<longrightarrow> is_text m)"

text \<open>A beginning of the system messages, or the first one alone and shortened.\<close>

definition beginning_of :: "chat_message list \<Rightarrow> chat_message list \<Rightarrow> bool" where
  "beginning_of kept system \<longleftrightarrow> prefix kept system \<or> (\<exists>m rest n s. system = m # rest \<and> cm_content m = TextContent s \<and>
     kept = [m\<lparr>cm_content := TextContent (take n s)\<rparr>])"

lemma keep_system_beginning:
  assumes "keep_system encode budget [] 0 ms = (out, u)" and "list_all is_text ms"
  shows "beginning_of out ms"
proof -
  have "prefix out ms \<or> (\<exists>m ms'. ms = m # ms' \<and> out = [truncate_message encode budget m])"
    using keep_system_cases [OF assms] take_is_prefix by blast
  moreover have "is_text m \<Longrightarrow> \<exists>n s. cm_content m = TextContent s \<and> truncate_message encode budget m = m\<lparr>cm_content := TextContent (take n s)\<rparr>" for m
    by (erule truncate_message_text [of m encode budget]) blast
  ultimately show ?thesis using assms(2) unfolding beginning_of_def by fastforce
qed

lemma user_turn:
  assumes "is_text u" and "cm_role u = ''user''" and "count_text encode ''user'' \<le> 122"
    and "256 \<le> budget" and "min_system \<le> budget div 2"
    and "used \<le> budget - min (count_message encode u) (budget - min_system)"
    and "turn = (if count_message encode u > budget - used then truncate_message encode (max 1 (budget - used)) u else u)"
  shows "count_message encode turn \<le> budget - used \<and> (count_message encode u \<le> budget div 2 \<longrightarrow> turn = u) \<and>
    (\<exists>n s. cm_content u = TextContent s \<and> turn = u\<lparr>cm_content := TextContent (take n s)\<rparr>)"
proof -
  obtain n s where trunc: "cm_content u = TextContent s"
      "truncate_message encode (max 1 (budget - used)) u = u\<lparr>cm_content := TextContent (take n s)\<rparr>"
    using truncate_message_text [OF assms(1)] by metis
  have whole: "u = u\<lparr>cm_content := TextContent (take (length s) s)\<rparr>" using trunc(1) by simp
  show ?thesis
  proof (cases "count_message encode u > budget - used")
    case True
    have "\<not> count_message encode u \<le> budget - min_system" using True assms(6) by (auto simp: min_def split: if_splits)
    then have "128 \<le> budget - used" "\<not> count_message encode u \<le> budget div 2"
      using assms(4,5,6) by (auto simp: min_def)
    moreover from this(1) have "6 + count_text encode (cm_role u) \<le> budget - used" using assms(2,3) by simp
    then have "count_message encode (truncate_message encode (budget - used) u) \<le> budget - used"
      using truncate_message_fits [OF assms(1)] by blast
    ultimately show ?thesis using True trunc assms(7) by (auto simp: max_def split: if_splits)
  next
    case False
    then have "turn = u" using assms(7) by simp
    then show ?thesis using whole trunc(1) False by fastforce
  qed
qed

lemma select_messages_spec:
  assumes "textual ms" and "count_text encode ''user'' \<le> 122" and "256 \<le> budget"
    and "system = filter (\<lambda>m. cm_role m = ''system'') ms"
    and "latest_user (filter (\<lambda>m. cm_role m \<noteq> ''system'') ms) = (user, earlier)"
  obtains kept older turn where "select_messages encode budget ms = kept @ older @ turn"
    and "count_messages encode (kept @ older @ turn) \<le> budget"
    and "beginning_of kept system" and "suffix older earlier"
    and "older \<noteq> earlier \<Longrightarrow> budget < count_messages encode (kept @ older @ turn) + count_message encode (earlier ! (length earlier - length older - 1))"
    and "case user of None \<Rightarrow> turn = [] | Some u \<Rightarrow> \<exists>n s. cm_content u = TextContent s \<and> turn = [u\<lparr>cm_content := TextContent (take n s)\<rparr>] \<and>
      (count_message encode u \<le> budget div 2 \<longrightarrow> turn = [u])"
proof -
  define min_system where "min_system = (if system = [] then 0 else min 256 (budget div 2))"
  define reserved where "reserved = (case user of None \<Rightarrow> 0 | Some u \<Rightarrow> min (count_message encode u) (budget - min_system))"
  obtain kept used where keep: "keep_system encode (budget - reserved) [] 0 system = (kept, used)" by fastforce
  define turn where "turn = (case user of None \<Rightarrow> [] | Some u \<Rightarrow>
    [if count_message encode u > budget - used then truncate_message encode (max 1 (budget - used)) u else u])"
  define rest where "rest = budget - used - count_messages encode turn"
  have texts: "list_all is_text system" using assms(1) unfolding assms(4) textual_def list_all_iff by auto
  have kept: "used = count_messages encode kept" "used \<le> budget - reserved" "beginning_of kept system"
    using keep_system_cases [OF keep texts] keep_system_beginning [OF keep texts] by blast+
  obtain k where k: "take_older encode rest (rev earlier) = take k (rev earlier)" "count_messages encode (take k (rev earlier)) \<le> rest"
      "k < length earlier \<longrightarrow> rest < count_messages encode (take (Suc k) (rev earlier))"
    using take_older_spec [of encode rest "rev earlier"] by auto
  define older where "older = rev (take k (rev earlier))"
  have sel: "select_messages encode budget ms = kept @ older @ turn"
    using keep k(1) unfolding select_messages_def assms(4) [symmetric] assms(5) Let_def min_system_def [symmetric]
    by (simp add: reserved_def [symmetric] turn_def [symmetric] rest_def [symmetric] older_def del: diff_diff_left)
  have turn: "count_messages encode turn \<le> budget - used \<and> (case user of None \<Rightarrow> turn = [] | Some u \<Rightarrow>
      \<exists>n s. cm_content u = TextContent s \<and> turn = [u\<lparr>cm_content := TextContent (take n s)\<rparr>] \<and>
        (count_message encode u \<le> budget div 2 \<longrightarrow> turn = [u]))"
  proof (cases user)
    case (Some u)
    then have "u \<in> set ms" "cm_role u = ''user''" using latest_user_cases [OF assms(5)] by (auto dest!: arg_cong [of _ _ set])
    then have "is_text u" using assms(1) by (auto simp: textual_def)
    have "min_system \<le> budget div 2" by (simp add: min_system_def)
    from user_turn [OF \<open>is_text u\<close> \<open>cm_role u = ''user''\<close> assms(2,3) this, of used "hd turn"] Some kept(2) show ?thesis
      by (auto simp: turn_def reserved_def)
  qed (simp add: turn_def)
  have sum: "count_messages encode older \<le> rest" using k(2) by (simp add: older_def)
  have suf: "suffix older earlier" unfolding older_def suffix_to_prefix by (simp add: take_is_prefix)
  have next_one: "budget < count_messages encode (kept @ older @ turn) + count_message encode (earlier ! (length earlier - length older - 1))"
    if "older \<noteq> earlier"
  proof -
    have "k < length earlier" using that by (cases "k < length earlier") (simp_all add: older_def)
    moreover from this have "take (Suc k) (rev earlier) = take k (rev earlier) @ [earlier ! (length earlier - length older - 1)]"
      by (simp add: take_Suc_conv_app_nth rev_nth older_def)
    moreover have "count_messages encode (take k (rev earlier)) = count_messages encode older" by (simp add: older_def)
    ultimately show ?thesis using k(3) sum turn kept(1,2) by (simp add: rest_def)
  qed
  have "used \<le> budget" using kept(2) by simp
  then have "count_messages encode (kept @ older @ turn) \<le> budget" using sum conjunct1 [OF turn] kept(1) by (simp add: rest_def)
  from that [OF sel this kept(3) suf next_one] turn show ?thesis by blast
qed

section \<open>Properties of the window\<close>

lemma final_trim_fits: "count_messages encode ms \<le> budget \<Longrightarrow> final_trim encode budget ms = ms"
  by (simp add: final_trim_def)

text \<open>The selection of a textual conversation fits, so the last trimming leaves it as it is.\<close>

lemma window_selection:
  assumes "ms = normalize_messages str_of messages" and "textual ms" and "count_text encode ''user'' \<le> 122"
    and "apply_sliding_window encode str_of messages max_context reserved_output = (selected, stats)"
  shows "selected = select_messages encode (input_budget max_context reserved_output) ms"
    and "ts_input_tokens stats = count_messages encode selected"
    and "ts_budget_tokens stats = input_budget max_context reserved_output"
    and "count_messages encode selected \<le> input_budget max_context reserved_output"
proof -
  let ?b = "input_budget max_context reserved_output"
  have "256 \<le> ?b" by (simp add: input_budget_def)
  obtain user earlier where "latest_user (filter (\<lambda>m. cm_role m \<noteq> ''system'') ms) = (user, earlier)" by fastforce
  from select_messages_spec [OF assms(2,3) \<open>256 \<le> ?b\<close> refl this]
  have fits: "count_messages encode (select_messages encode ?b ms) \<le> ?b" by metis
  show selected: "selected = select_messages encode ?b ms"
    using assms(4) fits by (auto simp: apply_sliding_window_def assms(1) Let_def final_trim_fits)
  show "ts_input_tokens stats = count_messages encode selected" "ts_budget_tokens stats = ?b"
    using assms(4) by (auto simp: apply_sliding_window_def Let_def)
  show "count_messages encode selected \<le> ?b" using fits selected by simp
qed

text \<open>C29. The window fits: if the system messages and the messages of the user are texts, and the tokenizer
  counts the role of the user in at most 122 tokens, then the selected messages, counted with the same
  tokenizer, stay within the budget left after the reserve for the output, or within 256 tokens if
  less is left; the statistics report exactly this count and this budget.\<close>

theorem window_fits_budget:
  assumes "textual (normalize_messages str_of messages)" and "count_text encode ''user'' \<le> 122"
    and "apply_sliding_window encode str_of messages max_context reserved_output = (selected, stats)"
  shows "count_messages encode selected \<le> ts_budget_tokens stats \<and> ts_input_tokens stats = count_messages encode selected \<and>
    int (ts_budget_tokens stats) = max 256 (max_context - reserved_output)"
  using window_selection [OF refl assms] by (simp add: input_budget_def)

definition long_paste :: "dict list" where
  "long_paste = [[(''role'', JStr ''system''), (''content'', JStr ''be kind'')],
     [(''role'', JStr ''user''), (''content'', JStr (replicate 4000 CHR ''x''))]]"

lemma long_paste_messages:
  "normalize_messages str_of long_paste =
     [\<lparr>cm_role = ''system'', cm_content = TextContent ''be kind''\<rparr>,
      \<lparr>cm_role = ''user'', cm_content = TextContent (replicate 4000 CHR ''x'')\<rparr>]"
  by (simp add: normalize_messages_def normalize_message_def long_paste_def get_default_def normalize_content_def)

lemma long_paste_textual: "textual (normalize_messages str_of long_paste)"
  by (simp add: long_paste_messages textual_def is_text_def)

theorem window_fits_budget_witness:
  "\<exists>selected stats. apply_sliding_window (\<lambda>_. None) (\<lambda>v. []) long_paste 1000 200 = (selected, stats) \<and>
     count_messages (\<lambda>_. None) selected \<le> 800 \<and> ts_budget_tokens stats = 800"
proof -
  obtain selected stats where run: "apply_sliding_window (\<lambda>_. None) (\<lambda>v. []) long_paste 1000 200 = (selected, stats)" by fastforce
  have "count_text (\<lambda>_. None) ''user'' \<le> 122" by (simp add: count_text_def)
  from window_fits_budget [OF long_paste_textual this run] run show ?thesis by simp
qed

text \<open>The latest turn of the user is the request: in such a window the selected messages are a beginning of
  the system messages, then the dialogue that immediately precedes the latest turn of the user, as
  much of it as fits, in its order, and last this turn, at worst shortened; a turn that counts at most
  half of the budget is not shortened.\<close>

theorem latest_turn_is_kept:
  assumes "ms = normalize_messages str_of messages" and "textual ms" and "count_text encode ''user'' \<le> 122"
    and "apply_sliding_window encode str_of messages max_context reserved_output = (selected, stats)"
    and "filter (\<lambda>m. cm_role m \<noteq> ''system'') ms = earlier @ u # later" and "cm_role u = ''user''" and "\<forall>m\<in>set later. cm_role m \<noteq> ''user''"
  shows "\<exists>kept older turn n s. selected = kept @ older @ [turn] \<and>
    beginning_of kept (filter (\<lambda>m. cm_role m = ''system'') ms) \<and> suffix older earlier \<and>
    (older \<noteq> earlier \<longrightarrow> ts_budget_tokens stats < count_messages encode selected +
       count_message encode (earlier ! (length earlier - length older - 1))) \<and>
    cm_content u = TextContent s \<and> turn = u\<lparr>cm_content := TextContent (take n s)\<rparr> \<and>
    (count_message encode u \<le> ts_budget_tokens stats div 2 \<longrightarrow> turn = u)"
proof -
  let ?b = "input_budget max_context reserved_output"
  have "256 \<le> ?b" by (simp add: input_budget_def)
  have "dropWhile (\<lambda>m. cm_role m \<noteq> ''user'') (rev (earlier @ u # later)) = u # rev earlier"
    using assms(6,7) by (simp add: dropWhile_append)
  then have "latest_user (filter (\<lambda>m. cm_role m \<noteq> ''system'') ms) = (Some u, earlier)"
    unfolding assms(5) latest_user_def by simp
  then show ?thesis
  proof (rule select_messages_spec [OF assms(2,3) \<open>256 \<le> ?b\<close> refl])
    fix kept older turn
    assume sel: "select_messages encode ?b ms = kept @ older @ turn"
      and kept: "beginning_of kept (filter (\<lambda>m. cm_role m = ''system'') ms)" and older: "suffix older earlier"
      and full: "older \<noteq> earlier \<Longrightarrow> ?b < count_messages encode (kept @ older @ turn) +
        count_message encode (earlier ! (length earlier - length older - 1))"
      and user: "case Some u of None \<Rightarrow> turn = [] | Some u \<Rightarrow> \<exists>n s. cm_content u = TextContent s \<and>
        turn = [u\<lparr>cm_content := TextContent (take n s)\<rparr>] \<and> (count_message encode u \<le> ?b div 2 \<longrightarrow> turn = [u])"
    from user obtain n s where turn: "cm_content u = TextContent s" "turn = [u\<lparr>cm_content := TextContent (take n s)\<rparr>]"
        "count_message encode u \<le> ?b div 2 \<Longrightarrow> turn = [u]" by auto
    define t where "t = u\<lparr>cm_content := TextContent (take n s)\<rparr>"
    have t: "turn = [t]" by (simp add: turn(2) t_def)
    note window = window_selection [OF assms(1-4)]
    have selected: "selected = kept @ older @ [t]" using window(1) sel t by simp
    have "older \<noteq> earlier \<longrightarrow> ts_budget_tokens stats < count_messages encode selected +
        count_message encode (earlier ! (length earlier - length older - 1))"
      using full window(3) unfolding selected t by simp
    moreover have "count_message encode u \<le> ts_budget_tokens stats div 2 \<longrightarrow> t = u"
      using turn(3) window(3) unfolding t by simp
    ultimately show ?thesis using selected kept older turn(1) t_def by blast
  qed
qed

theorem latest_turn_is_kept_witness:
  "\<exists>kept older turn. fst (apply_sliding_window (\<lambda>_. None) (\<lambda>v. []) long_paste 1000 200) = kept @ older @ [turn] \<and> cm_role turn = ''user''"
proof -
  obtain selected stats where run: "apply_sliding_window (\<lambda>_. None) (\<lambda>v. []) long_paste 1000 200 = (selected, stats)" by fastforce
  have "count_text (\<lambda>_. None) ''user'' \<le> 122" by (simp add: count_text_def)
  from latest_turn_is_kept [OF refl long_paste_textual this run, of "[]" _ "[]"] run show ?thesis
    by (fastforce simp: long_paste_messages)
qed

lemma visible_start:
  assumes "x \<noteq> []" and "\<not> py_isspace (hd x)"
  shows "py_strip x \<noteq> []"
proof -
  have "dropWhile py_isspace x = x" using assms by (cases x) simp_all
  moreover have "dropWhile py_isspace (rev x) \<noteq> []" using assms by (auto simp: dropWhile_eq_Nil_conv)
  ultimately show ?thesis by (simp add: py_strip_def)
qed

lemma keep_first:
  assumes "cm_content m = TextContent s" and "s \<noteq> []" and "\<not> py_isspace (hd s)" and "prefix_monotone encode s"
    and "6 + count_text encode (cm_role m) + count_text encode (take 1 s) \<le> budget"
  shows "\<exists>n more u. n > 0 \<and> keep_system encode budget [] 0 (m # ms) = (m\<lparr>cm_content := TextContent (take n s)\<rparr> # more, u)"
proof (cases "count_message encode m \<le> budget")
  case True
  obtain out u where keep: "keep_system encode budget [m] (count_message encode m) ms = (out, u)" by fastforce
  then obtain k where "out = [m] @ take k ms" using keep_system_append [OF keep] True by auto
  with True keep assms(1,2) show ?thesis
    by (intro exI [of _ "length s"] exI [of _ "take k ms"] exI [of _ u]) simp
next
  case False
  define n where "n = longest_fitting encode (cm_role m) budget s"
  have trunc: "truncate_message encode budget m = m\<lparr>cm_content := TextContent (take n s)\<rparr>"
    using False assms(1) truncation_longest [OF assms(4)] by (simp add: truncate_message_def n_def)
  have "1 \<le> n"
    unfolding n_def longest_fitting_def using assms(2,5) by (intro Max_ge) (auto simp: text_fits_iff Suc_le_eq)
  then have "take n s \<noteq> []" "\<not> py_isspace (hd (take n s))" using assms(2,3) by (auto simp: hd_take)
  then have "py_strip (content_text (cm_content (truncate_message encode budget m))) \<noteq> []"
    using visible_start by (simp add: trunc content_text_def)
  moreover have "budget > 0" using assms(5) by simp
  ultimately show ?thesis
    using False \<open>1 \<le> n\<close>
    by (intro exI [of _ n] exI [of _ "[]"] exI [of _ "count_message encode (truncate_message encode budget m)"])
       (simp add: trunc Let_def)
qed

lemma select_begins:
  assumes "latest_user (filter (\<lambda>m. cm_role m \<noteq> ''system'') ms) = (user, earlier)"
    and "filter (\<lambda>m. cm_role m = ''system'') ms = system" and "system \<noteq> []"
    and "reserved = (case user of None \<Rightarrow> 0 | Some u \<Rightarrow> min (count_message encode u) (budget - min 256 (budget div 2)))"
    and "keep_system encode (budget - reserved) [] 0 system = (kept, used)"
  shows "\<exists>tail. select_messages encode budget ms = kept @ tail"
  using assms(3,5) unfolding select_messages_def assms(1,2) Let_def
  by (simp add: assms(4) [symmetric])

text \<open>A huge message of the user does not erase the core policy: if the first system message starts with a
  visible character, and the tokenizer counts longer texts never less and that beginning and the role
  of the message in at most 122 tokens, the window begins with this message, at worst shortened to a
  non-empty beginning of its text.\<close>

theorem core_policy_survives:
  assumes "ms = normalize_messages str_of messages" and "textual ms" and "count_text encode ''user'' \<le> 122"
    and "apply_sliding_window encode str_of messages max_context reserved_output = (selected, stats)"
    and "filter (\<lambda>m. cm_role m = ''system'') ms = core # rest" and "cm_content core = TextContent s"
    and "s \<noteq> []" and "\<not> py_isspace (hd s)" and "prefix_monotone encode s"
    and "count_text encode ''system'' + count_text encode (take 1 s) \<le> 122"
  shows "\<exists>n more. n > 0 \<and> selected = core\<lparr>cm_content := TextContent (take n s)\<rparr> # more"
proof -
  let ?b = "input_budget max_context reserved_output"
  obtain user earlier where latest: "latest_user (filter (\<lambda>m. cm_role m \<noteq> ''system'') ms) = (user, earlier)" by fastforce
  define reserved where "reserved = (case user of None \<Rightarrow> 0 | Some u \<Rightarrow> min (count_message encode u) (?b - min 256 (?b div 2)))"
  have "256 \<le> ?b" by (simp add: input_budget_def)
  then have "reserved \<le> ?b - 128" by (auto simp: reserved_def min_def split: option.splits)
  moreover have "core \<in> set (filter (\<lambda>m. cm_role m = ''system'') ms)" using assms(5) by simp
  then have "cm_role core = ''system''" by simp
  ultimately have room: "6 + count_text encode (cm_role core) + count_text encode (take 1 s) \<le> ?b - reserved"
    using assms(10) \<open>256 \<le> ?b\<close> by simp
  obtain n more u where keep: "n > 0"
      "keep_system encode (?b - reserved) [] 0 (core # rest) = (core\<lparr>cm_content := TextContent (take n s)\<rparr> # more, u)"
    using keep_first [OF assms(6-9) room] by blast
  have "\<exists>tail. select_messages encode ?b ms = (core\<lparr>cm_content := TextContent (take n s)\<rparr> # more) @ tail"
    using select_begins [OF latest assms(5) _ reserved_def keep(2)] by simp
  with keep(1) window_selection(1) [OF assms(1-4)] show ?thesis by auto
qed

theorem core_policy_survives_witness:
  "\<exists>n more. n > 0 \<and> fst (apply_sliding_window (\<lambda>_. None) (\<lambda>v. []) long_paste 1000 200) =
     \<lparr>cm_role = ''system'', cm_content = TextContent (take n ''be kind'')\<rparr> # more"
proof -
  obtain selected stats where run: "apply_sliding_window (\<lambda>_. None) (\<lambda>v. []) long_paste 1000 200 = (selected, stats)" by fastforce
  have "count_text (\<lambda>_. None) ''user'' \<le> 122" "count_text (\<lambda>_. None) ''system'' + count_text (\<lambda>_. None) (take 1 ''be kind'') \<le> 122"
    by (simp_all add: count_text_def)
  from core_policy_survives [OF refl long_paste_textual this(1) run _ _ _ _ heuristic_monotone this(2)] run show ?thesis
    by (auto simp: long_paste_messages py_isspace_def)
qed

section \<open>Several text blocks\<close>

text \<open>Each text block of a message is shortened to the whole budget of its text, so two of them exceed it.\<close>

definition two_blocks :: chat_message where
  "two_blocks = (let b = [(''type'', JStr ''text''), (''text'', JStr (replicate 200 CHR ''x''))]
     in \<lparr>cm_role = ''user'', cm_content = BlockContent [b, b]\<rparr>)"

lemma text_blocks_overrun: "count_message (\<lambda>_. None) (truncate_message (\<lambda>_. None) 40 two_blocks) = 60"
  by code_simp

end
