(* ===== verification/Plan_Steps.thy ===== *)
theory Plan_Steps
  imports Python_Json
begin

text \<open>
  The plan documents of \<open>modules/agent/planner.py\<close>: strict JSON, predicates, conditions, the typed
  step variants with the legacy step, their dictionaries and the adapters of their constructors.
  Fields whose type the validator checks at run time are JSON values here.
\<close>

section \<open>Strict JSON\<close>

datatype plan_error =
    NotStrictJson
  | PredicateFields
  | PredicateNotObject
  | PredicateOperator
  | PredicateSource
  | PredicateValues
  | PredicateCombinator
  | PredicateChildren
  | PredicateLeafChildren
  | PredicateSourceRequired
  | PredicateValuesEmpty
  | PredicateUnknownStep
  | UnhashableOperator
  | ChildrenNotIterable
  | StepBudget
  | StepKind
  | StepVariant
  | StepId
  | StepDependsOn
  | ToolName
  | ToolArguments
  | RetryBudget
  | ToolTimeout
  | ToolNameRequired
  | TimeoutRequired
  | RetryOwnerRequired
  | RetryOwnerUnsupported
  | IdempotencyKeyRequired
  | SuccessCriteriaRequired
  | AnalysisInput
  | AnalysisOutput
  | AgentModel
  | AgentTokens
  | AgentCapabilities
  | ScheduleMode
  | SchedulePrompt
  | ScheduleRunAfter
  | ScheduleInterval
  | ScheduleTimezone
  | ScheduleCancellation
  | JoinPolicy
  | JoinChars
  | UnknownDependency
  | ConditionMode
  | ConditionEmpty
  | DependencyCycle
  | RetryTotal
  | TimeoutTotal
  | AnalysisInputTotal
  | AnalysisOutputTotal
  | AgentTokenTotal
  | AgentCapabilityTotal
  | ScheduleTotal
  | JoinTotal
  | LegacyInteger
  | LegacyTimeout
  | TypedPayload
  | LegacyPayloadFields
  | LegacyConversion

primrec finite_float :: "pyfloat \<Rightarrow> bool" where
  "finite_float (Fin r) = True"
| "finite_float PosInf = False"
| "finite_float NegInf = False"
| "finite_float NaN = False"

text \<open>
  \<open>_strict_json_value\<close>: the value unchanged, or an error for a number that is not finite. Characters
  here are code points below 256 and encode; keys are strings by type.
\<close>

fun strict_json :: "json \<Rightarrow> bool" where
  "strict_json (JFloat f) = finite_float f"
| "strict_json (JList xs) = (\<forall>x\<in>set xs. strict_json x)"
| "strict_json (JObj d) = (\<forall>e\<in>set d. strict_json (snd e))"
| "strict_json _ = True"

section \<open>Predicates and conditions\<close>

datatype pred_node = PredicateNode (pn_op: string) (pn_source: "string option") (pn_values: "string list")
  (pn_children: "pred_node list")

text \<open>
  A predicate as the validator meets it: a node, a plain object, the object \<open>to_predicate\<close> builds
  around predicates, or a value that is no object at all.
\<close>

datatype predicate = PNode pred_node | PDict dict | PCombine string "predicate list" | POther json

fun node_to_dict :: "pred_node \<Rightarrow> json" where
  "node_to_dict (PredicateNode op source vals children) = JObj
     ([(''op'', JStr op)] @
      (if text_or_empty source \<noteq> [] then [(''source_step_id'', json_text source)] else []) @
      (if vals \<noteq> [] then [(''values'', JList (map JStr vals))] else []) @
      (if children \<noteq> [] then [(''children'', JList (map node_to_dict children))] else []))"

fun node_asdict :: "pred_node \<Rightarrow> json" where
  "node_asdict (PredicateNode op source vals children) = JObj
     [(''op'', JStr op), (''source_step_id'', json_text source), (''values'', JList (map JStr vals)),
      (''children'', JList (map node_asdict children))]"

fun predicate_asdict :: "predicate \<Rightarrow> json" where
  "predicate_asdict (PNode n) = node_asdict n"
| "predicate_asdict (PDict d) = JObj d"
| "predicate_asdict (POther v) = v"
| "predicate_asdict (PCombine op children) =
     JObj [(''op'', JStr op), (''children'', JList (map predicate_asdict children))]"

definition predicate_to_dict :: "predicate \<Rightarrow> json" where
  "predicate_to_dict p = (case p of PNode n \<Rightarrow> node_to_dict n | _ \<Rightarrow> predicate_asdict p)"

datatype step_condition = StepCondition
  (sc_source_step_id: string) (sc_mode: string) (sc_status_in: "string list")
  (sc_status_not_in: "string list") (sc_content_contains: "string list")
  (sc_error_contains: "string list") (sc_all_of: "step_condition list")
  (sc_any_of: "step_condition list") (sc_none_of: "step_condition list")
  (sc_predicate: "predicate option")

fun condition_asdict :: "step_condition \<Rightarrow> json" where
  "condition_asdict (StepCondition src mode inn notin cc ec alls anys nones p) = JObj
     [(''source_step_id'', JStr src), (''mode'', JStr mode), (''status_in'', JList (map JStr inn)),
      (''status_not_in'', JList (map JStr notin)), (''content_contains'', JList (map JStr cc)),
      (''error_contains'', JList (map JStr ec)), (''all_of'', JList (map condition_asdict alls)),
      (''any_of'', JList (map condition_asdict anys)), (''none_of'', JList (map condition_asdict nones)),
      (''predicate'', case p of None \<Rightarrow> JNull | Some q \<Rightarrow> predicate_asdict q)]"

definition leaf_predicate :: "string \<Rightarrow> string \<Rightarrow> string list \<Rightarrow> predicate list" where
  "leaf_predicate src op vals =
     (if vals = [] then [] else [PNode (PredicateNode op (Some src) vals [])])"

fun to_predicate :: "step_condition \<Rightarrow> predicate option" where
  "to_predicate (StepCondition src mode inn notin cc ec alls anys nones p) =
     (case p of
        Some q \<Rightarrow> Some q
      | None \<Rightarrow>
          (let group = (\<lambda>op nested. if nested = [] then []
                 else [PCombine op (concat (map (\<lambda>x. case x of None \<Rightarrow> [] | Some q \<Rightarrow> [q]) nested))]);
               children = leaf_predicate src ''status_in'' inn @ leaf_predicate src ''status_not_in'' notin @
                 leaf_predicate src ''content_contains'' cc @ leaf_predicate src ''error_contains'' ec @
                 group ''all'' (map to_predicate alls) @ group ''any'' (map to_predicate anys) @
                 group ''none'' (map to_predicate nones)
           in case children of [] \<Rightarrow> None | [c] \<Rightarrow> Some c | _ \<Rightarrow> Some (PCombine ''all'' children)))"

section \<open>Steps\<close>

record tool_fields =
  tf_tool_name :: json
  tf_arguments :: json
  tf_timeout_seconds :: json
  tf_retry_budget :: json
  tf_idempotency_key :: json
  tf_retry_owner :: json

record schedule_fields =
  sf_schedule_mode :: json
  sf_prompt :: json
  sf_run_after_seconds :: json
  sf_interval_seconds :: json
  sf_timezone :: json
  sf_cancellation_key :: json

datatype step_fields =
    PlanStep tool_fields
  | AnalysisStep json json
  | AgentStep json json json
  | ToolStep tool_fields
  | ScheduleStep schedule_fields
  | JoinStep json json

record plan_step =
  st_id :: string
  st_title :: string
  st_kind :: string
  st_description :: string
  st_payload :: "dict option"
  st_depends_on :: "json list"
  st_condition :: "step_condition option"
  st_owner_agent_id :: "string option"
  st_owner_agent_role :: "string option"
  st_route_reason :: "string option"
  st_success_criteria :: "predicate option"
  st_plan_version :: int
  st_compatibility_trace :: "dict option"
  st_fields :: step_fields

definition json_dict :: "dict option \<Rightarrow> json" where
  "json_dict x = (case x of None \<Rightarrow> JNull | Some d \<Rightarrow> JObj d)"

definition base_dict :: "plan_step \<Rightarrow> dict" where
  "base_dict s =
     [(''id'', JStr (st_id s)), (''title'', JStr (st_title s)), (''kind'', JStr (st_kind s)),
      (''description'', JStr (st_description s)), (''payload'', json_dict (st_payload s)),
      (''depends_on'', JList (st_depends_on s)),
      (''condition'', case st_condition s of None \<Rightarrow> JNull | Some c \<Rightarrow> condition_asdict c),
      (''owner_agent_id'', json_text (st_owner_agent_id s)),
      (''owner_agent_role'', json_text (st_owner_agent_role s)),
      (''route_reason'', json_text (st_route_reason s)),
      (''success_criteria'', case st_success_criteria s of None \<Rightarrow> JNull | Some p \<Rightarrow> predicate_to_dict p),
      (''plan_version'', JInt (st_plan_version s)),
      (''compatibility_trace'', json_dict (st_compatibility_trace s))]"

definition tool_dict :: "tool_fields \<Rightarrow> dict" where
  "tool_dict f =
     [(''tool_name'', tf_tool_name f), (''arguments'', tf_arguments f),
      (''timeout_seconds'', tf_timeout_seconds f), (''retry_budget'', tf_retry_budget f),
      (''retry_owner'', tf_retry_owner f), (''idempotency_key'', tf_idempotency_key f)]"

definition fields_dict :: "step_fields \<Rightarrow> dict" where
  "fields_dict f =
     (case f of
        PlanStep t \<Rightarrow> tool_dict t
      | ToolStep t \<Rightarrow> tool_dict t
      | AnalysisStep i out \<Rightarrow> [(''max_input_chars'', i), (''max_output_chars'', out)]
      | AgentStep m t b \<Rightarrow> [(''model'', m), (''max_tokens'', t), (''capability_budget'', b)]
      | ScheduleStep s \<Rightarrow>
          [(''schedule_mode'', sf_schedule_mode s), (''prompt'', sf_prompt s),
           (''run_after_seconds'', sf_run_after_seconds s), (''interval_seconds'', sf_interval_seconds s),
           (''timezone'', sf_timezone s), (''cancellation_key'', sf_cancellation_key s)]
      | JoinStep p n \<Rightarrow> [(''merge_policy'', p), (''max_merged_chars'', n)])"

text \<open>The items of \<open>to_dict\<close>; the legacy step lists them in another order, which no reader relies on.\<close>

definition step_to_dict :: "plan_step \<Rightarrow> json" where
  "step_to_dict s = JObj (base_dict s @ fields_dict (st_fields s))"

section \<open>Constructor adapters\<close>

text \<open>\<open>re.fullmatch("[+-]?\\d+", s)\<close> and \<open>int(s)\<close> for such a text.\<close>

definition is_digit :: "char \<Rightarrow> bool" where
  "is_digit c \<longleftrightarrow> 48 \<le> (of_char c :: nat) \<and> (of_char c :: nat) \<le> 57"

definition digit_value :: "char \<Rightarrow> int" where
  "digit_value c = int (of_char c) - 48"

definition digits_value :: "string \<Rightarrow> int" where
  "digits_value s = fold (\<lambda>c n. 10 * n + digit_value c) s 0"

definition signed_digits :: "string \<Rightarrow> int option" where
  "signed_digits s =
     (let body = (case s of c # cs \<Rightarrow> if c = CHR ''+'' \<or> c = CHR ''-'' then cs else s | [] \<Rightarrow> [])
      in if body \<noteq> [] \<and> (\<forall>c\<in>set body. is_digit c)
         then Some (if hd s = CHR ''-'' then - digits_value body else digits_value body)
         else None)"

definition legacy_integer :: "json \<Rightarrow> plan_error + json" where
  "legacy_integer v =
     (case v of
        JInt n \<Rightarrow> Inr (JInt n)
      | JStr s \<Rightarrow> (case signed_digits (py_strip s) of Some n \<Rightarrow> Inr (JInt n) | None \<Rightarrow> Inl LegacyInteger)
      | _ \<Rightarrow> Inl LegacyInteger)"

text \<open>\<open>parse_float\<close> is Python's \<open>float(text)\<close>, \<open>None\<close> where it raises.\<close>

definition legacy_timeout :: "(string \<Rightarrow> pyfloat option) \<Rightarrow> json \<Rightarrow> plan_error + json" where
  "legacy_timeout parse_float v =
     (case v of
        JInt n \<Rightarrow> Inr (JInt n)
      | JFloat f \<Rightarrow> (if finite_float f then Inr (JFloat f) else Inl LegacyTimeout)
      | JStr s \<Rightarrow>
          (case signed_digits (py_strip s) of
             Some n \<Rightarrow> Inr (JInt n)
           | None \<Rightarrow> (case parse_float (py_strip s) of
                Some f \<Rightarrow> if finite_float f then Inr (JFloat f) else Inl LegacyTimeout
              | None \<Rightarrow> Inl LegacyTimeout))
      | _ \<Rightarrow> Inl LegacyTimeout)"

text \<open>\<open>_TypedStepBase.__post_init__\<close>, with the payload keys a variant accepts.\<close>

definition legacy_payload_keys :: "step_fields \<Rightarrow> string list" where
  "legacy_payload_keys f =
     (case f of
        ToolStep _ \<Rightarrow> [''prompt'', ''tool_name'', ''arguments'', ''timeout_seconds'', ''retry_budget'',
          ''retry_owner'', ''idempotency_key'', ''success_criteria'']
      | ScheduleStep _ \<Rightarrow> [''mode'', ''prompt'', ''run_after_seconds'', ''interval_seconds'', ''timezone'',
          ''cancellation_key'']
      | _ \<Rightarrow> [''prompt''])"

definition typed_trace :: dict where
  "typed_trace = [(''adapter'', JStr ''legacy_typed_payload''), (''from_version'', JInt 1),
     (''to_version'', JInt 2), (''preserved_payload'', JBool True)]"

definition typed_post_init :: "(json \<Rightarrow> string) \<Rightarrow> plan_step \<Rightarrow> plan_error + plan_step" where
  "typed_post_init str_of s =
     (case st_payload s of
        None \<Rightarrow> Inr s
      | Some p \<Rightarrow>
          if st_plan_version s \<noteq> 1 then Inl TypedPayload
          else if \<not> fst ` set p \<subseteq> set (legacy_payload_keys (st_fields s)) then Inl LegacyPayloadFields
          else Inr (s\<lparr>st_description := (if st_description s = [] \<and> truthy (dict_get p ''prompt'')
                        then str_of (dict_get p ''prompt'') else st_description s),
                      st_compatibility_trace := (case st_compatibility_trace s of
                        None \<Rightarrow> Some typed_trace | t \<Rightarrow> t)\<rparr>))"

definition default_criteria :: predicate where
  "default_criteria = PDict [(''op'', JStr ''status_in''), (''values'', JList [JStr ''ok'', JStr ''created''])]"

text \<open>\<open>v == n\<close> for a number \<open>n\<close>: booleans and floats compare as numbers.\<close>

definition equals_int :: "json \<Rightarrow> int \<Rightarrow> bool" where
  "equals_int v n = (case v of JInt m \<Rightarrow> m = n | JFloat f \<Rightarrow> f = Fin (of_int n)
     | JBool b \<Rightarrow> (if b then 1 else 0) = n | _ \<Rightarrow> False)"

definition adapt :: "bool \<Rightarrow> (json \<Rightarrow> plan_error + json) \<Rightarrow> json \<Rightarrow> json \<Rightarrow> plan_error + json" where
  "adapt use conv v old = (if use then conv v else Inr old)"

text \<open>A criteria value of the payload: an object, or any other value.\<close>

definition json_predicate :: "json \<Rightarrow> predicate" where
  "json_predicate v = (case v of JObj d \<Rightarrow> PDict d | _ \<Rightarrow> POther v)"

definition tool_legacy_fields ::
  "(json \<Rightarrow> string) \<Rightarrow> (string \<Rightarrow> pyfloat option) \<Rightarrow> dict \<Rightarrow> tool_fields \<Rightarrow> plan_error + tool_fields" where
  "tool_legacy_fields str_of parse_float p f =
     (case adapt (dict_get p ''timeout_seconds'' \<noteq> JNull \<and> equals_int (tf_timeout_seconds f) 30)
             (legacy_timeout parse_float) (dict_get p ''timeout_seconds'') (tf_timeout_seconds f) of
        Inl e \<Rightarrow> Inl e
      | Inr timeout \<Rightarrow>
          (case adapt (dict_get p ''retry_budget'' \<noteq> JNull \<and> equals_int (tf_retry_budget f) 0)
                  legacy_integer (dict_get p ''retry_budget'') (tf_retry_budget f) of
             Inl e \<Rightarrow> Inl e
           | Inr budget \<Rightarrow> Inr (f\<lparr>
               tf_tool_name := (if tf_tool_name f = JNull \<and> truthy (dict_get p ''tool_name'')
                 then JStr (str_of (dict_get p ''tool_name'')) else tf_tool_name f),
               tf_arguments := (case dict_get p ''arguments'' of
                 JObj a \<Rightarrow> if truthy (tf_arguments f) then tf_arguments f else JObj a | _ \<Rightarrow> tf_arguments f),
               tf_timeout_seconds := timeout, tf_retry_budget := budget,
               tf_retry_owner := (if truthy (dict_get p ''retry_owner'') \<and> tf_retry_owner f = JStr ''step_executor''
                 then JStr (str_of (dict_get p ''retry_owner'')) else tf_retry_owner f),
               tf_idempotency_key := (if tf_idempotency_key f = JNull \<and> dict_has p ''idempotency_key''
                 then dict_get p ''idempotency_key'' else tf_idempotency_key f)\<rparr>)))"

definition tool_post_init ::
  "(json \<Rightarrow> string) \<Rightarrow> (string \<Rightarrow> pyfloat option) \<Rightarrow> tool_fields \<Rightarrow> plan_step \<Rightarrow> plan_error + plan_step" where
  "tool_post_init str_of parse_float f s =
     (case typed_post_init str_of (s\<lparr>st_fields := ToolStep f\<rparr>) of
        Inl e \<Rightarrow> Inl e
      | Inr s \<Rightarrow>
          (let p = (case st_payload s of None \<Rightarrow> [] | Some d \<Rightarrow> d)
           in case (if st_plan_version s = 1 then tool_legacy_fields str_of parse_float p f else Inr f) of
                Inl e \<Rightarrow> Inl e
              | Inr f \<Rightarrow>
                  (let criteria = (if st_plan_version s = 1 \<and> st_success_criteria s = None \<and>
                          dict_get p ''success_criteria'' \<noteq> JNull
                        then Some (json_predicate (dict_get p ''success_criteria''))
                        else st_success_criteria s);
                       f = (if tf_idempotency_key f = JNull
                            then f\<lparr>tf_idempotency_key := JStr (''plan:'' @ st_id s)\<rparr> else f)
                   in Inr (s\<lparr>st_fields := ToolStep f,
                             st_success_criteria := (case criteria of None \<Rightarrow> Some default_criteria | c \<Rightarrow> c)\<rparr>))))"

text \<open>\<open>ScheduleStep.__post_init__\<close>; \<open>int_of\<close> is Python's \<open>int(...)\<close>, \<open>None\<close> where it raises.\<close>

definition text_field :: "(json \<Rightarrow> string) \<Rightarrow> json \<Rightarrow> json \<Rightarrow> json" where
  "text_field str_of v old = (if truthy v then JStr (str_of v) else old)"

definition int_field :: "(json \<Rightarrow> int option) \<Rightarrow> json \<Rightarrow> json \<Rightarrow> plan_error + json" where
  "int_field int_of v old =
     (if v = JNull then Inr old else case int_of v of Some n \<Rightarrow> Inr (JInt n) | None \<Rightarrow> Inl LegacyConversion)"

definition schedule_post_init ::
  "(json \<Rightarrow> string) \<Rightarrow> (json \<Rightarrow> int option) \<Rightarrow> schedule_fields \<Rightarrow> plan_step \<Rightarrow> plan_error + plan_step" where
  "schedule_post_init str_of int_of f s =
     (case typed_post_init str_of (s\<lparr>st_fields := ScheduleStep f\<rparr>) of
        Inl e \<Rightarrow> Inl e
      | Inr s \<Rightarrow>
          (let p = (case st_payload s of None \<Rightarrow> [] | Some d \<Rightarrow> d);
               legacy = (st_plan_version s = 1)
           in case (if legacy then int_field int_of (dict_get p ''run_after_seconds'') (sf_run_after_seconds f)
                    else Inr (sf_run_after_seconds f)) of
                Inl e \<Rightarrow> Inl e
              | Inr after \<Rightarrow>
                  (case (if legacy then int_field int_of (dict_get p ''interval_seconds'') (sf_interval_seconds f)
                         else Inr (sf_interval_seconds f)) of
                     Inl e \<Rightarrow> Inl e
                   | Inr interval \<Rightarrow>
                       (let key = (if legacy then text_field str_of (dict_get p ''cancellation_key'') (sf_cancellation_key f)
                                   else sf_cancellation_key f)
                        in Inr (s\<lparr>st_fields := ScheduleStep (f\<lparr>
                             sf_schedule_mode := (if legacy then text_field str_of (dict_get p ''mode'') (sf_schedule_mode f)
                               else sf_schedule_mode f),
                             sf_prompt := (if legacy \<and> \<not> truthy (sf_prompt f)
                               then text_field str_of (dict_get p ''prompt'') (sf_prompt f) else sf_prompt f),
                             sf_run_after_seconds := after, sf_interval_seconds := interval,
                             sf_timezone := (if legacy then text_field str_of (dict_get p ''timezone'') (sf_timezone f)
                               else sf_timezone f),
                             sf_cancellation_key := json_or key (JStr (''plan:'' @ st_id s))\<rparr>)\<rparr>)))))"

text \<open>\<open>PlanStep.__post_init__\<close>, the adapter of persisted legacy plans.\<close>

definition legacy_trace :: "string \<Rightarrow> dict" where
  "legacy_trace adapter = [(''adapter'', JStr adapter), (''from_version'', JInt 1),
     (''to_version'', JInt 2), (''preserved_payload'', JBool True)]"

definition plan_step_fields ::
  "(json \<Rightarrow> string) \<Rightarrow> (string \<Rightarrow> pyfloat option) \<Rightarrow> dict \<Rightarrow> tool_fields \<Rightarrow> plan_error + tool_fields" where
  "plan_step_fields str_of parse_float p f =
     (case adapt (tf_timeout_seconds f = JNull \<and> dict_get p ''timeout_seconds'' \<noteq> JNull)
             (legacy_timeout parse_float) (dict_get p ''timeout_seconds'') (tf_timeout_seconds f) of
        Inl e \<Rightarrow> Inl e
      | Inr timeout \<Rightarrow>
          (case adapt (equals_int (tf_retry_budget f) 0 \<and> dict_get p ''retry_budget'' \<noteq> JNull)
                  legacy_integer (dict_get p ''retry_budget'') (tf_retry_budget f) of
             Inl e \<Rightarrow> Inl e
           | Inr budget \<Rightarrow> Inr (f\<lparr>
               tf_tool_name := (if tf_tool_name f = JNull \<and> truthy (dict_get p ''tool_name'')
                 then JStr (str_of (dict_get p ''tool_name'')) else tf_tool_name f),
               tf_arguments := (case dict_get p ''arguments'' of
                 JObj a \<Rightarrow> if truthy (tf_arguments f) then tf_arguments f else JObj a | _ \<Rightarrow> tf_arguments f),
               tf_timeout_seconds := timeout, tf_retry_budget := budget,
               tf_idempotency_key := (if tf_idempotency_key f = JNull \<and> dict_has p ''idempotency_key''
                 then dict_get p ''idempotency_key'' else tf_idempotency_key f)\<rparr>)))"

definition plan_step_post_init ::
  "(json \<Rightarrow> string) \<Rightarrow> (string \<Rightarrow> pyfloat option) \<Rightarrow> tool_fields \<Rightarrow> plan_step \<Rightarrow> plan_error + plan_step" where
  "plan_step_post_init str_of parse_float f s =
     (let kind = (if st_kind s = ''action'' then ''agent'' else st_kind s);
          p = (case st_payload s of None \<Rightarrow> [] | Some d \<Rightarrow> d);
          legacy_prompt = truthy (dict_get p ''prompt'')
      in case plan_step_fields str_of parse_float p f of
           Inl e \<Rightarrow> Inl e
         | Inr f \<Rightarrow>
             (let criteria = (if st_success_criteria s = None \<and> dict_get p ''success_criteria'' \<noteq> JNull
                    then Some (json_predicate (dict_get p ''success_criteria'')) else st_success_criteria s);
                  untyped = (kind = ''tool'' \<and> tf_tool_name f = JNull);
                  version = (if kind = ''tool'' \<and> (legacy_prompt \<or> untyped) then 1 else st_plan_version s);
                  trace = (if legacy_prompt \<and> kind = ''tool'' then Some (legacy_trace ''legacy_prompt'')
                    else if untyped then Some (legacy_trace ''legacy_untyped_tool'')
                    else st_compatibility_trace s);
                  typed = (kind = ''tool'' \<and> version \<ge> 2 \<and> (tf_tool_name f \<noteq> JNull \<or> truthy (tf_arguments f)));
                  f = (if typed then f\<lparr>
                      tf_timeout_seconds := (if tf_timeout_seconds f = JNull then JInt 30 else tf_timeout_seconds f),
                      tf_idempotency_key := (if tf_idempotency_key f = JNull
                        then JStr (''plan:'' @ st_id s) else tf_idempotency_key f),
                      tf_retry_owner := json_or (tf_retry_owner f) (JStr ''step_executor'')\<rparr> else f);
                  criteria = (if typed \<and> criteria = None then Some default_criteria else criteria)
              in Inr (s\<lparr>st_kind := kind, st_success_criteria := criteria, st_plan_version := version,
                        st_compatibility_trace := trace, st_fields := PlanStep f,
                        st_description := (if st_description s = [] \<and> legacy_prompt
                          then str_of (dict_get p ''prompt'') else st_description s)\<rparr>)))"

end
