(* ===== verification/Plan_Validation.thy ===== *)
theory Plan_Validation
  imports Plan_Steps
begin

text \<open>
  \<open>validate_plan\<close> of \<open>modules/agent/planner.py\<close>, the gate before a plan is executed: the checks of each
  step, of predicates and links, the depth-first search for dependency cycles, and the budgets, in the
  order of the code, with the error each raises. What the gate accepts is described and proved in
  Plan_Correct and Plan_Description.
\<close>

section \<open>Predicates\<close>

definition predicate_operators :: "string set" where
  "predicate_operators = {''status_in'', ''status_not_in'', ''content_contains'', ''error_contains'',
     ''all'', ''any'', ''none''}"

definition combinators :: "string set" where
  "combinators = {''all'', ''any'', ''none''}"

text \<open>The first check of a list that fires.\<close>

fun first_error :: "(bool \<times> 'e) list \<Rightarrow> 'e option" where
  "first_error [] = None"
| "first_error ((fires, e) # cs) = (if fires then Some e else first_error cs)"

fun first_some :: "'e option list \<Rightarrow> 'e option" where
  "first_some [] = None"
| "first_some (None # xs) = first_some xs"
| "first_some (Some e # xs) = Some e"

definition or_else :: "'e option \<Rightarrow> 'e option \<Rightarrow> 'e option" where
  "or_else x y = (case x of None \<Rightarrow> y | Some e \<Rightarrow> Some e)"

text \<open>\<open>source and known_step_ids is not None and source not in known_step_ids\<close>.\<close>

definition unknown_source :: "string set option \<Rightarrow> string \<Rightarrow> bool" where
  "unknown_source known src \<longleftrightarrow> src \<noteq> [] \<and> (case known of None \<Rightarrow> False | Some K \<Rightarrow> src \<notin> K)"

definition leaf_checks ::
  "string set option \<Rightarrow> bool \<Rightarrow> string \<Rightarrow> bool \<Rightarrow> bool \<Rightarrow> (bool \<times> plan_error) list" where
  "leaf_checks known implicit src no_values has_children =
     [(has_children, PredicateLeafChildren),
      (src = [] \<and> \<not> implicit, PredicateSourceRequired),
      (no_values, PredicateValuesEmpty),
      (unknown_source known src, PredicateUnknownStep)]"

fun check_node :: "string set option \<Rightarrow> bool \<Rightarrow> pred_node \<Rightarrow> plan_error option" where
  "check_node known implicit (PredicateNode op source vals children) =
     or_else (first_error
       (if op \<notin> predicate_operators then [(True, PredicateOperator)]
        else if op \<in> combinators
        then [(source \<noteq> None \<or> vals \<noteq> [], PredicateCombinator), (children = [], PredicateChildren)]
        else leaf_checks known implicit (text_or_empty source) (vals = []) (children \<noteq> [])))
     (first_some (map (check_node known implicit) children))"

definition get_or :: "dict \<Rightarrow> string \<Rightarrow> json \<Rightarrow> json" where
  "get_or d k v = (if dict_has d k then dict_get d k else v)"

definition json_items :: "json \<Rightarrow> json list" where
  "json_items v = (case v of JList xs \<Rightarrow> xs | _ \<Rightarrow> [])"

definition json_string :: "json \<Rightarrow> string" where
  "json_string v = (case v of JStr s \<Rightarrow> s | _ \<Rightarrow> [])"

definition is_json_str :: "json \<Rightarrow> bool" where
  "is_json_str v = (case v of JStr _ \<Rightarrow> True | _ \<Rightarrow> False)"

definition is_json_list :: "json \<Rightarrow> bool" where
  "is_json_list v = (case v of JList _ \<Rightarrow> True | _ \<Rightarrow> False)"

definition hashable :: "json \<Rightarrow> bool" where
  "hashable v = (case v of JList _ \<Rightarrow> False | JObj _ \<Rightarrow> False | _ \<Rightarrow> True)"

text \<open>A false value that \<open>enumerate\<close> refuses: \<open>None\<close>, \<open>False\<close> and zero.\<close>

definition not_iterable :: "json \<Rightarrow> bool" where
  "not_iterable v = (case v of JStr _ \<Rightarrow> False | JList _ \<Rightarrow> False | JObj _ \<Rightarrow> False | _ \<Rightarrow> True)"

definition object_checks :: "string set option \<Rightarrow> bool \<Rightarrow> dict \<Rightarrow> (bool \<times> plan_error) list" where
  "object_checks known implicit d =
     (let op = dict_get d ''op''; source = dict_get d ''source_step_id'';
          vals = get_or d ''values'' (JList []); children = get_or d ''children'' (JList [])
      in [(\<not> fst ` set d \<subseteq> {''op'', ''source_step_id'', ''values'', ''children''}, PredicateFields),
          (\<not> hashable op, UnhashableOperator),
          (\<not> (is_json_str op \<and> json_string op \<in> predicate_operators), PredicateOperator),
          (source \<noteq> JNull \<and> \<not> is_json_str source, PredicateSource),
          (\<not> (is_json_list vals \<and> list_all is_json_str (json_items vals)), PredicateValues)] @
         (if json_string op \<in> combinators
          then [(source \<noteq> JNull \<or> truthy vals, PredicateCombinator),
                (\<not> is_json_list children \<or> \<not> truthy children, PredicateChildren)]
          else leaf_checks known implicit (json_string source) (\<not> truthy vals) (truthy children) @
               [(not_iterable children, ChildrenNotIterable)]))"

lemma json_items_smaller: "c \<in> set (json_items (get_or d k (JList []))) \<Longrightarrow> size c < size (JObj d)"
proof -
  assume "c \<in> set (json_items (get_or d k (JList [])))"
  then obtain v where v: "map_of d k = Some v" "c \<in> set (json_items v)"
    by (auto simp: get_or_def dict_has_def dict_get_def json_items_def split: if_splits option.splits json.splits)
  then have "(k, v) \<in> set d" by (auto dest: map_of_SomeD)
  then have "size v < size (JObj d)"
    by (induction d) auto
  moreover have "size c < size v"
    using v(2) by (auto simp: json_items_def split: json.splits dest: size_list_estimation' [OF _ order_refl, of _ _ size])
  ultimately show ?thesis by simp
qed

function check_json :: "string set option \<Rightarrow> bool \<Rightarrow> json \<Rightarrow> plan_error option" where
  "check_json known implicit v =
     (case v of
        JNull \<Rightarrow> None
      | JObj d \<Rightarrow> or_else (first_error (object_checks known implicit d))
          (first_some (map (check_json known implicit) (json_items (get_or d ''children'' (JList [])))))
      | _ \<Rightarrow> Some PredicateNotObject)"
  by pat_completeness auto

termination
  by (relation "measure (\<lambda>(k, i, v). size v)") (auto dest: json_items_smaller)

declare check_json.simps [simp del]

fun check_predicate :: "string set option \<Rightarrow> bool \<Rightarrow> predicate \<Rightarrow> plan_error option" where
  "check_predicate known implicit (PNode n) = check_node known implicit n"
| "check_predicate known implicit (PDict d) = check_json known implicit (JObj d)"
| "check_predicate known implicit (POther v) = check_json known implicit v"
| "check_predicate known implicit (PCombine op children) =
     or_else (first_error
       (if op \<notin> predicate_operators then [(True, PredicateOperator)]
        else if op \<in> combinators then [(children = [], PredicateChildren)]
        else leaf_checks known implicit [] True (children \<noteq> [])))
     (first_some (map (check_predicate known implicit) children))"

section \<open>Steps\<close>

record plan_limits =
  lm_steps :: nat
  lm_retry_budget :: int
  lm_timeout_seconds :: int
  lm_analysis_input :: int
  lm_analysis_output :: int
  lm_agent_tokens :: int
  lm_agent_capabilities :: int
  lm_schedule_seconds :: int
  lm_join_chars :: int
  lm_external_dependencies :: bool

definition default_limits :: plan_limits where
  "default_limits = \<lparr>lm_steps = 32, lm_retry_budget = 8, lm_timeout_seconds = 900,
     lm_analysis_input = 262144, lm_analysis_output = 65536, lm_agent_tokens = 65536,
     lm_agent_capabilities = 128, lm_schedule_seconds = 31536000, lm_join_chars = 131072,
     lm_external_dependencies = False\<rparr>"

definition positive_int :: "json \<Rightarrow> bool" where
  "positive_int v = (case v of JInt n \<Rightarrow> n > 0 | _ \<Rightarrow> False)"

definition natural_int :: "json \<Rightarrow> bool" where
  "natural_int v = (case v of JInt n \<Rightarrow> n \<ge> 0 | _ \<Rightarrow> False)"

definition valid_timeout :: "json \<Rightarrow> bool" where
  "valid_timeout v = (case v of JInt n \<Rightarrow> n > 0 | JFloat (Fin r) \<Rightarrow> r > 0 | _ \<Rightarrow> False)"

definition nonblank :: "json \<Rightarrow> bool" where
  "nonblank v = (case v of JStr s \<Rightarrow> py_strip s \<noteq> [] | _ \<Rightarrow> False)"

definition int_value :: "json \<Rightarrow> int" where
  "int_value v = (case v of JInt n \<Rightarrow> n | _ \<Rightarrow> 0)"

definition number_value :: "json \<Rightarrow> real" where
  "number_value v = (case v of JInt n \<Rightarrow> of_int n | JFloat (Fin r) \<Rightarrow> r | _ \<Rightarrow> 0)"

definition tool_of :: "step_fields \<Rightarrow> tool_fields option" where
  "tool_of f = (case f of PlanStep t \<Rightarrow> Some t | ToolStep t \<Rightarrow> Some t | _ \<Rightarrow> None)"

definition variant_matches :: "string \<Rightarrow> step_fields \<Rightarrow> bool" where
  "variant_matches kind f = (case f of
     PlanStep _ \<Rightarrow> True
   | AnalysisStep _ _ \<Rightarrow> kind = ''analysis''
   | AgentStep _ _ _ \<Rightarrow> kind = ''agent''
   | ToolStep _ \<Rightarrow> kind = ''tool''
   | ScheduleStep _ \<Rightarrow> kind = ''schedule''
   | JoinStep _ _ \<Rightarrow> kind = ''join'')"

definition tool_checks :: "plan_step \<Rightarrow> tool_fields \<Rightarrow> (bool \<times> plan_error) list" where
  "tool_checks s t =
     [(tf_tool_name t \<noteq> JNull \<and> \<not> nonblank (tf_tool_name t), ToolName),
      (\<not> is_object (tf_arguments t), ToolArguments),
      (\<not> natural_int (tf_retry_budget t), RetryBudget),
      (tf_timeout_seconds t \<noteq> JNull \<and> \<not> valid_timeout (tf_timeout_seconds t), ToolTimeout)] @
     (if st_plan_version s \<ge> 2
      then [(\<not> truthy (tf_tool_name t), ToolNameRequired),
            (tf_timeout_seconds t = JNull, TimeoutRequired),
            (\<not> nonblank (tf_retry_owner t), RetryOwnerRequired),
            (tf_retry_owner t \<notin> JStr ` {''step_executor'', ''provider'', ''tool_adapter'', ''none''},
             RetryOwnerUnsupported),
            (\<not> nonblank (tf_idempotency_key t), IdempotencyKeyRequired),
            (st_success_criteria s = None, SuccessCriteriaRequired)]
      else [])"

text \<open>\<open>zone_known\<close> says whether \<open>ZoneInfo\<close> accepts a name.\<close>

definition variant_checks :: "(json \<Rightarrow> bool) \<Rightarrow> step_fields \<Rightarrow> (bool \<times> plan_error) list" where
  "variant_checks zone_known f =
     (case f of
        AnalysisStep i out \<Rightarrow> [(\<not> positive_int i, AnalysisInput), (\<not> positive_int out, AnalysisOutput)]
      | AgentStep m t b \<Rightarrow> [(m \<noteq> JNull \<and> \<not> nonblank m, AgentModel), (\<not> positive_int t, AgentTokens),
          (\<not> positive_int b, AgentCapabilities)]
      | ScheduleStep s \<Rightarrow>
          [(sf_schedule_mode s \<notin> JStr ` {''once'', ''interval''}, ScheduleMode),
           (\<not> is_json_str (sf_prompt s), SchedulePrompt),
           (\<not> natural_int (sf_run_after_seconds s), ScheduleRunAfter),
           (\<not> positive_int (sf_interval_seconds s), ScheduleInterval),
           (sf_timezone s \<noteq> JStr ''UTC'' \<and> \<not> zone_known (sf_timezone s), ScheduleTimezone),
           (\<not> nonblank (sf_cancellation_key s), ScheduleCancellation)]
      | JoinStep p n \<Rightarrow> [(p \<notin> JStr ` {''any_success'', ''all_success''}, JoinPolicy),
          (\<not> positive_int n, JoinChars)]
      | _ \<Rightarrow> [])"

definition is_dep :: "json \<Rightarrow> bool" where
  "is_dep v \<longleftrightarrow> is_json_str v \<and> json_string v \<noteq> []"

definition step_checks :: "(json \<Rightarrow> bool) \<Rightarrow> string set \<Rightarrow> plan_step \<Rightarrow> (bool \<times> plan_error) list" where
  "step_checks zone_known ids s =
     [(st_kind s \<notin> {''analysis'', ''agent'', ''tool'', ''schedule'', ''join''}, StepKind),
      (\<not> variant_matches (st_kind s) (st_fields s), StepVariant),
      (\<not> strict_json (step_to_dict s), NotStrictJson),
      (st_id s = [] \<or> st_id s \<in> ids, StepId),
      (\<not> list_all is_dep (st_depends_on s), StepDependsOn)] @
     (if st_kind s = ''tool''
      then (case tool_of (st_fields s) of None \<Rightarrow> [(True, ToolArguments)] | Some t \<Rightarrow> tool_checks s t) else []) @
     variant_checks zone_known (st_fields s)"

primrec check_steps :: "(json \<Rightarrow> bool) \<Rightarrow> string set \<Rightarrow> plan_step list \<Rightarrow> plan_error option" where
  "check_steps zone_known ids [] = None"
| "check_steps zone_known ids (s # ss) =
     or_else (first_error (step_checks zone_known ids s)) (check_steps zone_known (insert (st_id s) ids) ss)"

definition dep_ids :: "plan_step \<Rightarrow> string list" where
  "dep_ids s = map json_string (st_depends_on s)"

definition check_links :: "plan_limits \<Rightarrow> string set \<Rightarrow> plan_step \<Rightarrow> plan_error option" where
  "check_links lm ids s =
     or_else (case st_success_criteria s of None \<Rightarrow> None | Some p \<Rightarrow> check_predicate (Some {st_id s}) True p)
    (or_else (first_error (map (\<lambda>d. (d \<notin> ids \<and> \<not> lm_external_dependencies lm, UnknownDependency)) (dep_ids s)))
      (case st_condition s of
         None \<Rightarrow> None
       | Some c \<Rightarrow>
           if sc_mode c \<notin> {''continue_if'', ''skip_if''} then Some ConditionMode
           else case to_predicate c of
               None \<Rightarrow> Some ConditionEmpty
             | Some p \<Rightarrow> check_predicate (Some ids) False p))"

section \<open>The search for cycles\<close>

text \<open>
  \<open>visit\<close> with the set of nodes being visited as an argument, since each call restores it, and the
  visited nodes as its result. Names that are no step of the plan are left alone.
\<close>

type_synonym step_graph = "(string \<times> string list) list"

definition nodes :: "step_graph \<Rightarrow> string set" where
  "nodes g = fst ` set g"

definition successors :: "step_graph \<Rightarrow> string \<Rightarrow> string list" where
  "successors g x = (case map_of g x of None \<Rightarrow> [] | Some ds \<Rightarrow> ds)"

lemma finite_nodes [simp]: "finite (nodes g)"
  by (simp add: nodes_def)

function visit :: "step_graph \<Rightarrow> string set \<Rightarrow> string set \<Rightarrow> string \<Rightarrow> plan_error + string set"
  and visit_all :: "step_graph \<Rightarrow> string set \<Rightarrow> string set \<Rightarrow> string list \<Rightarrow> plan_error + string set" where
  "visit g visiting visited x =
     (if x \<notin> nodes g then Inr visited
      else if x \<in> visiting then Inl DependencyCycle
      else if x \<in> visited then Inr visited
      else case visit_all g (insert x visiting) visited (successors g x) of
          Inl e \<Rightarrow> Inl e
        | Inr visited' \<Rightarrow> Inr (insert x visited'))"
| "visit_all g visiting visited [] = Inr visited"
| "visit_all g visiting visited (x # xs) =
     (case visit g visiting visited x of
        Inl e \<Rightarrow> Inl e
      | Inr visited' \<Rightarrow> visit_all g visiting visited' xs)"
  by pat_completeness auto

termination
proof (relation "inv_image (less_than <*lex*> less_than)
    (\<lambda>x. case x of Inl (g, p, v, y) \<Rightarrow> (card (nodes g - p), 0) | Inr (g, p, v, ys) \<Rightarrow> (card (nodes g - p), Suc (length ys)))")
  fix g p v x
  assume "\<not> x \<notin> nodes g" and "x \<notin> p"
  then have "nodes g - insert x p \<subset> nodes g - p" by auto
  then have "card (nodes g - insert x p) < card (nodes g - p)" by (intro psubset_card_mono) auto
  then show "(Inr (g, insert x p, v, successors g x), Inl (g, p, v, x)) \<in> inv_image (less_than <*lex*> less_than)
    (\<lambda>x. case x of Inl (g, p, v, y) \<Rightarrow> (card (nodes g - p), 0) | Inr (g, p, v, ys) \<Rightarrow> (card (nodes g - p), Suc (length ys)))"
    by simp
qed auto

declare visit.simps [simp del]

definition plan_graph :: "plan_step list \<Rightarrow> step_graph" where
  "plan_graph steps = map (\<lambda>s. (st_id s, dep_ids s)) steps"

section \<open>The gate\<close>

definition tool_fields_of :: "plan_step list \<Rightarrow> tool_fields list" where
  "tool_fields_of steps = concat (map (\<lambda>s. if st_kind s = ''tool''
     then (case tool_of (st_fields s) of Some t \<Rightarrow> [t] | None \<Rightarrow> []) else []) steps)"

definition analysis_input :: "step_fields \<Rightarrow> int" where
  "analysis_input f = (case f of AnalysisStep i out \<Rightarrow> int_value i | _ \<Rightarrow> 0)"

definition analysis_output :: "step_fields \<Rightarrow> int" where
  "analysis_output f = (case f of AnalysisStep i out \<Rightarrow> int_value out | _ \<Rightarrow> 0)"

definition agent_tokens :: "step_fields \<Rightarrow> int" where
  "agent_tokens f = (case f of AgentStep m t b \<Rightarrow> int_value t | _ \<Rightarrow> 0)"

definition agent_capabilities :: "step_fields \<Rightarrow> int" where
  "agent_capabilities f = (case f of AgentStep m t b \<Rightarrow> int_value b | _ \<Rightarrow> 0)"

definition schedule_seconds :: "step_fields \<Rightarrow> int" where
  "schedule_seconds f = (case f of
     ScheduleStep s \<Rightarrow> int_value (if sf_schedule_mode s = JStr ''once'' then sf_run_after_seconds s
       else sf_interval_seconds s) | _ \<Rightarrow> 0)"

definition join_chars :: "step_fields \<Rightarrow> int" where
  "join_chars f = (case f of JoinStep p n \<Rightarrow> int_value n | _ \<Rightarrow> 0)"

definition total :: "(step_fields \<Rightarrow> int) \<Rightarrow> plan_step list \<Rightarrow> int" where
  "total f steps = sum_list (map (f \<circ> st_fields) steps)"

definition total_retries :: "plan_step list \<Rightarrow> int" where
  "total_retries steps = sum_list (map (int_value \<circ> tf_retry_budget) (tool_fields_of steps))"

definition total_timeout :: "plan_step list \<Rightarrow> real" where
  "total_timeout steps = sum_list (map (number_value \<circ> tf_timeout_seconds) (tool_fields_of steps))"

definition budget_checks :: "plan_limits \<Rightarrow> plan_step list \<Rightarrow> (bool \<times> plan_error) list" where
  "budget_checks lm steps =
     [(total_retries steps > lm_retry_budget lm, RetryTotal),
      (total_timeout steps > of_int (lm_timeout_seconds lm), TimeoutTotal),
      (total analysis_input steps > lm_analysis_input lm, AnalysisInputTotal),
      (total analysis_output steps > lm_analysis_output lm, AnalysisOutputTotal),
      (total agent_tokens steps > lm_agent_tokens lm, AgentTokenTotal),
      (total agent_capabilities steps > lm_agent_capabilities lm, AgentCapabilityTotal),
      (total schedule_seconds steps > lm_schedule_seconds lm, ScheduleTotal),
      (total join_chars steps > lm_join_chars lm, JoinTotal)]"

definition validate_plan :: "(json \<Rightarrow> bool) \<Rightarrow> plan_limits \<Rightarrow> plan_step list \<Rightarrow> plan_error option" where
  "validate_plan zone_known lm steps =
     (if length steps > lm_steps lm then Some StepBudget
      else or_else (check_steps zone_known {} steps)
        (or_else (first_some (map (check_links lm (set (map st_id steps))) steps))
          (case visit_all (plan_graph steps) {} {} (map st_id steps) of
             Inl e \<Rightarrow> Some e
           | Inr _ \<Rightarrow> first_error (budget_checks lm steps))))"

end
