(* ===== verification/Plan_Correct.thy ===== *)
theory Plan_Correct
  imports Plan_Validation
begin

text \<open>
  What the plan gate guarantees: the depth-first search accepts exactly the acyclic dependency
  relations, and an accepted plan has unique step names, known dependencies, an execution order, and
  totals within every budget.
\<close>

section \<open>Check lists\<close>

lemma first_error_None: "first_error cs = None \<longleftrightarrow> (\<forall>(b, e)\<in>set cs. \<not> b)"
  by (induction cs rule: first_error.induct) auto

lemma first_some_None: "first_some xs = None \<longleftrightarrow> set xs \<subseteq> {None}"
  by (induction xs rule: first_some.induct) auto

lemma or_else_None: "or_else x y = None \<longleftrightarrow> x = None \<and> y = None"
  by (auto simp: or_else_def split: option.splits)

lemma check_passes: "first_error cs = None \<Longrightarrow> (b, e) \<in> set cs \<Longrightarrow> \<not> b"
  by (auto simp: first_error_None)

lemmas check_laws = first_error_None first_some_None or_else_None

section \<open>The search for cycles is exact\<close>

definition dep_edges :: "step_graph \<Rightarrow> (string \<times> string) set" where
  "dep_edges g = {(x, d). x \<in> nodes g \<and> d \<in> set (successors g x) \<and> d \<in> nodes g}"

definition settled :: "step_graph \<Rightarrow> string set \<Rightarrow> bool" where
  "settled g v \<longleftrightarrow> v \<subseteq> nodes g \<and> dep_edges g `` v \<subseteq> v \<and> (\<forall>x\<in>v. (x, x) \<notin> (dep_edges g)\<^sup>+)"

lemma settled_closed:
  assumes "settled g v" and "(d, x) \<in> (dep_edges g)\<^sup>*" and "d \<in> v"
  shows "x \<in> v"
  using assms(2,3) by (induction rule: rtrancl_induct) (use assms(1) in \<open>auto simp: settled_def\<close>)

lemma settled_insert:
  assumes "settled g v" and "x \<in> nodes g" and "x \<notin> v" and "\<forall>d\<in>set (successors g x) \<inter> nodes g. d \<in> v"
  shows "settled g (insert x v)"
proof -
  have succ: "d \<in> v" if "(x, d) \<in> dep_edges g" for d
    using that assms(4) by (auto simp: dep_edges_def)
  have "(x, x) \<notin> (dep_edges g)\<^sup>+"
  proof
    assume "(x, x) \<in> (dep_edges g)\<^sup>+"
    then obtain d where "(x, d) \<in> dep_edges g" "(d, x) \<in> (dep_edges g)\<^sup>*" by (meson tranclD)
    with succ settled_closed [OF assms(1)] assms(3) show False by blast
  qed
  with assms succ show ?thesis by (auto simp: settled_def)
qed

lemma visit_sound:
  "visit g p v x = Inr v' \<Longrightarrow> p \<inter> v = {} \<Longrightarrow> settled g v \<Longrightarrow>
     v \<subseteq> v' \<and> p \<inter> v' = {} \<and> settled g v' \<and> (x \<in> nodes g \<longrightarrow> x \<in> v')"
  "visit_all g p v xs = Inr v' \<Longrightarrow> p \<inter> v = {} \<Longrightarrow> settled g v \<Longrightarrow>
     v \<subseteq> v' \<and> p \<inter> v' = {} \<and> settled g v' \<and> set xs \<inter> nodes g \<subseteq> v'"
proof (induction g p v x and g p v xs arbitrary: v' and v' rule: visit_visit_all.induct)
  case (1 g p v x)
  show ?case
  proof (cases "x \<in> nodes g \<and> x \<notin> p \<and> x \<notin> v")
    case True
    with "1.prems"(1) obtain u where u: "visit_all g (insert x p) v (successors g x) = Inr u"
        "v' = insert x u"
      by (subst (asm) visit.simps) (auto split: sum.splits)
    have "insert x p \<inter> v = {}" using True "1.prems"(2) by auto
    with "1.IH" [of u] True u(1) "1.prems"(3)
    have "v \<subseteq> u" "insert x p \<inter> u = {}" "settled g u" "set (successors g x) \<inter> nodes g \<subseteq> u" by auto
    with True u(2) settled_insert [of g u x] show ?thesis by auto
  next
    case False
    with "1.prems" visit.simps [of g p v x] show ?thesis by (auto split: if_splits)
  qed
next
  case (2 g p v)
  then show ?case by simp
next
  case (3 g p v x xs)
  then obtain u where u: "visit g p v x = Inr u" "visit_all g p u xs = Inr v'"
    by (auto split: sum.splits)
  with "3.IH"(1) [OF u(1) "3.prems"(2,3)] "3.IH"(2) [OF u(1) u(2)] show ?case by auto
qed

lemma visit_complete:
  "visit g p v x = Inl e \<Longrightarrow> \<forall>y\<in>p. (y, x) \<in> (dep_edges g)\<^sup>+ \<Longrightarrow> \<not> acyclic (dep_edges g)"
  "visit_all g p v xs = Inl e \<Longrightarrow> \<forall>y\<in>p. \<forall>x\<in>set xs \<inter> nodes g. (y, x) \<in> (dep_edges g)\<^sup>+ \<Longrightarrow>
     \<not> acyclic (dep_edges g)"
proof (induction g p v x and g p v xs arbitrary: e and e rule: visit_visit_all.induct)
  case (1 g p v x)
  show ?case
  proof (cases "x \<in> nodes g \<and> x \<notin> p \<and> x \<notin> v")
    case True
    with "1.prems"(1) have "visit_all g (insert x p) v (successors g x) = Inl e"
      by (subst (asm) visit.simps) (auto split: sum.splits)
    moreover have "(y, d) \<in> (dep_edges g)\<^sup>+" if "y \<in> insert x p" "d \<in> set (successors g x) \<inter> nodes g" for y d
    proof -
      have "(x, d) \<in> dep_edges g" using that(2) True by (auto simp: dep_edges_def)
      with that(1) "1.prems"(2) show ?thesis by (auto intro: trancl_into_trancl)
    qed
    ultimately show ?thesis using "1.IH" True by blast
  next
    case False
    with "1.prems"(1) visit.simps [of g p v x] have "x \<in> p" by (auto split: if_splits)
    with "1.prems"(2) show ?thesis by (auto simp: acyclic_def)
  qed
next
  case (2 g p v)
  then show ?case by simp
next
  case (3 g p v x xs)
  show ?case
  proof (cases "visit g p v x")
    case (Inl e')
    then have "x \<in> nodes g" by (subst (asm) visit.simps) (auto split: if_splits)
    with "3.IH"(1) [OF Inl] "3.prems"(2) show ?thesis by auto
  next
    case (Inr u)
    with "3.IH"(2) [OF Inr, of e] "3.prems" show ?thesis by auto
  qed
qed

lemma search_exact:
  "(\<exists>v. visit_all g {} {} (map fst g) = Inr v) \<longleftrightarrow> acyclic (dep_edges g)"
proof
  assume "\<exists>v. visit_all g {} {} (map fst g) = Inr v"
  then obtain v where v: "visit_all g {} {} (map fst g) = Inr v" by blast
  have "settled g {}" by (simp add: settled_def)
  then have "settled g v" and "nodes g \<subseteq> v"
    using visit_sound(2) [OF v] by (auto simp: nodes_def)
  moreover have "x \<in> nodes g" if "(x, x) \<in> (dep_edges g)\<^sup>+" for x
    using that by (auto simp: dep_edges_def dest: tranclD)
  ultimately show "acyclic (dep_edges g)" by (auto simp: acyclic_def settled_def)
next
  assume "acyclic (dep_edges g)"
  then show "\<exists>v. visit_all g {} {} (map fst g) = Inr v"
    using visit_complete(2) [of g "{}" "{}" "map fst g"] by (cases "visit_all g {} {} (map fst g)") auto
qed

section \<open>An execution order\<close>

definition depth_below :: "step_graph \<Rightarrow> string \<Rightarrow> nat" where
  "depth_below g x = card {y. (x, y) \<in> (dep_edges g)\<^sup>+}"

lemma depth_decreases:
  assumes "acyclic (dep_edges g)" and "(x, d) \<in> dep_edges g"
  shows "depth_below g d < depth_below g x"
proof -
  let ?R = "\<lambda>z. {y. (z, y) \<in> (dep_edges g)\<^sup>+}"
  have "?R x \<subseteq> nodes g" by (auto simp: dep_edges_def elim: tranclE)
  then have "finite (?R x)" by (rule finite_subset) simp
  moreover have "?R d \<subset> ?R x"
  proof
    show "?R d \<subseteq> ?R x" using assms(2) by (auto intro: trancl_into_trancl2)
    have "d \<in> ?R x" "d \<notin> ?R d" using assms by (auto simp: acyclic_def)
    then show "?R d \<noteq> ?R x" by blast
  qed
  ultimately show ?thesis unfolding depth_below_def by (rule psubset_card_mono)
qed

section \<open>What an accepted plan is\<close>

lemma check_steps_None:
  "check_steps zone ids ss = None \<longleftrightarrow>
     (\<forall>s\<in>set ss. first_error (step_checks zone {} s) = None) \<and> distinct (map st_id ss) \<and>
     ids \<inter> st_id ` set ss = {}"
proof (induction ss arbitrary: ids)
  case (Cons s ss)
  have "first_error (step_checks zone ids s) = None \<longleftrightarrow>
      first_error (step_checks zone {} s) = None \<and> st_id s \<notin> ids"
    unfolding first_error_None by (auto simp: step_checks_def)
  with Cons.IH [of "insert (st_id s) ids"] show ?case by (auto simp: or_else_None)
qed simp

definition budgets_ok :: "plan_limits \<Rightarrow> plan_step list \<Rightarrow> bool" where
  "budgets_ok lm steps \<longleftrightarrow>
     total_retries steps \<le> lm_retry_budget lm \<and> total_timeout steps \<le> of_int (lm_timeout_seconds lm) \<and>
     total analysis_input steps \<le> lm_analysis_input lm \<and>
     total analysis_output steps \<le> lm_analysis_output lm \<and>
     total agent_tokens steps \<le> lm_agent_tokens lm \<and>
     total agent_capabilities steps \<le> lm_agent_capabilities lm \<and>
     total schedule_seconds steps \<le> lm_schedule_seconds lm \<and> total join_chars steps \<le> lm_join_chars lm"

definition plan_valid :: "(json \<Rightarrow> bool) \<Rightarrow> plan_limits \<Rightarrow> plan_step list \<Rightarrow> bool" where
  "plan_valid zone lm steps \<longleftrightarrow>
     length steps \<le> lm_steps lm \<and> distinct (map st_id steps) \<and>
     (\<forall>s\<in>set steps. first_error (step_checks zone {} s) = None \<and>
        check_links lm (set (map st_id steps)) s = None) \<and>
     acyclic (dep_edges (plan_graph steps)) \<and> budgets_ok lm steps"

lemma validate_plan_exact: "validate_plan zone lm steps = None \<longleftrightarrow> plan_valid zone lm steps"
proof -
  have ids: "map st_id steps = map fst (plan_graph steps)" by (simp add: plan_graph_def comp_def)
  have search: "(case visit_all (plan_graph steps) {} {} (map st_id steps) of Inl e \<Rightarrow> Some e
      | Inr v \<Rightarrow> first_error (budget_checks lm steps)) = None \<longleftrightarrow>
      acyclic (dep_edges (plan_graph steps)) \<and> first_error (budget_checks lm steps) = None"
    using search_exact [of "plan_graph steps"] by (auto simp: ids split: sum.splits)
  have budgets: "first_error (budget_checks lm steps) = None \<longleftrightarrow> budgets_ok lm steps"
    unfolding first_error_None by (auto simp: budget_checks_def budgets_ok_def not_less)
  show ?thesis
    unfolding validate_plan_def plan_valid_def
    by (auto simp: or_else_None check_steps_None search budgets first_some_None)
qed

lemma tool_checks_pass:
  assumes "first_error (step_checks zone {} s) = None" and "st_kind s = ''tool''"
  shows "\<exists>t. tool_of (st_fields s) = Some t \<and> first_error (tool_checks s t) = None"
proof (cases "tool_of (st_fields s)")
  case None
  then show ?thesis
    using check_passes [OF assms(1), of True ToolArguments] assms(2) by (simp add: step_checks_def)
next
  case (Some t)
  have "\<not> b" if "(b, e) \<in> set (tool_checks s t)" for b e
    using check_passes [OF assms(1), of b e] that assms(2) Some by (simp add: step_checks_def)
  with Some show ?thesis by (auto simp: first_error_None)
qed

lemma valid_links:
  assumes "check_links lm ids s = None" and "\<not> lm_external_dependencies lm" and "d \<in> set (dep_ids s)"
  shows "d \<in> ids"
proof -
  have "\<forall>d\<in>set (dep_ids s). \<not> (d \<notin> ids \<and> \<not> lm_external_dependencies lm)"
    using assms(1) by (simp add: check_links_def or_else_None first_error_None)
  with assms(2,3) show ?thesis by blast
qed

lemma plan_edges:
  assumes "distinct (map st_id steps)" and "s \<in> set steps" and "d \<in> set (dep_ids s)" and "d \<in> st_id ` set steps"
  shows "(st_id s, d) \<in> dep_edges (plan_graph steps)"
proof -
  have "map_of (plan_graph steps) (st_id s) = Some (dep_ids s)"
    using assms(1,2) by (intro map_of_is_SomeI) (auto simp: plan_graph_def comp_def)
  with assms show ?thesis
    by (auto simp: dep_edges_def nodes_def plan_graph_def successors_def image_image)
qed

section \<open>Properties of the plan gate\<close>

text \<open>C9. The cycle search of the plan gate is exact: it succeeds precisely when the dependency
  relation of the plan's steps has no cycle, on every graph.\<close>

theorem cycle_search_exact:
  "(\<exists>v. visit_all g {} {} (map fst g) = Inr v) = acyclic (dep_edges g)"
  by (rule search_exact)

text \<open>An accepted plan can be executed in some order: its step names are distinct and not empty,
  every dependency is a step of the plan, and there is a ranking that puts every dependency
  before the step that needs it.\<close>

theorem accepted_plan_has_order:
  assumes "validate_plan zone lm steps = None" and "\<not> lm_external_dependencies lm"
  shows "distinct (map st_id steps) \<and> [] \<notin> set (map st_id steps) \<and>
    (\<exists>rank :: string \<Rightarrow> nat. \<forall>s\<in>set steps. \<forall>d\<in>set (dep_ids s).
       d \<in> set (map st_id steps) \<and> rank d < rank (st_id s))"
proof -
  have valid: "plan_valid zone lm steps" using assms(1) by (simp add: validate_plan_exact)
  then have dist: "distinct (map st_id steps)" and acyc: "acyclic (dep_edges (plan_graph steps))"
    and steps: "\<And>s. s \<in> set steps \<Longrightarrow> first_error (step_checks zone {} s) = None"
    and links: "\<And>s. s \<in> set steps \<Longrightarrow> check_links lm (set (map st_id steps)) s = None"
    by (auto simp: plan_valid_def)
  have "st_id s \<noteq> []" if "s \<in> set steps" for s
    using check_passes [OF steps [OF that], of "st_id s = []" StepId] by (simp add: step_checks_def)
  then have nonempty: "[] \<notin> set (map st_id steps)" by (simp add: image_iff) metis
  have "d \<in> set (map st_id steps) \<and> depth_below (plan_graph steps) d < depth_below (plan_graph steps) (st_id s)"
    if "s \<in> set steps" "d \<in> set (dep_ids s)" for s d
  proof -
    have d: "d \<in> set (map st_id steps)" using valid_links [OF links [OF that(1)] assms(2) that(2)] .
    with plan_edges [OF dist that] depth_decreases [OF acyc] show ?thesis by auto
  qed
  with dist nonempty show ?thesis by blast
qed

definition sample_step :: "string \<Rightarrow> string list \<Rightarrow> plan_step" where
  "sample_step i deps = \<lparr>st_id = i, st_title = ''t'', st_kind = ''join'', st_description = [],
     st_payload = None, st_depends_on = map JStr deps, st_condition = None, st_owner_agent_id = None,
     st_owner_agent_role = None, st_route_reason = None, st_success_criteria = None, st_plan_version = 2,
     st_compatibility_trace = None, st_fields = JoinStep (JStr ''any_success'') (JInt 100)\<rparr>"

lemma sample_plan_accepted:
  "validate_plan (\<lambda>_. True) default_limits [sample_step ''a'' [''b''], sample_step ''b'' []] = None"
  by (simp add: validate_plan_def default_limits_def sample_step_def or_else_def step_checks_def
      variant_matches_def step_to_dict_def base_dict_def fields_dict_def json_dict_def json_text_def
      is_dep_def is_json_str_def json_string_def variant_checks_def positive_int_def check_links_def
      dep_ids_def plan_graph_def visit.simps nodes_def successors_def budget_checks_def total_retries_def
      total_timeout_def tool_fields_of_def total_def analysis_input_def analysis_output_def agent_tokens_def
      agent_capabilities_def schedule_seconds_def join_chars_def int_value_def)

theorem accepted_plan_has_order_witness:
  "\<exists>rank :: string \<Rightarrow> nat. rank ''b'' < rank ''a''"
  using accepted_plan_has_order [OF sample_plan_accepted]
  by (auto simp: default_limits_def sample_step_def dep_ids_def json_string_def)

text \<open>Every typed tool step of an accepted plan is executable as it stands: it names a tool, its
  arguments are an object, its timeout is a positive number, its retries are not negative and
  are bounded by the plan's budget, and its retry owner is one of the four known owners.\<close>

theorem accepted_tool_steps_are_typed:
  assumes "validate_plan zone lm steps = None" and "s \<in> set steps" and "st_kind s = ''tool''"
    and "st_plan_version s \<ge> 2"
  shows "\<exists>t d. tool_of (st_fields s) = Some t \<and> nonblank (tf_tool_name t) \<and> tf_arguments t = JObj d \<and>
    0 < number_value (tf_timeout_seconds t) \<and> 0 \<le> int_value (tf_retry_budget t) \<and>
    int_value (tf_retry_budget t) \<le> lm_retry_budget lm \<and> nonblank (tf_idempotency_key t) \<and>
    tf_retry_owner t \<in> JStr ` {''step_executor'', ''provider'', ''tool_adapter'', ''none''}"
proof -
  have valid: "plan_valid zone lm steps" using assms(1) by (simp add: validate_plan_exact)
  then have step: "first_error (step_checks zone {} q) = None" if "q \<in> set steps" for q
    using that by (simp add: plan_valid_def)
  obtain t where t: "tool_of (st_fields s) = Some t" and checks: "first_error (tool_checks s t) = None"
    using tool_checks_pass [OF step [OF assms(2)] assms(3)] by blast
  have local: "nonblank (tf_tool_name t)" "\<exists>d. tf_arguments t = JObj d" "natural_int (tf_retry_budget t)"
      "valid_timeout (tf_timeout_seconds t)" "nonblank (tf_idempotency_key t)"
      "tf_retry_owner t \<in> JStr ` {''step_executor'', ''provider'', ''tool_adapter'', ''none''}"
    using checks [unfolded first_error_None] assms(4) by (auto simp: tool_checks_def nonblank_def)
  have nonneg: "0 \<le> int_value (tf_retry_budget u)" if u: "u \<in> set (tool_fields_of steps)" for u
  proof -
    obtain q where q: "q \<in> set steps" "st_kind q = ''tool''" "tool_of (st_fields q) = Some u"
      using u by (auto simp: tool_fields_of_def split: if_splits option.splits)
    then have "first_error (tool_checks q u) = None" using tool_checks_pass [OF step [OF q(1)] q(2)] by simp
    then have "natural_int (tf_retry_budget u)"
      using check_passes [of "tool_checks q u" "\<not> natural_int (tf_retry_budget u)" RetryBudget]
      by (simp add: tool_checks_def)
    then show ?thesis by (auto simp: natural_int_def int_value_def split: json.splits)
  qed
  have mem: "t \<in> set (tool_fields_of steps)"
    using assms(2,3) t by (force simp: tool_fields_of_def)
  then have "int_value (tf_retry_budget t) \<le> total_retries steps"
    unfolding total_retries_def
    by (intro member_le_sum_list) (use nonneg in \<open>auto simp: comp_def\<close>)
  moreover have "total_retries steps \<le> lm_retry_budget lm"
    using valid by (simp add: plan_valid_def budgets_ok_def)
  moreover have "0 < number_value (tf_timeout_seconds t)"
    using local(4) by (auto simp: valid_timeout_def number_value_def split: json.splits pyfloat.splits)
  ultimately show ?thesis using t local nonneg [OF mem] by auto
qed

definition sample_tool_step :: plan_step where
  "sample_tool_step = \<lparr>st_id = ''t'', st_title = ''t'', st_kind = ''tool'', st_description = [],
     st_payload = None, st_depends_on = [], st_condition = None, st_owner_agent_id = None,
     st_owner_agent_role = None, st_route_reason = None,
     st_success_criteria = Some default_criteria, st_plan_version = 2, st_compatibility_trace = None,
     st_fields = ToolStep \<lparr>tf_tool_name = JStr ''read_file'', tf_arguments = JObj [(''path'', JStr ''a'')],
       tf_timeout_seconds = JInt 30, tf_retry_budget = JInt 2, tf_idempotency_key = JStr ''plan:t'',
       tf_retry_owner = JStr ''step_executor''\<rparr>\<rparr>"

lemma sample_tool_accepted: "validate_plan (\<lambda>_. True) default_limits [sample_tool_step] = None"
  by (simp add: validate_plan_def default_limits_def sample_tool_step_def or_else_def step_checks_def
      variant_matches_def step_to_dict_def base_dict_def fields_dict_def tool_dict_def json_dict_def json_text_def
      tool_of_def tool_checks_def nonblank_def py_strip_def py_isspace_def natural_int_def valid_timeout_def
      variant_checks_def check_links_def default_criteria_def predicate_to_dict_def check_json.simps
      object_checks_def dict_get_Cons get_or_def dict_has_def hashable_def is_json_str_def is_json_list_def
      json_string_def json_items_def predicate_operators_def combinators_def leaf_checks_def unknown_source_def
      not_iterable_def dict_get_def
      dep_ids_def plan_graph_def visit.simps nodes_def successors_def budget_checks_def total_retries_def
      total_timeout_def tool_fields_of_def total_def analysis_input_def analysis_output_def agent_tokens_def
      agent_capabilities_def schedule_seconds_def join_chars_def int_value_def number_value_def)

theorem accepted_tool_steps_are_typed_witness:
  "\<exists>t. tool_of (st_fields sample_tool_step) = Some t \<and> int_value (tf_retry_budget t) \<le> 8"
  using accepted_tool_steps_are_typed [OF sample_tool_accepted, of sample_tool_step]
  by (auto simp: sample_tool_step_def default_limits_def)

end
