(* ===== verification/Plan_Description.thy ===== *)
theory Plan_Description
  imports Plan_Correct
begin

text \<open>
  A declarative description of acceptable plans, in terms of the fields of the steps alone, and the proof
  that the plan gate accepts exactly these plans. Nothing of the gate's own checks is used in the
  description: predicates are well formed by an inductive definition, steps by their fields, dependencies
  by a relation on the plan, budgets by sums over its steps.
\<close>

section \<open>Predicates\<close>

definition test_operators :: "string set" where
  "test_operators = {''status_in'', ''status_not_in'', ''content_contains'', ''error_contains''}"

definition combining_operators :: "string set" where
  "combining_operators = {''all'', ''any'', ''none''}"

definition predicate_fields :: "string set" where
  "predicate_fields = {''op'', ''source_step_id'', ''values'', ''children''}"

definition source_fits :: "string set option \<Rightarrow> bool \<Rightarrow> string \<Rightarrow> bool" where
  "source_fits known implicit src \<longleftrightarrow> (if src = [] then implicit else (\<forall>K. known = Some K \<longrightarrow> src \<in> K))"

inductive sound_node :: "string set option \<Rightarrow> bool \<Rightarrow> pred_node \<Rightarrow> bool" for known implicit where
  leaf: "op \<in> test_operators \<Longrightarrow> vals \<noteq> [] \<Longrightarrow>
    source_fits known implicit (text_or_empty source) \<Longrightarrow> sound_node known implicit (PredicateNode op source vals [])"
| combination: "op \<in> combining_operators \<Longrightarrow> children \<noteq> [] \<Longrightarrow> \<forall>c\<in>set children. sound_node known implicit c \<Longrightarrow>
    sound_node known implicit (PredicateNode op None [] children)"

text \<open>A predicate given as an object: only four fields; \<open>field d k\<close> is the value or nothing.\<close>

definition field_of :: "dict \<Rightarrow> string \<Rightarrow> json \<Rightarrow> json" where
  "field_of d k v = (case map_of d k of None \<Rightarrow> v | Some u \<Rightarrow> u)"

inductive sound_object :: "string set option \<Rightarrow> bool \<Rightarrow> json \<Rightarrow> bool" for known implicit where
  absent: "sound_object known implicit JNull"
| leaf: "fst ` set d \<subseteq> predicate_fields \<Longrightarrow>
    field_of d ''op'' JNull = JStr op \<Longrightarrow> op \<in> test_operators \<Longrightarrow>
    field_of d ''source_step_id'' JNull = JNull \<and> src = [] \<or> field_of d ''source_step_id'' JNull = JStr src \<Longrightarrow>
    source_fits known implicit src \<Longrightarrow> field_of d ''values'' (JList []) = JList (map JStr vals) \<Longrightarrow> vals \<noteq> [] \<Longrightarrow>
    field_of d ''children'' (JList []) \<in> {JList [], JStr [], JObj []} \<Longrightarrow> sound_object known implicit (JObj d)"
| combination: "fst ` set d \<subseteq> predicate_fields \<Longrightarrow>
    field_of d ''op'' JNull = JStr op \<Longrightarrow> op \<in> combining_operators \<Longrightarrow>
    field_of d ''source_step_id'' JNull = JNull \<Longrightarrow> field_of d ''values'' (JList []) = JList [] \<Longrightarrow>
    field_of d ''children'' (JList []) = JList children \<Longrightarrow> children \<noteq> [] \<Longrightarrow>
    \<forall>c\<in>set children. sound_object known implicit c \<Longrightarrow> sound_object known implicit (JObj d)"

inductive sound_predicate :: "string set option \<Rightarrow> bool \<Rightarrow> predicate \<Rightarrow> bool" for known implicit where
  node: "sound_node known implicit n \<Longrightarrow> sound_predicate known implicit (PNode n)"
| dictionary: "sound_object known implicit (JObj d) \<Longrightarrow> sound_predicate known implicit (PDict d)"
| other: "sound_object known implicit v \<Longrightarrow> sound_predicate known implicit (POther v)"
| combined: "op \<in> combining_operators \<Longrightarrow> children \<noteq> [] \<Longrightarrow> \<forall>c\<in>set children. sound_predicate known implicit c \<Longrightarrow>
    sound_predicate known implicit (PCombine op children)"

inductive_simps sound_node_simps: "sound_node known implicit (PredicateNode op source vals children)"
inductive_simps sound_object_simps:
  "sound_object known implicit JNull" "sound_object known implicit (JBool b)" "sound_object known implicit (JInt i)"
  "sound_object known implicit (JFloat x)" "sound_object known implicit (JStr s)" "sound_object known implicit (JList vs)"
inductive_simps sound_predicate_simps:
  "sound_predicate known implicit (PNode n)" "sound_predicate known implicit (PDict d)"
  "sound_predicate known implicit (POther v)" "sound_predicate known implicit (PCombine op children)"

section \<open>Steps\<close>

definition filled :: "json \<Rightarrow> bool" where
  "filled v \<longleftrightarrow> (\<exists>s. v = JStr s \<and> py_strip s \<noteq> [])"

definition above :: "int \<Rightarrow> json \<Rightarrow> bool" where
  "above n v \<longleftrightarrow> (\<exists>i. v = JInt i \<and> n < i)"

text \<open>A tool call: steps of the old format (version 1) may leave the name and the timeout open.\<close>

definition retry_owners :: "json set" where
  "retry_owners = {JStr ''step_executor'', JStr ''provider'', JStr ''tool_adapter'', JStr ''none''}"

definition sound_tool :: "plan_step \<Rightarrow> tool_fields \<Rightarrow> bool" where
  "sound_tool s t \<longleftrightarrow>
     (filled (tf_tool_name t) \<or> tf_tool_name t = JNull \<and> st_plan_version s < 2) \<and>
     (\<exists>d. tf_arguments t = JObj d) \<and> above (- 1) (tf_retry_budget t) \<and>
     (above 0 (tf_timeout_seconds t) \<or> (\<exists>r>0. tf_timeout_seconds t = JFloat (Fin r)) \<or>
       tf_timeout_seconds t = JNull \<and> st_plan_version s < 2) \<and>
     (st_plan_version s < 2 \<or>
       tf_retry_owner t \<in> retry_owners \<and>
       filled (tf_idempotency_key t) \<and> st_success_criteria s \<noteq> None)"

fun sound_fields :: "(json \<Rightarrow> bool) \<Rightarrow> plan_step \<Rightarrow> step_fields \<Rightarrow> bool" where
  "sound_fields zone s (PlanStep t) \<longleftrightarrow> st_kind s \<in> {''analysis'', ''agent'', ''schedule'', ''join''} \<or> st_kind s = ''tool'' \<and> sound_tool s t"
| "sound_fields zone s (ToolStep t) \<longleftrightarrow> st_kind s = ''tool'' \<and> sound_tool s t"
| "sound_fields zone s (AnalysisStep i n) \<longleftrightarrow> st_kind s = ''analysis'' \<and> above 0 i \<and> above 0 n"
| "sound_fields zone s (AgentStep m t b) \<longleftrightarrow> st_kind s = ''agent'' \<and> (m = JNull \<or> filled m) \<and> above 0 t \<and> above 0 b"
| "sound_fields zone s (ScheduleStep f) \<longleftrightarrow> st_kind s = ''schedule'' \<and>
     sf_schedule_mode f \<in> {JStr ''once'', JStr ''interval''} \<and> (\<exists>p. sf_prompt f = JStr p) \<and> above (- 1) (sf_run_after_seconds f) \<and>
     above 0 (sf_interval_seconds f) \<and> (sf_timezone f = JStr ''UTC'' \<or> zone (sf_timezone f)) \<and> filled (sf_cancellation_key f)"
| "sound_fields zone s (JoinStep p n) \<longleftrightarrow> st_kind s = ''join'' \<and> p \<in> {JStr ''any_success'', JStr ''all_success''} \<and> above 0 n"

definition sound_step :: "(json \<Rightarrow> bool) \<Rightarrow> bool \<Rightarrow> string set \<Rightarrow> plan_step \<Rightarrow> bool" where
  "sound_step zone external ids s \<longleftrightarrow>
     sound_fields zone s (st_fields s) \<and> strict_json (step_to_dict s) \<and> st_id s \<noteq> [] \<and>
     (\<forall>v\<in>set (st_depends_on s). \<exists>d. v = JStr d \<and> d \<noteq> [] \<and> (d \<in> ids \<or> external)) \<and>
     (\<forall>p. st_success_criteria s = Some p \<longrightarrow> sound_predicate (Some {st_id s}) True p) \<and>
     (\<forall>c. st_condition s = Some c \<longrightarrow> sc_mode c \<in> {''continue_if'', ''skip_if''} \<and>
        (\<exists>p. to_predicate c = Some p \<and> sound_predicate (Some ids) False p))"

section \<open>Dependencies and budgets\<close>

definition needs :: "plan_step list \<Rightarrow> (string \<times> string) set" where
  "needs steps = {(st_id s, st_id u) | s u. s \<in> set steps \<and> u \<in> set steps \<and> JStr (st_id u) \<in> set (st_depends_on s)}"

text \<open>What a step asks for, by the kind of its fields.\<close>

fun whole :: "json \<Rightarrow> int" where
  "whole (JInt i) = i"
| "whole v = 0"

fun seconds :: "json \<Rightarrow> real" where
  "seconds (JInt i) = real_of_int i"
| "seconds (JFloat (Fin r)) = r"
| "seconds v = 0"

definition asked_retries :: "plan_step \<Rightarrow> int" where
  "asked_retries s = (if st_kind s \<noteq> ''tool'' then 0 else case st_fields s of
     PlanStep t \<Rightarrow> whole (tf_retry_budget t) | ToolStep t \<Rightarrow> whole (tf_retry_budget t) | _ \<Rightarrow> 0)"

definition asked_timeout :: "plan_step \<Rightarrow> real" where
  "asked_timeout s = (if st_kind s \<noteq> ''tool'' then 0 else case st_fields s of
     PlanStep t \<Rightarrow> seconds (tf_timeout_seconds t) | ToolStep t \<Rightarrow> seconds (tf_timeout_seconds t) | _ \<Rightarrow> 0)"

definition asked_schedule :: "plan_step \<Rightarrow> int" where
  "asked_schedule s = (case st_fields s of
     ScheduleStep f \<Rightarrow> whole (if sf_schedule_mode f = JStr ''once'' then sf_run_after_seconds f else sf_interval_seconds f) | _ \<Rightarrow> 0)"

definition within_budgets :: "plan_limits \<Rightarrow> plan_step list \<Rightarrow> bool" where
  "within_budgets lm steps \<longleftrightarrow>
     (\<Sum>s\<leftarrow>steps. asked_retries s) \<le> lm_retry_budget lm \<and>
     (\<Sum>s\<leftarrow>steps. asked_timeout s) \<le> real_of_int (lm_timeout_seconds lm) \<and>
     (\<Sum>s\<leftarrow>steps. case st_fields s of AnalysisStep i n \<Rightarrow> whole i | _ \<Rightarrow> 0) \<le> lm_analysis_input lm \<and>
     (\<Sum>s\<leftarrow>steps. case st_fields s of AnalysisStep i n \<Rightarrow> whole n | _ \<Rightarrow> 0) \<le> lm_analysis_output lm \<and>
     (\<Sum>s\<leftarrow>steps. case st_fields s of AgentStep m t b \<Rightarrow> whole t | _ \<Rightarrow> 0) \<le> lm_agent_tokens lm \<and>
     (\<Sum>s\<leftarrow>steps. case st_fields s of AgentStep m t b \<Rightarrow> whole b | _ \<Rightarrow> 0) \<le> lm_agent_capabilities lm \<and>
     (\<Sum>s\<leftarrow>steps. asked_schedule s) \<le> lm_schedule_seconds lm \<and>
     (\<Sum>s\<leftarrow>steps. case st_fields s of JoinStep p n \<Rightarrow> whole n | _ \<Rightarrow> 0) \<le> lm_join_chars lm"

definition sound_plan :: "(json \<Rightarrow> bool) \<Rightarrow> plan_limits \<Rightarrow> plan_step list \<Rightarrow> bool" where
  "sound_plan zone lm steps \<longleftrightarrow>
     length steps \<le> lm_steps lm \<and> distinct (map st_id steps) \<and>
     (\<forall>s\<in>set steps. sound_step zone (lm_external_dependencies lm) (st_id ` set steps) s) \<and>
     acyclic (needs steps) \<and> within_budgets lm steps"

section \<open>The checks of predicates\<close>

lemma operator_kinds:
  "op \<in> predicate_operators \<longleftrightarrow> op \<in> test_operators \<or> op \<in> combining_operators"
  "op \<in> combinators \<longleftrightarrow> op \<in> combining_operators"
  "op \<in> test_operators \<Longrightarrow> op \<notin> combining_operators"
  by (auto simp: predicate_operators_def combinators_def test_operators_def combining_operators_def)

lemma source_fits_exact: "(src = [] \<longrightarrow> implicit) \<and> \<not> unknown_source known src \<longleftrightarrow> source_fits known implicit src"
  by (auto simp: unknown_source_def source_fits_def split: option.splits)

lemma leaf_exact:
  "first_error (leaf_checks known implicit src no_values has_children) = None \<longleftrightarrow>
     \<not> has_children \<and> \<not> no_values \<and> source_fits known implicit src"
  unfolding source_fits_exact [symmetric] by (auto simp: leaf_checks_def)

lemma node_exact: "check_node known implicit n = None \<longleftrightarrow> sound_node known implicit n"
proof (induction n)
  case (PredicateNode op source vals children)
  have kids: "first_some (map (check_node known implicit) children) = None \<longleftrightarrow> (\<forall>c\<in>set children. sound_node known implicit c)"
    using PredicateNode.IH by (auto simp: first_some_None)
  consider "op \<in> combining_operators" | "op \<in> test_operators" "op \<notin> combining_operators"
    | "op \<notin> combining_operators" "op \<notin> test_operators"
    by blast
  then show ?case
  proof cases
    case 1
    then have "op \<notin> test_operators" using operator_kinds(3) by blast
    with 1 show ?thesis by (auto simp: or_else_None kids operator_kinds sound_node_simps)
  next
    case 2
    then show ?thesis by (auto simp: or_else_None operator_kinds sound_node_simps leaf_exact)
  next
    case 3
    then show ?thesis by (simp add: or_else_None operator_kinds sound_node_simps)
  qed
qed

lemma field_reads: "dict_get d k = field_of d k JNull" "get_or d k v = field_of d k v"
  by (auto simp: dict_get_def get_or_def dict_has_def field_of_def split: option.splits)

text \<open>The checks of an object that are not about its children's own form.\<close>

definition leaf_object :: "string set option \<Rightarrow> bool \<Rightarrow> dict \<Rightarrow> string \<Rightarrow> bool" where
  "leaf_object known implicit d op \<longleftrightarrow> op \<in> test_operators \<and>
     (\<exists>src vals. (field_of d ''source_step_id'' JNull = JNull \<and> src = [] \<or> field_of d ''source_step_id'' JNull = JStr src) \<and>
        source_fits known implicit src \<and> field_of d ''values'' (JList []) = JList (map JStr vals) \<and> vals \<noteq> []) \<and>
     field_of d ''children'' (JList []) \<in> {JList [], JStr [], JObj []}"

definition combining_object :: "dict \<Rightarrow> string \<Rightarrow> bool" where
  "combining_object d op \<longleftrightarrow> op \<in> combining_operators \<and> field_of d ''source_step_id'' JNull = JNull \<and>
     field_of d ''values'' (JList []) = JList [] \<and> (\<exists>cs. field_of d ''children'' (JList []) = JList cs \<and> cs \<noteq> [])"

lemma strings_only: "is_json_list v \<and> list_all is_json_str (json_items v) \<longleftrightarrow> (\<exists>ss. v = JList (map JStr ss))"
proof
  assume v: "is_json_list v \<and> list_all is_json_str (json_items v)"
  then obtain xs where xs: "v = JList xs" by (cases v) (auto simp: is_json_list_def)
  with v have "\<forall>x\<in>set xs. \<exists>s. x = JStr s" by (simp add: json_items_def list_all_iff is_json_str_def split: json.splits) (metis json.exhaust)
  then show "\<exists>ss. v = JList (map JStr ss)" unfolding xs by (metis ex_map_conv)
qed (auto simp: is_json_list_def json_items_def list_all_iff is_json_str_def)

lemma falsy_iterable: "\<not> truthy v \<and> \<not> not_iterable v \<longleftrightarrow> v \<in> {JList [], JStr [], JObj []}"
  by (cases v) (auto simp: not_iterable_def)

lemma object_checks_split:
  "first_error (object_checks known implicit d) = None \<longleftrightarrow>
     fst ` set d \<subseteq> predicate_fields \<and>
     (\<exists>op. field_of d ''op'' JNull = JStr op \<and> (op \<in> test_operators \<or> op \<in> combining_operators) \<and>
        (field_of d ''source_step_id'' JNull = JNull \<or> is_json_str (field_of d ''source_step_id'' JNull)) \<and>
        (\<exists>ss. field_of d ''values'' (JList []) = JList (map JStr ss)) \<and>
        (if op \<in> combining_operators
         then field_of d ''source_step_id'' JNull = JNull \<and> \<not> truthy (field_of d ''values'' (JList [])) \<and>
           is_json_list (field_of d ''children'' (JList [])) \<and> truthy (field_of d ''children'' (JList []))
         else \<not> truthy (field_of d ''children'' (JList [])) \<and> truthy (field_of d ''values'' (JList [])) \<and>
           source_fits known implicit (json_string (field_of d ''source_step_id'' JNull)) \<and>
           \<not> not_iterable (field_of d ''children'' (JList []))))"
  (is "?checks \<longleftrightarrow> _ \<and> (\<exists>op. ?rest op)")
proof (cases "is_json_str (field_of d ''op'' JNull)")
  case False
  then have "\<nexists>op. field_of d ''op'' JNull = JStr op" by (auto simp: is_json_str_def)
  moreover have "\<not> ?checks" using False unfolding first_error_None object_checks_def Let_def field_reads by simp
  ultimately show ?thesis by blast
next
  case True
  then obtain op where op: "field_of d ''op'' JNull = JStr op" by (auto simp: is_json_str_def split: json.splits)
  then have str: "json_string (field_of d ''op'' JNull) = op" "hashable (field_of d ''op'' JNull)"
    by (simp_all add: json_string_def hashable_def)
  have split: "first_error (cs @ ds) = None \<longleftrightarrow> first_error cs = None \<and> first_error ds = None" for cs ds :: "(bool \<times> plan_error) list"
    by (auto simp: first_error_None)
  have "?checks \<longleftrightarrow> fst ` set d \<subseteq> predicate_fields \<and> ?rest op"
  proof (cases "op \<in> combining_operators")
    case comb: True
    show ?thesis
      unfolding object_checks_def Let_def field_reads split str strings_only [symmetric] predicate_fields_def [symmetric]
        operator_kinds(1,2) if_P [OF comb] first_error.simps
      using comb True str op by (simp add: imp_conjL)
  next
    case single: False
    show ?thesis
      unfolding object_checks_def Let_def field_reads split str strings_only [symmetric] predicate_fields_def [symmetric]
        operator_kinds(1,2) if_not_P [OF single] first_error.simps
      using single True str op by (simp add: split leaf_exact)  (blast intro: str)
  qed
  then show ?thesis unfolding op by simp
qed

lemma object_exact:
  "first_error (object_checks known implicit d) = None \<longleftrightarrow>
     fst ` set d \<subseteq> predicate_fields \<and>
     (\<exists>op. field_of d ''op'' JNull = JStr op \<and> (leaf_object known implicit d op \<or> combining_object d op))"
proof -
  let ?src = "field_of d ''source_step_id'' JNull" and ?vals = "field_of d ''values'' (JList [])"
    and ?kids = "field_of d ''children'' (JList [])"
  have src: "?src = JNull \<or> is_json_str ?src \<longleftrightarrow> ?src = JNull \<or> (\<exists>s. ?src = JStr s)"
    by (auto simp: is_json_str_def split: json.splits)
  have comb: "is_json_list ?kids \<and> truthy ?kids \<longleftrightarrow> (\<exists>cs. ?kids = JList cs \<and> cs \<noteq> [])"
    by (cases ?kids) (simp_all add: is_json_list_def)
  have empty: "(\<exists>ss. ?vals = JList (map JStr ss)) \<and> \<not> truthy ?vals \<longleftrightarrow> ?vals = JList []" by auto
  have some: "(\<exists>ss. ?vals = JList (map JStr ss)) \<and> truthy ?vals \<longleftrightarrow> (\<exists>ss. ?vals = JList (map JStr ss) \<and> ss \<noteq> [])" by auto
  have named: "(?src = JNull \<or> (\<exists>s. ?src = JStr s)) \<and> source_fits known implicit (json_string ?src) \<longleftrightarrow>
      (\<exists>s. (?src = JNull \<and> s = [] \<or> ?src = JStr s) \<and> source_fits known implicit s)"
    by (auto simp: json_string_def)
  have "(op \<in> test_operators \<or> op \<in> combining_operators) \<and> (?src = JNull \<or> is_json_str ?src) \<and> (\<exists>ss. ?vals = JList (map JStr ss)) \<and>
      (if op \<in> combining_operators then ?src = JNull \<and> \<not> truthy ?vals \<and> is_json_list ?kids \<and> truthy ?kids
       else \<not> truthy ?kids \<and> truthy ?vals \<and> source_fits known implicit (json_string ?src) \<and> \<not> not_iterable ?kids) \<longleftrightarrow>
      leaf_object known implicit d op \<or> combining_object d op" for op
  proof (cases "op \<in> combining_operators")
    case True
    then have "op \<notin> test_operators" using operator_kinds(3) by blast
    with True show ?thesis
      unfolding leaf_object_def combining_object_def comb [symmetric] empty [symmetric] by auto
  next
    case False
    then show ?thesis
      unfolding leaf_object_def combining_object_def falsy_iterable [symmetric] src using named some by auto
  qed
  then show ?thesis unfolding object_checks_split by auto
qed

lemma sound_object_iff:
  "sound_object known implicit v \<longleftrightarrow> v = JNull \<or> (\<exists>d op. v = JObj d \<and> fst ` set d \<subseteq> predicate_fields \<and>
     field_of d ''op'' JNull = JStr op \<and> (leaf_object known implicit d op \<or> combining_object d op) \<and>
     (\<forall>c\<in>set (json_items (field_of d ''children'' (JList []))). sound_object known implicit c))"
  (is "?l \<longleftrightarrow> ?r")
proof
  assume ?l
  then show ?r
  proof cases
    case absent
    then show ?thesis by simp
  next
    case (leaf d op src vals)
    then have "leaf_object known implicit d op" unfolding leaf_object_def by blast
    moreover have "json_items (field_of d ''children'' (JList [])) = []" using leaf by (auto simp: json_items_def)
    ultimately show ?thesis using leaf by auto
  next
    case (combination d op children)
    then have "combining_object d op" unfolding combining_object_def by blast
    with combination show ?thesis by (auto simp: json_items_def)
  qed
next
  assume ?r
  then show ?l
  proof (elim disjE exE conjE)
    fix d op
    assume v: "v = JObj d" "fst ` set d \<subseteq> predicate_fields" "field_of d ''op'' JNull = JStr op"
      and "leaf_object known implicit d op"
    then show ?l unfolding leaf_object_def v(1) by (blast intro: sound_object.leaf)
  next
    fix d op
    assume v: "v = JObj d" "fst ` set d \<subseteq> predicate_fields" "field_of d ''op'' JNull = JStr op"
      and kids: "\<forall>c\<in>set (json_items (field_of d ''children'' (JList []))). sound_object known implicit c"
      and "combining_object d op"
    then obtain cs where cs: "op \<in> combining_operators" "field_of d ''source_step_id'' JNull = JNull"
      "field_of d ''values'' (JList []) = JList []" "field_of d ''children'' (JList []) = JList cs" "cs \<noteq> []"
      unfolding combining_object_def by blast
    with kids have "\<forall>c\<in>set cs. sound_object known implicit c" by (simp add: json_items_def)
    with v cs show ?l by (auto intro: sound_object.combination)
  qed (simp add: sound_object.absent)
qed

lemma json_exact: "check_json known implicit v = None \<longleftrightarrow> sound_object known implicit v"
proof (induction v rule: measure_induct_rule [of size])
  case (less v)
  show ?case
  proof (cases v)
    case (JObj d)
    have "check_json known implicit c = None \<longleftrightarrow> sound_object known implicit c" if "c \<in> set (json_items (field_of d ''children'' (JList [])))" for c
      using less.IH json_items_smaller [of c d "''children''"] that JObj by (simp add: field_reads)
    then have "first_some (map (check_json known implicit) (json_items (field_of d ''children'' (JList [])))) = None \<longleftrightarrow>
        (\<forall>c\<in>set (json_items (field_of d ''children'' (JList []))). sound_object known implicit c)"
      by (auto simp: first_some_None)
    then show ?thesis
      unfolding JObj sound_object_iff [of known implicit "JObj d"] check_json.simps [of known implicit "JObj d"]
      by (simp add: or_else_None object_exact field_reads) blast
  qed (simp_all add: check_json.simps sound_object_simps)
qed

lemma predicate_exact: "check_predicate known implicit p = None \<longleftrightarrow> sound_predicate known implicit p"
proof (induction p)
  case (PCombine op children)
  have kids: "first_some (map (check_predicate known implicit) children) = None \<longleftrightarrow> (\<forall>c\<in>set children. sound_predicate known implicit c)"
    using PCombine.IH by (auto simp: first_some_None)
  have "check_predicate known implicit (PCombine op children) = None \<longleftrightarrow>
      op \<in> combining_operators \<and> children \<noteq> [] \<and> (\<forall>c\<in>set children. sound_predicate known implicit c)"
    by (auto simp: or_else_None kids operator_kinds leaf_exact)
  then show ?case by (simp only: sound_predicate_simps)
qed (simp_all add: node_exact json_exact sound_predicate_simps)

section \<open>The checks of steps\<close>

lemma json_forms:
  "nonblank v \<longleftrightarrow> filled v" "positive_int v \<longleftrightarrow> above 0 v" "natural_int v \<longleftrightarrow> above (- 1) v"
  "valid_timeout v \<longleftrightarrow> above 0 v \<or> (\<exists>r>0. v = JFloat (Fin r))"
  by (auto simp: nonblank_def filled_def positive_int_def above_def natural_int_def valid_timeout_def split: json.splits pyfloat.splits)

lemma filled_forms: "filled v \<Longrightarrow> truthy v" "filled v \<Longrightarrow> v \<noteq> JNull" "above n v \<Longrightarrow> v \<noteq> JNull"
  by (auto simp: filled_def py_strip_def above_def)

lemma owner_filled: "v \<in> retry_owners \<Longrightarrow> filled v"
proof -
  have filled: "filled (JStr (c # s))" if "\<not> py_isspace c" for c s
    using that by (simp add: filled_def py_strip_def)
  assume "v \<in> retry_owners"
  then consider "v = JStr ''step_executor''" | "v = JStr ''provider''" | "v = JStr ''tool_adapter''" | "v = JStr ''none''"
    unfolding retry_owners_def by blast
  then show ?thesis by cases (simp_all add: filled py_isspace_def)
qed

lemma object_form: "is_object v \<longleftrightarrow> (\<exists>d. v = JObj d)"
  by (cases v) simp_all

lemma tool_exact: "first_error (tool_checks s t) = None \<longleftrightarrow> sound_tool s t"
proof -
  have owners: "JStr ` {''step_executor'', ''provider'', ''tool_adapter'', ''none''} = retry_owners"
    by (simp add: retry_owners_def)
  show ?thesis
  proof (cases "st_plan_version s < 2")
    case True
    then show ?thesis
      unfolding first_error_None sound_tool_def tool_checks_def json_forms owners object_form
      by (auto dest: filled_forms)
  next
    case False
    then show ?thesis
      unfolding first_error_None sound_tool_def tool_checks_def json_forms owners object_form
      by (auto dest: filled_forms owner_filled)
  qed
qed

lemma fields_exact:
  "st_kind s \<in> {''analysis'', ''agent'', ''tool'', ''schedule'', ''join''} \<and> variant_matches (st_kind s) (st_fields s) \<and>
     (st_kind s = ''tool'' \<longrightarrow> (\<exists>t. tool_of (st_fields s) = Some t \<and> sound_tool s t)) \<and>
     first_error (variant_checks zone (st_fields s)) = None \<longleftrightarrow> sound_fields zone s (st_fields s)"
proof (cases "st_fields s")
  case (ScheduleStep f)
  have "is_json_str (sf_prompt f) \<longleftrightarrow> (\<exists>p. sf_prompt f = JStr p)" by (auto simp: is_json_str_def split: json.splits)
  with ScheduleStep show ?thesis
    by (auto simp: variant_matches_def tool_of_def variant_checks_def json_forms)
qed (auto simp: variant_matches_def tool_of_def variant_checks_def json_forms)

lemma deps_exact: "list_all is_dep vs \<longleftrightarrow> (\<forall>v\<in>set vs. \<exists>d. v = JStr d \<and> d \<noteq> [])"
proof -
  have "is_dep v \<longleftrightarrow> (\<exists>d. v = JStr d \<and> d \<noteq> [])" for v
    by (cases v) (simp_all add: is_dep_def is_json_str_def json_string_def)
  then show ?thesis by (simp add: list_all_iff)
qed

lemma step_checks_split:
  "first_error (step_checks zone {} s) = None \<longleftrightarrow>
     sound_fields zone s (st_fields s) \<and> strict_json (step_to_dict s) \<and> st_id s \<noteq> [] \<and>
     (\<forall>v\<in>set (st_depends_on s). \<exists>d. v = JStr d \<and> d \<noteq> [])"
proof -
  have "first_error (step_checks zone {} s) = None \<longleftrightarrow>
      (st_kind s \<in> {''analysis'', ''agent'', ''tool'', ''schedule'', ''join''} \<and> variant_matches (st_kind s) (st_fields s) \<and>
       (st_kind s = ''tool'' \<longrightarrow> (\<exists>t. tool_of (st_fields s) = Some t \<and> first_error (tool_checks s t) = None)) \<and>
       first_error (variant_checks zone (st_fields s)) = None) \<and>
      strict_json (step_to_dict s) \<and> st_id s \<noteq> [] \<and> list_all is_dep (st_depends_on s)"
    unfolding first_error_None step_checks_def by (auto split: option.splits)
  then show ?thesis unfolding tool_exact fields_exact deps_exact by blast
qed

lemma links_exact:
  "check_links lm ids s = None \<longleftrightarrow>
     (\<forall>p. st_success_criteria s = Some p \<longrightarrow> sound_predicate (Some {st_id s}) True p) \<and>
     (\<forall>d\<in>set (dep_ids s). d \<in> ids \<or> lm_external_dependencies lm) \<and>
     (\<forall>c. st_condition s = Some c \<longrightarrow> sc_mode c \<in> {''continue_if'', ''skip_if''} \<and>
        (\<exists>p. to_predicate c = Some p \<and> sound_predicate (Some ids) False p))"
  unfolding check_links_def or_else_None first_error_None
  by (auto simp: predicate_exact split: option.splits if_splits)

lemma step_exact:
  "first_error (step_checks zone {} s) = None \<and> check_links lm ids s = None \<longleftrightarrow>
     sound_step zone (lm_external_dependencies lm) ids s"
proof -
  have "(\<forall>v\<in>set (st_depends_on s). \<exists>d. v = JStr d \<and> d \<noteq> []) \<and> (\<forall>d\<in>set (dep_ids s). d \<in> ids \<or> lm_external_dependencies lm) \<longleftrightarrow>
      (\<forall>v\<in>set (st_depends_on s). \<exists>d. v = JStr d \<and> d \<noteq> [] \<and> (d \<in> ids \<or> lm_external_dependencies lm))"
    unfolding dep_ids_def json_string_def by force
  then show ?thesis unfolding step_checks_split links_exact sound_step_def by blast
qed

section \<open>Dependencies and budgets\<close>

lemma needs_exact:
  assumes "distinct (map st_id steps)" and "\<forall>s\<in>set steps. \<forall>v\<in>set (st_depends_on s). \<exists>d. v = JStr d \<and> d \<noteq> []"
  shows "dep_edges (plan_graph steps) = needs steps"
proof
  have nodes: "nodes (plan_graph steps) = st_id ` set steps" by (auto simp: nodes_def plan_graph_def image_image)
  show "dep_edges (plan_graph steps) \<subseteq> needs steps"
  proof (clarify)
    fix x d
    assume "(x, d) \<in> dep_edges (plan_graph steps)"
    then have edge: "d \<in> set (successors (plan_graph steps) x)" "d \<in> st_id ` set steps" by (auto simp: dep_edges_def nodes)
    then obtain ds where "map_of (plan_graph steps) x = Some ds" "d \<in> set ds" by (cases "map_of (plan_graph steps) x") (simp_all add: successors_def)
    from this have "(x, ds) \<in> set (plan_graph steps)" "d \<in> set ds" by (auto dest: map_of_SomeD)
    then obtain s where s: "s \<in> set steps" "x = st_id s" "d \<in> set (dep_ids s)" by (auto simp: plan_graph_def)
    then obtain v where "v \<in> set (st_depends_on s)" "d = json_string v" by (auto simp: dep_ids_def)
    with s assms(2) have "JStr d \<in> set (st_depends_on s)" by (force simp: json_string_def)
    with s edge show "(x, d) \<in> needs steps" by (auto simp: needs_def)
  qed
  show "needs steps \<subseteq> dep_edges (plan_graph steps)"
  proof (clarify)
    fix x d
    assume "(x, d) \<in> needs steps"
    then obtain s u where su: "s \<in> set steps" "u \<in> set steps" "x = st_id s" "d = st_id u" "JStr d \<in> set (st_depends_on s)"
      by (auto simp: needs_def)
    then have "d \<in> set (dep_ids s)" by (force simp: dep_ids_def json_string_def)
    with su plan_edges [OF assms(1)] show "(x, d) \<in> dep_edges (plan_graph steps)" by blast
  qed
qed

lemma asked_forms: "int_value = whole" "number_value = seconds"
proof -
  show "int_value = whole" by (rule ext, rename_tac v, case_tac v) (simp_all add: int_value_def)
  show "number_value = seconds"
  proof
    fix v show "number_value v = seconds v"
      by (cases v rule: seconds.cases) (simp_all add: number_value_def)
  qed
qed

lemma tool_sums:
  "(\<Sum>t\<leftarrow>tool_fields_of steps. f t) =
     (\<Sum>s\<leftarrow>steps. if st_kind s \<noteq> ''tool'' then 0 else case tool_of (st_fields s) of None \<Rightarrow> 0 | Some t \<Rightarrow> f t)"
  for f :: "tool_fields \<Rightarrow> 'a::comm_monoid_add"
  unfolding tool_fields_of_def by (induction steps) (auto split: option.splits)

lemma tool_part:
  "(case tool_of g of None \<Rightarrow> e | Some t \<Rightarrow> f t) = (case g of PlanStep t \<Rightarrow> f t | ToolStep t \<Rightarrow> f t | _ \<Rightarrow> e)"
  by (cases g) (simp_all add: tool_of_def)

lemma budgets_exact: "budgets_ok lm steps \<longleftrightarrow> within_budgets lm steps"
proof -
  have "total_retries steps = (\<Sum>s\<leftarrow>steps. asked_retries s)" "total_timeout steps = (\<Sum>s\<leftarrow>steps. asked_timeout s)"
    unfolding total_retries_def total_timeout_def comp_def tool_sums tool_part asked_retries_def asked_timeout_def asked_forms
    by (rule refl)+
  then show ?thesis
    unfolding budgets_ok_def within_budgets_def total_def comp_def analysis_input_def analysis_output_def agent_tokens_def
      agent_capabilities_def schedule_seconds_def join_chars_def asked_schedule_def asked_forms
    by simp
qed

section \<open>The gate accepts exactly the described plans\<close>

text \<open>C10. The gate accepts a plan if and only if it is sound: no more steps than allowed; distinct,
  non-empty names; every step of a known kind, with the fields of its kind in range, serialised to strict
  JSON; every dependency a non-empty text that names a step of the plan (or any, where external ones are
  allowed); success criteria and conditions well-formed predicates about known steps; no step needs itself,
  directly or through others; and the eight sums over the steps within their budgets. The description is
  made from the steps alone and uses none of the gate's checks.\<close>

theorem plan_gate_exact: "validate_plan zone lm steps = None \<longleftrightarrow> sound_plan zone lm steps"
proof (cases "distinct (map st_id steps) \<and> (\<forall>s\<in>set steps. sound_step zone (lm_external_dependencies lm) (st_id ` set steps) s)")
  case True
  then have "dep_edges (plan_graph steps) = needs steps" by (intro needs_exact) (simp, simp add: sound_step_def, blast)
  with True show ?thesis
    unfolding validate_plan_exact plan_valid_def sound_plan_def budgets_exact step_exact set_map by simp
next
  case False
  then show ?thesis unfolding validate_plan_exact plan_valid_def sound_plan_def budgets_exact step_exact set_map by blast
qed

theorem plan_gate_exact_witness:
  "sound_plan (\<lambda>_. True) default_limits [sample_step ''a'' [''b''], sample_step ''b'' []] \<and>
   \<not> sound_plan (\<lambda>_. True) default_limits [sample_step ''a'' [''c''], sample_step ''b'' []] \<and>
   \<not> sound_plan (\<lambda>_. True) default_limits [sample_step ''a'' [''a'']]"
proof (intro conjI)
  show "sound_plan (\<lambda>_. True) default_limits [sample_step ''a'' [''b''], sample_step ''b'' []]"
    using sample_plan_accepted unfolding plan_gate_exact .
  show "\<not> sound_plan (\<lambda>_. True) default_limits [sample_step ''a'' [''c''], sample_step ''b'' []]"
    by (simp add: sound_plan_def sound_step_def sample_step_def default_limits_def)
  show "\<not> sound_plan (\<lambda>_. True) default_limits [sample_step ''a'' [''a'']]"
  proof -
    have "(''a'', ''a'') \<in> needs [sample_step ''a'' [''a'']]" by (simp add: needs_def sample_step_def)
    then show ?thesis by (auto simp: sound_plan_def acyclic_def)
  qed
qed

end
