(* ===== verification/Json_Order.thy ===== *)
theory Json_Order
  imports Python_Json "HOL-Library.List_Lexorder" "HOL-Library.Char_ord"
begin

text \<open>
  JSON values up to the order of keys: \<open>sort_json\<close> is the value that \<open>json.dumps(sort_keys=True)\<close> writes,
  and two dictionaries are equal in Python if and only if their sorted values are. A value read
  from strict JSON has distinct keys.
\<close>

lemma json_child_smaller:
  "(k, c) \<in> set d \<Longrightarrow> size c < size (JObj d)" "x \<in> set xs \<Longrightarrow> size x < size (JList xs)"
  by (induction d) (auto, induction xs, auto)

function sort_json :: "json \<Rightarrow> json" where
  "sort_json v = (case v of
     JObj d \<Rightarrow> JObj (sort_key fst (map (\<lambda>(k, c). (k, sort_json c)) d))
   | JList xs \<Rightarrow> JList (map sort_json xs)
   | _ \<Rightarrow> v)"
  by pat_completeness auto

termination by (relation "measure size") (auto dest: json_child_smaller)

declare sort_json.simps [simp del]

function distinct_keys :: "json \<Rightarrow> bool" where
  "distinct_keys v = (case v of
     JObj d \<Rightarrow> distinct (map fst d) \<and> (\<forall>(k, c)\<in>set d. distinct_keys c)
   | JList xs \<Rightarrow> (\<forall>x\<in>set xs. distinct_keys x)
   | _ \<Rightarrow> True)"
  by pat_completeness auto

termination by (relation "measure size") (auto dest: json_child_smaller)

declare distinct_keys.simps [simp del]

text \<open>Python's equality of JSON values: numbers by value, dictionaries whatever their order. NaN counts as itself.\<close>

primrec number_normal :: "json \<Rightarrow> json" where
  "number_normal JNull = JNull"
| "number_normal (JBool b) = JInt (of_bool b)"
| "number_normal (JInt i) = JInt i"
| "number_normal (JFloat f) = (case f of Fin r \<Rightarrow> if of_int \<lfloor>r\<rfloor> = r then JInt \<lfloor>r\<rfloor> else JFloat f | _ \<Rightarrow> JFloat f)"
| "number_normal (JStr s) = JStr s"
| "number_normal (JList xs) = JList (map number_normal xs)"
| "number_normal (JObj d) = JObj (map (map_prod id number_normal) d)"

definition py_equal :: "json \<Rightarrow> json \<Rightarrow> bool" where
  "py_equal a b \<longleftrightarrow> sort_json (number_normal a) = sort_json (number_normal b)"

section \<open>Laws\<close>

lemma sort_json_simps [simp]:
  "sort_json (JObj d) = JObj (sort_key fst (map (\<lambda>e. (fst e, sort_json (snd e))) d))"
  "sort_json (JList xs) = JList (map sort_json xs)"
  "sort_json JNull = JNull" "sort_json (JBool b) = JBool b" "sort_json (JInt i) = JInt i"
  "sort_json (JFloat f) = JFloat f" "sort_json (JStr s) = JStr s"
  by (simp_all add: sort_json.simps split_def)

lemma distinct_keys_simps [simp]:
  "distinct_keys (JObj d) = (distinct (map fst d) \<and> (\<forall>e\<in>set d. distinct_keys (snd e)))"
  "distinct_keys (JList xs) = (\<forall>x\<in>set xs. distinct_keys x)"
  "distinct_keys JNull" "distinct_keys (JBool b)" "distinct_keys (JInt i)"
  "distinct_keys (JFloat f)" "distinct_keys (JStr s)"
  by (simp_all add: distinct_keys.simps split_def)

lemma json_measure_induct [case_names obj list leaf]:
  assumes "\<And>d. (\<And>e. e \<in> set d \<Longrightarrow> P (snd e)) \<Longrightarrow> P (JObj d)"
    and "\<And>xs. (\<And>x. x \<in> set xs \<Longrightarrow> P x) \<Longrightarrow> P (JList xs)"
    and "\<And>v. \<nexists>d. v = JObj d \<Longrightarrow> \<nexists>xs. v = JList xs \<Longrightarrow> P v"
  shows "P v"
proof (induction v rule: measure_induct_rule [of size])
  case (less v)
  show ?case
  proof (cases v)
    case (JObj d)
    have "P (snd e)" if "e \<in> set d" for e
      using less json_child_smaller(1) [of "fst e" "snd e" d] that JObj by simp
    then show ?thesis unfolding JObj by (rule assms(1))
  next
    case (JList xs)
    have "P x" if "x \<in> set xs" for x
      using less json_child_smaller(2) [OF that] JList by simp
    then show ?thesis unfolding JList by (rule assms(2))
  qed (rule assms(3); simp)+
qed

lemma map_fst_map_values [simp]: "map fst (map (\<lambda>e. (fst e, f (snd e))) d) = map fst d"
  by (simp add: comp_def)

lemma distinct_sorted_keys [simp]: "distinct (map fst (sort_key fst d)) = distinct (map fst d)"
  by (simp add: distinct_map)

lemma map_of_sorted:
  "distinct (map fst d) \<Longrightarrow> map_of (sort_key fst d) = map_of d" for d :: "('k::linorder \<times> 'v) list"
  by (rule map_of_inject_set [THEN iffD2]) simp_all

lemma map_of_values: "map_of (map (\<lambda>e. (fst e, f (snd e))) d) k = map_option f (map_of d k)"
  by (induction d) auto

lemma assoc_from_keys: "distinct (map fst d) \<Longrightarrow> d = map (\<lambda>k. (k, the (map_of d k))) (map fst d)"
  by (auto simp: comp_def intro!: map_idI [symmetric])

text \<open>An association list with distinct keys is determined by its lookups once it is sorted.\<close>

lemma sort_key_eqI:
  fixes d e :: "('k::linorder \<times> 'v) list"
  assumes "distinct (map fst d)" and "distinct (map fst e)" and "map_of d = map_of e"
  shows "sort_key fst d = sort_key fst e"
proof -
  have "fst ` set d = fst ` set e" using assms(3) by (metis dom_map_of_conv_image_fst)
  then have keys: "map fst (sort_key fst d) = map fst (sort_key fst e)"
    using assms(1,2) by (intro sorted_distinct_set_unique) (simp_all add: sorted_sort_key)
  have "map_of (sort_key fst d) = map_of (sort_key fst e)"
    using assms by (simp add: map_of_sorted)
  with keys assms(1,2) show ?thesis
    by (metis assoc_from_keys distinct_sorted_keys)
qed

abbreviation sorted_items :: "dict \<Rightarrow> dict" where
  "sorted_items d \<equiv> sort_key fst (map (\<lambda>e. (fst e, sort_json (snd e))) d)"

lemma fst_values [simp]: "fst \<circ> (\<lambda>e. (fst e, f (snd e))) = fst"
  by auto

lemma sort_json_leaf: "\<nexists>d. v = JObj d \<Longrightarrow> \<nexists>xs. v = JList xs \<Longrightarrow> sort_json v = v"
  by (cases v) auto

lemma distinct_keys_sort [simp]: "distinct_keys (sort_json v) = distinct_keys v"
  by (induction v rule: json_measure_induct) (auto simp: sort_json_leaf)

lemma sort_key_Nil [simp]: "sort_key f xs = [] \<longleftrightarrow> xs = []"
  by (metis length_0_conv length_sort)

lemma map_of_sorted_items:
  "distinct (map fst d) \<Longrightarrow> map_of (sorted_items d) k = map_option sort_json (map_of d k)"
  by (simp add: map_of_sorted map_of_values)

lemma dict_get_sorted [simp]:
  "distinct (map fst d) \<Longrightarrow> dict_get (sorted_items d) k = sort_json (dict_get d k)"
  by (simp add: dict_get_def map_of_sorted_items split: option.splits)

lemma dict_has_sorted [simp]: "distinct (map fst d) \<Longrightarrow> dict_has (sorted_items d) k = dict_has d k"
  by (simp add: dict_has_def map_of_sorted_items)

lemma fst_set_sorted [simp]: "fst ` set (sorted_items d) = fst ` set d"
  by (simp add: image_image)

lemma sort_json_idem [simp]: "distinct_keys v \<Longrightarrow> sort_json (sort_json v) = sort_json v"
proof (induction v rule: json_measure_induct)
  case (obj d)
  have dist: "distinct (map fst d)" "distinct (map fst (sorted_items d))" using obj.prems by simp_all
  have "map_of (sorted_items (sorted_items d)) k = map_of (sorted_items d) k" for k
  proof (cases "map_of d k")
    case None
    then show ?thesis by (simp only: map_of_sorted_items dist) simp
  next
    case (Some c)
    then have "(k, c) \<in> set d" by (rule map_of_SomeD)
    with obj have "sort_json (sort_json c) = sort_json c" by force
    with Some show ?thesis by (simp only: map_of_sorted_items dist) simp
  qed
  then have "sort_key fst (map (\<lambda>e. (fst e, sort_json (snd e))) (sorted_items d)) =
      sort_key fst (map (\<lambda>e. (fst e, sort_json (snd e))) d)"
    using dist(1) by (intro sort_key_eqI) (simp_all add: fun_eq_iff map_of_sorted map_of_values)
  then show ?case by simp
qed (auto simp: sort_json_leaf)

end
