(* ===== verification/Permission_Receipt.thy ===== *)
theory Permission_Receipt
  imports Json_Order "HOL-Library.Sublist"
begin

text \<open>
  Permission receipts (\<open>modules/agent/permission_receipt.py\<close>): which keys and texts look secret, the
  recursive redaction of tool parameters with the paths it reports, and the receipt with its
  serialised form. The rewriting of a text that is a URL (\<open>_sanitize_url\<close>, on \<open>urllib.parse\<close>) is the
  parameter \<open>url\<close>: the rewritten text and whether it differs.
\<close>

section \<open>Secret keys and texts\<close>

definition receipt_secret_parts :: "string list" where
  "receipt_secret_parts = [''api_key'', ''apikey'', ''auth'', ''authorization'', ''cookie'', ''credential'', ''passphrase'',
     ''password'', ''private_key'', ''secret'', ''token'']"

definition lower_alnum :: "char \<Rightarrow> bool" where
  "lower_alnum c = (let n = (of_char c :: nat) in (48 \<le> n \<and> n \<le> 57) \<or> (97 \<le> n \<and> n \<le> 122))"

text \<open>\<open>re.sub("[^a-z0-9]+", "_", s)\<close>: each run of other characters becomes one underscore.\<close>

fun underscore_runs :: "bool \<Rightarrow> string \<Rightarrow> string" where
  "underscore_runs inside [] = []"
| "underscore_runs inside (c # s) =
     (if lower_alnum c then c # underscore_runs False s
      else if inside then underscore_runs True s
      else CHR ''_'' # underscore_runs True s)"

definition strip_underscores :: "string \<Rightarrow> string" where
  "strip_underscores s = rev (dropWhile ((=) CHR ''_'') (rev (dropWhile ((=) CHR ''_'') s)))"

definition receipt_secret_key :: "string \<Rightarrow> bool" where
  "receipt_secret_key k =
     (let normalized = strip_underscores (underscore_runs False (py_lower k))
      in \<exists>part\<in>set receipt_secret_parts. sublist part normalized)"

definition upper_letter :: "char \<Rightarrow> bool" where
  "upper_letter c = (let n = (of_char c :: nat) in 65 \<le> n \<and> n \<le> 90)"

definition ascii_alnum :: "char \<Rightarrow> bool" where
  "ascii_alnum c \<longleftrightarrow> lower_alnum c \<or> upper_letter c"

definition ascii_digit :: "char \<Rightarrow> bool" where
  "ascii_digit c = (let n = (of_char c :: nat) in 48 \<le> n \<and> n \<le> 57)"

text \<open>\<open>[A-Za-z0-9_-]\<close>\<close>

definition key_char :: "char \<Rightarrow> bool" where
  "key_char c \<longleftrightarrow> ascii_alnum c \<or> c = CHR ''_'' \<or> c = CHR ''-''"

text \<open>The text after \<open>word\<close> in any case and at least one space, if it starts so.\<close>

definition after_scheme :: "string \<Rightarrow> string \<Rightarrow> string option" where
  "after_scheme word s =
     (let rest = drop (length word) s
      in if py_lower (take (length word) s) = word \<and> rest \<noteq> [] \<and> py_isspace (hd rest)
         then Some (dropWhile py_isspace rest) else None)"

definition bearer_text :: "string \<Rightarrow> bool" where
  "bearer_text s = (case after_scheme ''bearer'' s of None \<Rightarrow> False | Some r \<Rightarrow> r \<noteq> [])"

definition basic_auth_text :: "string \<Rightarrow> bool" where
  "basic_auth_text s = (case after_scheme ''basic'' s of None \<Rightarrow> False
     | Some r \<Rightarrow> r \<noteq> [] \<and> list_all (\<lambda>c. key_char c \<or> c \<in> {CHR ''+'', CHR ''/'', CHR ''=''}) r)"

fun split_dots :: "string \<Rightarrow> string list" where
  "split_dots [] = [[]]"
| "split_dots (c # s) = (if c = CHR ''.'' then [] # split_dots s
     else (case split_dots s of [] \<Rightarrow> [[c]] | p # ps \<Rightarrow> (c # p) # ps))"

definition jwt_text :: "string \<Rightarrow> bool" where
  "jwt_text s = (let parts = split_dots s
     in length parts = 3 \<and> list_all (\<lambda>p. length p \<ge> 8 \<and> list_all key_char p) parts)"

definition api_key_prefixes :: "string list" where
  "api_key_prefixes = [''sk'', ''pk'', ''rk'', ''ghp'', ''github_pat'', ''xoxb'', ''xoxa'', ''xoxp'', ''xoxr'', ''xoxs'', ''aiza'']"

definition api_key_text :: "string \<Rightarrow> bool" where
  "api_key_text s \<longleftrightarrow> (\<exists>p\<in>set api_key_prefixes. py_lower (take (length p) s) = p \<and>
     length s \<ge> length p + 12 \<and> list_all key_char (drop (length p) s))"

text \<open>
  \<open>pem_labels word s\<close>: the ends of \<open>-----word (LABEL )?PRIVATE KEY-----\<close> at the start of the lower-case text
  \<open>s\<close>, for every label that fits.
\<close>

definition pem_ends :: "string \<Rightarrow> string \<Rightarrow> string list" where
  "pem_ends word s =
     (let start = ''-----'' @ word @ '' ''; finish = ''private key-----''; rest = drop (length start) s
      in if \<not> prefix start s then []
         else (if prefix finish rest then [drop (length finish) rest] else []) @
           concat (map (\<lambda>n. if list_all (\<lambda>c. lower_alnum c \<or> c = CHR '' '') (take n rest) \<and> prefix ('' '' @ finish) (drop n rest)
                             then [drop (n + 1 + length finish) rest] else [])
             [1..<Suc (length rest)]))"

definition pem_text :: "string \<Rightarrow> bool" where
  "pem_text s = (let t = py_lower s
     in \<exists>u\<in>set (suffixes t). \<exists>r\<in>set (pem_ends ''begin'' u). \<exists>v\<in>set (suffixes r). pem_ends ''end'' v \<noteq> [])"

definition looks_secret :: "string \<Rightarrow> bool" where
  "looks_secret s =
     (let t = py_strip s
      in bearer_text t \<or> basic_auth_text t \<or> jwt_text t \<or> api_key_text t \<or> pem_text t \<or>
         (length t \<ge> 32 \<and> list_all key_char t \<and>
          (\<exists>c\<in>set t. ascii_alnum c \<and> \<not> ascii_digit c) \<and> (\<exists>c\<in>set t. ascii_digit c)))"

section \<open>Redaction\<close>

definition redacted :: json where
  "redacted = JStr ''[REDACTED]''"

definition secret_header :: "dict \<Rightarrow> bool" where
  "secret_header d = (case dict_get d ''name'' of
     JStr n \<Rightarrow> receipt_secret_key n \<and> dict_has d ''value'' | _ \<Rightarrow> False)"

definition secret_item :: "dict \<Rightarrow> string \<Rightarrow> bool" where
  "secret_item d k \<longleftrightarrow> receipt_secret_key k \<or> (secret_header d \<and> py_lower k = ''value'')"

definition item_path :: "string \<Rightarrow> string \<Rightarrow> string" where
  "item_path path k = path @ ''.'' @ k"

definition index_path :: "string \<Rightarrow> nat \<Rightarrow> string" where
  "index_path path i = path @ ''['' @ decimal_digits i @ '']''"

lemma child_smaller:
  "(k, c) \<in> set d \<Longrightarrow> size c < size (JObj d)" "(i, x) \<in> set (enumerate n xs) \<Longrightarrow> size x < size (JList xs)"
proof -
  show "size x < size (JList xs)" if "(i, x) \<in> set (enumerate n xs)"
    using that json_child_smaller(2) [of x xs] by (metis enumerate_eq_zip set_zip_rightD)
qed (rule json_child_smaller(1))

function redact :: "(string \<Rightarrow> string \<times> bool) \<Rightarrow> string \<Rightarrow> bool \<Rightarrow> json \<Rightarrow> json \<times> string list" where
  "redact url path secret v =
     (if secret then (redacted, [path])
      else case v of
        JObj d \<Rightarrow>
          (let rs = map (\<lambda>(k, c). (k, redact url (item_path path k) (secret_item d k) c)) d
           in (JObj (map (\<lambda>(k, r). (k, fst r)) rs), concat (map (\<lambda>(k, r). snd r) rs)))
      | JList xs \<Rightarrow>
          (let rs = map (\<lambda>(i, c). redact url (index_path path i) False c) (enumerate 0 xs)
           in (JList (map fst rs), concat (map snd rs)))
      | JStr s \<Rightarrow>
          (let (sanitized, changed) = url s
           in if changed then (JStr sanitized, [path])
              else if looks_secret s then (redacted, [path])
              else (JStr s, []))
      | _ \<Rightarrow> (v, []))"
  by pat_completeness auto

termination
  by (relation "measure (\<lambda>(u, p, s, v). size v)") (auto dest: child_smaller)

declare redact.simps [simp del]

definition redact_permission_parameters :: "(string \<Rightarrow> string \<times> bool) \<Rightarrow> json \<Rightarrow> json \<times> string list" where
  "redact_permission_parameters url v = redact url ''$'' False v"

section \<open>Receipts\<close>

datatype permission_decision = Required | Allowed | Denied

record permission_receipt =
  pr_agent_request_id :: string
  pr_permission_request_id :: string
  pr_capability_call_id :: string
  pr_decision :: permission_decision
  pr_reason_code :: string
  pr_retryable :: bool
  pr_permission_scope :: string
  pr_capability_id :: string
  pr_capability_type :: string
  pr_capability_kind :: string
  pr_risk_level :: string
  pr_parameters :: json
  pr_redacted_paths :: "string list"
  pr_decided_at :: "string option"

text \<open>\<open>fresh_request\<close> and \<open>fresh_call\<close> are the identifiers that are drawn when none is given.\<close>

definition build_permission_receipt ::
  "(string \<Rightarrow> string \<times> bool) \<Rightarrow> string \<Rightarrow> string \<Rightarrow> string \<Rightarrow> permission_decision \<Rightarrow> string \<Rightarrow> bool \<Rightarrow> string \<Rightarrow> string \<Rightarrow>
     string \<Rightarrow> string \<Rightarrow> string \<Rightarrow> json \<Rightarrow> string option \<Rightarrow> string option \<Rightarrow> string option \<Rightarrow> permission_receipt" where
  "build_permission_receipt url fresh_request fresh_call agent decision reason retryable scope cap_id cap_type cap_kind
       risk parameters request call decided_at =
     (let (safe, paths) = redact_permission_parameters url parameters
      in \<lparr>pr_agent_request_id = agent, pr_permission_request_id = text_or (text_or_empty request) fresh_request,
          pr_capability_call_id = text_or (text_or_empty call) fresh_call, pr_decision = decision,
          pr_reason_code = reason, pr_retryable = retryable, pr_permission_scope = scope, pr_capability_id = cap_id,
          pr_capability_type = cap_type, pr_capability_kind = cap_kind, pr_risk_level = risk, pr_parameters = safe,
          pr_redacted_paths = paths, pr_decided_at = decided_at\<rparr>)"

definition decision_text :: "permission_decision \<Rightarrow> string" where
  "decision_text d = (case d of Required \<Rightarrow> ''required'' | Allowed \<Rightarrow> ''allowed'' | Denied \<Rightarrow> ''denied'')"

text \<open>\<open>list(dict.fromkeys(xs))\<close>: the first occurrences in order.\<close>

definition first_occurrences :: "'a list \<Rightarrow> 'a list" where
  "first_occurrences xs = rev (remdups (rev xs))"

definition serialize_permission_receipt :: "(string \<Rightarrow> string \<times> bool) \<Rightarrow> permission_receipt option \<Rightarrow> json" where
  "serialize_permission_receipt url receipt =
     (case receipt of
        None \<Rightarrow> JNull
      | Some r \<Rightarrow>
          (let (safe, discovered) = redact_permission_parameters url (pr_parameters r)
           in JObj [(''agent_request_id'', JStr (pr_agent_request_id r)),
             (''permission_request_id'', JStr (pr_permission_request_id r)),
             (''capability_call_id'', JStr (pr_capability_call_id r)),
             (''decision'', JStr (decision_text (pr_decision r))), (''reason_code'', JStr (pr_reason_code r)),
             (''retryable'', JBool (pr_retryable r)), (''permission_scope'', JStr (pr_permission_scope r)),
             (''capability_id'', JStr (pr_capability_id r)), (''capability_type'', JStr (pr_capability_type r)),
             (''capability_kind'', JStr (pr_capability_kind r)), (''risk_level'', JStr (pr_risk_level r)),
             (''parameters'', safe),
             (''redacted_paths'', JList (map JStr (first_occurrences (pr_redacted_paths r @ discovered)))),
             (''decided_at'', json_text (pr_decided_at r)),
             (''schema_version'', JStr ''yuizaki.permission-receipt.v1'')]))"

section \<open>Laws of redaction\<close>

lemma redact_secret [simp]: "redact url path True v = (redacted, [path])"
  by (simp add: redact.simps)

lemma redact_open:
  "redact url path False (JObj d) =
     (JObj (map (\<lambda>(k, c). (k, fst (redact url (item_path path k) (secret_item d k) c))) d),
      concat (map (\<lambda>(k, c). snd (redact url (item_path path k) (secret_item d k) c)) d))"
  "redact url path False (JList xs) =
     (JList (map (\<lambda>(i, c). fst (redact url (index_path path i) False c)) (enumerate 0 xs)),
      concat (map (\<lambda>(i, c). snd (redact url (index_path path i) False c)) (enumerate 0 xs)))"
  "redact url path False (JStr s) =
     (if snd (url s) then (JStr (fst (url s)), [path])
      else if looks_secret s then (redacted, [path]) else (JStr s, []))"
  "redact url path False JNull = (JNull, [])" "redact url path False (JBool b) = (JBool b, [])"
  "redact url path False (JInt i) = (JInt i, [])" "redact url path False (JFloat f) = (JFloat f, [])"
  by (simp_all add: redact.simps [of url path False] Let_def comp_def case_prod_beta)
     (rule arg_cong [where f = concat], simp add: case_prod_beta)+

section \<open>What a redacted value shows\<close>

text \<open>The value at a path of keys and indices, and whether a secret key or header lies on the path.\<close>

datatype path_step = Key string | Index nat

fun value_at :: "json \<Rightarrow> path_step list \<Rightarrow> json option" where
  "value_at v [] = Some v"
| "value_at (JObj d) (Key k # p) = (case map_of d k of None \<Rightarrow> None | Some c \<Rightarrow> value_at c p)"
| "value_at (JList xs) (Index i # p) = (if i < length xs then value_at (xs ! i) p else None)"
| "value_at _ _ = None"

fun covered :: "json \<Rightarrow> path_step list \<Rightarrow> bool" where
  "covered (JObj d) (Key k # p) = (secret_item d k \<or> (case map_of d k of None \<Rightarrow> False | Some c \<Rightarrow> covered c p))"
| "covered (JList xs) (Index i # p) = (i < length xs \<and> covered (xs ! i) p)"
| "covered _ _ = False"

text \<open>A text that no secret key covers.\<close>

definition shown_text :: "(string \<Rightarrow> string \<times> bool) \<Rightarrow> string \<Rightarrow> json" where
  "shown_text url u = (if snd (url u) then JStr (fst (url u)) else if looks_secret u then redacted else JStr u)"

lemma map_of_mapped: "map_of (map (\<lambda>(k, c). (k, f k c)) d) k = map_option (f k) (map_of d k)"
  by (induction d) auto

lemma value_at_redacted: "value_at redacted p = (if p = [] then Some redacted else None)"
  by (cases p) (auto simp: redacted_def)

lemma map_of_child: "map_of d k = Some c \<Longrightarrow> size c < size (JObj d)"
  by (metis json_child_smaller(1) map_of_SomeD)

lemma redact_string:
  assumes "value_at v p = Some (JStr u)"
  shows "if covered v p then value_at (fst (redact url path False v)) p \<in> {None, Some redacted}
    else value_at (fst (redact url path False v)) p = Some (shown_text url u)"
  using assms
proof (induction v arbitrary: p path rule: measure_induct_rule [of size])
  case (less v)
  show ?case
  proof (cases p)
    case Nil
    with less.prems show ?thesis by (simp add: redact_open shown_text_def)
  next
    case (Cons x q)
    with less.prems consider (obj) d k c where "v = JObj d" "x = Key k" "map_of d k = Some c" "value_at c q = Some (JStr u)"
      | (list) xs i where "v = JList xs" "x = Index i" "i < length xs" "value_at (xs ! i) q = Some (JStr u)"
      by (cases v; cases x) (auto split: option.splits if_splits)
    then show ?thesis
    proof cases
      case obj
      then show ?thesis
        using Cons less.IH [OF _ obj(4), of "item_path path k"] map_of_child [OF obj(3)]
        by (cases "secret_item d k") (auto simp: redact_open map_of_mapped value_at_redacted split: if_splits)
    next
      case list
      then show ?thesis
        using Cons less.IH [OF _ list(4), of "index_path path i"] json_child_smaller(2) [of "xs ! i" xs]
        by (auto simp: redact_open nth_enumerate_eq split: if_splits)
    qed
  qed
qed

lemma redact_absent: "value_at v p = None \<Longrightarrow> value_at (fst (redact url path False v)) p = None"
proof (induction v arbitrary: p path rule: measure_induct_rule [of size])
  case (less v)
  then obtain x q where p: "p = x # q" by (cases p) auto
  show ?case
  proof (cases v)
    case (JObj d)
    show ?thesis
    proof (cases x)
      case (Key k)
      show ?thesis
      proof (cases "map_of d k")
        case (Some c)
        then have "value_at c q = None" using less.prems JObj Key p by simp
        with less.IH [of c q] map_of_child [OF Some] show ?thesis
          using Some JObj Key p
          by (cases "secret_item d k") (auto simp: redact_open map_of_mapped value_at_redacted)
      qed (use JObj Key p in \<open>simp add: redact_open map_of_mapped\<close>)
    qed (use JObj p in \<open>simp add: redact_open\<close>)
  next
    case (JList xs)
    with less p json_child_smaller(2) [of _ xs] show ?thesis
      by (cases x) (auto simp: redact_open nth_enumerate_eq)
  qed (use p in \<open>auto simp: redact_open redacted_def\<close>)
qed

lemma redact_unreported: "snd (redact url path False v) = [] \<Longrightarrow> fst (redact url path False v) = v"
proof (induction v arbitrary: path rule: measure_induct_rule [of size])
  case (less v)
  show ?case
  proof (cases v)
    case (JObj d)
    have "fst (redact url (item_path path k) (secret_item d k) c) = c" if "(k, c) \<in> set d" for k c
    proof -
      have none: "snd (redact url (item_path path k) (secret_item d k) c) = []"
        using less.prems that by (auto simp: JObj redact_open)
      then have "\<not> secret_item d k" by auto
      with none less.IH [of c "item_path path k"] json_child_smaller(1) [OF that] show ?thesis by (simp add: JObj)
    qed
    then show ?thesis by (auto simp: JObj redact_open intro!: map_idI)
  next
    case (JList xs)
    have "fst (redact url (index_path path i) False c) = c" if "(i, c) \<in> set (enumerate 0 xs)" for i c
      using less.IH [of c "index_path path i"] less.prems that child_smaller(2) [OF that] by (auto simp: JList redact_open)
    then have "map (\<lambda>(i, c). fst (redact url (index_path path i) False c)) (enumerate 0 xs) = map snd (enumerate 0 xs)"
      by (intro map_cong refl) auto
    then show ?thesis by (simp add: JList redact_open)
  qed (use less.prems in \<open>auto simp: redact_open split: if_splits\<close>)
qed

text \<open>Redaction is exact: a text of the parameters that no secret key or header covers appears at the
  same place as it is, sanitised if it is a URL with credentials, or as the redaction mark if it looks
  secret; a covered text never appears, only the mark at its place or above; nothing appears at a
  place the parameters do not have; and if no redacted path is reported the parameters are unchanged,
  which is when a call may be replayed with them.\<close>

theorem redaction_exact:
  assumes "redact_permission_parameters url v = (r, paths)"
  shows "(value_at v p = Some (JStr u) \<longrightarrow>
      (if covered v p then value_at r p \<in> {None, Some redacted} else value_at r p = Some (shown_text url u))) \<and>
    (value_at v p = None \<longrightarrow> value_at r p = None) \<and> (paths = [] \<longrightarrow> r = v)"
  using assms redact_string [of v p u url "''$''"] redact_absent [of v p url "''$''"] redact_unreported [of url "''$''" v]
  by (auto simp: redact_permission_parameters_def)

definition sample_parameters :: json where
  "sample_parameters = JObj [(''city'', JStr ''Rome''), (''password'', JStr ''x''), (''sent'', JStr ''Bearer y'')]"

theorem redaction_exact_witness:
  "\<exists>r paths. redact_permission_parameters (\<lambda>s. (s, False)) sample_parameters = (r, paths) \<and>
     value_at r [Key ''city''] = Some (JStr ''Rome'') \<and> value_at r [Key ''password''] \<in> {None, Some redacted} \<and>
     value_at r [Key ''sent''] = Some redacted"
proof -
  let ?url = "\<lambda>s. (s, False)"
  obtain r paths where red: "redact_permission_parameters ?url sample_parameters = (r, paths)" by fastforce
  have at: "value_at sample_parameters [Key ''city''] = Some (JStr ''Rome'')"
      "value_at sample_parameters [Key ''password''] = Some (JStr ''x'')"
      "value_at sample_parameters [Key ''sent''] = Some (JStr ''Bearer y'')"
      "\<not> covered sample_parameters [Key ''city'']" "covered sample_parameters [Key ''password'']"
      "\<not> covered sample_parameters [Key ''sent'']" "\<not> looks_secret ''Rome''" "looks_secret ''Bearer y''"
    by code_simp+
  then show ?thesis
    using redaction_exact [OF red, of "[Key ''city'']" "''Rome''"] redaction_exact [OF red, of "[Key ''password'']" "''x''"]
      redaction_exact [OF red, of "[Key ''sent'']" "''Bearer y''"] red
    by (auto simp: shown_text_def)
qed

end
