(* ===== verification/Policy_Engine.thy ===== *)
theory Policy_Engine
  imports Permission_Receipt Ordered_Dict
begin

text \<open>
  The permission policy of tools (\<open>modules/agent/policy_engine.py\<close>): remembered decisions, the audit log
  and their file, the decision on a tool call, and the requests that wait for the user's answer as
  asyncio futures. Clocks and fresh identifiers are arguments, and so is whether a write of the
  file succeeds (\<open>disk\<close>). A failed write is the error of the operation, in the state it leaves behind.
\<close>

section \<open>State\<close>

text \<open>The fields of a tool definition the policy reads.\<close>

record tool_definition =
  td_name :: string
  td_source :: string
  td_require_confirm :: bool
  td_risk_level :: string
  td_allow_remembered_decision :: bool

record audit_record =
  au_timestamp :: string
  au_tool_name :: "string option"
  au_capability_id :: "string option"
  au_capability_type :: "string option"
  au_capability_kind :: "string option"
  au_remember_scope :: "string option"
  au_decision :: string
  au_risk_level :: "string option"
  au_request_id :: "string option"
  au_remember :: "bool option"
  au_requires_approval :: "bool option"
  au_agent_request_id :: "string option"
  au_permission_request_id :: "string option"
  au_capability_call_id :: "string option"
  au_permission_scope :: "string option"

definition new_audit :: "string \<Rightarrow> string \<Rightarrow> audit_record" where
  "new_audit now decision = \<lparr>au_timestamp = now, au_tool_name = None, au_capability_id = None, au_capability_type = None,
     au_capability_kind = None, au_remember_scope = None, au_decision = decision, au_risk_level = None,
     au_request_id = None, au_remember = None, au_requires_approval = None, au_agent_request_id = None,
     au_permission_request_id = None, au_capability_call_id = None, au_permission_scope = None\<rparr>"

definition json_flag :: "bool option \<Rightarrow> json" where
  "json_flag x = (case x of None \<Rightarrow> JNull | Some b \<Rightarrow> JBool b)"

definition audit_to_dict :: "audit_record \<Rightarrow> dict" where
  "audit_to_dict a = [(''timestamp'', JStr (au_timestamp a)), (''tool_name'', json_text (au_tool_name a)),
     (''capability_id'', json_text (au_capability_id a)), (''capability_type'', json_text (au_capability_type a)),
     (''capability_kind'', json_text (au_capability_kind a)), (''remember_scope'', json_text (au_remember_scope a)),
     (''decision'', JStr (au_decision a)), (''risk_level'', json_text (au_risk_level a)),
     (''request_id'', json_text (au_request_id a)), (''remember'', json_flag (au_remember a)),
     (''requires_approval'', json_flag (au_requires_approval a)),
     (''agent_request_id'', json_text (au_agent_request_id a)),
     (''permission_request_id'', json_text (au_permission_request_id a)),
     (''capability_call_id'', json_text (au_capability_call_id a)),
     (''permission_scope'', json_text (au_permission_scope a))]"

text \<open>A future: pending, with its result, or cancelled by the task that awaits it.\<close>

datatype answer = Waiting | Answered bool | Abandoned

record permission_metadata =
  pm_agent_request_id :: string
  pm_capability_call_id :: string
  pm_permission_scope :: string

text \<open>What the file holds: nothing, a text that does not parse, or a document.\<close>

datatype stored_policy = NoFile | Unreadable | Stored json

record policy_engine =
  pg_pending :: "string \<Rightarrow> nat option"
  pg_futures :: "nat \<Rightarrow> answer option"
  pg_next_future :: nat
  pg_metadata :: "string \<Rightarrow> permission_metadata option"
  pg_remembered :: "(string \<times> bool) list"
  pg_audit :: "dict list"
  pg_file :: stored_policy

definition audit_max_entries :: nat where
  "audit_max_entries = 500"

definition last_entries :: "dict list \<Rightarrow> dict list" where
  "last_entries xs = drop (length xs - audit_max_entries) xs"

text \<open>\<open>_load_store\<close>: a document that is no object raises and leaves both empty.\<close>

definition load_remembered :: "json \<Rightarrow> (string \<times> bool) list" where
  "load_remembered doc = (case doc of
     JObj d \<Rightarrow> (case json_or (dict_get d ''remembered'') (JObj []) of
       JObj r \<Rightarrow> map (\<lambda>(k, v). (k, truthy v)) r | _ \<Rightarrow> [])
   | _ \<Rightarrow> [])"

definition load_audit :: "json \<Rightarrow> dict list" where
  "load_audit doc = (case doc of
     JObj d \<Rightarrow> (case json_or (dict_get d ''audit'') (JList []) of
       JList xs \<Rightarrow> last_entries (concat (map (\<lambda>x. case x of JObj e \<Rightarrow> [e] | _ \<Rightarrow> []) xs)) | _ \<Rightarrow> [])
   | _ \<Rightarrow> [])"

definition load_store :: "stored_policy \<Rightarrow> (string \<times> bool) list \<times> dict list" where
  "load_store f = (case f of Stored doc \<Rightarrow> (load_remembered doc, load_audit doc) | _ \<Rightarrow> ([], []))"

definition new_policy_engine :: "stored_policy \<Rightarrow> policy_engine" where
  "new_policy_engine f = \<lparr>pg_pending = Map.empty, pg_futures = Map.empty, pg_next_future = 0, pg_metadata = Map.empty,
     pg_remembered = fst (load_store f), pg_audit = snd (load_store f), pg_file = f\<rparr>"

datatype policy_error = SaveFailed

definition saved_document :: "policy_engine \<Rightarrow> json" where
  "saved_document e = JObj [(''remembered'', JObj (map (\<lambda>(k, b). (k, JBool b)) (pg_remembered e))),
     (''audit'', JList (map JObj (last_entries (pg_audit e))))]"

definition save_store :: "bool \<Rightarrow> policy_engine \<Rightarrow> policy_error option \<times> policy_engine" where
  "save_store disk e = (if disk then (None, e\<lparr>pg_file := Stored (saved_document e)\<rparr>) else (Some SaveFailed, e))"

definition append_audit :: "bool \<Rightarrow> audit_record \<Rightarrow> policy_engine \<Rightarrow> policy_error option \<times> policy_engine" where
  "append_audit disk a e = save_store disk (e\<lparr>pg_audit := last_entries (pg_audit e @ [audit_to_dict a])\<rparr>)"

section \<open>Scopes, audit and remembered decisions\<close>

definition scope_of :: "string option \<Rightarrow> string" where
  "scope_of scope = text_or (py_strip (text_or (text_or_empty scope) ''default'')) ''default''"

definition build_scope_key :: "string \<Rightarrow> string option \<Rightarrow> string" where
  "build_scope_key tool scope = tool @ ''::'' @ scope_of scope"

definition is_selected_external_tool :: "tool_definition \<Rightarrow> bool" where
  "is_selected_external_tool t \<longleftrightarrow> td_source t \<in> {''mcp'', ''plugin''} \<and> \<not> td_require_confirm t \<and>
     td_risk_level t \<notin> {''high'', ''critical''}"

definition get_audit_log :: "int \<Rightarrow> policy_engine \<Rightarrow> dict list" where
  "get_audit_log limit e = (let n = nat (max 1 (min limit (int audit_max_entries)))
     in drop (length (pg_audit e) - n) (pg_audit e))"

text \<open>\<open>raw.split("::", 1)\<close> of a text that contains the separator.\<close>

fun split_scope :: "string \<Rightarrow> string \<times> string" where
  "split_scope (c # d # s) = (if c = CHR '':'' \<and> d = CHR '':'' then ([], s)
     else (let (a, b) = split_scope (d # s) in (c # a, b)))"
| "split_scope s = (s, [])"

definition revoke :: "string \<Rightarrow> bool \<Rightarrow> string option \<Rightarrow> string option \<Rightarrow> policy_engine
    \<Rightarrow> (policy_error + bool) \<times> policy_engine" where
  "revoke now disk tool_name scope e =
     (let raw = py_strip (text_or_empty tool_name);
          direct = (scope = None \<and> sublist ''::'' raw \<and> map_of (pg_remembered e) raw \<noteq> None);
          key = (if direct then raw else build_scope_key raw scope);
          remembered_scope = (if direct then snd (split_scope raw) else scope_of scope);
          audit_tool = (if direct then Some (fst (split_scope raw)) else if raw = [] then None else Some raw)
      in if key = [] \<or> map_of (pg_remembered e) key = None then (Inr False, e)
         else
           (let (err, e) = append_audit disk ((new_audit now ''revoked'')\<lparr>au_tool_name := audit_tool,
                  au_remember_scope := Some remembered_scope\<rparr>) (e\<lparr>pg_remembered := od_pop key (pg_remembered e)\<rparr>)
            in (case err of Some x \<Rightarrow> Inl x | None \<Rightarrow> Inr True, e)))"

definition clear_remembered :: "string \<Rightarrow> bool \<Rightarrow> policy_engine \<Rightarrow> (policy_error + nat) \<times> policy_engine" where
  "clear_remembered now disk e =
     (let n = length (pg_remembered e);
          (err, e) = append_audit disk (new_audit now ''cleared'') (e\<lparr>pg_remembered := []\<rparr>)
      in (case err of Some x \<Rightarrow> Inl x | None \<Rightarrow> Inr n, e))"

section \<open>Decisions\<close>

datatype policy_reason = ReasonOk | ReasonRemembered | ReasonPermission | ReasonFollowup | ReasonConfirm string string

record policy_decision =
  pd_allowed :: bool
  pd_reason :: policy_reason
  pd_request_id :: "string option"
  pd_require_confirm :: bool
  pd_receipt :: "permission_receipt option"

definition plain_decision :: "bool \<Rightarrow> policy_reason \<Rightarrow> bool \<Rightarrow> policy_decision" where
  "plain_decision allowed reason confirm = \<lparr>pd_allowed = allowed, pd_reason = reason, pd_request_id = None,
     pd_require_confirm = confirm, pd_receipt = None\<rparr>"

definition preview_tool :: "tool_definition \<Rightarrow> string option \<Rightarrow> bool \<Rightarrow> policy_engine \<Rightarrow> policy_decision" where
  "preview_tool t scope force e =
     (if \<not> force \<and> is_selected_external_tool t then plain_decision True ReasonOk False
      else
        (let remembered = map_of (pg_remembered e) (build_scope_key (td_name t) scope);
             remembered = (if remembered = Some True \<and>
                 (\<not> td_allow_remembered_decision t \<or> td_risk_level t \<in> {''high'', ''critical''}) then None else remembered)
         in case remembered of
              Some b \<Rightarrow>
                if \<not> force \<or> \<not> b then plain_decision b ReasonRemembered False
                else plain_decision False ReasonFollowup True
            | None \<Rightarrow>
                if force \<or> td_require_confirm t \<or> td_risk_level t \<in> {''high'', ''critical''}
                then plain_decision False (if force then ReasonFollowup else ReasonPermission) True
                else plain_decision True ReasonOk False))"

text \<open>The identifiers one evaluation draws: agent request (if none is given), permission request, call.\<close>

record fresh_ids =
  fi_agent :: string
  fi_permission :: string
  fi_call :: string

definition agent_request_of :: "fresh_ids \<Rightarrow> string option \<Rightarrow> string" where
  "agent_request_of ids request = text_or (text_or_empty request) (fi_agent ids)"

definition policy_receipt :: "(string \<Rightarrow> string \<times> bool) \<Rightarrow> fresh_ids \<Rightarrow> string option \<Rightarrow> string option \<Rightarrow> json
    \<Rightarrow> tool_definition \<Rightarrow> permission_decision \<Rightarrow> string \<Rightarrow> bool \<Rightarrow> permission_receipt" where
  "policy_receipt url ids request scope parameters t decision reason retryable =
     build_permission_receipt url (fi_permission ids) (fi_call ids) (agent_request_of ids request) decision reason
       retryable (scope_of scope) (td_name t) ''tool'' (td_source t @ ''-tool'') (td_risk_level t)
       (json_or parameters (JObj [])) (Some (fi_permission ids)) (Some (fi_call ids)) None"

definition tool_audit :: "string \<Rightarrow> fresh_ids \<Rightarrow> string option \<Rightarrow> string option \<Rightarrow> tool_definition \<Rightarrow> string \<Rightarrow> bool
    \<Rightarrow> audit_record" where
  "tool_audit now ids request scope t decision approval = (new_audit now decision)
     \<lparr>au_tool_name := Some (td_name t), au_capability_id := Some (td_name t), au_capability_type := Some ''tool'',
      au_capability_kind := Some (td_source t @ ''-tool''), au_remember_scope := Some (scope_of scope),
      au_risk_level := Some (td_risk_level t), au_request_id := request, au_requires_approval := Some approval,
      au_agent_request_id := Some (agent_request_of ids request), au_permission_request_id := Some (fi_permission ids),
      au_capability_call_id := Some (fi_call ids), au_permission_scope := Some (scope_of scope)\<rparr>"

definition audited :: "bool \<Rightarrow> audit_record \<Rightarrow> policy_decision \<Rightarrow> policy_engine
    \<Rightarrow> (policy_error + policy_decision) \<times> policy_engine" where
  "audited disk a d e = (let (err, e) = append_audit disk a e in (case err of Some x \<Rightarrow> Inl x | None \<Rightarrow> Inr d, e))"

definition evaluate_tool :: "(string \<Rightarrow> string \<times> bool) \<Rightarrow> string \<Rightarrow> bool \<Rightarrow> fresh_ids \<Rightarrow> tool_definition \<Rightarrow> string option
    \<Rightarrow> string option \<Rightarrow> json \<Rightarrow> bool \<Rightarrow> policy_engine \<Rightarrow> (policy_error + policy_decision) \<times> policy_engine" where
  "evaluate_tool url now disk ids t request scope parameters force e =
     (if \<not> force \<and> is_selected_external_tool t then (Inr (plain_decision True ReasonOk False), e)
      else
        (let receipt = policy_receipt url ids request scope parameters t;
             preview = preview_tool t scope force e
         in if pd_reason preview = ReasonRemembered
            then (let mark = (if pd_allowed preview then ''remembered_allow'' else ''remembered_deny'')
                  in audited disk (tool_audit now ids request scope t mark (td_require_confirm t))
                       ((plain_decision (pd_allowed preview) ReasonRemembered False)
                         \<lparr>pd_receipt := Some (receipt (if pd_allowed preview then Allowed else Denied) mark
                           (pd_allowed preview))\<rparr>) e)
            else if pd_require_confirm preview
            then audited disk (tool_audit now ids request scope t ''required'' True)
                   ((plain_decision False (ReasonConfirm (td_name t) (td_risk_level t)) True)
                     \<lparr>pd_request_id := Some (fi_permission ids),
                      pd_receipt := Some (receipt Required
                        (if force then ''untrusted_mcp_followup_requires_confirmation'' else ''permission_required'') False)\<rparr>)
                   (e\<lparr>pg_metadata := (pg_metadata e)(fi_permission ids \<mapsto>
                        \<lparr>pm_agent_request_id = agent_request_of ids request, pm_capability_call_id = fi_call ids,
                         pm_permission_scope = scope_of scope\<rparr>)\<rparr>)
            else audited disk (tool_audit now ids request scope t ''auto_allow'' (td_require_confirm t))
                   ((plain_decision (pd_allowed preview) ReasonOk False)
                     \<lparr>pd_receipt := Some (receipt Allowed ''policy_auto_allow'' True)\<rparr>) e))"

section \<open>Requests that wait for the user\<close>

definition register_pending :: "string \<Rightarrow> policy_engine \<Rightarrow> nat \<times> policy_engine" where
  "register_pending request e =
     (let f = pg_next_future e
      in (f, e\<lparr>pg_next_future := f + 1, pg_futures := (pg_futures e)(f \<mapsto> Waiting),
              pg_pending := (pg_pending e)(request \<mapsto> f)\<rparr>))"

definition discard_permission :: "string \<Rightarrow> policy_engine \<Rightarrow> policy_engine" where
  "discard_permission request e = e\<lparr>pg_metadata := (pg_metadata e)(request := None)\<rparr>"

text \<open>The future of a request, if the request is pending and the future is not done.\<close>

definition open_future :: "string \<Rightarrow> policy_engine \<Rightarrow> nat option" where
  "open_future request e = (case pg_pending e request of None \<Rightarrow> None
     | Some f \<Rightarrow> if pg_futures e f = Some Waiting then Some f else None)"

definition drop_pending :: "string \<Rightarrow> policy_engine \<Rightarrow> policy_engine" where
  "drop_pending request e = e\<lparr>pg_pending := (pg_pending e)(request := None),
     pg_metadata := (pg_metadata e)(request := None)\<rparr>"

definition set_answer :: "nat \<Rightarrow> answer \<Rightarrow> policy_engine \<Rightarrow> policy_engine" where
  "set_answer f a e = e\<lparr>pg_futures := (pg_futures e)(f \<mapsto> a)\<rparr>"

definition cancel_pending :: "string \<Rightarrow> policy_engine \<Rightarrow> bool \<times> policy_engine" where
  "cancel_pending request e =
     (case open_future request e of
        None \<Rightarrow> (False, drop_pending request e)
      | Some f \<Rightarrow> (True, set_answer f (Answered False) (drop_pending request e)))"

text \<open>The awaiting task is cancelled.\<close>

definition abandon :: "nat \<Rightarrow> policy_engine \<Rightarrow> policy_engine" where
  "abandon f e = (if pg_futures e f = Some Waiting then set_answer f Abandoned e else e)"

definition remember_decision :: "bool \<Rightarrow> bool \<Rightarrow> string option \<Rightarrow> string option \<Rightarrow> policy_engine \<Rightarrow> policy_engine" where
  "remember_decision allowed remember tool scope e =
     (if remember \<and> text_or_empty tool \<noteq> []
      then e\<lparr>pg_remembered := od_set (build_scope_key (text_or_empty tool) scope) allowed (pg_remembered e)\<rparr> else e)"

definition answer_audit :: "string \<Rightarrow> string \<Rightarrow> bool \<Rightarrow> bool \<Rightarrow> string option \<Rightarrow> string option \<Rightarrow> policy_engine \<Rightarrow> audit_record" where
  "answer_audit now request allowed remember tool scope e =
     (let meta = pg_metadata e request
      in (new_audit now (if allowed then ''allowed'' else ''denied''))
        \<lparr>au_request_id := Some request, au_tool_name := tool, au_capability_id := tool,
         au_capability_type := (if text_or_empty tool = [] then None else Some ''tool''),
         au_remember_scope := Some (scope_of scope), au_remember := Some remember,
         au_agent_request_id := map_option pm_agent_request_id meta, au_permission_request_id := Some request,
         au_capability_call_id := map_option pm_capability_call_id meta,
         au_permission_scope := (case meta of None \<Rightarrow> scope
           | Some m \<Rightarrow> if pm_permission_scope m = [] then scope else Some (pm_permission_scope m))\<rparr>)"

text \<open>A failed save puts the remembered decisions and the audit log back.\<close>

definition resolve_pending :: "string \<Rightarrow> bool \<Rightarrow> string \<Rightarrow> bool \<Rightarrow> bool \<Rightarrow> string option \<Rightarrow> string option \<Rightarrow> policy_engine
    \<Rightarrow> (policy_error + bool) \<times> policy_engine" where
  "resolve_pending now disk request allowed remember tool scope e =
     (case open_future request e of
        None \<Rightarrow> (Inr False, e)
      | Some f \<Rightarrow>
          (case append_audit disk (answer_audit now request allowed remember tool scope e)
                  (remember_decision allowed remember tool scope e) of
             (Some err, e') \<Rightarrow> (Inl err, e'\<lparr>pg_remembered := pg_remembered e, pg_audit := pg_audit e\<rparr>)
           | (None, e') \<Rightarrow> (Inr True, set_answer f (Answered allowed) (drop_pending request e'))))"

end
