(* ===== verification/Tool_Result.thy ===== *)
theory Tool_Result
  imports Policy_Engine
begin

text \<open>
  The envelope of a tool's result (\<open>modules/agent/tool_result.py\<close>), which the tool executor makes and the
  plan executor reads.
\<close>

section \<open>Results\<close>

datatype effect_outcome = KnownSuccess | KnownFailure | UnknownEffect

definition outcome_text :: "effect_outcome \<Rightarrow> string" where
  "outcome_text x = (case x of KnownSuccess \<Rightarrow> ''known_success'' | KnownFailure \<Rightarrow> ''known_failure''
     | UnknownEffect \<Rightarrow> ''unknown_effect'')"

record tool_result =
  te_success :: bool
  te_content :: string
  te_source :: string
  te_tool_name :: string
  te_data :: json
  te_error :: "string option"
  te_receipt :: "permission_receipt option"
  te_outcome :: effect_outcome
  te_retryable :: bool

datatype envelope_error = SuccessMismatch | RetryableUnknown

text \<open>\<open>__post_init__\<close>: the outcome and the retryability that result from what was given.\<close>

definition envelope_post_init :: "effect_outcome option \<Rightarrow> bool option \<Rightarrow> tool_result \<Rightarrow> envelope_error + tool_result" where
  "envelope_post_init given retryable e =
     (let outcome = (case given of Some x \<Rightarrow> x | None \<Rightarrow> if te_success e then KnownSuccess else KnownFailure);
          again = (case retryable of None \<Rightarrow> outcome = KnownFailure | Some b \<Rightarrow> b)
      in if (outcome = KnownSuccess) \<noteq> te_success e then Inl SuccessMismatch
         else if outcome = UnknownEffect \<and> again then Inl RetryableUnknown
         else Inr (e\<lparr>te_outcome := outcome,
                te_retryable := (again \<and> (case te_receipt e of None \<Rightarrow> True | Some r \<Rightarrow> pr_retryable r))\<rparr>))"

definition is_known_success :: "tool_result \<Rightarrow> bool" where
  "is_known_success e \<longleftrightarrow> te_success e \<and> te_outcome e = KnownSuccess"

text \<open>The unsuccessful results the executor builds.\<close>

definition failed_result_envelope :: "string \<Rightarrow> string \<Rightarrow> string \<Rightarrow> json \<Rightarrow> permission_receipt option \<Rightarrow> effect_outcome \<Rightarrow> bool
    \<Rightarrow> tool_result" where
  "failed_result_envelope source name error data receipt outcome retryable =
     \<lparr>te_success = False, te_content = [], te_source = source, te_tool_name = name, te_data = data, te_error = Some error,
      te_receipt = receipt, te_outcome = outcome,
      te_retryable = (retryable \<and> (case receipt of None \<Rightarrow> True | Some r \<Rightarrow> pr_retryable r))\<rparr>"

lemma failed_result_envelope_ok:
  assumes "outcome \<noteq> KnownSuccess" and "outcome = UnknownEffect \<Longrightarrow> \<not> retryable"
  shows "envelope_post_init (Some outcome) (Some retryable)
      (failed_result_envelope source name error data receipt x y) =
    Inr (failed_result_envelope source name error data receipt outcome retryable)"
  using assms by (auto simp: envelope_post_init_def failed_result_envelope_def Let_def)

end
