(* ===== verification/Plan_Execution.thy ===== *)
theory Plan_Execution
  imports Plan_Correct Tool_Result "HOL-Library.Sublist" "HOL-Library.Multiset"
begin

text \<open>
  The plan executor of \<open>modules/agent/step_executor.py\<close>: the order of the steps, the evaluation of
  conditions and success criteria, joins, the ledger that lets a step run once, and the loop of
  \<open>execute_immediate_steps\<close>. The effects (tools, agents, schedules) are functions of the environment
  that may return any result; the loop decides whether they are called at all.
\<close>

section \<open>Results\<close>

record step_result =
  sr_step_id :: string
  sr_title :: string
  sr_kind :: string
  sr_status :: string
  sr_description :: string
  sr_depends_on :: "string list"
  sr_success :: "bool option"
  sr_content :: "string option"
  sr_error :: "string option"
  sr_reply_preview :: "string option"
  sr_retry_count :: int

type_synonym result_map = "string \<Rightarrow> step_result option"

definition result_is_completed :: "step_result option \<Rightarrow> bool" where
  "result_is_completed r =
     (case r of None \<Rightarrow> False | Some x \<Rightarrow> sr_success x = Some True \<and> sr_status x \<in> {''ok'', ''created''})"

definition new_result :: "plan_step \<Rightarrow> string \<Rightarrow> step_result" where
  "new_result s status = \<lparr>sr_step_id = st_id s, sr_title = st_title s, sr_kind = st_kind s,
     sr_status = status, sr_description = st_description s, sr_depends_on = dep_ids s, sr_success = None,
     sr_content = None, sr_error = None, sr_reply_preview = None, sr_retry_count = 0\<rparr>"

fun join_text :: "string \<Rightarrow> string list \<Rightarrow> string" where
  "join_text sep [] = []"
| "join_text sep [x] = x"
| "join_text sep (x # y # zs) = x @ sep @ join_text sep (y # zs)"

definition dependency_text :: "step_result \<Rightarrow> string" where
  "dependency_text r = join_text ''\<newline>''
     (filter (\<lambda>x. x \<noteq> []) [text_or_empty (sr_content r), text_or_empty (sr_reply_preview r)])"

definition skipped_condition_result :: "plan_step \<Rightarrow> step_result" where
  "skipped_condition_result s =
     (new_result s ''skipped'')\<lparr>sr_success := Some False, sr_error := Some ''condition_not_met''\<rparr>"

definition blocked_predecessor_result :: "plan_step \<Rightarrow> string list \<Rightarrow> step_result" where
  "blocked_predecessor_result s ids =
     (new_result s ''skipped'')\<lparr>sr_success := Some False,
       sr_error := Some (''predecessor_not_completed: '' @ join_text '', '' ids)\<rparr>"

definition limit_of :: "json \<Rightarrow> nat" where
  "limit_of v = nat (int_value v)"

definition analysis_result :: "plan_step \<Rightarrow> step_result" where
  "analysis_result s =
     (case st_fields s of
        AnalysisStep i out \<Rightarrow>
          (let bounded = take (limit_of i) (st_description s)
           in (new_result s ''ok'')\<lparr>sr_description := bounded, sr_success := Some True,
                sr_content := Some (take (limit_of out) bounded)\<rparr>)
      | _ \<Rightarrow> (new_result s ''ok'')\<lparr>sr_success := Some True, sr_content := Some (st_description s)\<rparr>)"

definition is_success :: "step_result \<Rightarrow> bool" where
  "is_success r \<longleftrightarrow> sr_status r \<in> {''ok'', ''created''} \<or> sr_success r = Some True"

definition is_failure :: "step_result \<Rightarrow> bool" where
  "is_failure r \<longleftrightarrow> sr_status r = ''error'' \<or> sr_success r = Some False"

definition join_outcome :: "bool \<Rightarrow> string list \<Rightarrow> step_result list \<Rightarrow> string \<times> bool \<times> string option" where
  "join_outcome all_success missing results =
     (if missing \<noteq> []
      then (''skipped'', False, Some (''join_dependencies_missing: '' @ join_text '', '' missing))
      else if all_success
      then (if results \<noteq> [] \<and> list_all is_success results then (''ok'', True, None)
            else if \<exists>r\<in>set results. is_failure r then (''error'', False, Some ''join_branch_failed'')
            else (''skipped'', False, Some ''not_all_join_branches_completed''))
      else if \<exists>r\<in>set results. is_success r then (''ok'', True, None)
      else if (\<exists>r\<in>set results. is_failure r) \<and> \<not> (\<exists>r\<in>set results. sr_status r = ''skipped'')
      then (''error'', False, Some ''all_join_branches_failed'')
      else (''skipped'', False, Some ''no_join_branch_completed''))"

definition join_result :: "plan_step \<Rightarrow> result_map \<Rightarrow> step_result" where
  "join_result s rm =
     (let results = concat (map (\<lambda>d. case rm d of None \<Rightarrow> [] | Some r \<Rightarrow> [r]) (dep_ids s));
          missing = filter (\<lambda>d. rm d = None) (dep_ids s);
          policy = (case st_fields s of JoinStep p n \<Rightarrow> p | _ \<Rightarrow> JNull);
          bound = (case st_fields s of JoinStep p n \<Rightarrow> limit_of n | _ \<Rightarrow> 0);
          (status, ok, err) = join_outcome (policy = JStr ''all_success'') missing results;
          parts = map (\<lambda>r. sr_step_id r @ '':'' @ sr_status r) results
      in (new_result s status)\<lparr>sr_kind := ''join'', sr_success := Some ok, sr_error := err,
           sr_content := (if parts = [] then None else Some (take bound (join_text ''; '' parts)))\<rparr>)"

section \<open>Predicates\<close>

text \<open>A leaf on its result: the source's, or the default when no source is named.\<close>

definition eval_leaf :: "result_map \<Rightarrow> step_result option \<Rightarrow> string \<Rightarrow> string \<Rightarrow> string list \<Rightarrow> bool" where
  "eval_leaf rm dflt op src vals =
     (case (if src \<noteq> [] then rm src else dflt) of
        None \<Rightarrow> False
      | Some r \<Rightarrow>
          if op = ''status_in'' then sr_status r \<in> set vals
          else if op = ''status_not_in'' then sr_status r \<notin> set vals
          else if op = ''content_contains'' then \<forall>v\<in>set vals. sublist v (dependency_text r)
          else if op = ''error_contains'' then \<forall>v\<in>set vals. sublist v (text_or_empty (sr_error r))
          else False)"

definition eval_group :: "string \<Rightarrow> bool list \<Rightarrow> bool" where
  "eval_group op bs =
     (if op = ''all'' then list_all id bs else if op = ''any'' then list_ex id bs else \<not> list_ex id bs)"

fun eval_node :: "result_map \<Rightarrow> step_result option \<Rightarrow> pred_node \<Rightarrow> bool" where
  "eval_node rm dflt (PredicateNode op source vals children) =
     (if op \<in> combinators then eval_group op (map (eval_node rm dflt) children)
      else eval_leaf rm dflt op (text_or_empty source) vals)"

definition json_op :: "dict \<Rightarrow> string" where
  "json_op d = json_string (dict_get d ''op'')"

definition json_source :: "dict \<Rightarrow> string" where
  "json_source d = json_string (dict_get d ''source_step_id'')"

definition json_values :: "dict \<Rightarrow> string list" where
  "json_values d = map json_string (json_items (get_or d ''values'' (JList [])))"

definition json_children :: "dict \<Rightarrow> json list" where
  "json_children d = json_items (get_or d ''children'' (JList []))"

text \<open>A child that is no object has no operator and evaluates to false.\<close>

function eval_json :: "result_map \<Rightarrow> step_result option \<Rightarrow> json \<Rightarrow> bool" where
  "eval_json rm dflt v =
     (case v of
        JObj d \<Rightarrow>
          if json_op d \<in> combinators then eval_group (json_op d) (map (eval_json rm dflt) (json_children d))
          else eval_leaf rm dflt (json_op d) (json_source d) (json_values d)
      | _ \<Rightarrow> False)"
  by pat_completeness auto

termination
  by (relation "measure (\<lambda>(k, i, v). size v)") (auto simp: json_children_def dest: json_items_smaller)

declare eval_json.simps [simp del]

fun eval_predicate :: "result_map \<Rightarrow> step_result option \<Rightarrow> predicate \<Rightarrow> bool" where
  "eval_predicate rm dflt (PNode n) = eval_node rm dflt n"
| "eval_predicate rm dflt (PDict d) = eval_json rm dflt (JObj d)"
| "eval_predicate rm dflt (POther v) = eval_json rm dflt v"
| "eval_predicate rm dflt (PCombine op children) =
     eval_group op (map (eval_predicate rm dflt) children)"

definition condition_matches :: "plan_step \<Rightarrow> result_map \<Rightarrow> bool" where
  "condition_matches s rm =
     (case st_condition s of
        None \<Rightarrow> True
      | Some c \<Rightarrow>
          (case to_predicate c of
             None \<Rightarrow> False
           | Some p \<Rightarrow> if sc_mode c = ''skip_if'' then \<not> eval_predicate rm None p
                       else eval_predicate rm None p))"

text \<open>\<open>_matched_failure_sources\<close>: the failed steps a matching condition names at a leaf that holds.\<close>

definition failed_leaf :: "result_map \<Rightarrow> string \<Rightarrow> bool \<Rightarrow> string set" where
  "failed_leaf rm src holds =
     (if src \<noteq> [] \<and> rm src \<noteq> None \<and> \<not> result_is_completed (rm src) \<and> holds then {src} else {})"

fun failed_sources_node :: "result_map \<Rightarrow> pred_node \<Rightarrow> string set" where
  "failed_sources_node rm (PredicateNode op source vals children) =
     (if op \<in> combinators then (\<Union>c\<in>set children. failed_sources_node rm c)
      else failed_leaf rm (text_or_empty source) (eval_leaf rm None op (text_or_empty source) vals))"

function failed_sources_json :: "result_map \<Rightarrow> json \<Rightarrow> string set" where
  "failed_sources_json rm v =
     (case v of
        JObj d \<Rightarrow>
          if json_op d \<in> combinators then (\<Union>c\<in>set (json_children d). failed_sources_json rm c)
          else failed_leaf rm (json_source d) (eval_leaf rm None (json_op d) (json_source d) (json_values d))
      | _ \<Rightarrow> {})"
  by pat_completeness auto

termination
  by (relation "measure (\<lambda>(k, v). size v)") (auto simp: json_children_def dest: json_items_smaller)

declare failed_sources_json.simps [simp del]

fun failed_sources :: "result_map \<Rightarrow> predicate \<Rightarrow> string set" where
  "failed_sources rm (PNode n) = failed_sources_node rm n"
| "failed_sources rm (PDict d) = failed_sources_json rm (JObj d)"
| "failed_sources rm (POther v) = failed_sources_json rm v"
| "failed_sources rm (PCombine op children) = (\<Union>c\<in>set children. failed_sources rm c)"

definition matched_failure_sources :: "plan_step \<Rightarrow> result_map \<Rightarrow> string set" where
  "matched_failure_sources s rm =
     (case st_condition s of
        None \<Rightarrow> {}
      | Some c \<Rightarrow>
          if sc_mode c \<noteq> ''continue_if'' then {}
          else (case to_predicate c of
              None \<Rightarrow> {}
            | Some p \<Rightarrow> if eval_predicate rm None p then failed_sources rm p else {}))"

fun references_node :: "string \<Rightarrow> pred_node \<Rightarrow> bool" where
  "references_node src (PredicateNode op source vals children) \<longleftrightarrow>
     source = Some src \<or> (\<exists>c\<in>set children. references_node src c)"

function references_json :: "string \<Rightarrow> json \<Rightarrow> bool" where
  "references_json src v =
     (case v of JObj d \<Rightarrow> dict_get d ''source_step_id'' = JStr src \<or>
        (\<exists>c\<in>set (json_children d). references_json src c) | _ \<Rightarrow> False)"
  by pat_completeness auto

termination
  by (relation "measure (\<lambda>(k, v). size v)") (auto simp: json_children_def dest: json_items_smaller)

declare references_json.simps [simp del]

fun references :: "string \<Rightarrow> predicate \<Rightarrow> bool" where
  "references src (PNode n) \<longleftrightarrow> references_node src n"
| "references src (PDict d) \<longleftrightarrow> references_json src (JObj d)"
| "references src (POther v) \<longleftrightarrow> references_json src v"
| "references src (PCombine op children) \<longleftrightarrow> (\<exists>c\<in>set children. references src c)"

definition has_result_handler :: "string \<Rightarrow> step_result \<Rightarrow> plan_step list \<Rightarrow> result_map \<Rightarrow> bool" where
  "has_result_handler src r rest rm \<longleftrightarrow>
     (\<exists>s\<in>set rest. (case st_condition s of
        None \<Rightarrow> False
      | Some c \<Rightarrow> (case to_predicate c of
            None \<Rightarrow> False
          | Some p \<Rightarrow> references src p \<and> condition_matches s (rm(src \<mapsto> r)))))"

section \<open>The order of the steps\<close>

text \<open>One pass of \<open>_order_steps\<close> over the remaining steps, then the loop of passes.\<close>

fun order_pass :: "string set \<Rightarrow> string set \<Rightarrow> plan_step list \<Rightarrow> plan_step list \<times> string set \<times> plan_step list" where
  "order_pass known resolved [] = ([], resolved, [])"
| "order_pass known resolved (s # ss) =
     (if \<forall>d\<in>set (dep_ids s). d \<in> known \<longrightarrow> d \<in> resolved
      then (let (out, resolved', rest) = order_pass known (insert (st_id s) resolved) ss in (s # out, resolved', rest))
      else (let (out, resolved', rest) = order_pass known resolved ss in (out, resolved', s # rest)))"

lemma order_pass_length:
  "order_pass known resolved ss = (out, resolved', rest) \<Longrightarrow> length out + length rest = length ss"
  by (induction known resolved ss arbitrary: out resolved' rest rule: order_pass.induct)
    (auto split: prod.splits if_splits)

function order_loop :: "string set \<Rightarrow> string set \<Rightarrow> plan_step list \<Rightarrow> plan_step list" where
  "order_loop known resolved ss =
     (case order_pass known resolved ss of
        (out, resolved', rest) \<Rightarrow>
          if ss = [] then [] else if out = [] then rest else out @ order_loop known resolved' rest)"
  by pat_completeness auto

termination
  by (relation "measure (\<lambda>(k, r, ss). length ss)")
    (auto simp: neq_Nil_conv dest!: order_pass_length sym [THEN order_pass_length])

declare order_loop.simps [simp del]

definition order_steps :: "plan_step list \<Rightarrow> plan_step list" where
  "order_steps steps = order_loop (st_id ` set steps) {} steps"

section \<open>The ledger and the loop\<close>

datatype claim_state = Pending | Running | Terminal

record ledger =
  lg_results :: result_map
  lg_states :: "string \<Rightarrow> claim_state"

text \<open>\<open>_record_validated_result\<close>: the success criteria may turn a result into an error.\<close>

definition apply_criteria :: "plan_step \<Rightarrow> step_result \<Rightarrow> step_result" where
  "apply_criteria s r =
     (case st_success_criteria s of
        None \<Rightarrow> r
      | Some p \<Rightarrow>
          if sr_status r \<notin> {''skipped'', ''permission_required'', ''permission_denied'', ''unknown_effect''} \<and>
             \<not> eval_predicate [st_id s \<mapsto> r] (Some r) p
          then r\<lparr>sr_status := ''error'', sr_success := Some False,
                 sr_error := Some (text_or (text_or_empty (sr_error r)) ''success_criteria_not_met'')\<rparr>
          else r)"

definition record_validated_result :: "plan_step \<Rightarrow> step_result \<Rightarrow> ledger \<Rightarrow> step_result \<times> ledger" where
  "record_validated_result s r lg =
     (let r = apply_criteria s r
      in (r, lg\<lparr>lg_results := (lg_results lg)(st_id s \<mapsto> r), lg_states := (lg_states lg)(st_id s := Terminal)\<rparr>))"

text \<open>
  The environment. A schedule and an agent return a result for their step, whose identity the executor
  fills in. A tool is called through the tool executor, possibly more than once: \<open>ef_tool\<close> gives the end of
  each attempt. The registry's definitions decide about retries; \<open>ef_infer\<close> guesses a call from a prompt, and
  \<open>ef_text\<close> is the text of a value that is none. \<open>ex_calls\<close> records every start of an effect, each attempt of a
  tool included, with the results known at that moment.
\<close>

datatype attempt_end = AttemptTimeout | AttemptReturned tool_result | AttemptRaised

record effects =
  ef_schedule :: "plan_step \<Rightarrow> result_map \<Rightarrow> step_result"
  ef_agent :: "plan_step \<Rightarrow> result_map \<Rightarrow> step_result"
  ef_definition :: "string \<Rightarrow> tool_definition option"
  ef_infer :: "string \<Rightarrow> string \<times> dict"
  ef_text :: "json \<Rightarrow> string"
  ef_tool :: "plan_step \<Rightarrow> result_map \<Rightarrow> string \<Rightarrow> dict \<Rightarrow> nat \<Rightarrow> attempt_end"
  ef_registry :: bool
  ef_executor :: bool

definition stamp :: "plan_step \<Rightarrow> step_result \<Rightarrow> step_result" where
  "stamp s r = r\<lparr>sr_step_id := st_id s, sr_title := st_title s, sr_kind := st_kind s\<rparr>"

record execution =
  ex_ledger :: ledger
  ex_map :: result_map
  ex_results :: "step_result list"
  ex_calls :: "(plan_step \<times> result_map) list"

definition finish_step :: "plan_step \<Rightarrow> step_result \<Rightarrow> execution \<Rightarrow> step_result \<times> execution" where
  "finish_step s r x =
     (let (r, lg) = record_validated_result s r (ex_ledger x)
      in (r, x\<lparr>ex_ledger := lg, ex_map := (ex_map x)(st_id s \<mapsto> r), ex_results := ex_results x @ [r]\<rparr>))"

definition call_effect :: "plan_step \<Rightarrow> execution \<Rightarrow> execution" where
  "call_effect s x = x\<lparr>ex_calls := ex_calls x @ [(s, ex_map x)]\<rparr>"

datatype stop = StepReplayed string | StepRaised string | Stopped string

text \<open>What happens to one step: the new state and a reason to stop, if any.\<close>

definition run_schedule :: "effects \<Rightarrow> plan_step \<Rightarrow> plan_step list \<Rightarrow> execution \<Rightarrow> execution \<times> stop option" where
  "run_schedule ef s rest x =
     (let (r, x) = finish_step s (stamp s (ef_schedule ef s (ex_map x))) (call_effect s x)
      in (x, if sr_status r = ''error'' \<and> \<not> has_result_handler (st_id s) r rest (ex_map x)
             then Some (Stopped (''unhandled_step_error:'' @ st_id s)) else None))"

text \<open>\<open>_execute_tool_step\<close>: the tool and its arguments, the attempts the executor may make on its own, the attempts.\<close>

definition payload_of :: "plan_step \<Rightarrow> dict" where
  "payload_of s = (case st_payload s of None \<Rightarrow> [] | Some d \<Rightarrow> d)"

definition text_of :: "effects \<Rightarrow> json \<Rightarrow> string" where
  "text_of ef v = (case v of JStr t \<Rightarrow> t | _ \<Rightarrow> ef_text ef v)"

definition step_prompt :: "effects \<Rightarrow> plan_step \<Rightarrow> string" where
  "step_prompt ef s = (let p = dict_get (payload_of s) ''prompt'' in if truthy p then text_of ef p else st_description s)"

definition tool_call_of :: "effects \<Rightarrow> plan_step \<Rightarrow> string \<times> dict" where
  "tool_call_of ef s =
     (let given = (case tool_of (st_fields s) of None \<Rightarrow> JNull | Some t \<Rightarrow> tf_tool_name t);
          name = (if truthy given then given else dict_get (payload_of s) ''tool_name'');
          args = (case tool_of (st_fields s) of None \<Rightarrow> [] | Some t \<Rightarrow> (case tf_arguments t of JObj d \<Rightarrow> d | _ \<Rightarrow> []))
      in if truthy name then (text_of ef name, args)
         else (let (guessed, found) = ef_infer ef (step_prompt ef s) in (guessed, if args = [] then found else args)))"

definition max_tool_retries :: int where "max_tool_retries = 1"

definition automatic_retry_budget :: "effects \<Rightarrow> string \<Rightarrow> plan_step \<Rightarrow> nat" where
  "automatic_retry_budget ef name s = (case tool_of (st_fields s) of
     None \<Rightarrow> 0
   | Some t \<Rightarrow>
       (let budget = max 0 (min max_tool_retries (int_value (tf_retry_budget t)))
        in if budget = 0 \<or> tf_retry_owner t \<noteq> JStr ''step_executor'' then 0
           else (case ef_definition ef name of
               None \<Rightarrow> 0
             | Some d \<Rightarrow> if td_risk_level d \<noteq> ''safe'' \<or> td_require_confirm d then 0 else nat budget)))"

definition terminal_permission :: "tool_result \<Rightarrow> bool" where
  "terminal_permission o' \<longleftrightarrow> (case te_receipt o' of None \<Rightarrow> False | Some r \<Rightarrow> \<not> pr_retryable r)"

definition terminal_tool_outcome :: "tool_result \<Rightarrow> bool" where
  "terminal_tool_outcome o' \<longleftrightarrow> te_outcome o' = UnknownEffect \<or> \<not> te_retryable o'"

primrec tool_attempts :: "(nat \<Rightarrow> attempt_end) \<Rightarrow> string \<Rightarrow> nat \<Rightarrow> nat \<Rightarrow> nat \<times> tool_result option" where
  "tool_attempts call name 0 n = (case call n of
     AttemptRaised \<Rightarrow> (n, None)
   | AttemptTimeout \<Rightarrow> (n, Some (failed_result_envelope ''builtin'' name ''tool_timeout'' JNull None KnownFailure True))
   | AttemptReturned o' \<Rightarrow> (n, Some o'))"
| "tool_attempts call name (Suc left) n = (case call n of
     AttemptRaised \<Rightarrow> (n, None)
   | AttemptTimeout \<Rightarrow> (n, Some (failed_result_envelope ''builtin'' name ''tool_timeout'' JNull None KnownFailure True))
   | AttemptReturned o' \<Rightarrow>
       if te_success o' \<or> terminal_permission o' \<or> terminal_tool_outcome o' then (n, Some o')
       else tool_attempts call name left (Suc n))"

definition outcome_status :: "tool_result \<Rightarrow> string" where
  "outcome_status o' =
     (if te_outcome o' = UnknownEffect then ''unknown_effect''
      else (case te_receipt o' of
          Some r \<Rightarrow> (case pr_decision r of
              Required \<Rightarrow> ''permission_required''
            | Denied \<Rightarrow> ''permission_denied''
            | Allowed \<Rightarrow> if te_success o' then ''ok'' else ''error'')
        | None \<Rightarrow> if te_success o' then ''ok'' else ''error''))"

definition tool_step_result :: "plan_step \<Rightarrow> nat \<Rightarrow> tool_result \<Rightarrow> step_result" where
  "tool_step_result s n o' = (new_result s (outcome_status o'))\<lparr>sr_success := Some (is_known_success o'),
     sr_content := Some (te_content o'), sr_error := te_error o', sr_retry_count := int n\<rparr>"

definition no_tool_result :: "effects \<Rightarrow> plan_step \<Rightarrow> step_result" where
  "no_tool_result ef s = (new_result s ''skipped'')\<lparr>sr_success := Some False, sr_content := Some (step_prompt ef s),
     sr_error := Some (if ef_executor ef then ''unable to infer tool from prompt'' else ''tool_executor_not_available'')\<rparr>"

text \<open>An exception of the tool executor leaves the run, with the step claimed.\<close>

definition run_tool :: "effects \<Rightarrow> plan_step \<Rightarrow> plan_step list \<Rightarrow> execution \<Rightarrow> execution \<times> stop option" where
  "run_tool ef s rest x =
     (let (name, args) = tool_call_of ef s
      in if name = [] \<or> \<not> ef_executor ef then (snd (finish_step s (no_tool_result ef s) x), None)
         else
           (let (n, o') = tool_attempts (ef_tool ef s (ex_map x) name args) name (automatic_retry_budget ef name s) 0;
                x = x\<lparr>ex_calls := ex_calls x @ replicate (Suc n) (s, ex_map x)\<rparr>
            in case o' of
                None \<Rightarrow> (x, Some (StepRaised (st_id s)))
              | Some o' \<Rightarrow>
                  (let (r, x) = finish_step s (tool_step_result s n o') x
                   in (x, if sr_status r = ''unknown_effect'' then Some (Stopped ''unknown_effect'')
                          else if sr_status r \<in> {''error'', ''permission_required'', ''permission_denied''} \<and>
                                  \<not> has_result_handler (st_id s) r rest (ex_map x)
                          then Some (Stopped (if take 11 (sr_status r) = ''permission_'' then sr_status r
                                              else ''unhandled_step_error:'' @ st_id s))
                          else None))))"

definition run_agent :: "effects \<Rightarrow> plan_step \<Rightarrow> execution \<Rightarrow> execution \<times> stop option" where
  "run_agent ef s x =
     (if \<not> ef_registry ef then (x, Some (Stopped ''tool_registry_not_available''))
      else if \<not> ef_executor ef then (x, Some (Stopped ''tool_executor_not_available''))
      else
        (let (r, x) = finish_step s (stamp s (ef_agent ef s (ex_map x))) (call_effect s x)
         in (x, if sr_status r \<in> {''permission_required'', ''permission_denied'', ''unknown_effect''}
                then Some (Stopped (sr_status r)) else None)))"

definition blocked_predecessors :: "plan_step \<Rightarrow> result_map \<Rightarrow> string list" where
  "blocked_predecessors s rm =
     filter (\<lambda>d. \<not> result_is_completed (rm d) \<and> d \<notin> matched_failure_sources s rm) (dep_ids s)"

definition execute_step :: "effects \<Rightarrow> plan_step \<Rightarrow> plan_step list \<Rightarrow> execution \<Rightarrow> execution \<times> stop option" where
  "execute_step ef s rest x =
     (if lg_states (ex_ledger x) (st_id s) \<noteq> Pending then (x, Some (StepReplayed (st_id s)))
      else
        (let x = x\<lparr>ex_ledger := (ex_ledger x)\<lparr>lg_states := (lg_states (ex_ledger x))(st_id s := Running)\<rparr>\<rparr>;
             blocked = blocked_predecessors s (ex_map x)
         in if st_kind s \<in> {''agent'', ''tool'', ''schedule''} \<and> blocked \<noteq> []
            then (snd (finish_step s (blocked_predecessor_result s blocked) x), None)
            else if \<not> condition_matches s (ex_map x)
            then (snd (finish_step s (skipped_condition_result s) x), None)
            else if st_kind s = ''analysis'' then (snd (finish_step s (analysis_result s) x), None)
            else if st_kind s = ''join'' then (snd (finish_step s (join_result s (ex_map x)) x), None)
            else if st_kind s = ''schedule'' then run_schedule ef s rest x
            else if st_kind s = ''tool'' then run_tool ef s rest x
            else run_agent ef s x))"

primrec execute_loop :: "effects \<Rightarrow> plan_step list \<Rightarrow> execution \<Rightarrow> execution \<times> stop option" where
  "execute_loop ef [] x = (x, None)"
| "execute_loop ef (s # rest) x =
     (case execute_step ef s rest x of
        (x', None) \<Rightarrow> execute_loop ef rest x'
      | (x', Some r) \<Rightarrow> (x', Some r))"

definition start_execution :: "ledger \<Rightarrow> execution" where
  "start_execution lg = \<lparr>ex_ledger = lg, ex_map = lg_results lg, ex_results = [], ex_calls = []\<rparr>"

definition execute_immediate_steps :: "effects \<Rightarrow> plan_step list \<Rightarrow> ledger \<Rightarrow> execution \<times> stop option" where
  "execute_immediate_steps ef steps lg = execute_loop ef (order_steps steps) (start_execution lg)"

section \<open>The summary\<close>

datatype summary_status = Partial | FailedRun | CompletedRun | EmptyRun

record execution_summary =
  es_status :: summary_status
  es_total :: nat
  es_completed :: nat
  es_failed :: nat
  es_skipped :: nat
  es_pending :: "string list"

definition execution_summary_of :: "plan_step list \<Rightarrow> step_result list \<Rightarrow> bool \<Rightarrow> execution_summary" where
  "execution_summary_of ordered results stopped =
     (let pending = filter (\<lambda>s. st_id s \<notin> sr_step_id ` set results) ordered;
          completed = filter is_success results;
          failed = filter (\<lambda>r. sr_status r \<in> {''error'', ''permission_required'', ''permission_denied'', ''unknown_effect''}) results;
          skipped = filter (\<lambda>r. sr_status r = ''skipped'') results;
          other = filter (\<lambda>r. sr_error r \<noteq> Some ''condition_not_met'') skipped
      in \<lparr>es_status = (if stopped \<or> pending \<noteq> [] \<or> failed \<noteq> [] \<or> other \<noteq> []
                        then (if completed \<noteq> [] then Partial else FailedRun)
                        else if results \<noteq> [] then CompletedRun else EmptyRun),
           es_total = length ordered, es_completed = length completed, es_failed = length failed,
           es_skipped = length skipped, es_pending = map st_id pending\<rparr>)"

end
