(* ===== verification/Plan_Runs.thy ===== *)
theory Plan_Runs
  imports Plan_Execution
begin

text \<open>
  What the plan executor guarantees: its order of the steps is a rearrangement that respects the
  dependencies of every acyclic plan, effects start only behind their guards and are repeated only where that is safe, and
  nothing runs after an effect whose outcome is unknown.
\<close>

section \<open>The order\<close>

fun respects_deps :: "string set \<Rightarrow> string set \<Rightarrow> plan_step list \<Rightarrow> bool" where
  "respects_deps known resolved [] = True"
| "respects_deps known resolved (s # ss) \<longleftrightarrow>
     (\<forall>d\<in>set (dep_ids s). d \<in> known \<longrightarrow> d \<in> resolved) \<and> respects_deps known (insert (st_id s) resolved) ss"

lemma respects_append:
  "respects_deps K R (xs @ ys) \<longleftrightarrow> respects_deps K R xs \<and> respects_deps K (R \<union> st_id ` set xs) ys"
  by (induction xs arbitrary: R) auto

lemma order_pass_spec:
  "order_pass K R ss = (out, R', rest) \<Longrightarrow>
     mset out + mset rest = mset ss \<and> R' = R \<union> st_id ` set out \<and> respects_deps K R out \<and>
     (\<forall>s\<in>set rest. \<not> (\<forall>d\<in>set (dep_ids s). d \<in> K \<longrightarrow> d \<in> R))"
proof (induction K R ss arbitrary: out R' rest rule: order_pass.induct)
  case (2 K R s ss)
  show ?case
  proof (cases "\<forall>d\<in>set (dep_ids s). d \<in> K \<longrightarrow> d \<in> R")
    case True
    with 2(3) obtain o' where o': "order_pass K (insert (st_id s) R) ss = (o', R', rest)" "out = s # o'"
      by (auto split: prod.splits)
    with 2(1) [OF True o'(1)] True show ?thesis by auto
  next
    case False
    with 2(3) obtain r' where r': "order_pass K R ss = (out, R', r')" "rest = s # r'"
      by (auto split: prod.splits)
    with 2(2) [OF False r'(1)] False show ?thesis by auto
  qed
qed auto

lemma mset_order_loop: "mset (order_loop K R ss) = mset ss"
proof (induction K R ss rule: order_loop.induct)
  case (1 K R ss)
  obtain out R' rest where pass: "order_pass K R ss = (out, R', rest)" by (metis prod_cases3)
  note spec = order_pass_spec [OF pass]
  show ?case
    using 1 [OF pass [symmetric] refl] spec by (subst order_loop.simps) (auto simp: pass)
qed

lemma order_loop_respects:
  assumes "acyclic (dep_edges g)" and "\<forall>s\<in>set ss. \<forall>d\<in>set (dep_ids s). d \<in> K \<longrightarrow> (st_id s, d) \<in> dep_edges g"
    and "K \<subseteq> R \<union> st_id ` set ss"
  shows "respects_deps K R (order_loop K R ss)"
  using assms
proof (induction K R ss rule: order_loop.induct)
  case (1 K R ss)
  obtain out R' rest where pass: "order_pass K R ss = (out, R', rest)" by (metis prod_cases3)
  note spec = order_pass_spec [OF pass]
  have sets: "set ss = set out \<union> set rest" using spec by (metis set_mset_mset set_mset_union)
  show ?case
  proof (cases "ss = []")
    case True
    then show ?thesis by (subst order_loop.simps) (auto simp: pass)
  next
    case False
    obtain s where s: "s \<in> set ss" and least: "\<And>t. t \<in> set ss \<Longrightarrow> depth_below g (st_id s) \<le> depth_below g (st_id t)"
      using ex_min_if_finite [of "depth_below g ` st_id ` set ss"] False
      by (auto simp: not_less)
    have "d \<in> R" if d: "d \<in> set (dep_ids s)" "d \<in> K" for d
    proof (rule ccontr)
      assume "d \<notin> R"
      with "1.prems"(3) d obtain t where t: "t \<in> set ss" "st_id t = d" by auto
      have "(st_id s, d) \<in> dep_edges g" using "1.prems"(2) s d by blast
      from depth_decreases [OF "1.prems"(1) this] least [OF t(1)] t(2) show False by simp
    qed
    then have "s \<notin> set rest" using spec by blast
    then have "out \<noteq> []" using s sets by auto
    moreover have "respects_deps K R' (order_loop K R' rest)"
      using "1.prems" spec sets \<open>out \<noteq> []\<close> False
      by (intro "1.IH" [OF pass [symmetric] refl]) (auto simp: image_Un)
    ultimately show ?thesis
      using spec False by (subst order_loop.simps) (auto simp: pass respects_append)
  qed
qed

section \<open>One step\<close>

lemma finish_step_simps:
  "ex_calls (snd (finish_step s r x)) = ex_calls x"
  "ex_results (snd (finish_step s r x)) = ex_results x @ [fst (finish_step s r x)]"
  "lg_states (ex_ledger (snd (finish_step s r x))) = (lg_states (ex_ledger x))(st_id s := Terminal)"
  "fst (finish_step s r x) = apply_criteria s r"
  by (simp_all add: finish_step_def record_validated_result_def Let_def)

lemma apply_criteria_unknown: "sr_status (apply_criteria s r) = ''unknown_effect'' \<Longrightarrow> sr_status r = ''unknown_effect''"
  by (auto simp: apply_criteria_def split: option.splits if_splits)

lemma apply_criteria_kind [simp]: "sr_kind (apply_criteria s r) = sr_kind r"
  by (auto simp: apply_criteria_def split: option.splits)

text \<open>A call of an effect, seen from outside: it happened behind the guards.\<close>

definition guarded_call :: "plan_step \<times> result_map \<Rightarrow> bool" where
  "guarded_call c \<longleftrightarrow> condition_matches (fst c) (snd c) \<and> st_kind (fst c) \<notin> {''analysis'', ''join''} \<and>
     (st_kind (fst c) \<in> {''agent'', ''tool'', ''schedule''} \<longrightarrow> blocked_predecessors (fst c) (snd c) = [])"

lemma finish_pair:
  "finish_step s r x = (q, y) \<Longrightarrow> ex_calls y = ex_calls x \<and> ex_results y = ex_results x @ [q] \<and>
     lg_states (ex_ledger y) = (lg_states (ex_ledger x))(st_id s := Terminal) \<and> q = apply_criteria s r"
  using finish_step_simps [of s r x] by simp

text \<open>When a tool may be started a second time: the registry calls it safe and asks nobody, the step leaves
  retries to the executor and budgets one, and the first start returned a known failure that may be
  retried.\<close>

definition may_repeat :: "effects \<Rightarrow> plan_step \<Rightarrow> result_map \<Rightarrow> bool" where
  "may_repeat ef s rm \<longleftrightarrow> st_kind s = ''tool'' \<and>
     (\<exists>t name args d o'. tool_of (st_fields s) = Some t \<and> tf_retry_owner t = JStr ''step_executor'' \<and> 1 \<le> int_value (tf_retry_budget t) \<and>
        tool_call_of ef s = (name, args) \<and> ef_definition ef name = Some d \<and> td_risk_level d = ''safe'' \<and> \<not> td_require_confirm d \<and>
        ef_tool ef s rm name args 0 = AttemptReturned o' \<and> \<not> te_success o' \<and> te_outcome o' \<noteq> UnknownEffect \<and> te_retryable o' \<and>
        (\<forall>p. te_receipt o' = Some p \<longrightarrow> pr_retryable p))"

lemma retry_budget_limits:
  assumes "automatic_retry_budget ef name s \<noteq> 0"
  shows "automatic_retry_budget ef name s = 1 \<and> (\<exists>t d. tool_of (st_fields s) = Some t \<and> tf_retry_owner t = JStr ''step_executor'' \<and>
    1 \<le> int_value (tf_retry_budget t) \<and> ef_definition ef name = Some d \<and> td_risk_level d = ''safe'' \<and> \<not> td_require_confirm d)"
  using assms by (auto simp: automatic_retry_budget_def max_tool_retries_def Let_def split: option.splits if_splits)

lemma tool_attempts_none: "tool_attempts call name 0 n = (m, o') \<Longrightarrow> m = n"
  by (auto split: attempt_end.splits)

lemma tool_attempts_one:
  assumes "tool_attempts call name (Suc 0) 0 = (m, o')"
  shows "m = 0 \<or> m = 1 \<and> (\<exists>e. call 0 = AttemptReturned e \<and> \<not> te_success e \<and> te_outcome e \<noteq> UnknownEffect \<and> te_retryable e \<and>
    (\<forall>p. te_receipt e = Some p \<longrightarrow> pr_retryable p))"
  using assms by (auto simp: terminal_permission_def terminal_tool_outcome_def split: attempt_end.splits if_splits option.splits)

lemma run_tool_attempts:
  assumes "tool_call_of ef s = (name, args)" and "st_kind s = ''tool''"
    and "tool_attempts (ef_tool ef s rm name args) name (automatic_retry_budget ef name s) 0 = (m, o')"
  shows "m = 0 \<or> m = 1 \<and> may_repeat ef s rm"
proof (cases "automatic_retry_budget ef name s = 0")
  case True
  with assms(3) show ?thesis using tool_attempts_none by auto
next
  case False
  note limits = retry_budget_limits [OF this]
  with assms(3) have "tool_attempts (ef_tool ef s rm name args) name (Suc 0) 0 = (m, o')" by simp
  from tool_attempts_one [OF this] limits assms(1,2) show ?thesis unfolding may_repeat_def by blast
qed

text \<open>A call that runs into its timeout is reported as a known failure that may be retried, whatever the tool does.\<close>

lemma timeout_is_known_failure:
  assumes "call n = AttemptTimeout"
  shows "\<exists>o'. tool_attempts call name left n = (n, Some o') \<and> te_outcome o' = KnownFailure \<and> te_retryable o' \<and>
    outcome_status o' = ''error''"
  using assms by (cases left) (simp_all add: failed_result_envelope_def outcome_status_def)

text \<open>What one step adds to the starts: nothing, one, or two.\<close>

definition starts_of :: "effects \<Rightarrow> plan_step \<Rightarrow> result_map \<Rightarrow> (plan_step \<times> result_map) list \<Rightarrow> bool" where
  "starts_of ef s rm cs \<longleftrightarrow> cs = [(s, rm)] \<or> cs = [(s, rm), (s, rm)] \<and> may_repeat ef s rm"

lemma run_effect_calls:
  "run_schedule ef s rest x = (x', st) \<Longrightarrow> starts_of ef s (ex_map x) [(s, ex_map x)] \<and> ex_calls x' = ex_calls x @ [(s, ex_map x)] \<and>
     lg_states (ex_ledger x') = (lg_states (ex_ledger x))(st_id s := Terminal)"
  "run_agent ef s x = (x', st) \<Longrightarrow>
     ex_calls x' = ex_calls x @ [(s, ex_map x)] \<and> lg_states (ex_ledger x') = (lg_states (ex_ledger x))(st_id s := Terminal) \<or>
     x' = x \<and> st \<noteq> None"
  by (auto simp: run_schedule_def run_agent_def call_effect_def starts_of_def Let_def
      split: prod.splits if_splits dest!: finish_pair)

lemma run_tool_calls:
  assumes "run_tool ef s rest x = (x', st)" and "st_kind s = ''tool''"
  shows "(lg_states (ex_ledger x') = (lg_states (ex_ledger x))(st_id s := Terminal) \<or> ex_ledger x' = ex_ledger x \<and> st \<noteq> None) \<and>
    (ex_calls x' = ex_calls x \<or> (\<exists>cs. starts_of ef s (ex_map x) cs \<and> ex_calls x' = ex_calls x @ cs))"
proof -
  obtain name args where call: "tool_call_of ef s = (name, args)" by fastforce
  obtain n o' where tried: "tool_attempts (ef_tool ef s (ex_map x) name args) name (automatic_retry_budget ef name s) 0 = (n, o')" by fastforce
  have "starts_of ef s (ex_map x) (replicate (Suc n) (s, ex_map x))"
    using run_tool_attempts [OF call assms(2) tried] by (auto simp: starts_of_def)
  then have "\<exists>cs. starts_of ef s (ex_map x) cs \<and> ex_calls x @ replicate (Suc n) (s, ex_map x) = ex_calls x @ cs" by blast
  then show ?thesis
    using assms(1) by (auto simp: run_tool_def call tried Let_def finish_step_simps simp del: replicate.simps split: prod.splits if_splits option.splits dest!: finish_pair)
qed

lemma run_effect_results:
  "run_schedule ef s rest x = (x', st) \<Longrightarrow> \<exists>r. ex_results x' = ex_results x @ [r] \<and> sr_kind r = st_kind s"
  "run_agent ef s x = (x', st) \<Longrightarrow> x' = x \<or> (\<exists>r. ex_results x' = ex_results x @ [r] \<and>
     (sr_status r = ''unknown_effect'' \<longrightarrow> st = Some (Stopped ''unknown_effect'')))"
  by (auto simp: run_schedule_def run_agent_def call_effect_def stamp_def Let_def
      split: prod.splits if_splits dest!: finish_pair)

lemma run_tool_results:
  assumes "run_tool ef s rest x = (x', st)"
  shows "ex_results x' = ex_results x \<or> (\<exists>r. ex_results x' = ex_results x @ [r] \<and>
    (sr_status r = ''unknown_effect'' \<longrightarrow> st = Some (Stopped ''unknown_effect'')))"
  using assms
  by (auto simp: run_tool_def no_tool_result_def new_result_def Let_def finish_step_simps split: prod.splits if_splits option.splits
      dest!: finish_pair apply_criteria_unknown)

lemma execute_step_calls:
  assumes "execute_step ef s rest x = (x', st)"
  shows "lg_states (ex_ledger x') = (lg_states (ex_ledger x))(st_id s := lg_states (ex_ledger x') (st_id s)) \<and>
    lg_states (ex_ledger x') (st_id s) \<noteq> Pending \<and>
    (ex_calls x' = ex_calls x \<or>
     (\<exists>cs. ex_calls x' = ex_calls x @ cs \<and> starts_of ef s (ex_map x) cs \<and> guarded_call (s, ex_map x) \<and>
       lg_states (ex_ledger x) (st_id s) = Pending))"
proof (cases "st_kind s = ''tool''")
  case True
  with assms show ?thesis
    by (auto simp: execute_step_def guarded_call_def Let_def finish_step_simps fun_upd_idem split: if_splits dest!: run_tool_calls)
next
  case False
  with assms show ?thesis
    by (fastforce simp: execute_step_def guarded_call_def Let_def finish_step_simps fun_upd_idem starts_of_def
        split: if_splits dest!: run_effect_calls)
qed

lemma execute_step_results:
  assumes "execute_step ef s rest x = (x', st)"
  shows "\<exists>rs. ex_results x' = ex_results x @ rs \<and> length rs \<le> 1 \<and>
    (\<forall>r\<in>set rs. sr_status r = ''unknown_effect'' \<and> sr_kind r \<in> {''tool'', ''agent''} \<longrightarrow>
       st = Some (Stopped ''unknown_effect''))"
  using assms
  by (auto simp: execute_step_def Let_def finish_step_simps blocked_predecessor_result_def
      skipped_condition_result_def analysis_result_def join_result_def new_result_def
      split: if_splits prod.splits step_fields.splits
      dest!: run_effect_results run_tool_results apply_criteria_unknown)

section \<open>The loop\<close>

text \<open>The starts of one step's effect.\<close>

definition starts_in :: "(plan_step \<times> result_map) list \<Rightarrow> string \<Rightarrow> (plan_step \<times> result_map) list" where
  "starts_in cs i = filter (\<lambda>c. st_id (fst c) = i) cs"

lemma execute_loop_calls:
  assumes "execute_loop ef ss x = (x', st)" and "distinct (map st_id ss)"
  shows "\<exists>cs. ex_calls x' = ex_calls x @ cs \<and>
    (\<forall>s\<in>set ss. starts_in cs (st_id s) = [] \<or> (\<exists>rm. starts_of ef s rm (starts_in cs (st_id s)))) \<and>
    (\<forall>c\<in>set cs. guarded_call c \<and> fst c \<in> set ss \<and> lg_states (ex_ledger x) (st_id (fst c)) = Pending \<and>
       lg_states (ex_ledger x') (st_id (fst c)) \<noteq> Pending) \<and>
    (\<forall>i. i \<notin> st_id ` set ss \<longrightarrow> lg_states (ex_ledger x') i = lg_states (ex_ledger x) i)"
  using assms
proof (induction ss arbitrary: x)
  case (Cons s ss)
  obtain y t where step: "execute_step ef s ss x = (y, t)" by fastforce
  note sc = execute_step_calls [OF step]
  have other: "lg_states (ex_ledger y) i = lg_states (ex_ledger x) i" if "i \<noteq> st_id s" for i
    using sc that by (metis fun_upd_other)
  have fresh: "st_id s \<notin> st_id ` set ss" using Cons.prems(2) by simp
  obtain ks where ks: "ex_calls y = ex_calls x @ ks" "ks = [] \<or> starts_of ef s (ex_map x) ks"
      "\<forall>c\<in>set ks. c = (s, ex_map x) \<and> guarded_call c \<and> lg_states (ex_ledger x) (st_id s) = Pending"
  proof -
    from sc consider "ex_calls y = ex_calls x @ []" | cs where "ex_calls y = ex_calls x @ cs" "starts_of ef s (ex_map x) cs"
      "guarded_call (s, ex_map x)" "lg_states (ex_ledger x) (st_id s) = Pending" by auto
    then show thesis
    proof cases
      case 1
      then show ?thesis by (intro that [of "[]"]) simp_all
    next
      case 2
      then show ?thesis by (intro that [of cs]) (auto simp: starts_of_def)
    qed
  qed
  have own: "starts_in ks (st_id s) = ks" using ks(3) by (auto simp: starts_in_def filter_id_conv)
  have away: "starts_in ks (st_id u) = []" if "u \<in> set ss" for u
  proof -
    have "st_id u \<noteq> st_id s" using that fresh by (metis image_eqI)
    then show ?thesis using ks(3) by (auto simp: starts_in_def filter_empty_conv)
  qed
  have ready: "lg_states (ex_ledger y) (st_id s) \<noteq> Pending" using sc by blast
  show ?case
  proof (cases t)
    case (Some r)
    with Cons.prems step have "x' = y" by simp
    with ks own away other ready show ?thesis by (intro exI [of _ ks]) auto
  next
    case None
    with Cons.prems step have "execute_loop ef ss y = (x', st)" by simp
    with Cons.IH [of y] Cons.prems(2) obtain cs where cs: "ex_calls x' = ex_calls y @ cs"
        "\<forall>u\<in>set ss. starts_in cs (st_id u) = [] \<or> (\<exists>rm. starts_of ef u rm (starts_in cs (st_id u)))"
        "\<forall>c\<in>set cs. guarded_call c \<and> fst c \<in> set ss \<and> lg_states (ex_ledger y) (st_id (fst c)) = Pending \<and>
          lg_states (ex_ledger x') (st_id (fst c)) \<noteq> Pending"
        "\<forall>i. i \<notin> st_id ` set ss \<longrightarrow> lg_states (ex_ledger x') i = lg_states (ex_ledger y) i" by auto
    have new: "st_id (fst c) \<noteq> st_id s" if "c \<in> set cs" for c
    proof -
      have "st_id (fst c) \<in> st_id ` set ss" using cs(3) that by auto
      with fresh show ?thesis by metis
    qed
    have none: "starts_in cs (st_id s) = []" using new by (auto simp: starts_in_def filter_empty_conv)
    have split: "starts_in (ks @ cs) i = starts_in ks i @ starts_in cs i" for i by (simp add: starts_in_def)
    have mine: "lg_states (ex_ledger x') (st_id s) \<noteq> Pending" using cs(4) fresh ready by simp
    have "\<forall>u\<in>set (s # ss). starts_in (ks @ cs) (st_id u) = [] \<or> (\<exists>rm. starts_of ef u rm (starts_in (ks @ cs) (st_id u)))"
      unfolding split using ks(2) own none away cs(2) by auto
    moreover have "\<forall>c\<in>set (ks @ cs). guarded_call c \<and> fst c \<in> set (s # ss) \<and> lg_states (ex_ledger x) (st_id (fst c)) = Pending \<and>
        lg_states (ex_ledger x') (st_id (fst c)) \<noteq> Pending"
      using ks(3) mine cs(3) other new by auto
    moreover have "\<forall>i. i \<notin> st_id ` set (s # ss) \<longrightarrow> lg_states (ex_ledger x') i = lg_states (ex_ledger x) i"
      using cs(4) other by auto
    ultimately show ?thesis using ks(1) cs(1) by (intro exI [of _ "ks @ cs"]) simp
  qed
qed auto

lemma execute_loop_results:
  assumes "execute_loop ef ss x = (x', st)"
  shows "\<exists>rs. ex_results x' = ex_results x @ rs \<and>
    (\<forall>r\<in>set rs. sr_status r = ''unknown_effect'' \<and> sr_kind r \<in> {''tool'', ''agent''} \<longrightarrow>
       st = Some (Stopped ''unknown_effect'') \<and> r = last rs)"
  using assms
proof (induction ss arbitrary: x)
  case (Cons s ss)
  obtain y t where step: "execute_step ef s ss x = (y, t)" by fastforce
  obtain rs where rs: "ex_results y = ex_results x @ rs" "length rs \<le> 1"
      "\<forall>r\<in>set rs. sr_status r = ''unknown_effect'' \<and> sr_kind r \<in> {''tool'', ''agent''} \<longrightarrow>
        t = Some (Stopped ''unknown_effect'')"
    using execute_step_results [OF step] by blast
  show ?case
  proof (cases t)
    case (Some q)
    with Cons.prems step have "x' = y" "st = t" by auto
    moreover have "r = last rs" if "r \<in> set rs" for r
      using that rs(2) by (cases rs) auto
    ultimately show ?thesis using rs by (intro exI [of _ rs]) auto
  next
    case None
    with Cons.prems step have "execute_loop ef ss y = (x', st)" by simp
    from Cons.IH [OF this] obtain qs where qs: "ex_results x' = ex_results y @ qs"
        "\<forall>r\<in>set qs. sr_status r = ''unknown_effect'' \<and> sr_kind r \<in> {''tool'', ''agent''} \<longrightarrow>
          st = Some (Stopped ''unknown_effect'') \<and> r = last qs" by blast
    have "\<forall>r\<in>set (rs @ qs). sr_status r = ''unknown_effect'' \<and> sr_kind r \<in> {''tool'', ''agent''} \<longrightarrow>
        st = Some (Stopped ''unknown_effect'') \<and> r = last (rs @ qs)"
      using rs(3) qs(2) None by (auto simp: last_append)
    with rs(1) qs(1) show ?thesis by (intro exI [of _ "rs @ qs"]) simp
  qed
qed auto

text \<open>A waived dependency is one with a recorded result that is not a success.\<close>

lemma failed_leafD: "d \<in> failed_leaf rm src b \<Longrightarrow> rm d \<noteq> None \<and> \<not> result_is_completed (rm d)"
  by (auto simp: failed_leaf_def split: if_splits)

lemma failed_sources_nodeD:
  "d \<in> failed_sources_node rm n \<Longrightarrow> rm d \<noteq> None \<and> \<not> result_is_completed (rm d)"
proof (induction n)
  case (PredicateNode op source vals children)
  show ?case
  proof (cases "op \<in> combinators")
    case True
    with PredicateNode.prems obtain c where "c \<in> set children" "d \<in> failed_sources_node rm c" by auto
    then show ?thesis by (rule PredicateNode.IH)
  next
    case False
    with PredicateNode.prems show ?thesis by (auto dest: failed_leafD)
  qed
qed

lemma failed_sources_jsonD:
  "d \<in> failed_sources_json rm v \<Longrightarrow> rm d \<noteq> None \<and> \<not> result_is_completed (rm d)"
proof (induction v rule: measure_induct_rule [of size])
  case (less v)
  show ?case
  proof (cases v)
    case (JObj e)
    show ?thesis
    proof (cases "json_op e \<in> combinators")
      case True
      with less.prems JObj obtain c where c: "c \<in> set (json_children e)" "d \<in> failed_sources_json rm c"
        by (subst (asm) failed_sources_json.simps) auto
      from less.IH [OF _ c(2)] show ?thesis
        using json_items_smaller [of c e "''children''"] c(1) JObj by (simp add: json_children_def)
    next
      case False
      with less.prems JObj show ?thesis
        by (subst (asm) failed_sources_json.simps) (auto dest: failed_leafD)
    qed
  qed (use less.prems in \<open>simp_all add: failed_sources_json.simps\<close>)
qed

lemma failed_sourcesD: "d \<in> failed_sources rm p \<Longrightarrow> rm d \<noteq> None \<and> \<not> result_is_completed (rm d)"
  by (induction p) (auto dest: failed_sources_nodeD failed_sources_jsonD)

lemma matched_failure_sourcesD:
  "d \<in> matched_failure_sources s rm \<Longrightarrow>
     rm d \<noteq> None \<and> \<not> result_is_completed (rm d) \<and> st_condition s \<noteq> None"
  by (auto simp: matched_failure_sources_def split: option.splits if_splits dest: failed_sourcesD)

lemma set_order_steps [simp]: "set (order_steps steps) = set steps"
  using mset_order_loop by (metis order_steps_def set_mset_mset)

lemma distinct_order_steps: "distinct (map st_id steps) \<Longrightarrow> distinct (map st_id (order_steps steps))"
proof -
  have "mset (map st_id (order_steps steps)) = mset (map st_id steps)"
    by (simp add: order_steps_def mset_order_loop)
  then show "distinct (map st_id steps) \<Longrightarrow> ?thesis" using mset_eq_imp_distinct_iff by blast
qed

section \<open>A sample run\<close>

definition sample_outcome :: "effect_outcome \<Rightarrow> tool_result" where
  "sample_outcome e = \<lparr>te_success = (e = KnownSuccess), te_content = [], te_source = ''builtin'', te_tool_name = ''read_file'', te_data = JNull,
     te_error = None, te_receipt = None, te_outcome = e, te_retryable = (e = KnownFailure)\<rparr>"

definition sample_definition :: tool_definition where
  "sample_definition = \<lparr>td_name = ''read_file'', td_source = ''builtin'', td_require_confirm = False, td_risk_level = ''safe'',
     td_allow_remembered_decision = True\<rparr>"

text \<open>The outcomes of the first and of later attempts.\<close>

definition sample_effects :: "effect_outcome \<Rightarrow> effect_outcome \<Rightarrow> effects" where
  "sample_effects e e' = \<lparr>ef_schedule = (\<lambda>s rm. new_result s ''created''), ef_agent = (\<lambda>s rm. new_result s ''ok''),
     ef_definition = (\<lambda>n. Some sample_definition), ef_infer = (\<lambda>p. ([], [])), ef_text = (\<lambda>v. []),
     ef_tool = (\<lambda>s rm name args n. AttemptReturned (sample_outcome (if n = 0 then e else e'))), ef_registry = True, ef_executor = True\<rparr>"

definition empty_ledger :: ledger where
  "empty_ledger = \<lparr>lg_results = Map.empty, lg_states = (\<lambda>_. Pending)\<rparr>"

definition second_tool_step :: plan_step where
  "second_tool_step = sample_tool_step\<lparr>st_id := ''u'', st_depends_on := [JStr ''t'']\<rparr>"

definition sample_plan :: "plan_step list" where
  "sample_plan = [second_tool_step, sample_tool_step]"

lemma sample_plan_fields:
  "st_id sample_tool_step = ''t''" "st_id second_tool_step = ''u''"
  "dep_ids sample_tool_step = []" "dep_ids second_tool_step = [''t'']"
  "st_kind sample_tool_step = ''tool''" "st_kind second_tool_step = ''tool''"
  "st_condition sample_tool_step = None" "st_condition second_tool_step = None"
  "st_success_criteria sample_tool_step = Some default_criteria"
  "st_success_criteria second_tool_step = Some default_criteria"
  "tool_call_of (sample_effects e e') sample_tool_step = (''read_file'', [(''path'', JStr ''a'')])"
  "tool_call_of (sample_effects e e') second_tool_step = (''read_file'', [(''path'', JStr ''a'')])"
  "automatic_retry_budget (sample_effects e e') ''read_file'' sample_tool_step = Suc 0"
  "automatic_retry_budget (sample_effects e e') ''read_file'' second_tool_step = Suc 0"
  by (simp_all add: sample_tool_step_def second_tool_step_def dep_ids_def json_string_def tool_call_of_def tool_of_def text_of_def
      automatic_retry_budget_def max_tool_retries_def int_value_def sample_effects_def sample_definition_def)

lemma sample_order: "order_steps sample_plan = [sample_tool_step, second_tool_step]"
  by (simp add: order_steps_def sample_plan_def order_loop.simps sample_plan_fields Let_def)

lemmas run_simps = execute_immediate_steps_def execute_step_def run_tool_def finish_step_def tool_step_result_def outcome_status_def
  record_validated_result_def apply_criteria_def call_effect_def start_execution_def empty_ledger_def is_known_success_def
  terminal_permission_def terminal_tool_outcome_def sample_outcome_def
  stamp_def new_result_def blocked_predecessors_def matched_failure_sources_def
  condition_matches_def has_result_handler_def default_criteria_def eval_json.simps json_op_def
  json_source_def json_values_def json_children_def eval_leaf_def combinators_def result_is_completed_def

lemma sample_tool: "ef_tool (sample_effects e e') s rm name args n = AttemptReturned (sample_outcome (if n = 0 then e else e'))"
  "ef_executor (sample_effects e e')"
  by (simp_all add: sample_effects_def)

lemma sample_run:
  "\<exists>x. execute_immediate_steps (sample_effects KnownSuccess e') sample_plan empty_ledger = (x, None) \<and>
     map (\<lambda>c. st_id (fst c)) (ex_calls x) = [''t'', ''u''] \<and> (\<exists>rm. (second_tool_step, rm) \<in> set (ex_calls x))"
  by (simp add: run_simps sample_order sample_plan_fields sample_tool Let_def dict_get_Cons get_or_def dict_has_def
      json_string_def json_items_def dict_get_def) blast

lemma sample_retried_run:
  "\<exists>x. execute_immediate_steps (sample_effects KnownFailure KnownSuccess) sample_plan empty_ledger = (x, None) \<and>
     map (\<lambda>c. st_id (fst c)) (ex_calls x) = [''t'', ''t'', ''u'', ''u'']"
  by (simp add: run_simps sample_order sample_plan_fields sample_tool Let_def dict_get_Cons get_or_def dict_has_def
      json_string_def json_items_def dict_get_def)

lemma sample_unknown_run:
  "\<exists>x r. execute_immediate_steps (sample_effects UnknownEffect e') sample_plan empty_ledger =
     (x, Some (Stopped ''unknown_effect'')) \<and> ex_results x = [r] \<and> sr_status r = ''unknown_effect'' \<and> sr_kind r = ''tool''"
  by (simp add: run_simps sample_order sample_plan_fields sample_tool Let_def)

lemma sample_plan_distinct: "distinct (map st_id sample_plan)"
  by (simp add: sample_plan_def sample_plan_fields)

section \<open>Properties of plan execution\<close>

text \<open>C11. The executor's order of an accepted plan is a rearrangement of its steps in which every
  dependency stands before the step that needs it; the fallback for a stuck pass is never taken.\<close>

theorem execution_order_is_topological:
  assumes "validate_plan zone lm steps = None"
  shows "mset (order_steps steps) = mset steps \<and>
    (\<forall>xs s ys. order_steps steps = xs @ s # ys \<longrightarrow>
       (\<forall>d\<in>set (dep_ids s). d \<in> st_id ` set steps \<longrightarrow> d \<in> st_id ` set xs))"
proof -
  have valid: "distinct (map st_id steps)" "acyclic (dep_edges (plan_graph steps))"
    using assms by (auto simp: validate_plan_exact plan_valid_def)
  have "respects_deps (st_id ` set steps) {} (order_steps steps)"
    unfolding order_steps_def
    by (rule order_loop_respects [OF valid(2)]) (use plan_edges [OF valid(1)] in auto)
  then show ?thesis by (auto simp: respects_append order_steps_def mset_order_loop)
qed

theorem execution_order_is_topological_witness:
  "mset (order_steps [sample_step ''a'' [''b''], sample_step ''b'' []]) = {#sample_step ''a'' [''b''], sample_step ''b'' []#}"
  using execution_order_is_topological [OF sample_plan_accepted] by simp

text \<open>C12. Effects start only behind their guards: whenever a run starts a tool, an agent or a schedule,
  the step belongs to the plan, its condition holds, and every dependency either completed
  successfully or has a recorded failure that the step's own condition explicitly matches.\<close>

theorem effects_start_behind_guards:
  assumes "distinct (map st_id steps)"
    and "\<forall>s\<in>set steps. st_kind s \<in> {''analysis'', ''agent'', ''tool'', ''schedule'', ''join''}"
    and "execute_immediate_steps ef steps lg = (x, st)" and "(s, rm) \<in> set (ex_calls x)"
  shows "s \<in> set steps \<and> st_kind s \<in> {''agent'', ''tool'', ''schedule''} \<and> condition_matches s rm \<and>
    (\<forall>d\<in>set (dep_ids s). (\<exists>r. rm d = Some r \<and> sr_success r = Some True \<and> sr_status r \<in> {''ok'', ''created''}) \<or>
       rm d \<noteq> None \<and> d \<in> matched_failure_sources s rm \<and> st_condition s \<noteq> None)"
proof -
  have "execute_loop ef (order_steps steps) (start_execution lg) = (x, st)"
    using assms(3) by (simp add: execute_immediate_steps_def)
  from execute_loop_calls [OF this distinct_order_steps [OF assms(1)]] assms(4)
  have call: "guarded_call (s, rm)" "s \<in> set steps" by (auto simp: start_execution_def)
  then have kind: "st_kind s \<in> {''agent'', ''tool'', ''schedule''}" using assms(2) by (auto simp: guarded_call_def)
  with call have "blocked_predecessors s rm = []" "condition_matches s rm" by (auto simp: guarded_call_def)
  moreover have "(\<exists>r. rm d = Some r \<and> sr_success r = Some True \<and> sr_status r \<in> {''ok'', ''created''}) \<or>
      rm d \<noteq> None \<and> d \<in> matched_failure_sources s rm \<and> st_condition s \<noteq> None" if "d \<in> set (dep_ids s)" for d
  proof (cases "d \<in> matched_failure_sources s rm")
    case True
    then show ?thesis using matched_failure_sourcesD [OF True] by blast
  next
    case False
    with that \<open>blocked_predecessors s rm = []\<close> have "result_is_completed (rm d)"
      by (auto simp: blocked_predecessors_def filter_empty_conv)
    then show ?thesis by (auto simp: result_is_completed_def split: option.splits)
  qed
  ultimately show ?thesis using call(2) kind by blast
qed

theorem effects_start_behind_guards_witness:
  "\<exists>x st rm. execute_immediate_steps (sample_effects KnownSuccess KnownSuccess) sample_plan empty_ledger = (x, st) \<and>
     (second_tool_step, rm) \<in> set (ex_calls x) \<and> condition_matches second_tool_step rm \<and> rm ''t'' \<noteq> None"
proof -
  obtain x rm where run: "execute_immediate_steps (sample_effects KnownSuccess KnownSuccess) sample_plan empty_ledger = (x, None)"
      "(second_tool_step, rm) \<in> set (ex_calls x)" using sample_run by blast
  have "\<forall>s\<in>set sample_plan. st_kind s \<in> {''analysis'', ''agent'', ''tool'', ''schedule'', ''join''}"
    by (simp add: sample_plan_def sample_plan_fields)
  from effects_start_behind_guards [OF sample_plan_distinct this run] run show ?thesis
    by (auto simp: sample_plan_fields)
qed

text \<open>C13. Effects are repeated only where that is safe: a run starts the effect of a step once, and a second time
  only for a tool that is registered as safe and unconfirmed, whose step leaves one retry to the executor,
  after the first start returned a known, retryable failure; never a third time. A second run against the
  ledger the first one left never starts an effect again that the first one started. (What an agent calls
  in its own tool loop is not part of the model.)\<close>

theorem effects_repeat_only_when_safe:
  assumes "distinct (map st_id steps)" and "distinct (map st_id steps')"
    and "execute_immediate_steps ef steps lg = (x, st)"
    and "execute_immediate_steps ef' steps' (ex_ledger x) = (x', st')"
  shows "(\<forall>s\<in>set steps. starts_in (ex_calls x) (st_id s) = [] \<or>
       (\<exists>rm. starts_in (ex_calls x) (st_id s) = [(s, rm)] \<or>
          starts_in (ex_calls x) (st_id s) = [(s, rm), (s, rm)] \<and> may_repeat ef s rm)) \<and>
    fst ` set (ex_calls x) \<subseteq> set steps \<and>
    (\<lambda>c. st_id (fst c)) ` set (ex_calls x) \<inter> (\<lambda>c. st_id (fst c)) ` set (ex_calls x') = {}"
proof -
  have run: "execute_loop ef (order_steps steps) (start_execution lg) = (x, st)"
      "execute_loop ef' (order_steps steps') (start_execution (ex_ledger x)) = (x', st')"
    using assms(3,4) by (simp_all add: execute_immediate_steps_def)
  note first = execute_loop_calls [OF run(1) distinct_order_steps [OF assms(1)]]
  note second = execute_loop_calls [OF run(2) distinct_order_steps [OF assms(2)]]
  have over: "lg_states (ex_ledger x) (st_id (fst c)) \<noteq> Pending" if "c \<in> set (ex_calls x)" for c
    using first that by (auto simp: start_execution_def)
  have pending: "lg_states (ex_ledger x) (st_id (fst c)) = Pending" if "c \<in> set (ex_calls x')" for c
    using second that by (auto simp: start_execution_def)
  have "(\<lambda>c. st_id (fst c)) ` set (ex_calls x) \<inter> (\<lambda>c. st_id (fst c)) ` set (ex_calls x') = {}"
  proof (rule ccontr)
    assume "\<not> ?thesis"
    then obtain c c' where "c \<in> set (ex_calls x)" "c' \<in> set (ex_calls x')" "st_id (fst c) = st_id (fst c')" by auto
    with over [of c] pending [of c'] show False by simp
  qed
  with first show ?thesis by (fastforce simp: start_execution_def starts_of_def)
qed

theorem effects_repeat_only_when_safe_witness:
  "\<exists>x st x' st'. execute_immediate_steps (sample_effects KnownFailure KnownSuccess) sample_plan empty_ledger = (x, st) \<and>
     execute_immediate_steps (sample_effects KnownSuccess KnownSuccess) sample_plan (ex_ledger x) = (x', st') \<and>
     length (ex_calls x) = 4 \<and> (\<lambda>c. st_id (fst c)) ` set (ex_calls x) \<inter> (\<lambda>c. st_id (fst c)) ` set (ex_calls x') = {}"
proof -
  obtain x where run: "execute_immediate_steps (sample_effects KnownFailure KnownSuccess) sample_plan empty_ledger = (x, None)"
      "map (\<lambda>c. st_id (fst c)) (ex_calls x) = [''t'', ''t'', ''u'', ''u'']" using sample_retried_run by (elim exE conjE)
  obtain x' st' where again: "execute_immediate_steps (sample_effects KnownSuccess KnownSuccess) sample_plan (ex_ledger x) = (x', st')"
    by fastforce
  have "length (ex_calls x) = 4" using arg_cong [OF run(2), of length] by simp
  moreover note effects_repeat_only_when_safe [OF sample_plan_distinct sample_plan_distinct run(1) again, THEN conjunct2, THEN conjunct2]
  ultimately show ?thesis by (intro exI conjI) (rule run(1) again | assumption)+
qed

text \<open>Nothing runs after an unknown effect: if a tool or an agent reports that its effect on the
  outside world is unknown, the run stops with that reason and this result is its last.\<close>

theorem unknown_effect_stops_run:
  assumes "execute_immediate_steps ef steps lg = (x, st)" and "r \<in> set (ex_results x)"
    and "sr_status r = ''unknown_effect''" and "sr_kind r \<in> {''tool'', ''agent''}"
  shows "st = Some (Stopped ''unknown_effect'') \<and> r = last (ex_results x)"
proof -
  have "execute_loop ef (order_steps steps) (start_execution lg) = (x, st)"
    using assms(1) by (simp add: execute_immediate_steps_def)
  from execute_loop_results [OF this] obtain rs where rs: "ex_results x = rs"
      "\<forall>r\<in>set rs. sr_status r = ''unknown_effect'' \<and> sr_kind r \<in> {''tool'', ''agent''} \<longrightarrow>
        st = Some (Stopped ''unknown_effect'') \<and> r = last rs" by (auto simp: start_execution_def)
  with assms(2-4) show ?thesis by blast
qed

theorem unknown_effect_stops_run_witness:
  "\<exists>x st r. execute_immediate_steps (sample_effects UnknownEffect UnknownEffect) sample_plan empty_ledger = (x, st) \<and>
     st = Some (Stopped ''unknown_effect'') \<and> r = last (ex_results x)"
proof -
  obtain x st r where "execute_immediate_steps (sample_effects UnknownEffect UnknownEffect) sample_plan empty_ledger = (x, st)"
      "r \<in> set (ex_results x)" "sr_status r = ''unknown_effect''" "sr_kind r = ''tool''"
    using sample_unknown_run by fastforce
  with unknown_effect_stops_run [OF this(1,2,3)] show ?thesis by auto
qed

end
