(* ===== verification/Step_Recovery.thy ===== *)
theory Step_Recovery
  imports Plan_Correct Json_Order "HOL-Library.Sublist"
begin

text \<open>
  The durable store of retryable tool steps (\<open>modules/agent/recovery_store.py\<close>): the argument and
  snapshot filters, the step document with its strict reload, and the operations of
  \<open>SQLiteStepRecoveryStore\<close> on the table of markers. Clocks and fresh fencing tokens are arguments.
  A document is the JSON value it encodes, with sorted keys as \<open>json.dumps(sort_keys=True)\<close> writes it;
  \<open>nbytes\<close> is the number of bytes of that text.
\<close>

section \<open>Filters\<close>

datatype recovery_error =
    ArgumentsTooDeep
  | ArgumentsTooLarge
  | ArgumentKeyInvalid
  | SecretArgument
  | ArgumentValueTooLarge
  | ContextInvalid
  | SnapshotInvalid
  | SnapshotTooLarge
  | StepNotTool
  | StepNotTyped
  | StepNotIndependent
  | StepInvalid
  | StepTooLarge
  | StepInvalidJson
  | DocumentNotObject
  | StepUnknownField
  | StepMissingField
  | StepIdentity
  | StepToolName
  | StepArguments
  | RecoveryIdInvalid
  | RecoveryScopeInvalid
  | RecoveryOwnerInvalid
  | FencingTokenInvalid
  | ResultErrorExclusive

definition secret_keys :: "string set" where
  "secret_keys = {''authorization'', ''token'', ''access_token'', ''api_key'', ''apikey'', ''password'',
     ''secret'', ''cookie'', ''set-cookie''}"

definition secret_parts :: "string list" where
  "secret_parts = [''token'', ''secret'', ''password'', ''authorization'', ''api_key'']"

definition underscored :: "string \<Rightarrow> string" where
  "underscored s = map (\<lambda>c. if c = CHR ''-'' then CHR ''_'' else c) s"

definition secret_key :: "string \<Rightarrow> bool" where
  "secret_key k \<longleftrightarrow> underscored (py_lower k) \<in> secret_keys \<or>
     (\<exists>part\<in>set secret_parts. sublist part (py_lower k))"

definition check_key :: "string \<Rightarrow> recovery_error option" where
  "check_key k = (if length k > 128 then Some ArgumentKeyInvalid
     else if secret_key k then Some SecretArgument else None)"

function check_args :: "nat \<Rightarrow> json \<Rightarrow> recovery_error option" where
  "check_args depth v =
     (if depth > 8 then Some ArgumentsTooDeep
      else case v of
        JObj d \<Rightarrow>
          if length d > 128 then Some ArgumentsTooLarge
          else first_some (map (\<lambda>(k, c). or_else (check_key k) (check_args (Suc depth) c)) d)
      | JList xs \<Rightarrow>
          if length xs > 128 then Some ArgumentsTooLarge
          else first_some (map (check_args (Suc depth)) xs)
      | JStr s \<Rightarrow> if length s > 65536 then Some ArgumentValueTooLarge else None
      | _ \<Rightarrow> None)"
  by pat_completeness auto

termination by (relation "measure (\<lambda>(n, v). 9 - n)") auto

declare check_args.simps [simp del]

definition max_recovery_json :: nat where
  "max_recovery_json = 256 * 1024"

definition serialize_snapshot :: "(json \<Rightarrow> nat) \<Rightarrow> bool \<Rightarrow> json \<Rightarrow> recovery_error + json" where
  "serialize_snapshot nbytes is_context v =
     (if v = JNull then Inr JNull
      else if is_context \<and> \<not> is_object v then Inl ContextInvalid
      else case check_args 0 v of
          Some e \<Rightarrow> Inl e
        | None \<Rightarrow>
            if \<not> strict_json v then Inl SnapshotInvalid
            else if nbytes (sort_json v) > max_recovery_json then Inl SnapshotTooLarge
            else Inr (sort_json v))"

text \<open>\<open>strict_json_loads\<close> on the value a document decodes to.\<close>

definition strict_load :: "json \<Rightarrow> bool" where
  "strict_load v \<longleftrightarrow> strict_json v \<and> distinct_keys v"

definition deserialize_snapshot :: "json \<Rightarrow> recovery_error + json" where
  "deserialize_snapshot doc =
     (if doc = JNull then Inr JNull
      else if \<not> strict_load doc then Inl SnapshotInvalid
      else case check_args 0 doc of Some e \<Rightarrow> Inl e | None \<Rightarrow> Inr doc)"

section \<open>Step documents\<close>

definition serialize_tool_step ::
  "(json \<Rightarrow> nat) \<Rightarrow> (json \<Rightarrow> bool) \<Rightarrow> plan_step \<Rightarrow> recovery_error + json" where
  "serialize_tool_step nbytes zone s =
     (case st_fields s of
        ToolStep t \<Rightarrow>
          if st_plan_version s \<noteq> 2 then Inl StepNotTyped
          else if st_condition s \<noteq> None \<or> st_depends_on s \<noteq> [] then Inl StepNotIndependent
          else (case check_args 0 (tf_arguments t) of
              Some e \<Rightarrow> Inl e
            | None \<Rightarrow>
                if validate_plan zone default_limits [s] \<noteq> None then Inl StepInvalid
                else if nbytes (sort_json (step_to_dict s)) > 256 * 1024 then Inl StepTooLarge
                else Inr (sort_json (step_to_dict s)))
      | _ \<Rightarrow> Inl StepNotTool)"

definition tool_step_keys :: "string list" where
  "tool_step_keys = [''id'', ''title'', ''kind'', ''description'', ''payload'', ''depends_on'', ''condition'',
     ''owner_agent_id'', ''owner_agent_role'', ''route_reason'', ''success_criteria'', ''plan_version'',
     ''compatibility_trace'', ''tool_name'', ''arguments'', ''timeout_seconds'', ''retry_budget'',
     ''retry_owner'', ''idempotency_key'']"

definition required_step_keys :: "string list" where
  "required_step_keys = [''id'', ''title'', ''tool_name'', ''arguments'', ''timeout_seconds'', ''retry_budget'',
     ''retry_owner'', ''idempotency_key'', ''success_criteria'']"

definition document_checks :: "dict \<Rightarrow> (bool \<times> recovery_error) list" where
  "document_checks d =
     [(\<not> fst ` set d \<subseteq> set tool_step_keys, StepUnknownField),
      (dict_get d ''kind'' \<noteq> JStr ''tool'' \<or> \<not> equals_int (dict_get d ''plan_version'') 2, StepNotTyped),
      (\<exists>k\<in>set required_step_keys. \<not> dict_has d k, StepMissingField),
      (\<not> is_dep (dict_get d ''id'') \<or> \<not> is_json_str (dict_get d ''title''), StepIdentity),
      (\<not> nonblank (dict_get d ''tool_name''), StepToolName),
      (\<not> is_object (dict_get d ''arguments'') \<or> \<not> natural_int (dict_get d ''retry_budget''), StepArguments),
      (dict_get d ''condition'' \<noteq> JNull \<or> truthy (dict_get d ''depends_on''), StepNotIndependent)]"

text \<open>
  \<open>ToolStep(**document)\<close>: the fields by name. The dataclass does not check that its text fields are
  text; a document with such a field is outside the model and counts as invalid.
\<close>

definition opt_text :: "json \<Rightarrow> string option option" where
  "opt_text v = (case v of JNull \<Rightarrow> Some None | JStr s \<Rightarrow> Some (Some s) | _ \<Rightarrow> None)"

definition opt_dict :: "json \<Rightarrow> dict option option" where
  "opt_dict v = (case v of JNull \<Rightarrow> Some None | JObj d \<Rightarrow> Some (Some d) | _ \<Rightarrow> None)"

definition opt_predicate :: "json \<Rightarrow> predicate option" where
  "opt_predicate v = (case v of JNull \<Rightarrow> None | _ \<Rightarrow> Some (json_predicate v))"

definition document_step :: "dict \<Rightarrow> plan_step option" where
  "document_step d =
     (case (opt_text (get_or d ''description'' (JStr [])), opt_dict (dict_get d ''payload''),
            opt_text (dict_get d ''owner_agent_id''), opt_text (dict_get d ''owner_agent_role''),
            opt_text (dict_get d ''route_reason''), opt_dict (dict_get d ''compatibility_trace'')) of
        (Some (Some desc), Some payload, Some oid, Some orole, Some reason, Some trace) \<Rightarrow>
          if not_iterable (get_or d ''depends_on'' (JList [])) then None
          else Some \<lparr>st_id = json_string (dict_get d ''id''), st_title = json_string (dict_get d ''title''),
            st_kind = ''tool'', st_description = desc, st_payload = payload, st_depends_on = [],
            st_condition = None, st_owner_agent_id = oid, st_owner_agent_role = orole,
            st_route_reason = reason, st_success_criteria = opt_predicate (dict_get d ''success_criteria''),
            st_plan_version = 2, st_compatibility_trace = trace,
            st_fields = ToolStep \<lparr>tf_tool_name = dict_get d ''tool_name'', tf_arguments = dict_get d ''arguments'',
              tf_timeout_seconds = dict_get d ''timeout_seconds'', tf_retry_budget = dict_get d ''retry_budget'',
              tf_idempotency_key = dict_get d ''idempotency_key'', tf_retry_owner = dict_get d ''retry_owner''\<rparr>\<rparr>
      | _ \<Rightarrow> None)"

definition construct_tool_step :: "(json \<Rightarrow> bool) \<Rightarrow> dict \<Rightarrow> recovery_error + plan_step" where
  "construct_tool_step zone d =
     (case document_step d of
        None \<Rightarrow> Inl StepInvalid
      | Some s \<Rightarrow>
          (case st_fields s of
             ToolStep t \<Rightarrow>
               (case tool_post_init (\<lambda>_. []) (\<lambda>_. None) t s of
                  Inl e \<Rightarrow> Inl StepInvalid
                | Inr s' \<Rightarrow> if validate_plan zone default_limits [s'] = None then Inr s' else Inl StepInvalid)
           | _ \<Rightarrow> Inl StepInvalid))"

definition deserialize_tool_step :: "(json \<Rightarrow> bool) \<Rightarrow> json \<Rightarrow> recovery_error + plan_step" where
  "deserialize_tool_step zone doc =
     (if \<not> strict_load doc then Inl StepInvalidJson
      else case doc of
          JObj d \<Rightarrow>
            (case first_error (document_checks d) of
               Some e \<Rightarrow> Inl e
             | None \<Rightarrow>
                 (case check_args 0 (dict_get d ''arguments'') of
                    Some e \<Rightarrow> Inl e
                  | None \<Rightarrow> construct_tool_step zone d))
        | _ \<Rightarrow> Inl DocumentNotObject)"

section \<open>The store\<close>

datatype recovery_status = MarkerPending | MarkerClaimed | MarkerSucceeded | MarkerFailed

record recovery_row =
  rr_recovery_id :: string
  rr_step_json :: json
  rr_status :: recovery_status
  rr_attempts :: int
  rr_next_attempt_at :: time
  rr_lease_owner :: "string option"
  rr_lease_expires_at :: "time option"
  rr_fencing_token :: "string option"
  rr_workspace_id :: "string option"
  rr_session_id :: "string option"
  rr_turn_id :: "string option"
  rr_failed_step_id :: "string option"
  rr_plan_hash :: "string option"
  rr_context_json :: json
  rr_result_json :: json
  rr_completed_at :: "time option"
  rr_expires_at :: "time option"
  rr_updated_at :: time

record marker_scope =
  ms_workspace_id :: "string option"
  ms_session_id :: "string option"
  ms_turn_id :: "string option"
  ms_failed_step_id :: "string option"

type_synonym recovery_table = "recovery_row table"

definition too_long :: "string option \<Rightarrow> bool" where
  "too_long x = (case x of None \<Rightarrow> False | Some s \<Rightarrow> length s > 256)"

text \<open>\<open>put\<close>: \<open>wall\<close> is the clock, read for the default due time and again for \<open>updated_at\<close>.\<close>

definition put_recovery ::
  "(json \<Rightarrow> nat) \<Rightarrow> (json \<Rightarrow> bool) \<Rightarrow> time \<Rightarrow> time \<Rightarrow> string \<Rightarrow> plan_step \<Rightarrow> time option \<Rightarrow> time option \<Rightarrow>
     marker_scope \<Rightarrow> string option \<Rightarrow> json \<Rightarrow> json \<Rightarrow> recovery_table \<Rightarrow> recovery_error + recovery_table" where
  "put_recovery nbytes zone wall wall' rid step next_at expires scope plan_hash context result t =
     (if rid = [] \<or> length rid > 256 then Inl RecoveryIdInvalid
      else if too_long (ms_workspace_id scope) \<or> too_long (ms_session_id scope) \<or>
              too_long (ms_turn_id scope) \<or> too_long (ms_failed_step_id scope) \<or> too_long plan_hash
      then Inl RecoveryScopeInvalid
      else case serialize_tool_step nbytes zone step of
          Inl e \<Rightarrow> Inl e
        | Inr doc \<Rightarrow>
            (case serialize_snapshot nbytes True context of
               Inl e \<Rightarrow> Inl e
             | Inr ctx \<Rightarrow>
                 (case serialize_snapshot nbytes False result of
                    Inl e \<Rightarrow> Inl e
                  | Inr res \<Rightarrow>
                      (let due = (case next_at of None \<Rightarrow> wall | Some u \<Rightarrow> u)
                       in if row_of rr_recovery_id rid t = None
                          then Inr (t @ [\<lparr>rr_recovery_id = rid, rr_step_json = doc, rr_status = MarkerPending,
                              rr_attempts = 0, rr_next_attempt_at = due, rr_lease_owner = None,
                              rr_lease_expires_at = None, rr_fencing_token = None,
                              rr_workspace_id = ms_workspace_id scope, rr_session_id = ms_session_id scope,
                              rr_turn_id = ms_turn_id scope, rr_failed_step_id = ms_failed_step_id scope,
                              rr_plan_hash = plan_hash, rr_context_json = ctx, rr_result_json = res,
                              rr_completed_at = None, rr_expires_at = expires, rr_updated_at = wall'\<rparr>])
                          else Inr (update_where (\<lambda>r. rr_recovery_id r = rid \<and> rr_status r = MarkerPending)
                            (\<lambda>r. r\<lparr>rr_step_json := doc, rr_next_attempt_at := due,
                               rr_workspace_id := ms_workspace_id scope, rr_session_id := ms_session_id scope,
                               rr_turn_id := ms_turn_id scope, rr_failed_step_id := ms_failed_step_id scope,
                               rr_context_json := ctx, rr_result_json := res, rr_plan_hash := plan_hash,
                               rr_expires_at := expires, rr_updated_at := wall'\<rparr>) t)))))"

definition get_recovery_step :: "(json \<Rightarrow> bool) \<Rightarrow> string \<Rightarrow> recovery_table \<Rightarrow> recovery_error + plan_step option" where
  "get_recovery_step zone rid t =
     (case row_of rr_recovery_id rid t of
        None \<Rightarrow> Inr None
      | Some r \<Rightarrow> (case deserialize_tool_step zone (rr_step_json r) of Inl e \<Rightarrow> Inl e | Inr s \<Rightarrow> Inr (Some s)))"

text \<open>\<open>get_recovery\<close>: the marker with its documents decoded.\<close>

definition get_recovery ::
  "(json \<Rightarrow> bool) \<Rightarrow> string \<Rightarrow> recovery_table \<Rightarrow> recovery_error + (recovery_row \<times> plan_step \<times> json \<times> json) option" where
  "get_recovery zone rid t =
     (case row_of rr_recovery_id rid t of
        None \<Rightarrow> Inr None
      | Some r \<Rightarrow>
          (case deserialize_tool_step zone (rr_step_json r) of
             Inl e \<Rightarrow> Inl e
           | Inr step \<Rightarrow>
               (case deserialize_snapshot (rr_context_json r) of
                  Inl e \<Rightarrow> Inl e
                | Inr ctx \<Rightarrow>
                    (case deserialize_snapshot (rr_result_json r) of
                       Inl e \<Rightarrow> Inl e
                     | Inr res \<Rightarrow> Inr (Some (r, step, ctx, res))))))"

definition owner_valid :: "string \<Rightarrow> bool" where
  "owner_valid owner \<longleftrightarrow> py_strip owner \<noteq> [] \<and> length owner \<le> 160"

definition scope_matches :: "marker_scope \<Rightarrow> recovery_row \<Rightarrow> bool" where
  "scope_matches scope r \<longleftrightarrow>
     (rr_workspace_id r \<noteq> None \<longrightarrow> rr_workspace_id r = ms_workspace_id scope) \<and>
     (rr_session_id r \<noteq> None \<longrightarrow> rr_session_id r = ms_session_id scope) \<and>
     (rr_turn_id r \<noteq> None \<longrightarrow> rr_turn_id r = ms_turn_id scope) \<and>
     (rr_failed_step_id r \<noteq> None \<longrightarrow> rr_failed_step_id r = ms_failed_step_id scope)"

definition not_expired :: "time \<Rightarrow> recovery_row \<Rightarrow> bool" where
  "not_expired now r \<longleftrightarrow> rr_expires_at r = None \<or> sql_gt (rr_expires_at r) now"

text \<open>A lease that is set, not zero, and later than the moment.\<close>

definition lease_active :: "time \<Rightarrow> recovery_row \<Rightarrow> bool" where
  "lease_active now r = (case rr_lease_expires_at r of None \<Rightarrow> False | Some e \<Rightarrow> e \<noteq> 0 \<and> e > now)"

definition claim_marker :: "string \<Rightarrow> time \<Rightarrow> string \<Rightarrow> string \<Rightarrow> recovery_table \<Rightarrow> recovery_table" where
  "claim_marker owner now token rid t = update_where (\<lambda>r. rr_recovery_id r = rid)
     (\<lambda>r. r\<lparr>rr_status := MarkerClaimed, rr_lease_owner := Some owner,
        rr_lease_expires_at := Some (now + 60), rr_fencing_token := Some token,
        rr_attempts := rr_attempts r + 1, rr_updated_at := now\<rparr>) t"

record recovery_claim =
  rc_row :: recovery_row
  rc_context :: json
  rc_result :: json
  rc_step :: plan_step
  rc_token :: string

text \<open>The claim is committed before the documents are decoded, so it stands even if they are refused.\<close>

definition claim_recovery ::
  "(json \<Rightarrow> bool) \<Rightarrow> string \<Rightarrow> string \<Rightarrow> marker_scope \<Rightarrow> time \<Rightarrow> string \<Rightarrow> recovery_table
     \<Rightarrow> (recovery_error + recovery_claim option) \<times> recovery_table" where
  "claim_recovery zone rid owner scope now token t =
     (if \<not> owner_valid owner then (Inl RecoveryOwnerInvalid, t)
      else case row_of rr_recovery_id rid t of
          None \<Rightarrow> (Inr None, t)
        | Some r \<Rightarrow>
            if \<not> not_expired now r \<or> rr_status r \<notin> {MarkerPending, MarkerClaimed} then (Inr None, t)
            else if rr_attempts r \<ge> 3 then (Inr None, t)
            else if rr_status r = MarkerClaimed \<and> lease_active now r then (Inr None, t)
            else if \<not> scope_matches scope r then (Inr None, t)
            else
              ((case deserialize_snapshot (rr_context_json r) of
                  Inl e \<Rightarrow> Inl e
                | Inr ctx \<Rightarrow>
                    (case deserialize_snapshot (rr_result_json r) of
                       Inl e \<Rightarrow> Inl e
                     | Inr res \<Rightarrow>
                         (case deserialize_tool_step zone (rr_step_json r) of
                            Inl e \<Rightarrow> Inl e
                          | Inr step \<Rightarrow> Inr (Some \<lparr>
                              rc_row = r\<lparr>rr_status := MarkerClaimed, rr_fencing_token := Some token,
                                rr_attempts := rr_attempts r + 1\<rparr>,
                              rc_context = ctx, rc_result = res, rc_step = step, rc_token = token\<rparr>)))),
               claim_marker owner now token rid t))"

definition due_for :: "time \<Rightarrow> recovery_row \<Rightarrow> bool" where
  "due_for now r \<longleftrightarrow>
     (rr_status r = MarkerPending \<or> (rr_status r = MarkerClaimed \<and> sql_le (rr_lease_expires_at r) now)) \<and>
     rr_attempts r < 3 \<and> rr_next_attempt_at r \<le> now \<and> not_expired now r"

definition due_rows :: "time \<Rightarrow> recovery_table \<Rightarrow> recovery_row list" where
  "due_rows now t = sort_key rr_next_attempt_at (sort_key rr_recovery_id (filter (due_for now) t))"

text \<open>Here the step is decoded inside the transaction: a refused document rolls the claim back.\<close>

definition claim_due ::
  "(json \<Rightarrow> bool) \<Rightarrow> string \<Rightarrow> time \<Rightarrow> string \<Rightarrow> recovery_table
     \<Rightarrow> (recovery_error + (string \<times> plan_step \<times> string) option) \<times> recovery_table" where
  "claim_due zone owner now token t =
     (if \<not> owner_valid owner then (Inl RecoveryOwnerInvalid, t)
      else case due_rows now t of
          [] \<Rightarrow> (Inr None, t)
        | r # _ \<Rightarrow>
            (case deserialize_tool_step zone (rr_step_json r) of
               Inl e \<Rightarrow> (Inl e, t)
             | Inr step \<Rightarrow> (Inr (Some (rr_recovery_id r, step, token)),
                 claim_marker owner now token (rr_recovery_id r) t)))"

definition finish_recovery ::
  "(json \<Rightarrow> nat) \<Rightarrow> time \<Rightarrow> string \<Rightarrow> bool \<Rightarrow> string \<Rightarrow> string \<Rightarrow> json \<Rightarrow> json \<Rightarrow> recovery_table
     \<Rightarrow> recovery_error + (bool \<times> recovery_table)" where
  "finish_recovery nbytes now rid success owner token result error t =
     (if py_strip token = [] \<or> length token > 128 then Inl FencingTokenInvalid
      else if result \<noteq> JNull \<and> error \<noteq> JNull then Inl ResultErrorExclusive
      else case serialize_snapshot nbytes False (if success then result else error) of
          Inl e \<Rightarrow> Inl e
        | Inr completed \<Rightarrow>
            (let match = (\<lambda>r. rr_recovery_id r = rid \<and> rr_status r = MarkerClaimed \<and>
                   rr_lease_owner r = Some owner \<and> rr_fencing_token r = Some (py_strip token))
             in Inr (rowcount match t = 1,
                  update_where match (\<lambda>r. r\<lparr>rr_status := (if success then MarkerSucceeded else MarkerFailed),
                    rr_result_json := completed, rr_completed_at := Some now, rr_lease_owner := None,
                    rr_lease_expires_at := None, rr_fencing_token := None, rr_updated_at := now\<rparr>) t)))"

definition delete_recovery :: "string \<Rightarrow> recovery_table \<Rightarrow> bool \<times> recovery_table" where
  "delete_recovery rid t = (rowcount (\<lambda>r. rr_recovery_id r = rid) t = 1, delete_where (\<lambda>r. rr_recovery_id r = rid) t)"

definition reap_expired :: "time \<Rightarrow> recovery_table \<Rightarrow> nat \<times> recovery_table" where
  "reap_expired now t =
     (let match = (\<lambda>r. sql_le (rr_expires_at r) now) in (rowcount match t, delete_where match t))"

end
