(* ===== verification/Recovery_Documents.thy ===== *)
theory Recovery_Documents
  imports Step_Recovery
begin

text \<open>
  Properties of the recovery documents of \<open>modules/agent/recovery_store.py\<close>: the filter accepts exactly
  the values without an over-deep, over-long or credential-shaped part, sorting keys changes no
  lookup and no verdict, and every step the store writes is one it can reload.
\<close>

section \<open>The filter\<close>

text \<open>The parts of a value with their depth.\<close>

inductive part_of :: "nat \<Rightarrow> json \<Rightarrow> json \<Rightarrow> bool" where
  part_self: "part_of 0 v v"
| part_item: "x \<in> set xs \<Longrightarrow> part_of n x c \<Longrightarrow> part_of (Suc n) (JList xs) c"
| part_value: "(k, x) \<in> set d \<Longrightarrow> part_of n x c \<Longrightarrow> part_of (Suc n) (JObj d) c"

inductive_simps part_of_simps: "part_of n v c"

fun part_bounded :: "json \<Rightarrow> bool" where
  "part_bounded (JObj d) = (length d \<le> 128 \<and> (\<forall>k\<in>fst ` set d. length k \<le> 128 \<and> \<not> secret_key k))"
| "part_bounded (JList xs) = (length xs \<le> 128)"
| "part_bounded (JStr s) = (length s \<le> 65536)"
| "part_bounded _ = True"

lemma first_some_all [simp]: "first_some xs = None \<longleftrightarrow> (\<forall>x\<in>set xs. x = None)"
  by (auto simp: first_some_None)

lemmas first_checks [simp] = or_else_None

lemma check_key_None: "check_key k = None \<longleftrightarrow> length k \<le> 128 \<and> \<not> secret_key k"
  by (auto simp: check_key_def)

lemma check_args_step:
  "check_args n v = None \<longleftrightarrow> n \<le> 8 \<and> part_bounded v \<and>
     (case v of JObj d \<Rightarrow> (\<forall>e\<in>set d. check_args (Suc n) (snd e) = None)
      | JList xs \<Rightarrow> (\<forall>x\<in>set xs. check_args (Suc n) x = None) | _ \<Rightarrow> True)"
proof (cases v)
  case (JObj d)
  show ?thesis unfolding JObj check_args.simps [of n]
    by (simp add: check_key_None split_def image_subset_iff ball_conj_distrib not_less conj_ac cong: conj_cong)
next
  case (JList xs)
  show ?thesis unfolding JList check_args.simps [of n] by auto
qed (simp_all add: check_args.simps [of n])

text \<open>The parts below a value, at one depth more.\<close>

lemma part_of_cases:
  "part_of m (JObj d) c \<longleftrightarrow> (m = 0 \<and> c = JObj d) \<or> (\<exists>n. m = Suc n \<and> (\<exists>e\<in>set d. part_of n (snd e) c))"
  "part_of m (JList xs) c \<longleftrightarrow> (m = 0 \<and> c = JList xs) \<or> (\<exists>n. m = Suc n \<and> (\<exists>x\<in>set xs. part_of n x c))"
  by (subst part_of_simps, fastforce)+

lemma part_of_leaf:
  "\<nexists>d. v = JObj d \<Longrightarrow> \<nexists>xs. v = JList xs \<Longrightarrow> part_of m v c \<longleftrightarrow> m = 0 \<and> c = v"
  by (subst part_of_simps) auto

lemma parts_split:
  "(\<forall>m c. part_of m v c \<longrightarrow> Q m c) \<longleftrightarrow> Q 0 v \<and>
     (case v of JObj d \<Rightarrow> (\<forall>e\<in>set d. \<forall>m c. part_of m (snd e) c \<longrightarrow> Q (Suc m) c)
      | JList xs \<Rightarrow> (\<forall>x\<in>set xs. \<forall>m c. part_of m x c \<longrightarrow> Q (Suc m) c) | _ \<Rightarrow> True)"
proof (cases v)
  case (JObj d)
  show ?thesis unfolding JObj part_of_cases by (simp only: json.simps) metis
next
  case (JList xs)
  show ?thesis unfolding JList part_of_cases by (simp only: json.simps) metis
qed (simp_all add: part_of_leaf)

lemma check_args_parts:
  assumes "n \<le> 9"
  shows "check_args n v = None \<longleftrightarrow> (\<forall>m c. part_of m v c \<longrightarrow> n + m \<le> 8 \<and> part_bounded c)"
  using assms
proof (induction "9 - n" arbitrary: n v)
  case 0
  then have "n = 9" by simp
  then show ?case by (auto simp: check_args_step [of 9] intro: part_self)
next
  case (Suc k)
  then have "Suc n \<le> 9" and eq: "k = 9 - Suc n" by simp_all
  note IH = Suc.hyps(1) [OF eq \<open>Suc n \<le> 9\<close>]
  show ?case
    using \<open>Suc n \<le> 9\<close> unfolding check_args_step [of n] parts_split [of v] IH
    by (cases v) simp_all
qed

section \<open>Sorting changes no verdict\<close>

lemma strict_json_sort [simp]: "strict_json (sort_json v) = strict_json v"
  by (induction v rule: json_measure_induct) (auto simp: sort_json_leaf)

lemma part_bounded_sort [simp]: "part_bounded (sort_json v) = part_bounded v"
  by (cases v) (auto simp: image_image)

lemma check_args_sort [simp]: "check_args n (sort_json v) = None \<longleftrightarrow> check_args n v = None"
proof (induction v arbitrary: n rule: json_measure_induct)
  case (obj d)
  then show ?case unfolding check_args_step [of n] by auto
next
  case (list xs)
  then show ?case unfolding check_args_step [of n] by auto
qed (simp add: sort_json_leaf)

lemma sort_json_constructors [simp]:
  "sort_json v = JNull \<longleftrightarrow> v = JNull" "JNull = sort_json v \<longleftrightarrow> v = JNull"
  "sort_json v = JStr s \<longleftrightarrow> v = JStr s" "sort_json v = JInt i \<longleftrightarrow> v = JInt i"
  "truthy (sort_json v) = truthy v" "is_json_str (sort_json v) = is_json_str v"
  "json_string (sort_json v) = json_string v" "is_json_list (sort_json v) = is_json_list v"
  "hashable (sort_json v) = hashable v" "not_iterable (sort_json v) = not_iterable v"
  "equals_int (sort_json v) i = equals_int v i" "(\<exists>d. sort_json v = JObj d) \<longleftrightarrow> (\<exists>d. v = JObj d)"
  by (cases v; simp add: is_json_str_def json_string_def is_json_list_def hashable_def not_iterable_def
      equals_int_def; fail)+

lemma json_items_sort [simp]: "json_items (sort_json v) = map sort_json (json_items v)"
  by (cases v) (simp_all add: json_items_def)

lemma get_or_sorted [simp]:
  "distinct (map fst d) \<Longrightarrow> get_or (sorted_items d) k (JList []) = sort_json (get_or d k (JList []))"
  by (simp add: get_or_def)

lemma object_checks_sorted [simp]:
  assumes "distinct (map fst d)"
  shows "object_checks known implicit (sorted_items d) = object_checks known implicit d"
proof -
  have items: "list_all is_json_str (json_items (sort_json v)) = list_all is_json_str (json_items v)" for v
    by (simp add: list.pred_map comp_def)
  show ?thesis
    unfolding object_checks_def Let_def
    by (simp only: dict_get_sorted [OF assms] get_or_sorted [OF assms] fst_set_sorted sort_json_constructors items)
qed

text \<open>The validator's verdict on a predicate does not depend on the order of the keys.\<close>

lemma distinct_keys_get_or: "distinct_keys (JObj d) \<Longrightarrow> distinct_keys (get_or d k (JList []))"
  by (auto simp: get_or_def dict_get_def dict_has_def dest: map_of_SomeD split: option.splits)

lemma distinct_keys_item: "distinct_keys v \<Longrightarrow> c \<in> set (json_items v) \<Longrightarrow> distinct_keys c"
  by (cases v) (auto simp: json_items_def)

lemma check_json_sort [simp]:
  "distinct_keys v \<Longrightarrow> check_json known implicit (sort_json v) = check_json known implicit v"
proof (induction known implicit v rule: check_json.induct)
  case (1 known implicit v)
  show ?case
  proof (cases v)
    case (JObj d)
    have dist: "distinct (map fst d)" using 1 JObj by simp
    have "check_json known implicit (sort_json c) = check_json known implicit c"
      if "c \<in> set (json_items (get_or d ''children'' (JList [])))" for c
    proof -
      have "distinct_keys (get_or d ''children'' (JList []))"
        using 1 JObj by (intro distinct_keys_get_or) simp
      with that have "distinct_keys c"
        by (simp add: distinct_keys_item)
      with 1 JObj that show ?thesis by blast
    qed
    then have "map (check_json known implicit) (map sort_json (json_items (get_or d ''children'' (JList [])))) =
        map (check_json known implicit) (json_items (get_or d ''children'' (JList [])))"
      by simp
    with dist show ?thesis
      unfolding JObj sort_json_simps check_json.simps [of _ _ "JObj _"]
      by (simp only: json.simps object_checks_sorted get_or_sorted json_items_sort)
  qed (auto simp: sort_json_leaf check_json.simps [of known implicit "JList _"])
qed

text \<open>
  The set of forbidden keys holds \<open>set-cookie\<close> with a dash, but the key is looked up with its dashes
  turned into underscores: a \<open>Set-Cookie\<close> argument passes the filter.
\<close>

lemma set_cookie_passes: "check_args 0 (JObj [(''Set-Cookie'', JStr ''sid=1'')]) = None"
  by (simp add: check_args.simps check_key_def secret_key_def secret_keys_def secret_parts_def underscored_def
      py_lower_def py_lower_char_def or_else_def sublist_code Let_def)

section \<open>Reloading predicates\<close>

lemma object_checks_pass:
  assumes "fst ` set d \<subseteq> {''op'', ''source_step_id'', ''values'', ''children''}"
    and "dict_get d ''op'' = JStr op"
    and "dict_get d ''source_step_id'' \<in> {json_text source, if text_or_empty source = [] then JNull else json_text source}"
    and "get_or d ''values'' (JList []) = JList (map JStr vals)"
    and "get_or d ''children'' (JList []) = JList cs" and "cs = [] \<longleftrightarrow> children = []"
    and "check_node known implicit (PredicateNode op source vals children) = None"
  shows "first_error (object_checks known implicit d) = None"
proof -
  have src: "json_string (dict_get d ''source_step_id'') = text_or_empty source"
      "is_json_str (dict_get d ''source_step_id'') \<or> dict_get d ''source_step_id'' = JNull"
      "source = None \<Longrightarrow> dict_get d ''source_step_id'' = JNull"
    using assms(3) by (auto simp: json_text_def text_or_empty_def json_string_def is_json_str_def
        split: option.splits if_splits)
  have strings: "list_all is_json_str (map JStr vals)"
    by (simp add: list_all_iff is_json_str_def)
  show ?thesis
    using assms(7) src assms(6)
    unfolding object_checks_def Let_def assms(2,4,5)
    by (auto simp: assms(1) first_error_None leaf_checks_def hashable_def is_json_str_def [of "JStr _"]
        json_string_def [of "JStr _"] is_json_list_def json_items_def strings not_iterable_def
        split: if_splits)
qed

lemma node_dicts_pass:
  "check_node known implicit n = None \<Longrightarrow>
     check_json known implicit (node_to_dict n) = None \<and> check_json known implicit (node_asdict n) = None"
proof (induction known implicit n rule: check_node.induct)
  case (1 known implicit op source vals children)
  let ?d = "dict_of (node_to_dict (PredicateNode op source vals children))"
  let ?e = "dict_of (node_asdict (PredicateNode op source vals children))"
  have kids: "\<forall>c\<in>set children. check_json known implicit (node_to_dict c) = None \<and>
      check_json known implicit (node_asdict c) = None"
    using 1 by (auto simp: image_subset_iff)
  have d1: "get_or ?d ''children'' (JList []) = JList (map node_to_dict children)"
    by (simp add: dict_of_def get_or_def dict_has_def dict_get_def)
  have d2: "first_error (object_checks known implicit ?d) = None"
    by (rule object_checks_pass [OF _ _ _ _ d1 _ 1(2)])
      (auto simp: dict_of_def get_or_def dict_has_def dict_get_def)
  have e1: "get_or ?e ''children'' (JList []) = JList (map node_asdict children)"
    by (simp add: dict_of_def get_or_def dict_has_def dict_get_def)
  have e2: "first_error (object_checks known implicit ?e) = None"
    by (rule object_checks_pass [OF _ _ _ _ e1 _ 1(2)])
      (simp_all add: dict_of_def get_or_def dict_has_def dict_get_def)
  show ?case
    using kids d1 d2 e1 e2 unfolding check_json.simps [of known implicit "node_to_dict (PredicateNode _ _ _ _)"]
      check_json.simps [of known implicit "node_asdict (PredicateNode _ _ _ _)"]
    by (simp add: dict_of_def json_items_def)
qed

lemma predicate_asdict_pass:
  "check_predicate known implicit p = None \<Longrightarrow> check_json known implicit (predicate_asdict p) = None"
proof (induction known implicit p rule: check_predicate.induct)
  case (1 known implicit n)
  then show ?case by (simp add: node_dicts_pass)
next
  case (4 known implicit op children)
  let ?d = "[(''op'', JStr op), (''children'', JList (map predicate_asdict children))]"
  have comb: "op \<in> combinators" "op \<in> predicate_operators" "children \<noteq> []"
    using 4(2) by (auto simp: first_error_None leaf_checks_def split: if_splits)
  have kids: "get_or ?d ''children'' (JList []) = JList (map predicate_asdict children)"
    by (simp add: get_or_def dict_has_def dict_get_def)
  have "first_error (object_checks known implicit ?d) = None"
    using comb by (auto simp: object_checks_def get_or_def dict_has_def dict_get_def hashable_def is_json_str_def
        json_string_def is_json_list_def json_items_def first_error_None)
  moreover have "\<forall>c\<in>set children. check_json known implicit (predicate_asdict c) = None"
    using 4 by (auto simp: image_subset_iff)
  ultimately show ?case
    unfolding predicate_asdict.simps check_json.simps [of known implicit "JObj _"]
    by (simp add: kids json_items_def image_subset_iff)
qed simp_all

lemma predicate_dict_pass:
  "check_predicate known implicit p = None \<Longrightarrow> check_json known implicit (predicate_to_dict p) = None"
  by (cases p) (simp_all add: predicate_to_dict_def node_dicts_pass predicate_asdict_pass del: predicate_asdict.simps(4))

lemma reloaded_predicate_pass:
  assumes "check_predicate known implicit p = None" and "distinct_keys (predicate_to_dict p)"
  shows "check_predicate known implicit (json_predicate (sort_json (predicate_to_dict p))) = None"
proof -
  have "check_json known implicit (sort_json (predicate_to_dict p)) = None"
    using assms by (simp add: predicate_dict_pass)
  then show ?thesis by (cases "sort_json (predicate_to_dict p)") (simp_all add: json_predicate_def)
qed

lemma reloaded_predicate_dict: "predicate_to_dict (json_predicate v) = v"
  by (cases v) (simp_all add: json_predicate_def predicate_to_dict_def)

section \<open>Reloading steps\<close>

text \<open>What the plan gate asks of an independent typed tool step.\<close>

definition storable :: "plan_step \<Rightarrow> tool_fields \<Rightarrow> bool" where
  "storable s t \<longleftrightarrow> st_kind s = ''tool'' \<and> strict_json (step_to_dict s) \<and> st_id s \<noteq> [] \<and>
     nonblank (tf_tool_name t) \<and> (\<exists>d. tf_arguments t = JObj d) \<and> natural_int (tf_retry_budget t) \<and>
     valid_timeout (tf_timeout_seconds t) \<and> nonblank (tf_retry_owner t) \<and>
     tf_retry_owner t \<in> JStr ` {''step_executor'', ''provider'', ''tool_adapter'', ''none''} \<and>
     nonblank (tf_idempotency_key t) \<and>
     (\<exists>p. st_success_criteria s = Some p \<and> check_predicate (Some {st_id s}) True p = None) \<and>
     int_value (tf_retry_budget t) \<le> 8 \<and> number_value (tf_timeout_seconds t) \<le> 900"

lemma validate_single_tool:
  assumes "st_fields s = ToolStep t" and "st_plan_version s = 2" and "st_depends_on s = []"
    and "st_condition s = None"
  shows "validate_plan zone default_limits [s] = None \<longleftrightarrow> storable s t"
proof -
  have "dep_edges (plan_graph [s]) = {}"
    using assms(3) by (auto simp: dep_edges_def plan_graph_def successors_def dep_ids_def split: if_splits)
  then have acyc: "acyclic (dep_edges (plan_graph [s]))" by (simp add: acyclic_def)
  have steps: "first_error (step_checks zone {} s) = None \<longleftrightarrow> st_kind s = ''tool'' \<and>
      strict_json (step_to_dict s) \<and> st_id s \<noteq> [] \<and> first_error (tool_checks s t) = None"
    using assms by (auto simp: step_checks_def first_error_None variant_matches_def variant_checks_def tool_of_def)
  have tool: "first_error (tool_checks s t) = None \<longleftrightarrow> nonblank (tf_tool_name t) \<and> (\<exists>d. tf_arguments t = JObj d) \<and>
      natural_int (tf_retry_budget t) \<and> valid_timeout (tf_timeout_seconds t) \<and> nonblank (tf_retry_owner t) \<and>
      tf_retry_owner t \<in> JStr ` {''step_executor'', ''provider'', ''tool_adapter'', ''none''} \<and>
      nonblank (tf_idempotency_key t) \<and> st_success_criteria s \<noteq> None"
    using assms(2) by (auto simp: tool_checks_def first_error_None nonblank_def valid_timeout_def split: json.splits)
  have links: "check_links default_limits {st_id s} s = None \<longleftrightarrow>
      (\<forall>p. st_success_criteria s = Some p \<longrightarrow> check_predicate (Some {st_id s}) True p = None)"
    using assms(3,4) by (auto simp: check_links_def dep_ids_def split: option.splits)
  have budgets: "budgets_ok default_limits [s] \<longleftrightarrow>
      int_value (tf_retry_budget t) \<le> 8 \<and> number_value (tf_timeout_seconds t) \<le> 900" if "st_kind s = ''tool''"
    using assms(1) that by (simp add: budgets_ok_def total_retries_def total_timeout_def total_def tool_fields_of_def
        tool_of_def default_limits_def analysis_input_def analysis_output_def agent_tokens_def
        agent_capabilities_def schedule_seconds_def join_chars_def)
  show ?thesis
    unfolding validate_plan_exact plan_valid_def storable_def
    using acyc budgets by (auto simp: steps tool links default_limits_def [THEN arg_cong [of _ _ lm_steps]])
qed

text \<open>The step that a stored document decodes to.\<close>

definition reloaded :: "plan_step \<Rightarrow> tool_fields \<Rightarrow> predicate \<Rightarrow> plan_step" where
  "reloaded s t p = s\<lparr>st_success_criteria := Some (json_predicate (sort_json (predicate_to_dict p))),
     st_compatibility_trace := map_option sorted_items (st_compatibility_trace s),
     st_fields := ToolStep (t\<lparr>tf_arguments := sort_json (tf_arguments t)\<rparr>)\<rparr>"

lemma nonblank_str: "nonblank v \<Longrightarrow> \<exists>x. v = JStr x \<and> py_strip x \<noteq> []"
  by (auto simp: nonblank_def split: json.splits)

lemma scalar_sorted:
  "nonblank v \<Longrightarrow> sort_json v = v" "natural_int v \<Longrightarrow> sort_json v = v" "valid_timeout v \<Longrightarrow> sort_json v = v"
  by (cases v; simp add: nonblank_def natural_int_def valid_timeout_def)+

lemma serialize_tool_step_InrD:
  assumes "serialize_tool_step nbytes zone s = Inr doc"
  obtains t where "st_fields s = ToolStep t" "st_plan_version s = 2" "st_depends_on s = []"
    "st_condition s = None" "check_args 0 (tf_arguments t) = None" "storable s t"
    "doc = sort_json (step_to_dict s)" "nbytes doc \<le> 256 * 1024"
proof -
  obtain t where t: "st_fields s = ToolStep t"
    using assms by (auto simp: serialize_tool_step_def split: step_fields.splits)
  with assms have "st_plan_version s = 2" "st_depends_on s = []" "st_condition s = None"
      "check_args 0 (tf_arguments t) = None" "validate_plan zone default_limits [s] = None"
      "doc = sort_json (step_to_dict s)" "nbytes doc \<le> 256 * 1024"
    by (auto simp: serialize_tool_step_def split: if_splits option.splits)
  with t validate_single_tool that show ?thesis by blast
qed

lemma step_dict_keys:
  "st_fields s = ToolStep t \<Longrightarrow> step_to_dict s = JObj d \<Longrightarrow> fst ` set d = set tool_step_keys \<and> distinct (map fst d)"
  by (auto simp: step_to_dict_def base_dict_def fields_dict_def tool_dict_def tool_step_keys_def)

lemma reloaded_document:
  assumes "st_fields s = ToolStep t" and "st_success_criteria s = Some p" and "st_depends_on s = []"
    and "st_condition s = None" and "st_payload s = None" and "storable s t" and "distinct_keys (step_to_dict s)"
  shows "sort_json (step_to_dict (reloaded s t p)) = sort_json (step_to_dict s)"
proof -
  have dist: "distinct_keys (predicate_to_dict p)" "distinct_keys (tf_arguments t)"
      "distinct_keys (json_dict (st_compatibility_trace s))"
    using assms(1,2,7) by (simp_all add: step_to_dict_def base_dict_def fields_dict_def tool_dict_def)
  have trace: "sort_json (json_dict (map_option sorted_items x)) = sort_json (json_dict x)"
    if "distinct_keys (json_dict x)" for x
    using sort_json_idem [OF that] by (cases x) (simp_all add: json_dict_def)
  show ?thesis
    using assms(1-5) dist
    by (simp add: step_to_dict_def base_dict_def fields_dict_def tool_dict_def reloaded_def
        reloaded_predicate_dict trace json_dict_def [of None])
qed

lemma reloaded_storable:
  assumes "st_fields s = ToolStep t" and "st_success_criteria s = Some p" and "st_depends_on s = []"
    and "st_condition s = None" and "st_payload s = None" and "storable s t" and "distinct_keys (step_to_dict s)"
  shows "storable (reloaded s t p) (t\<lparr>tf_arguments := sort_json (tf_arguments t)\<rparr>)"
proof -
  have "distinct_keys (predicate_to_dict p)"
    using assms(2,7) by (simp add: step_to_dict_def base_dict_def)
  moreover have "strict_json (step_to_dict (reloaded s t p))"
    using reloaded_document [OF assms] assms(6) strict_json_sort by (metis storable_def)
  ultimately show ?thesis
    using assms(2,6) by (auto simp: storable_def reloaded_def reloaded_predicate_pass)
qed

lemma stored_fields:
  assumes "st_fields s = ToolStep t" and "step_to_dict s = JObj d"
  shows "dict_get d ''id'' = JStr (st_id s)" "dict_get d ''title'' = JStr (st_title s)"
    "dict_get d ''kind'' = JStr (st_kind s)" "dict_get d ''description'' = JStr (st_description s)"
    "dict_get d ''payload'' = json_dict (st_payload s)" "dict_get d ''depends_on'' = JList (st_depends_on s)"
    "dict_get d ''condition'' = (case st_condition s of None \<Rightarrow> JNull | Some c \<Rightarrow> condition_asdict c)"
    "dict_get d ''owner_agent_id'' = json_text (st_owner_agent_id s)"
    "dict_get d ''owner_agent_role'' = json_text (st_owner_agent_role s)"
    "dict_get d ''route_reason'' = json_text (st_route_reason s)"
    "dict_get d ''success_criteria'' = (case st_success_criteria s of None \<Rightarrow> JNull | Some p \<Rightarrow> predicate_to_dict p)"
    "dict_get d ''plan_version'' = JInt (st_plan_version s)"
    "dict_get d ''compatibility_trace'' = json_dict (st_compatibility_trace s)"
    "dict_get d ''tool_name'' = tf_tool_name t" "dict_get d ''arguments'' = tf_arguments t"
    "dict_get d ''timeout_seconds'' = tf_timeout_seconds t" "dict_get d ''retry_budget'' = tf_retry_budget t"
    "dict_get d ''retry_owner'' = tf_retry_owner t" "dict_get d ''idempotency_key'' = tf_idempotency_key t"
  using assms by (auto simp: step_to_dict_def base_dict_def fields_dict_def tool_dict_def dict_get_Cons)

lemma dict_has_keys: "dict_has d k \<longleftrightarrow> k \<in> fst ` set d"
  by (metis dict_has_def map_of_eq_None_iff)

lemma opt_views [simp]:
  "opt_text (sort_json (json_text x)) = Some x"
  "opt_dict (sort_json (json_dict y)) = Some (map_option sorted_items y)"
  by (cases x; cases y; simp add: opt_text_def opt_dict_def json_text_def json_dict_def)+

lemma stored_step_decodes:
  assumes fields: "st_fields s = ToolStep t" "step_to_dict s = JObj d" and "st_plan_version s = 2"
    and none: "st_depends_on s = []" "st_condition s = None" "st_payload s = None"
    and ok: "storable s t" "distinct_keys (step_to_dict s)"
    and crit: "st_success_criteria s = Some p" "predicate_to_dict p \<noteq> JNull"
  shows "first_error (document_checks (sorted_items d)) = None"
    and "document_step (sorted_items d) = Some (reloaded s t p)"
proof -
  have dist: "distinct (map fst d)" using ok(2) fields(2) by simp
  note get = dict_get_sorted [OF dist] stored_fields [OF fields]
  have own_keys: "fst ` set d = set tool_step_keys" using step_dict_keys [OF fields] by simp
  then have keys: "fst ` set (sorted_items d) = set tool_step_keys" by (simp only: fst_set_sorted)
  have kind: "st_kind s = ''tool''" and scalars: "sort_json (tf_tool_name t) = tf_tool_name t"
      "sort_json (tf_timeout_seconds t) = tf_timeout_seconds t" "sort_json (tf_retry_budget t) = tf_retry_budget t"
      "sort_json (tf_retry_owner t) = tf_retry_owner t" "sort_json (tf_idempotency_key t) = tf_idempotency_key t"
    using ok(1) by (simp_all add: storable_def scalar_sorted)
  have required: "\<forall>k\<in>set required_step_keys. dict_has (sorted_items d) k"
    unfolding dict_has_keys keys by (simp add: required_step_keys_def tool_step_keys_def)
  show "first_error (document_checks (sorted_items d)) = None"
    using ok(1) assms(3) required unfolding document_checks_def first_error_None keys
    by (auto simp: get none kind scalars storable_def is_dep_def
        is_json_str_def json_string_def equals_int_def)
  have has: "dict_has (sorted_items d) ''description''" "dict_has (sorted_items d) ''depends_on''"
    unfolding dict_has_keys keys by (simp_all add: tool_step_keys_def)
  show "document_step (sorted_items d) = Some (reloaded s t p)"
    using assms(3) kind crit(2)
    by (simp add: document_step_def get_or_def has get none crit(1) scalars opt_text_def [of "JStr _"]
        not_iterable_def json_string_def reloaded_def opt_predicate_def split: json.split)
qed

lemma tool_post_init_typed:
  assumes "tool_post_init str_of pf f s = Inr s'" and "st_plan_version s' = 2"
  shows "st_payload s' = None" and "st_success_criteria s' \<noteq> None"
  using assms by (auto simp: tool_post_init_def typed_post_init_def Let_def split: option.splits if_splits sum.splits)

lemma tool_post_init_reloaded:
  assumes "st_plan_version s = 2" and "st_payload s = None" and "storable s t"
  shows "tool_post_init str_of pf (t\<lparr>tf_arguments := sort_json (tf_arguments t)\<rparr>) (reloaded s t p) = Inr (reloaded s t p)"
proof -
  have "tf_idempotency_key t \<noteq> JNull" using assms(3) by (auto simp: storable_def nonblank_def)
  with assms(1,2) show ?thesis
    by (simp add: tool_post_init_def typed_post_init_def reloaded_def Let_def)
qed

lemma stored_step_reloads_exactly:
  assumes "serialize_tool_step nbytes zone s = Inr doc" and "distinct_keys (step_to_dict s)"
    and "st_payload s = None" and "st_success_criteria s = Some p" and "predicate_to_dict p \<noteq> JNull"
  shows "\<exists>t. st_fields s = ToolStep t \<and> deserialize_tool_step zone doc = Inr (reloaded s t p) \<and>
    serialize_tool_step nbytes zone (reloaded s t p) = Inr doc"
proof -
  obtain t where t: "st_fields s = ToolStep t" "st_plan_version s = 2" "st_depends_on s = []"
      "st_condition s = None" "check_args 0 (tf_arguments t) = None" "storable s t"
      "doc = sort_json (step_to_dict s)" "nbytes doc \<le> 256 * 1024"
    using assms(1) by (rule serialize_tool_step_InrD)
  obtain d where d: "step_to_dict s = JObj d" by (simp add: step_to_dict_def)
  let ?t = "t\<lparr>tf_arguments := sort_json (tf_arguments t)\<rparr>"
  have same: "st_fields (reloaded s t p) = ToolStep ?t" "st_plan_version (reloaded s t p) = 2"
      "st_depends_on (reloaded s t p) = []" "st_condition (reloaded s t p) = None"
    using t by (simp_all add: reloaded_def)
  have valid: "validate_plan zone default_limits [reloaded s t p] = None"
    using validate_single_tool [OF same] reloaded_storable [OF t(1) assms(4) t(3,4) assms(3) t(6) assms(2)] by blast
  have doc: "sort_json (step_to_dict (reloaded s t p)) = doc"
    using reloaded_document [OF t(1) assms(4) t(3,4) assms(3) t(6) assms(2)] t(7) by simp
  note decode = stored_step_decodes [OF t(1) d t(2) t(3,4) assms(3) t(6) assms(2) assms(4,5)]
  have "strict_load doc" using t(6,7) assms(2) by (simp add: strict_load_def storable_def)
  moreover have "dict_get (sorted_items d) ''arguments'' = sort_json (tf_arguments t)"
    using assms(2) d stored_fields(15) [OF t(1) d] by simp
  moreover have args: "check_args 0 (sort_json (tf_arguments t)) = None" using t(5) by simp
  ultimately have "deserialize_tool_step zone doc = construct_tool_step zone (sorted_items d)"
    using t(7) d decode(1) by (simp add: deserialize_tool_step_def del: check_args_sort)
  also have "\<dots> = Inr (reloaded s t p)"
    using tool_post_init_reloaded [OF t(2) assms(3) t(6)] same(1) valid
    by (simp add: construct_tool_step_def decode(2))
  finally have "deserialize_tool_step zone doc = Inr (reloaded s t p)" .
  moreover have "serialize_tool_step nbytes zone (reloaded s t p) = Inr doc"
    using same valid doc args t(8) by (simp add: serialize_tool_step_def del: check_args_sort)
  ultimately show ?thesis using t(1) by blast
qed

lemma sample_tool_stored:
  "serialize_tool_step (\<lambda>_. 0) (\<lambda>_. True) sample_tool_step = Inr (sort_json (step_to_dict sample_tool_step))"
proof -
  have "check_args 0 (JObj [(''path'', JStr ''a'')]) = None"
    by (simp add: check_args.simps check_key_def secret_key_def secret_keys_def secret_parts_def underscored_def
        py_lower_def py_lower_char_def or_else_def sublist_code Let_def)
  then show ?thesis
    using sample_tool_accepted by (simp add: serialize_tool_step_def sample_tool_step_def)
qed

section \<open>Properties of the documents\<close>

text \<open>C14. The recovery filter is exact at every depth: it accepts a value if and only if nothing in it lies
  deeper than eight levels, no object or list has more than 128 members, no text is longer than
  65536 characters, and no key anywhere is overlong or looks like a credential.\<close>

theorem recovery_filter_exact:
  "(check_args 0 v = None) = ({(m, c). part_of m v c} \<subseteq> {(m, c). m \<le> 8 \<and> part_bounded c})"
  using check_args_parts [of 0 v] by auto

text \<open>C15. A row is never written that cannot be read back: if a typed tool step is accepted for storage,
  its document decodes, to a step with the same name that is stored as the very same document.
  The step is one the \<open>ToolStep\<close> constructor returned, its dictionaries have distinct keys, and its
  success criteria are an object.\<close>

theorem stored_step_reloads:
  assumes "serialize_tool_step nbytes zone s = Inr doc" and "tool_post_init str_of pf f s0 = Inr s"
    and "distinct_keys (step_to_dict s)" and "st_success_criteria s \<noteq> Some (POther JNull)"
  shows "\<exists>s'. deserialize_tool_step zone doc = Inr s' \<and> st_id s' = st_id s \<and>
    st_fields s' \<in> range ToolStep \<and> serialize_tool_step nbytes zone s' = Inr doc"
proof -
  have "st_plan_version s = 2" using assms(1) by (rule serialize_tool_step_InrD)
  note typed = tool_post_init_typed [OF assms(2) this]
  then obtain p where p: "st_success_criteria s = Some p" by blast
  have "predicate_to_dict p \<noteq> JNull"
    using assms(4) p by (cases p; simp add: predicate_to_dict_def) (metis json.distinct(11) node_to_dict.elims)
  then obtain t where t: "deserialize_tool_step zone doc = Inr (reloaded s t p)" "serialize_tool_step nbytes zone (reloaded s t p) = Inr doc"
    using stored_step_reloads_exactly [OF assms(1,3) typed(1) p] by blast
  have "st_id (reloaded s t p) = st_id s \<and> st_fields (reloaded s t p) \<in> range ToolStep" by (simp add: reloaded_def)
  with t show ?thesis by blast
qed

theorem stored_step_reloads_witness:
  "\<exists>s'. deserialize_tool_step (\<lambda>_. True) (sort_json (step_to_dict sample_tool_step)) = Inr s' \<and> st_id s' = ''t''"
proof -
  have init: "tool_post_init (\<lambda>_. []) (\<lambda>_. None) (case st_fields sample_tool_step of ToolStep t \<Rightarrow> t)
      sample_tool_step = Inr sample_tool_step"
    by (simp add: tool_post_init_def typed_post_init_def sample_tool_step_def Let_def)
  have "distinct_keys (step_to_dict sample_tool_step)"
    by (simp add: step_to_dict_def base_dict_def fields_dict_def tool_dict_def sample_tool_step_def json_dict_def
        json_text_def default_criteria_def predicate_to_dict_def)
  moreover have "st_success_criteria sample_tool_step \<noteq> Some (POther JNull)" "st_id sample_tool_step = ''t''"
    by (simp_all add: sample_tool_step_def default_criteria_def)
  ultimately show ?thesis using stored_step_reloads [OF sample_tool_stored init] by auto
qed

end
