(* ===== verification/Recovery_Runs.thy ===== *)
theory Recovery_Runs
  imports Recovery_Documents
begin

text \<open>
  Runs of the recovery store by any number of workers with any clocks: the invariant of its table, the
  lease of a claimed marker, fencing of stale attempts, the bound on attempts, and the finality of
  recorded results. \<open>worker_cmd\<close> are the operations of workers; maintenance (delete and reaping of
  expired markers) removes rows whatever their state and is kept apart.
\<close>

section \<open>Commands\<close>

datatype recovery_cmd =
    RPut time time string plan_step "time option" "time option" marker_scope "string option" json json
  | RClaim string string marker_scope time string
  | RClaimDue string time string
  | RFinish time string bool string string json json
  | RDelete string
  | RReap time

fun exec_recovery :: "(json \<Rightarrow> nat) \<Rightarrow> (json \<Rightarrow> bool) \<Rightarrow> recovery_cmd \<Rightarrow> recovery_table \<Rightarrow> recovery_table" where
  "exec_recovery nbytes zone (RPut w w' rid step next_at expires scope h ctx res) t =
     (case put_recovery nbytes zone w w' rid step next_at expires scope h ctx res t of Inl e \<Rightarrow> t | Inr t' \<Rightarrow> t')"
| "exec_recovery nbytes zone (RClaim rid owner scope now token) t = snd (claim_recovery zone rid owner scope now token t)"
| "exec_recovery nbytes zone (RClaimDue owner now token) t = snd (claim_due zone owner now token t)"
| "exec_recovery nbytes zone (RFinish now rid ok owner token res err) t =
     (case finish_recovery nbytes now rid ok owner token res err t of Inl e \<Rightarrow> t | Inr r \<Rightarrow> snd r)"
| "exec_recovery nbytes zone (RDelete rid) t = snd (delete_recovery rid t)"
| "exec_recovery nbytes zone (RReap now) t = snd (reap_expired now t)"

fun worker_cmd :: "recovery_cmd \<Rightarrow> bool" where
  "worker_cmd (RDelete rid) = False"
| "worker_cmd (RReap now) = False"
| "worker_cmd c = True"

definition exec_worker :: "(json \<Rightarrow> nat) \<Rightarrow> (json \<Rightarrow> bool) \<Rightarrow> recovery_cmd \<Rightarrow> recovery_table \<Rightarrow> recovery_table" where
  "exec_worker nbytes zone c t = (if worker_cmd c then exec_recovery nbytes zone c t else t)"

text \<open>The fencing token a command would hand out, who issues it, and its clock.\<close>

fun issued_token :: "recovery_cmd \<Rightarrow> string option" where
  "issued_token (RClaim rid owner scope now token) = Some token"
| "issued_token (RClaimDue owner now token) = Some token"
| "issued_token c = None"

fun recovery_actor :: "recovery_cmd \<Rightarrow> string option" where
  "recovery_actor (RClaim rid owner scope now token) = Some owner"
| "recovery_actor (RClaimDue owner now token) = Some owner"
| "recovery_actor (RFinish now rid ok owner token res err) = Some owner"
| "recovery_actor c = None"

fun recovery_clock :: "recovery_cmd \<Rightarrow> time option" where
  "recovery_clock (RClaim rid owner scope now token) = Some now"
| "recovery_clock (RClaimDue owner now token) = Some now"
| "recovery_clock c = None"

abbreviation marker_of :: "recovery_table \<Rightarrow> string \<Rightarrow> recovery_row option" where
  "marker_of t rid \<equiv> row_of rr_recovery_id rid t"

section \<open>Effects on one marker\<close>

text \<open>What a command may do to the marker of a name: nothing, or one of five changes.\<close>

definition fresh_marker :: "recovery_row \<Rightarrow> bool" where
  "fresh_marker r \<longleftrightarrow> rr_status r = MarkerPending \<and> rr_attempts r = 0 \<and> rr_lease_owner r = None \<and>
     rr_lease_expires_at r = None \<and> rr_fencing_token r = None \<and> rr_completed_at r = None"

definition refreshed :: "recovery_row \<Rightarrow> recovery_row \<Rightarrow> bool" where
  "refreshed r r' \<longleftrightarrow> rr_status r = MarkerPending \<and> rr_status r' = MarkerPending \<and> rr_attempts r' = rr_attempts r \<and>
     rr_lease_owner r' = rr_lease_owner r \<and> rr_lease_expires_at r' = rr_lease_expires_at r \<and>
     rr_fencing_token r' = rr_fencing_token r \<and> rr_completed_at r' = rr_completed_at r"

definition claimable :: "time \<Rightarrow> recovery_row \<Rightarrow> bool" where
  "claimable now r \<longleftrightarrow> rr_attempts r < 3 \<and>
     (rr_status r = MarkerPending \<or> rr_status r = MarkerClaimed \<and> \<not> lease_active now r)"

definition taken :: "string \<Rightarrow> time \<Rightarrow> string \<Rightarrow> recovery_row \<Rightarrow> recovery_row" where
  "taken owner now token r = r\<lparr>rr_status := MarkerClaimed, rr_lease_owner := Some owner,
     rr_lease_expires_at := Some (now + 60), rr_fencing_token := Some token,
     rr_attempts := rr_attempts r + 1, rr_updated_at := now\<rparr>"

definition completed_row :: "time \<Rightarrow> bool \<Rightarrow> json \<Rightarrow> recovery_row \<Rightarrow> recovery_row" where
  "completed_row now ok doc r = r\<lparr>rr_status := (if ok then MarkerSucceeded else MarkerFailed),
     rr_result_json := doc, rr_completed_at := Some now, rr_lease_owner := None,
     rr_lease_expires_at := None, rr_fencing_token := None, rr_updated_at := now\<rparr>"

lemma taken_fields [simp]:
  "rr_recovery_id (taken owner now token r) = rr_recovery_id r" "rr_status (taken owner now token r) = MarkerClaimed"
  "rr_lease_owner (taken owner now token r) = Some owner" "rr_lease_expires_at (taken owner now token r) = Some (now + 60)"
  "rr_fencing_token (taken owner now token r) = Some token" "rr_attempts (taken owner now token r) = rr_attempts r + 1"
  "rr_completed_at (taken owner now token r) = rr_completed_at r"
  by (simp_all add: taken_def)

lemma completed_fields [simp]:
  "rr_recovery_id (completed_row now ok doc r) = rr_recovery_id r"
  "rr_status (completed_row now ok doc r) = (if ok then MarkerSucceeded else MarkerFailed)"
  "rr_lease_owner (completed_row now ok doc r) = None" "rr_lease_expires_at (completed_row now ok doc r) = None"
  "rr_fencing_token (completed_row now ok doc r) = None" "rr_attempts (completed_row now ok doc r) = rr_attempts r"
  "rr_completed_at (completed_row now ok doc r) = Some now"
  by (simp_all add: completed_row_def)

lemma claim_marker_row:
  "marker_of (claim_marker owner now token rid t) x =
     (if x = rid then map_option (taken owner now token) (marker_of t x) else marker_of t x)"
  unfolding claim_marker_def
  by (subst row_of_update, simp, cases "marker_of t x") (auto simp: taken_def dest: row_of_key)

lemma claim_recovery_row:
  "marker_of (snd (claim_recovery zone rid owner scope now token t)) x = marker_of t x \<or>
     (\<exists>r. x = rid \<and> owner_valid owner \<and> marker_of t x = Some r \<and> claimable now r \<and> not_expired now r \<and> scope_matches scope r \<and>
       marker_of (snd (claim_recovery zone rid owner scope now token t)) x = Some (taken owner now token r))"
  by (auto simp: claim_recovery_def claim_marker_row claimable_def split: option.splits if_splits)

lemma due_rowsD:
  assumes "due_rows now t = r # rs"
  shows "r \<in> set t \<and> due_for now r"
proof -
  have "r \<in> set (due_rows now t)" using assms by simp
  then show ?thesis by (simp add: due_rows_def)
qed

lemma claim_due_row:
  assumes "unique_on rr_recovery_id t"
  shows "marker_of (snd (claim_due zone owner now token t)) x = marker_of t x \<or>
     (\<exists>r. owner_valid owner \<and> marker_of t x = Some r \<and> claimable now r \<and> not_expired now r \<and>
       marker_of (snd (claim_due zone owner now token t)) x = Some (taken owner now token r))"
proof (cases "due_rows now t")
  case Nil
  then show ?thesis by (simp add: claim_due_def)
next
  case (Cons r rs)
  then have r: "r \<in> set t" "due_for now r" by (simp_all add: due_rowsD)
  then have "marker_of t (rr_recovery_id r) = Some r" using assms by (intro unique_row_of)
  moreover have "claimable now r"
    using r(2) by (auto simp: due_for_def claimable_def lease_active_def split: option.splits)
  ultimately show ?thesis
    using Cons r(2) by (auto simp: claim_due_def claim_marker_row due_for_def split: sum.splits)
qed

lemma put_recovery_row:
  assumes "put_recovery nbytes zone w w' rid step next_at expires scope h ctx res t = Inr t'"
  shows "marker_of t' x = marker_of t x \<or>
    (x = rid \<and> marker_of t x = None \<and> (\<exists>r. marker_of t' x = Some r \<and> fresh_marker r)) \<or>
    (x = rid \<and> (\<exists>r r'. marker_of t x = Some r \<and> marker_of t' x = Some r' \<and> refreshed r r'))"
proof (cases "marker_of t rid")
  case None
  with assms show ?thesis
    by (auto simp: put_recovery_def row_of_append fresh_marker_def Let_def split: if_splits sum.splits option.splits)
next
  case (Some r)
  from assms Some obtain f where f: "t' = update_where (\<lambda>r. rr_recovery_id r = rid \<and> rr_status r = MarkerPending) f t"
      "\<And>r. rr_recovery_id (f r) = rr_recovery_id r" "\<And>r. rr_status r = MarkerPending \<Longrightarrow> refreshed r (f r)"
    by (auto simp: put_recovery_def Let_def refreshed_def split: if_splits sum.splits)
  with Some show ?thesis
    by (cases "marker_of t x") (auto simp: row_of_update dest: row_of_key)
qed

lemma finish_recovery_row:
  assumes "finish_recovery nbytes now rid ok owner token res err t = Inr (b, t')"
  shows "marker_of t' x = marker_of t x \<or>
    (\<exists>r doc. x = rid \<and> marker_of t x = Some r \<and> rr_status r = MarkerClaimed \<and> rr_lease_owner r = Some owner \<and>
       rr_fencing_token r = Some (py_strip token) \<and> marker_of t' x = Some (completed_row now ok doc r))"
proof -
  from assms obtain doc where t': "t' = update_where (\<lambda>r. rr_recovery_id r = rid \<and> rr_status r = MarkerClaimed \<and>
      rr_lease_owner r = Some owner \<and> rr_fencing_token r = Some (py_strip token)) (completed_row now ok doc) t"
    by (auto simp: finish_recovery_def Let_def completed_row_def [abs_def] split: if_splits sum.splits)
  show ?thesis
    unfolding t' by (cases "marker_of t x") (auto simp: row_of_update dest: row_of_key)
qed

section \<open>The invariant\<close>

definition marker_ok :: "recovery_row \<Rightarrow> bool" where
  "marker_ok r \<longleftrightarrow> 0 \<le> rr_attempts r \<and> rr_attempts r \<le> 3 \<and>
     (if rr_status r = MarkerClaimed
      then rr_lease_owner r \<noteq> None \<and> rr_lease_expires_at r \<noteq> None \<and> rr_fencing_token r \<noteq> None \<and> 1 \<le> rr_attempts r
      else rr_lease_owner r = None \<and> rr_lease_expires_at r = None \<and> rr_fencing_token r = None) \<and>
     (rr_completed_at r \<noteq> None \<longleftrightarrow> rr_status r \<in> {MarkerSucceeded, MarkerFailed})"

definition recovery_inv :: "recovery_table \<Rightarrow> bool" where
  "recovery_inv t \<longleftrightarrow> unique_on rr_recovery_id t \<and> (\<forall>r\<in>set t. marker_ok r)"

lemma marker_changes_ok:
  "fresh_marker r \<Longrightarrow> marker_ok r" "marker_ok r \<Longrightarrow> refreshed r r' \<Longrightarrow> marker_ok r'"
  "marker_ok r \<Longrightarrow> claimable now r \<Longrightarrow> marker_ok (taken owner now token r)"
  "marker_ok r \<Longrightarrow> marker_ok (completed_row now ok doc r)"
  by (auto simp: marker_ok_def fresh_marker_def refreshed_def claimable_def)

lemma marker_okD: "recovery_inv t \<Longrightarrow> marker_of t x = Some r \<Longrightarrow> marker_ok r"
  by (auto simp: recovery_inv_def dest: row_of_mem)

lemma unique_claim_marker: "unique_on rr_recovery_id t \<Longrightarrow> unique_on rr_recovery_id (claim_marker owner now token rid t)"
  by (simp add: claim_marker_def unique_on_update)

lemma unique_exec:
  assumes "unique_on rr_recovery_id t"
  shows "unique_on rr_recovery_id (exec_recovery nbytes zone c t)"
proof (cases c)
  case (RPut w w' rid step next_at expires scope h ctx res)
  with assms show ?thesis
    by (auto simp: put_recovery_def Let_def unique_on_update unique_on_def row_of_None split: sum.splits if_splits)
      (simp add: unique_on_update [unfolded unique_on_def])+
next
  case RClaim
  with assms show ?thesis by (auto simp: claim_recovery_def unique_claim_marker split: option.splits)
next
  case RClaimDue
  with assms show ?thesis by (auto simp: claim_due_def unique_claim_marker split: list.splits sum.splits)
next
  case RFinish
  with assms show ?thesis by (auto simp: finish_recovery_def Let_def unique_on_update split: sum.splits if_splits)
qed (use assms in \<open>auto simp: delete_recovery_def reap_expired_def Let_def unique_on_delete\<close>)

text \<open>Every change of a marker, whatever the command.\<close>

lemma exec_recovery_row:
  assumes "unique_on rr_recovery_id t" and "marker_of (exec_recovery nbytes zone c t) x = Some r'"
  obtains (same) "marker_of t x = Some r'"
    | (created) "marker_of t x = None" "fresh_marker r'"
    | (refresh) r where "marker_of t x = Some r" "refreshed r r'"
    | (claim) r owner now token where "marker_of t x = Some r" "claimable now r" "not_expired now r"
        "owner_valid owner" "recovery_actor c = Some owner" "recovery_clock c = Some now" "issued_token c = Some token"
        "r' = taken owner now token r"
    | (finish) r now ok owner token res err doc where "c = RFinish now x ok owner token res err"
        "marker_of t x = Some r" "rr_status r = MarkerClaimed" "rr_lease_owner r = Some owner"
        "rr_fencing_token r = Some (py_strip token)" "r' = completed_row now ok doc r"
proof (cases c)
  case (RPut w w' rid step next_at expires scope h ctx res)
  show ?thesis
  proof (cases "put_recovery nbytes zone w w' rid step next_at expires scope h ctx res t")
    case (Inl e)
    with RPut assms(2) same show ?thesis by simp
  next
    case (Inr t')
    with RPut assms(2) put_recovery_row [OF Inr, of x] show ?thesis
      by (auto intro: same created refresh)
  qed
next
  case (RClaim rid owner scope now token)
  with assms(2) claim_recovery_row [of x zone rid owner scope now token t] show ?thesis
    by (auto intro: same claim)
next
  case (RClaimDue owner now token)
  with assms(2) claim_due_row [OF assms(1), of x zone owner now token] show ?thesis
    by (auto intro: same claim)
next
  case (RFinish now rid ok owner token res err)
  show ?thesis
  proof (cases "finish_recovery nbytes now rid ok owner token res err t")
    case (Inl e)
    with RFinish assms(2) same show ?thesis by simp
  next
    case (Inr p)
    obtain b t' where "p = (b, t')" by fastforce
    with Inr RFinish assms(2) finish_recovery_row [of nbytes now rid ok owner token res err t b t' x] show ?thesis
      by (auto intro: same finish)
  qed
qed (use assms same in \<open>auto simp: delete_recovery_def reap_expired_def Let_def row_of_delete split: option.splits if_splits\<close>)

lemma recovery_step_inv:
  assumes "recovery_inv t"
  shows "recovery_inv (exec_recovery nbytes zone c t)"
proof -
  have uniq: "unique_on rr_recovery_id t" using assms by (simp add: recovery_inv_def)
  have "marker_ok r" if r: "r \<in> set (exec_recovery nbytes zone c t)" for r
    using unique_row_of [OF unique_exec [OF uniq] r]
    by (rule exec_recovery_row [OF uniq]) (auto intro: marker_changes_ok marker_okD [OF assms])
  with unique_exec [OF uniq] show ?thesis by (simp add: recovery_inv_def)
qed

text \<open>A lease counts while the marker is claimed and its end is not the epoch, which reads as unset.\<close>

definition marker_lease :: "recovery_row \<Rightarrow> (string \<times> time) option" where
  "marker_lease r = (case (rr_lease_owner r, rr_lease_expires_at r) of
     (Some w, Some e) \<Rightarrow> if rr_status r = MarkerClaimed \<and> e \<noteq> 0 then Some (w, e) else None
   | _ \<Rightarrow> None)"

lemma worker_keeps_row:
  assumes "marker_of t x = Some r" and "unique_on rr_recovery_id t"
  obtains r' where "marker_of (exec_worker nbytes zone c t) x = Some r'"
proof (cases c)
  case (RPut w w' rid step next_at expires scope h ctx res)
  then show ?thesis using assms that put_recovery_row [of nbytes zone w w' rid step next_at expires scope h ctx res t _ x]
    by (cases "put_recovery nbytes zone w w' rid step next_at expires scope h ctx res t")
      (fastforce simp: exec_worker_def)+
next
  case (RClaim rid owner scope now token)
  then show ?thesis using assms that claim_recovery_row [of x zone rid owner scope now token t]
    by (auto simp: exec_worker_def)
next
  case (RClaimDue owner now token)
  then show ?thesis using assms that claim_due_row [OF assms(2), of x zone owner now token]
    by (auto simp: exec_worker_def)
next
  case (RFinish now rid ok owner token res err)
  then show ?thesis using assms that finish_recovery_row [of nbytes now rid ok owner token res err t _ _ x]
    by (cases "finish_recovery nbytes now rid ok owner token res err t") (fastforce simp: exec_worker_def)+
qed (use assms that in \<open>simp_all add: exec_worker_def\<close>)

interpretation markers: leased_rows "exec_worker nbytes zone" recovery_inv marker_of marker_lease recovery_actor recovery_clock
  for nbytes zone
proof unfold_locales
  show "recovery_inv (exec_worker nbytes zone c t)" if "recovery_inv t" for t c
    using that by (simp add: exec_worker_def recovery_step_inv)
next
  fix t x r w e c
  assume inv: "recovery_inv t" and r: "marker_of t x = Some r" and lease: "marker_lease r = Some (w, e)"
    and actor: "recovery_actor c \<noteq> Some w" and clock: "\<forall>u. recovery_clock c = Some u \<longrightarrow> u < e"
  have uniq: "unique_on rr_recovery_id t" using inv by (simp add: recovery_inv_def)
  have claimed: "rr_status r = MarkerClaimed" "rr_lease_owner r = Some w" "rr_lease_expires_at r = Some e" "e \<noteq> 0"
    using lease by (auto simp: marker_lease_def split: option.splits if_splits)
  obtain r' where r': "marker_of (exec_worker nbytes zone c t) x = Some r'"
    using worker_keeps_row [OF r uniq] .
  show "marker_of (exec_worker nbytes zone c t) x = Some r"
  proof (cases "worker_cmd c")
    case True
    with r' have "marker_of (exec_recovery nbytes zone c t) x = Some r'" by (simp add: exec_worker_def)
    then have "r' = r"
      by (rule exec_recovery_row [OF uniq])
        (use r claimed actor clock in \<open>auto simp: refreshed_def claimable_def lease_active_def\<close>)
    with r' show ?thesis by simp
  qed (simp add: exec_worker_def r)
qed

section \<open>Runs\<close>

abbreviation recovery_run :: "(json \<Rightarrow> nat) \<Rightarrow> (json \<Rightarrow> bool) \<Rightarrow> recovery_cmd list \<Rightarrow> recovery_table \<Rightarrow> recovery_table" where
  "recovery_run nbytes zone cs t \<equiv> fold (exec_recovery nbytes zone) cs t"

lemma marker_run_inv: "recovery_inv t \<Longrightarrow> recovery_inv (recovery_run nbytes zone cs t)"
  by (induction cs arbitrary: t) (simp_all add: recovery_step_inv)

lemma empty_inv [simp]: "recovery_inv []"
  by (simp add: recovery_inv_def)

lemma worker_run: "list_all worker_cmd cs \<Longrightarrow> recovery_run nbytes zone cs t = fold (exec_worker nbytes zone) cs t"
  by (induction cs arbitrary: t) (simp_all add: exec_worker_def)

text \<open>A token that nobody issues does not appear on a marker that does not carry it.\<close>

lemma token_stays_away:
  assumes "recovery_inv t" and "\<forall>r. marker_of t rid = Some r \<longrightarrow> rr_fencing_token r \<noteq> Some k"
    and "\<forall>c\<in>set cs. issued_token c \<noteq> Some k"
  shows "\<forall>r. marker_of (recovery_run nbytes zone cs t) rid = Some r \<longrightarrow> rr_fencing_token r \<noteq> Some k"
  using assms
proof (induction cs arbitrary: t)
  case (Cons c cs)
  have uniq: "unique_on rr_recovery_id t" using Cons.prems by (simp add: recovery_inv_def)
  have issued: "issued_token c \<noteq> Some k" using Cons.prems(3) by simp
  have old: "rr_fencing_token r \<noteq> Some k" if "marker_of t rid = Some r" for r using Cons.prems(2) that by simp
  have "rr_fencing_token r \<noteq> Some k" if r: "marker_of (exec_recovery nbytes zone c t) rid = Some r" for r
    using r by (rule exec_recovery_row [OF uniq]) (use issued old in \<open>auto simp: fresh_marker_def refreshed_def\<close>)
  with Cons.IH [of "exec_recovery nbytes zone c t"] Cons.prems(1,3) show ?case by (simp add: recovery_step_inv)
qed simp

text \<open>Whether a command hands an attempt on a marker to its caller, and how many a run hands out.\<close>

fun hands_out :: "(json \<Rightarrow> bool) \<Rightarrow> string \<Rightarrow> recovery_cmd \<Rightarrow> recovery_table \<Rightarrow> bool" where
  "hands_out zone rid (RClaim x owner scope now token) t =
     (x = rid \<and> (case fst (claim_recovery zone x owner scope now token t) of Inr (Some cl) \<Rightarrow> True | _ \<Rightarrow> False))"
| "hands_out zone rid (RClaimDue owner now token) t =
     (case fst (claim_due zone owner now token t) of Inr (Some (x, step, k)) \<Rightarrow> x = rid | _ \<Rightarrow> False)"
| "hands_out zone rid c t = False"

fun attempts_handed :: "(json \<Rightarrow> nat) \<Rightarrow> (json \<Rightarrow> bool) \<Rightarrow> string \<Rightarrow> recovery_cmd list \<Rightarrow> recovery_table \<Rightarrow> nat" where
  "attempts_handed nbytes zone rid [] t = 0"
| "attempts_handed nbytes zone rid (c # cs) t =
     (if hands_out zone rid c t then 1 else 0) + attempts_handed nbytes zone rid cs (exec_recovery nbytes zone c t)"

lemma claim_recovery_handed:
  assumes "fst (claim_recovery zone rid owner scope now token t) = Inr (Some cl)"
  shows "\<exists>r. marker_of t rid = Some r \<and> rr_status r \<in> {MarkerPending, MarkerClaimed} \<and>
    snd (claim_recovery zone rid owner scope now token t) = claim_marker owner now token rid t"
proof (cases "marker_of t rid")
  case None
  with assms show ?thesis by (simp add: claim_recovery_def split: if_splits)
next
  case (Some r)
  with assms show ?thesis by (auto simp: claim_recovery_def simp del: insert_iff split: if_split_asm)
qed

lemma hands_outD:
  assumes "hands_out zone rid c t" and "unique_on rr_recovery_id t"
  shows "\<exists>r r'. marker_of t rid = Some r \<and> marker_of (exec_recovery nbytes zone c t) rid = Some r' \<and>
    rr_attempts r' = rr_attempts r + 1 \<and> rr_status r \<in> {MarkerPending, MarkerClaimed}"
proof (cases c)
  case (RClaim x owner scope now token)
  with assms(1) obtain cl where "x = rid" "fst (claim_recovery zone rid owner scope now token t) = Inr (Some cl)"
    by (auto split: sum.splits option.splits)
  with RClaim claim_recovery_handed [OF this(2)] show ?thesis by (auto simp: claim_marker_row)
next
  case (RClaimDue owner now token)
  with assms(1) obtain r rs where r: "due_rows now t = r # rs" "rr_recovery_id r = rid"
      "snd (claim_due zone owner now token t) = claim_marker owner now token rid t"
    by (auto simp: claim_due_def split: list.splits sum.splits if_splits)
  with due_rowsD [OF r(1)] unique_row_of [OF assms(2), of r] RClaimDue show ?thesis
    by (auto simp: claim_marker_row due_for_def)
qed (use assms(1) in simp_all)

lemma attempts_never_fall:
  assumes "marker_of t rid = Some r" and "unique_on rr_recovery_id t" and "worker_cmd c"
  shows "\<exists>r'. marker_of (exec_recovery nbytes zone c t) rid = Some r' \<and> rr_attempts r \<le> rr_attempts r'"
proof -
  obtain r' where r': "marker_of (exec_recovery nbytes zone c t) rid = Some r'"
    using worker_keeps_row [OF assms(1,2), of nbytes zone c] assms(3) by (auto simp: exec_worker_def)
  from r' have "rr_attempts r \<le> rr_attempts r'"
    by (rule exec_recovery_row [OF assms(2)]) (use assms(1) in \<open>auto simp: refreshed_def\<close>)
  with r' show ?thesis by blast
qed

lemma attempts_account:
  assumes "recovery_inv t" and "marker_of t rid = Some r" and "list_all worker_cmd cs"
  shows "rr_attempts r + int (attempts_handed nbytes zone rid cs t) \<le> 3"
  using assms
proof (induction cs arbitrary: t r)
  case Nil
  then show ?case using marker_okD [OF Nil.prems(1,2)] by (simp add: marker_ok_def)
next
  case (Cons c cs)
  have uniq: "unique_on rr_recovery_id t" using Cons.prems(1) by (simp add: recovery_inv_def)
  obtain r' where r': "marker_of (exec_recovery nbytes zone c t) rid = Some r'" "rr_attempts r \<le> rr_attempts r'"
    using attempts_never_fall [OF Cons.prems(2) uniq, of c nbytes zone] Cons.prems(3) by auto
  have "rr_attempts r + (if hands_out zone rid c t then 1 else 0) \<le> rr_attempts r'"
    using hands_outD [OF _ uniq, of zone rid c nbytes] Cons.prems(2) r' by fastforce
  moreover have "rr_attempts r' + int (attempts_handed nbytes zone rid cs (exec_recovery nbytes zone c t)) \<le> 3"
    using Cons by (intro Cons.IH) (simp_all add: recovery_step_inv r'(1))
  ultimately show ?case by (simp split: if_splits)
qed

lemma attempts_handed_bound:
  assumes "recovery_inv t" and "list_all worker_cmd cs"
  shows "attempts_handed nbytes zone rid cs t \<le> 3"
  using assms
proof (induction cs arbitrary: t)
  case (Cons c cs)
  have uniq: "unique_on rr_recovery_id t" using Cons.prems(1) by (simp add: recovery_inv_def)
  show ?case
  proof (cases "marker_of t rid")
    case None
    then have "\<not> hands_out zone rid c t" using hands_outD [OF _ uniq, of zone rid c nbytes] by auto
    with Cons show ?thesis by (simp add: recovery_step_inv)
  next
    case (Some r)
    then show ?thesis
      using attempts_account [OF Cons.prems(1) Some Cons.prems(2), of nbytes zone] marker_okD [OF Cons.prems(1) Some]
      by (simp add: marker_ok_def)
  qed
qed simp

lemma terminal_kept:
  assumes "marker_of t rid = Some r" and "rr_status r \<in> {MarkerSucceeded, MarkerFailed}" and "recovery_inv t"
    and "worker_cmd c"
  shows "marker_of (exec_recovery nbytes zone c t) rid = Some r"
proof -
  have uniq: "unique_on rr_recovery_id t" using assms(3) by (simp add: recovery_inv_def)
  obtain r' where r': "marker_of (exec_recovery nbytes zone c t) rid = Some r'"
    using attempts_never_fall [OF assms(1) uniq assms(4)] by blast
  then have "r' = r"
    by (rule exec_recovery_row [OF uniq]) (use assms(1,2) in \<open>auto simp: refreshed_def claimable_def\<close>)
  with r' show ?thesis by simp
qed

section \<open>Properties of the recovery store\<close>

definition no_scope :: marker_scope where
  "no_scope = \<lparr>ms_workspace_id = None, ms_session_id = None, ms_turn_id = None, ms_failed_step_id = None\<rparr>"

definition sample_put :: recovery_cmd where
  "sample_put = RPut 0 0 ''r'' sample_tool_step None None no_scope None JNull JNull"

definition sample_claimed :: recovery_table where
  "sample_claimed = recovery_run (\<lambda>_. 0) (\<lambda>_. True) [sample_put, RClaim ''r'' ''w'' no_scope 1 ''k''] []"

lemma sample_claimed_row:
  "\<exists>r. marker_of sample_claimed ''r'' = Some r \<and> marker_lease r = Some (''w'', 61) \<and> rr_fencing_token r = Some ''k''"
  by (simp add: sample_claimed_def sample_put_def put_recovery_def too_long_def no_scope_def sample_tool_stored
      serialize_snapshot_def claim_recovery_def owner_valid_def py_strip_def py_isspace_def not_expired_def
      scope_matches_def claim_marker_def update_where_def marker_lease_def)

text \<open>Reaping looks at the expiry of the marker alone: a claimed marker with a running lease is removed.\<close>

lemma reap_removes_active_claim:
  assumes "marker_of t rid = Some r" and "rr_expires_at r = Some e" and "e \<le> now" and "recovery_inv t"
  shows "marker_of (snd (reap_expired now t)) rid = None"
  using assms by (simp add: reap_expired_def Let_def recovery_inv_def row_of_delete)

text \<open>C16. The lease of a recovery attempt is exclusive: from any state the store can be in, as long as
  the others act before the lease of a claimed marker ends, nothing they do (refreshing the marker,
  claiming it by name, claiming what is due, reporting a result) changes the marker.\<close>

theorem recovery_lease_exclusive:
  assumes "t = recovery_run nbytes zone hist []" and "marker_of t rid = Some r" and "marker_lease r = Some (w, e)"
    and "\<forall>c\<in>set cs. worker_cmd c \<and> recovery_actor c \<noteq> Some w \<and> (\<forall>u. recovery_clock c = Some u \<longrightarrow> u < e)"
  shows "marker_of (recovery_run nbytes zone cs t) rid = Some r"
proof -
  have "recovery_run nbytes zone cs t = fold (exec_worker nbytes zone) cs t"
    using assms(4) by (intro worker_run) (simp add: list_all_iff)
  with markers.lease_run [of t rid r w e cs nbytes zone] assms show ?thesis by (simp add: marker_run_inv)
qed

theorem recovery_lease_exclusive_witness:
  "\<exists>r. marker_of (exec_recovery (\<lambda>_. 0) (\<lambda>_. True) (RClaim ''r'' ''v'' no_scope 60 ''x'') sample_claimed) ''r'' = Some r \<and>
     rr_fencing_token r = Some ''k''"
proof -
  obtain r where r: "marker_of sample_claimed ''r'' = Some r" "marker_lease r = Some (''w'', 61)"
      "rr_fencing_token r = Some ''k''" using sample_claimed_row by blast
  from recovery_lease_exclusive [OF sample_claimed_def r(1,2), of "[RClaim ''r'' ''v'' no_scope 60 ''x'']"] r(3)
  show ?thesis by simp
qed

text \<open>A stale attempt cannot finish: once a marker does not carry an attempt's fencing token, and as
  long as that token is not issued again, a report with that token is refused and changes
  nothing, whatever other commands (including maintenance) ran in between.\<close>

theorem stale_attempt_cannot_finish:
  assumes "t = recovery_run nbytes zone hist []" and "\<forall>r. marker_of t rid = Some r \<longrightarrow> rr_fencing_token r \<noteq> Some (py_strip token)"
    and "\<forall>c\<in>set cs. issued_token c \<noteq> Some (py_strip token)"
    and "finish_recovery nbytes now rid ok owner token res err (recovery_run nbytes zone cs t) = Inr (done_by, t')"
  shows "\<not> done_by \<and> t' = recovery_run nbytes zone cs t"
proof -
  let ?t = "recovery_run nbytes zone cs t"
  let ?match = "\<lambda>r. rr_recovery_id r = rid \<and> rr_status r = MarkerClaimed \<and> rr_lease_owner r = Some owner \<and>
      rr_fencing_token r = Some (py_strip token)"
  have inv: "recovery_inv ?t" using assms(1) by (simp add: marker_run_inv)
  have "\<not> ?match r" if "r \<in> set ?t" for r
  proof -
    have "marker_of ?t (rr_recovery_id r) = Some r"
      using inv that by (intro unique_row_of) (simp_all add: recovery_inv_def)
    with token_stays_away [OF _ assms(2,3), of nbytes zone] assms(1) show ?thesis by (auto simp: marker_run_inv)
  qed
  then have none: "rowcount ?match ?t = 0" by (simp add: rowcount_def filter_empty_conv)
  with assms(4) show ?thesis
    by (auto simp: finish_recovery_def Let_def rowcount_zero_update split: if_splits sum.splits)
qed

theorem stale_attempt_cannot_finish_witness:
  "finish_recovery (\<lambda>_. 0) 5 ''r'' True ''w'' ''old'' JNull JNull sample_claimed = Inr (False, sample_claimed)"
proof -
  obtain r where r: "marker_of sample_claimed ''r'' = Some r" "rr_fencing_token r = Some ''k''"
    using sample_claimed_row by blast
  obtain b t' where run: "finish_recovery (\<lambda>_. 0) 5 ''r'' True ''w'' ''old'' JNull JNull sample_claimed = Inr (b, t')"
    by (simp add: finish_recovery_def py_strip_def py_isspace_def serialize_snapshot_def Let_def)
  have strip: "py_strip ''old'' = ''old''" by (simp add: py_strip_def py_isspace_def)
  have run': "finish_recovery (\<lambda>_. 0) 5 ''r'' True ''w'' ''old'' JNull JNull
      (recovery_run (\<lambda>_. 0) (\<lambda>_. True) [] sample_claimed) = Inr (b, t')" using run by simp
  from stale_attempt_cannot_finish [OF sample_claimed_def _ _ run'] r run strip show ?thesis by simp
qed

text \<open>C17. A marker is attempted at most three times: in any run of worker commands from any state the
  store can be in, by name or from the due queue, at most three attempts on a marker are handed out.\<close>

theorem recovery_attempts_bounded:
  assumes "t = recovery_run nbytes zone hist []" and "list_all worker_cmd cs"
  shows "attempts_handed nbytes zone rid cs t \<le> 3 \<and> (\<forall>r. marker_of t rid = Some r \<longrightarrow>
    rr_attempts r + int (attempts_handed nbytes zone rid cs t) \<le> 3)"
  using assms marker_run_inv [OF empty_inv, of nbytes zone hist] by (auto simp: attempts_handed_bound attempts_account)

theorem recovery_attempts_bounded_witness:
  "attempts_handed (\<lambda>_. 0) (\<lambda>_. True) ''r'' (map (\<lambda>i. RClaim ''r'' ''v'' no_scope (100 * real i) ''x'') [1, 2, 3, 4, 5])
     sample_claimed \<le> 3"
  using recovery_attempts_bounded [OF sample_claimed_def,
      of "map (\<lambda>i. RClaim ''r'' ''v'' no_scope (100 * real i) ''x'') [1, 2, 3, 4, 5]" "''r''"] by simp

text \<open>A recorded outcome is final: once a marker succeeded or failed, no worker command changes it and
  it is never handed out again.\<close>

theorem recovery_outcome_final:
  assumes "t = recovery_run nbytes zone hist []" and "marker_of t rid = Some r"
    and "rr_status r \<in> {MarkerSucceeded, MarkerFailed}" and "list_all worker_cmd cs"
  shows "marker_of (recovery_run nbytes zone cs t) rid = Some r \<and> attempts_handed nbytes zone rid cs t = 0"
proof -
  have "marker_of (recovery_run nbytes zone cs u) rid = Some r \<and> attempts_handed nbytes zone rid cs u = 0"
    if "recovery_inv u" "marker_of u rid = Some r" for u
    using assms(4) that
  proof (induction cs arbitrary: u)
    case (Cons c cs)
    have "\<not> hands_out zone rid c u"
      using hands_outD [of zone rid c u nbytes] Cons.prems(2,3) assms(3) by (auto simp: recovery_inv_def)
    with Cons terminal_kept [OF Cons.prems(3) assms(3) Cons.prems(2), of c nbytes zone] show ?case
      by (simp add: recovery_step_inv)
  qed simp
  with assms(1,2) show ?thesis by (simp add: marker_run_inv)
qed

theorem recovery_outcome_final_witness:
  "\<exists>t r. marker_of t ''r'' = Some r \<and> rr_status r = MarkerSucceeded \<and>
     attempts_handed (\<lambda>_. 0) (\<lambda>_. True) ''r'' [RClaim ''r'' ''v'' no_scope 1000 ''x'', RClaimDue ''v'' 1000 ''x''] t = 0"
proof -
  let ?hist = "[sample_put, RClaim ''r'' ''w'' no_scope 1 ''k'', RFinish 2 ''r'' True ''w'' ''k'' JNull JNull]"
  obtain r where r: "marker_of (recovery_run (\<lambda>_. 0) (\<lambda>_. True) ?hist []) ''r'' = Some r" "rr_status r = MarkerSucceeded"
    by (simp add: sample_put_def put_recovery_def too_long_def no_scope_def sample_tool_stored
      serialize_snapshot_def claim_recovery_def owner_valid_def py_strip_def py_isspace_def not_expired_def
      scope_matches_def claim_marker_def update_where_def finish_recovery_def Let_def)
  from recovery_outcome_final [OF refl r(1)] r show ?thesis
    by (metis (no_types, lifting) insertCI list.pred_inject worker_cmd.simps(3,4,5))
qed

end
