(* ===== verification/Presentation_Log.thy ===== *)
theory Presentation_Log
  imports Json_Order Ordered_Dict "HOL-Library.Sublist"
begin

text \<open>
  The presentation event log of \<open>modules/agent/companion_events.py\<close>: the names it classifies, the event
  with its identity and dictionary, the reducer of one stream, and the bounded log of streams with
  eviction of finished ones. A log is its streams in the order of the \<open>OrderedDict\<close>.
\<close>

section \<open>Names\<close>

definition py_isalnum :: "char \<Rightarrow> bool" where
  "py_isalnum c = (let n = (of_char c :: nat) in
     (48 \<le> n \<and> n \<le> 57) \<or> (65 \<le> n \<and> n \<le> 90) \<or> (97 \<le> n \<and> n \<le> 122) \<or>
     n \<in> {170, 178, 179, 181, 185, 186, 188, 189, 190} \<or> (192 \<le> n \<and> n \<noteq> 215 \<and> n \<noteq> 247))"

definition compact_event_name :: "string \<Rightarrow> string" where
  "compact_event_name s = filter py_isalnum (py_lower s)"

definition high_frequency_markers :: "string list" where
  "high_frequency_markers = [''token'', ''tokens'', ''audio'', ''audiochunk'', ''audiobuffer'', ''frame'',
     ''avatarframe'', ''viseme'', ''speechpartial'', ''partialtranscript'', ''streamchunk'']"

definition lifecycle_suffixes :: "string list" where
  "lifecycle_suffixes = [''started'', ''completed'', ''failed'', ''cancelled'', ''interrupted'']"

definition is_high_frequency_event :: "string \<Rightarrow> bool" where
  "is_high_frequency_event s =
     (let c = compact_event_name s
      in if \<exists>x\<in>set lifecycle_suffixes. suffix x c then False
         else \<exists>m\<in>set high_frequency_markers. sublist m c)"

definition presentation_terminal_types :: "string set" where
  "presentation_terminal_types = {''completed'', ''failed'', ''cancelled'', ''interrupted'',
     ''agentjobcompleted'', ''agentjobfailed'', ''agentjobcancelled'', ''agentjobinterrupted'',
     ''agentjobunknowneffect'', ''terminal'', ''turncompleted'', ''turnfailed'', ''turncancelled''}"

section \<open>Events\<close>

record pres_event =
  pe_stream_id :: string
  pe_event_type :: string
  pe_revision :: int
  pe_workspace_id :: string
  pe_session_id :: string
  pe_turn_id :: string
  pe_request_id :: "string option"
  pe_conversation_id :: "string option"
  pe_operation_id :: "string option"
  pe_run_id :: "string option"
  pe_step_index :: "int option"
  pe_generation_id :: "string option"
  pe_interruption_epoch :: int
  pe_source :: string
  pe_payload :: dict
  pe_version :: int

definition pres_terminal :: "pres_event \<Rightarrow> bool" where
  "pres_terminal e =
     (let c = compact_event_name (pe_event_type e)
      in c \<in> presentation_terminal_types \<or>
         (\<exists>x\<in>{''completed'', ''failed'', ''cancelled'', ''interrupted''}. suffix x c))"

definition pres_identity :: "pres_event \<Rightarrow> string \<times> string \<times> string \<times> string \<times> string option \<times> string option \<times>
    string option \<times> string option \<times> int option \<times> string option \<times> int \<times> string" where
  "pres_identity e = (pe_stream_id e, pe_workspace_id e, pe_session_id e, pe_turn_id e, pe_request_id e,
     pe_conversation_id e, pe_operation_id e, pe_run_id e, pe_step_index e, pe_generation_id e,
     max 0 (pe_interruption_epoch e), pe_source e)"

definition optional_item :: "string \<Rightarrow> string option \<Rightarrow> dict" where
  "optional_item k x = (if text_or_empty x = [] then [] else [(k, json_text x)])"

definition pres_to_dict :: "pres_event \<Rightarrow> json" where
  "pres_to_dict e = JObj
     ([(''version'', JInt (pe_version e)), (''schemaVersion'', JStr ''yuizaki.companion-presentation.v1''),
       (''streamId'', JStr (pe_stream_id e)), (''type'', JStr (pe_event_type e)),
       (''revision'', JInt (pe_revision e)), (''workspaceId'', JStr (pe_workspace_id e)),
       (''sessionId'', JStr (pe_session_id e)), (''turnId'', JStr (pe_turn_id e)),
       (''interruptionEpoch'', JInt (max 0 (pe_interruption_epoch e))), (''source'', JStr (pe_source e)),
       (''terminal'', JBool (pres_terminal e)), (''payload'', JObj (pe_payload e))] @
      optional_item ''generationId'' (pe_generation_id e) @ optional_item ''requestId'' (pe_request_id e) @
      optional_item ''conversationId'' (pe_conversation_id e) @ optional_item ''operationId'' (pe_operation_id e) @
      optional_item ''runId'' (pe_run_id e) @
      (case pe_step_index e of None \<Rightarrow> [] | Some n \<Rightarrow> [(''stepIndex'', JInt (max 0 n))]))"

section \<open>The reducer\<close>

datatype pres_error = PresCapacity | PresStale | PresTerminal | PresVersion | PresIdentity

definition pres_reduce :: "pres_event option \<Rightarrow> pres_event \<Rightarrow> pres_error + pres_event" where
  "pres_reduce previous e =
     (if is_high_frequency_event (pe_event_type e) then Inl PresStale
      else if pe_version e \<noteq> 1 then Inl PresVersion
      else if pe_revision e < 1 then Inl PresStale
      else case previous of
          None \<Rightarrow> if pe_revision e \<noteq> 1 then Inl PresStale else Inr e
        | Some p \<Rightarrow>
            if pres_identity p \<noteq> pres_identity e then Inl PresIdentity
            else if pres_terminal p then Inl PresTerminal
            else if pe_revision e \<le> pe_revision p then Inl PresStale
            else if pe_revision e \<noteq> pe_revision p + 1 then Inl PresStale
            else Inr e)"

section \<open>The log\<close>

record pres_log =
  pl_max_streams :: nat
  pl_events :: "(string \<times> pres_event list) list"
  pl_terminal :: "string set"

definition new_pres_log :: "int \<Rightarrow> pres_log" where
  "new_pres_log n = \<lparr>pl_max_streams = nat (max 1 n), pl_events = [], pl_terminal = {}\<rparr>"

definition evict_terminal_stream :: "pres_log \<Rightarrow> bool \<times> pres_log" where
  "evict_terminal_stream l =
     (case List.find (\<lambda>e. fst e \<in> pl_terminal l) (pl_events l) of
        None \<Rightarrow> (False, l)
      | Some (k, _) \<Rightarrow> (True, l\<lparr>pl_events := od_pop k (pl_events l), pl_terminal := pl_terminal l - {k}\<rparr>))"

text \<open>The envelope that is returned, and whether it is marked as a duplicate.\<close>

datatype pres_reply = PresIgnored | PresAccepted json | PresDuplicate json

definition extend_stream :: "pres_event list \<Rightarrow> pres_event \<Rightarrow> pres_log \<Rightarrow> (pres_error + pres_reply) \<times> pres_log" where
  "extend_stream events e l =
     (let previous = (if events = [] then None else Some (last events));
          same = (case previous of None \<Rightarrow> False | Some p \<Rightarrow> pe_revision e = pe_revision p)
      in if same then
           (if sort_json (pres_to_dict (last events)) = sort_json (pres_to_dict e)
            then (Inr (PresDuplicate (pres_to_dict (last events))), l) else (Inl PresStale, l))
         else case pres_reduce previous e of
           Inl x \<Rightarrow> (Inl x, l)
         | Inr accepted \<Rightarrow>
             (Inr (PresAccepted (pres_to_dict accepted)),
              l\<lparr>pl_events := od_to_end (pe_stream_id e) (od_set (pe_stream_id e) (events @ [accepted]) (pl_events l)),
                pl_terminal := (if pres_terminal accepted then insert (pe_stream_id e) (pl_terminal l)
                                else pl_terminal l)\<rparr>))"

definition pres_append_event :: "pres_event \<Rightarrow> pres_log \<Rightarrow> (pres_error + pres_reply) \<times> pres_log" where
  "pres_append_event e l =
     (if is_high_frequency_event (pe_event_type e) then (Inr PresIgnored, l)
      else case map_of (pl_events l) (pe_stream_id e) of
          Some events \<Rightarrow> extend_stream events e l
        | None \<Rightarrow>
            (case pres_reduce None e of
               Inl x \<Rightarrow> (Inl x, l)
             | Inr _ \<Rightarrow>
                 if length (pl_events l) \<ge> pl_max_streams l
                 then (let (ok, l) = evict_terminal_stream l
                       in if ok then extend_stream [] e l else (Inl PresCapacity, l))
                 else extend_stream [] e l))"

definition pres_snapshot :: "pres_log \<Rightarrow> json list" where
  "pres_snapshot l = concat (map (\<lambda>(k, events). map pres_to_dict events) (pl_events l))"

definition pres_contains :: "string \<Rightarrow> pres_log \<Rightarrow> bool" where
  "pres_contains k l = (map_of (pl_events l) k \<noteq> None)"

definition active_stream_ids :: "pres_log \<Rightarrow> string list" where
  "active_stream_ids l = filter (\<lambda>k. k \<notin> pl_terminal l) (map fst (pl_events l))"

text \<open>\<open>append\<close> by fields: a missing revision is the next one of the stream.\<close>

definition pres_append :: "pres_event \<Rightarrow> int option \<Rightarrow> pres_log \<Rightarrow> (pres_error + pres_reply) option \<times> pres_log" where
  "pres_append e revision l =
     (if pe_stream_id e = [] \<or> pe_event_type e = [] then (None, l)
      else (let next_revision = (case map_of (pl_events l) (pe_stream_id e) of
                  None \<Rightarrow> 1 | Some [] \<Rightarrow> 1 | Some es \<Rightarrow> pe_revision (last es) + 1);
                (r, l) = pres_append_event (e\<lparr>pe_revision := (case revision of None \<Rightarrow> next_revision | Some n \<Rightarrow> n),
                  pe_version := 1\<rparr>) l
            in (Some r, l)))"

end
