(* ===== verification/Job_Log.thy ===== *)
theory Job_Log
  imports Presentation_Log Prelude
begin

text \<open>
  The job event log of \<open>modules/agent/companion_events.py\<close>: the bounded and redacted projection of job
  data, the two shapes of storage keys, idempotent projections, the life cycle of a job, eviction,
  and the projection into the presentation log.
\<close>

section \<open>Job data\<close>

definition job_secret_parts :: "string list" where
  "job_secret_parts = [''api_key'', ''apikey'', ''authorization'', ''bearer'', ''cookie'', ''credential'',
     ''password'', ''private_key'', ''secret'', ''token'', ''webhook'', ''raw_audio'']"

definition job_secret_key :: "string \<Rightarrow> bool" where
  "job_secret_key k = (let n = map (\<lambda>c. if c = CHR ''-'' then CHR ''_'' else c) (py_lower k)
     in \<exists>part\<in>set job_secret_parts. sublist part n)"

text \<open>\<open>scrub\<close> is the substitution of the two secret patterns in a text (\<open>re.sub\<close>).\<close>

definition bounded_text :: "(string \<Rightarrow> string) \<Rightarrow> string \<Rightarrow> string" where
  "bounded_text scrub s = (let r = scrub s in if length r \<le> 512 then r else take 509 r @ ''...'')"

definition put_items :: "(string \<times> json) list \<Rightarrow> dict" where
  "put_items kvs = fold (\<lambda>(k, v) d. dict_set k v d) kvs []"

text \<open>\<open>room\<close> is the depth that is left: \<open>_JOB_DATA_MAX_DEPTH\<close> less the depth of the value.\<close>

fun sanitize_job_data :: "(string \<Rightarrow> string) \<Rightarrow> nat \<Rightarrow> json \<Rightarrow> json" where
  "sanitize_job_data scrub 0 v = JStr ''[TRUNCATED]''"
| "sanitize_job_data scrub (Suc room) v =
     (case v of
        JStr s \<Rightarrow> JStr (bounded_text scrub s)
      | JObj d \<Rightarrow>
          (let kept = put_items (map (\<lambda>(k, c). (take 128 k,
                 if job_secret_key (take 128 k) then JStr ''[REDACTED]'' else sanitize_job_data scrub room c)) (take 32 d))
           in JObj (if length d > 32 then dict_set ''__truncatedItems'' (JInt (int (length d) - 32)) kept else kept))
      | JList xs \<Rightarrow>
          JList (map (sanitize_job_data scrub room) (take 16 xs) @
            (if length xs > 16 then [JStr (''[TRUNCATED '' @ decimal_digits (length xs - 16) @ '' ITEMS]'')] else []))
      | _ \<Rightarrow> v)"

definition job_data :: "(string \<Rightarrow> string) \<Rightarrow> dict option \<Rightarrow> dict option" where
  "job_data scrub x = (case x of None \<Rightarrow> None
     | Some d \<Rightarrow> (case sanitize_job_data scrub 6 (JObj d) of JObj e \<Rightarrow> Some e | _ \<Rightarrow> None))"

section \<open>Events and state\<close>

definition event_types :: "(string \<times> string) list" where
  "event_types = [(''created'', ''AgentJobCreated''), (''running'', ''AgentJobRunning''),
     (''progress'', ''AgentJobProgress''), (''completed'', ''AgentJobCompleted''), (''failed'', ''AgentJobFailed''),
     (''cancelled'', ''AgentJobCancelled''), (''interrupted'', ''AgentJobInterrupted''),
     (''unknown_effect'', ''AgentJobUnknownEffect'')]"

definition terminal_statuses :: "string set" where
  "terminal_statuses = {''completed'', ''failed'', ''cancelled'', ''interrupted'', ''unknown_effect''}"

record job_event =
  je_type :: string
  je_workspace_id :: string
  je_session_id :: string
  je_turn_id :: string
  je_job_id :: string
  je_request_id :: string
  je_revision :: int
  je_interruption_epoch :: int
  je_source :: string
  je_timestamp :: real
  je_status :: string
  je_conversation_id :: "string option"
  je_operation_id :: "string option"
  je_step_index :: "int option"
  je_run_id :: "string option"
  je_data :: "dict option"

record job_args =
  ja_workspace_id :: string
  ja_session_id :: string
  ja_turn_id :: string
  ja_job_id :: string
  ja_conversation_id :: "string option"
  ja_operation_id :: "string option"
  ja_step_index :: "int option"
  ja_run_id :: "string option"
  ja_request_id :: string
  ja_interruption_epoch :: int
  ja_source :: string
  ja_timestamp :: pyfloat
  ja_status :: string
  ja_data :: "dict option"
  ja_idempotency_key :: "string option"

record job_log =
  jl_max_jobs :: nat
  jl_max_events :: nat
  jl_events :: "(string \<times> job_event list) list"
  jl_terminal :: "string set"
  jl_last_progress :: "string \<Rightarrow> real option"
  jl_next_revision :: "string \<Rightarrow> int option"
  jl_projections :: "string \<Rightarrow> job_event option"
  jl_projection_keys :: "string \<Rightarrow> (string \<times> unit) list option"
  jl_presentation :: "pres_log option"

definition new_job_log :: "int \<Rightarrow> int \<Rightarrow> pres_log option \<Rightarrow> job_log" where
  "new_job_log jobs events p = \<lparr>jl_max_jobs = nat (max 1 jobs), jl_max_events = nat (max 2 events),
     jl_events = [], jl_terminal = {}, jl_last_progress = Map.empty, jl_next_revision = Map.empty,
     jl_projections = Map.empty, jl_projection_keys = Map.empty, jl_presentation = p\<rparr>"

datatype job_error = JobCapacity | UnknownStatus | TerminalJob | CreatedAgain | IdentityChanged | BadTimestamp | JobNotFound

definition scope_key :: "string \<Rightarrow> string \<Rightarrow> string" where
  "scope_key ws job = ws @ [CHR 0x00] @ job"

section \<open>Storage keys\<close>

definition move_key :: "'k \<Rightarrow> 'k \<Rightarrow> ('k \<Rightarrow> 'v option) \<Rightarrow> 'k \<Rightarrow> 'v option" where
  "move_key a b m = (case m a of None \<Rightarrow> m | Some v \<Rightarrow> (m(a := None))(b \<mapsto> v))"

definition job_entries :: "string \<Rightarrow> job_log \<Rightarrow> (string \<times> job_event list) list" where
  "job_entries job l = filter (\<lambda>(k, es). es \<noteq> [] \<and> je_job_id (last es) = job) (jl_events l)"

text \<open>The entry under the plain job name moves to the key of its workspace.\<close>

definition move_direct :: "string \<Rightarrow> job_event list \<Rightarrow> job_log \<Rightarrow> job_log" where
  "move_direct job direct l =
     (let key = scope_key (je_workspace_id (last direct)) job
      in l\<lparr>jl_events := od_set key direct (od_pop job (jl_events l)),
           jl_terminal := (if job \<in> jl_terminal l then insert key (jl_terminal l - {job}) else jl_terminal l),
           jl_last_progress := move_key job key (jl_last_progress l),
           jl_next_revision := move_key job key (jl_next_revision l),
           jl_projection_keys := move_key job key (jl_projection_keys l)\<rparr>)"

definition storage_key :: "string \<Rightarrow> string \<Rightarrow> job_log \<Rightarrow> string \<times> job_log" where
  "storage_key ws job l =
     (case List.find (\<lambda>(k, es). je_workspace_id (last es) = ws) (job_entries job l) of
        Some (k, _) \<Rightarrow> (k, l)
      | None \<Rightarrow>
          if job_entries job l = [] then (job, l)
          else (scope_key ws job,
            case map_of (jl_events l) job of
              None \<Rightarrow> l
            | Some direct \<Rightarrow> if direct = [] then l\<lparr>jl_events := od_pop job (jl_events l)\<rparr> else move_direct job direct l))"

section \<open>Projections, trimming and eviction\<close>

text \<open>\<open>_remember_projection\<close>: its loop drops the oldest keys until the job holds at most its bound.\<close>

fun pop_expired :: "nat \<Rightarrow> (string \<times> unit) list \<Rightarrow> (string \<Rightarrow> job_event option)
    \<Rightarrow> (string \<times> unit) list \<times> (string \<Rightarrow> job_event option)" where
  "pop_expired n [] m = ([], m)"
| "pop_expired n (k # ks) m = (if length (k # ks) > n then pop_expired n ks (m(fst k := None)) else (k # ks, m))"

definition remember_projection :: "string \<Rightarrow> string \<Rightarrow> job_event \<Rightarrow> job_log \<Rightarrow> job_log" where
  "remember_projection key pkey e l =
     (let keys = od_to_end pkey (od_set pkey () (case jl_projection_keys l key of None \<Rightarrow> [] | Some ks \<Rightarrow> ks));
          (keys, m) = pop_expired (jl_max_events l) keys ((jl_projections l)(pkey \<mapsto> e))
      in l\<lparr>jl_projections := m, jl_projection_keys := (jl_projection_keys l)(key \<mapsto> keys)\<rparr>)"

definition trim_job_events :: "nat \<Rightarrow> job_event list \<Rightarrow> job_event list" where
  "trim_job_events n es = (if length es \<le> n then es else take 1 es @ drop (length es - n + 1) es)"

definition forget_projections :: "string list \<Rightarrow> (string \<Rightarrow> job_event option) \<Rightarrow> string \<Rightarrow> job_event option" where
  "forget_projections ks m = (\<lambda>k. if k \<in> set ks then None else m k)"

definition evict_terminal_job :: "job_log \<Rightarrow> bool \<times> job_log" where
  "evict_terminal_job l =
     (if length (jl_events l) < jl_max_jobs l then (True, l)
      else case List.find (\<lambda>e. fst e \<in> jl_terminal l) (jl_events l) of
          None \<Rightarrow> (False, l)
        | Some (k, _) \<Rightarrow> (True, l\<lparr>jl_events := od_pop k (jl_events l), jl_terminal := jl_terminal l - {k},
            jl_last_progress := (jl_last_progress l)(k := None), jl_next_revision := (jl_next_revision l)(k := None),
            jl_projections := forget_projections (case jl_projection_keys l k of None \<Rightarrow> [] | Some ks \<Rightarrow> map fst ks)
              (jl_projections l),
            jl_projection_keys := (jl_projection_keys l)(k := None)\<rparr>))"

section \<open>The presentation of a job event\<close>

definition opt_nonempty :: "string option \<Rightarrow> string option" where
  "opt_nonempty x = (if text_or_empty x = [] then None else x)"

text \<open>
  \<open>adapt_job_event\<close> on the envelopes the log builds, which have a job name and no stream, generation or
  alternative spellings.
\<close>

definition adapt_job_event :: "job_event \<Rightarrow> pres_event option" where
  "adapt_job_event e =
     (let status = py_lower (py_strip (je_status e))
      in if is_high_frequency_event (je_type e) \<or> is_high_frequency_event status then None
         else let ty = (case map_of event_types status of Some t \<Rightarrow> t | None \<Rightarrow> je_type e);
                  stream = py_strip (je_job_id e)
              in if stream = [] \<or> ty = [] then None
                 else Some \<lparr>pe_stream_id = stream, pe_event_type = ty, pe_revision = je_revision e,
                   pe_workspace_id = je_workspace_id e, pe_session_id = je_session_id e, pe_turn_id = je_turn_id e,
                   pe_request_id = (if je_request_id e = [] then None else Some (je_request_id e)),
                   pe_conversation_id = opt_nonempty (je_conversation_id e),
                   pe_operation_id = opt_nonempty (je_operation_id e), pe_run_id = opt_nonempty (je_run_id e),
                   pe_step_index = je_step_index e, pe_generation_id = None,
                   pe_interruption_epoch = je_interruption_epoch e, pe_source = text_or (je_source e) ''job'',
                   pe_payload = (case je_data e of None \<Rightarrow> [] | Some d \<Rightarrow> d), pe_version = 1\<rparr>)"

text \<open>A refused presentation event is logged and dropped.\<close>

definition project_event :: "job_event \<Rightarrow> pres_log option \<Rightarrow> pres_log option" where
  "project_event e p =
     (case p of None \<Rightarrow> None
      | Some l \<Rightarrow> (case adapt_job_event e of None \<Rightarrow> Some l | Some x \<Rightarrow> Some (snd (pres_append_event x l))))"

section \<open>Appending\<close>

text \<open>\<open>_normalize_event_timestamp\<close>.\<close>

definition event_time :: "pyfloat \<Rightarrow> real option" where
  "event_time t = (case t of Fin r \<Rightarrow> Some (max 0 r) | _ \<Rightarrow> None)"

definition same_identity :: "job_args \<Rightarrow> job_event \<Rightarrow> bool" where
  "same_identity a e \<longleftrightarrow> je_workspace_id e = ja_workspace_id a \<and> je_session_id e = ja_session_id a \<and>
     je_turn_id e = ja_turn_id a \<and> je_request_id e = ja_request_id a \<and>
     je_conversation_id e = ja_conversation_id a \<and> je_operation_id e = ja_operation_id a \<and>
     je_step_index e = map_option (max 0) (ja_step_index a) \<and> je_run_id e = ja_run_id a \<and>
     je_interruption_epoch e = max 0 (ja_interruption_epoch a) \<and> je_source e = ja_source a"

definition nonempty_dict :: "dict option \<Rightarrow> dict option" where
  "nonempty_dict x = (case x of Some [] \<Rightarrow> None | y \<Rightarrow> y)"

definition is_recheck :: "dict option \<Rightarrow> bool" where
  "is_recheck x = (case x of None \<Rightarrow> False | Some d \<Rightarrow> d \<noteq> [] \<and> dict_get d ''recheck'' = JBool True)"

text \<open>\<open>{**a, **b}\<close>.\<close>

definition merge_data :: "dict option \<Rightarrow> dict option \<Rightarrow> dict" where
  "merge_data a b = fold (\<lambda>(k, v) d. dict_set k v d) (case b of None \<Rightarrow> [] | Some d \<Rightarrow> d)
     (case a of None \<Rightarrow> [] | Some d \<Rightarrow> d)"

definition build_event :: "job_args \<Rightarrow> string \<Rightarrow> int \<Rightarrow> real \<Rightarrow> dict option \<Rightarrow> job_event" where
  "build_event a ty revision t data = \<lparr>je_type = ty, je_workspace_id = ja_workspace_id a,
     je_session_id = ja_session_id a, je_turn_id = ja_turn_id a, je_job_id = ja_job_id a,
     je_request_id = ja_request_id a, je_revision = revision,
     je_interruption_epoch = max 0 (ja_interruption_epoch a), je_source = ja_source a, je_timestamp = t * 1000,
     je_status = ja_status a, je_conversation_id = opt_nonempty (ja_conversation_id a),
     je_operation_id = opt_nonempty (ja_operation_id a), je_step_index = map_option (max 0) (ja_step_index a),
     je_run_id = opt_nonempty (ja_run_id a), je_data = nonempty_dict data\<rparr>"

definition commit_event :: "string \<Rightarrow> string option \<Rightarrow> real \<Rightarrow> job_event list \<Rightarrow> job_event \<Rightarrow> job_log \<Rightarrow> job_log" where
  "commit_event key pkey t events e l =
     (let l = l\<lparr>jl_events := od_to_end key (od_set key (trim_job_events (jl_max_events l) (events @ [e])) (jl_events l)),
            jl_next_revision := (jl_next_revision l)(key \<mapsto> je_revision e + 1),
            jl_last_progress := (jl_last_progress l)(key := if je_status e = ''progress'' then Some t else None),
            jl_terminal := (if je_status e \<in> terminal_statuses then insert key (jl_terminal l) else jl_terminal l),
            jl_presentation := (if is_recheck (je_data e) then jl_presentation l
                                else project_event e (jl_presentation l))\<rparr>
      in case pkey of None \<Rightarrow> l | Some k \<Rightarrow> remember_projection key k e l)"

text \<open>The checks against the last event: the new data, a throttled update, or an error.\<close>

datatype transition = Accept "dict option" | Throttle "dict option" | Refuse job_error

definition transition_of :: "job_args \<Rightarrow> real \<Rightarrow> dict option \<Rightarrow> real option \<Rightarrow> job_event \<Rightarrow> transition" where
  "transition_of a t data last_progress previous =
     (if je_status previous \<in> terminal_statuses \<and> \<not> (is_recheck data \<and> ja_status a = ''completed'') then Refuse TerminalJob
      else let data = (if is_recheck data then Some (merge_data (je_data previous) data) else data)
           in if ja_status a = ''progress'' \<and> je_status previous = ''progress'' \<and>
                 (case last_progress of None \<Rightarrow> False | Some p \<Rightarrow> t - p < 1/10) then Throttle data
              else if ja_status a = ''created'' then Refuse CreatedAgain
              else if \<not> same_identity a previous then Refuse IdentityChanged
              else Accept data)"

definition throttled :: "real \<Rightarrow> dict option \<Rightarrow> job_event \<Rightarrow> job_event" where
  "throttled t data e = e\<lparr>je_timestamp := t * 1000,
     je_data := (case nonempty_dict data of None \<Rightarrow> je_data e | d \<Rightarrow> d)\<rparr>"

definition append_existing :: "job_args \<Rightarrow> string \<Rightarrow> string option \<Rightarrow> real \<Rightarrow> dict option \<Rightarrow> string \<Rightarrow> job_event list
    \<Rightarrow> job_log \<Rightarrow> (job_error + job_event \<times> bool) \<times> job_log" where
  "append_existing a key pkey t data ty events l =
     (case transition_of a t data (jl_last_progress l key) (last events) of
        Refuse e \<Rightarrow> (Inl e, l)
      | Throttle d \<Rightarrow>
          (let e = throttled t d (last events);
               l = l\<lparr>jl_events := od_set key (butlast events @ [e]) (jl_events l)\<rparr>
           in (Inr (e, False), case pkey of None \<Rightarrow> l | Some k \<Rightarrow> remember_projection key k e l))
      | Accept d \<Rightarrow>
          (let e = build_event a ty (case jl_next_revision l key of None \<Rightarrow> 1 | Some n \<Rightarrow> n) t d
           in (Inr (e, False), commit_event key pkey t events e l)))"

definition append_first :: "job_args \<Rightarrow> string \<Rightarrow> string option \<Rightarrow> real \<Rightarrow> dict option \<Rightarrow> string
    \<Rightarrow> job_log \<Rightarrow> (job_error + job_event \<times> bool) \<times> job_log" where
  "append_first a key pkey t data ty l =
     (let (ok, l) = evict_terminal_job l
      in if \<not> ok then (Inl JobCapacity, l)
         else let e = build_event a ty (case jl_next_revision l key of None \<Rightarrow> 1 | Some n \<Rightarrow> n) t data
              in (Inr (e, False), commit_event key pkey t [] e l))"

definition projection_key_of :: "job_args \<Rightarrow> string option" where
  "projection_key_of a = (let s = py_strip (text_or_empty (ja_idempotency_key a)) in if s = [] then None else Some s)"

definition job_append :: "(string \<Rightarrow> string) \<Rightarrow> job_args \<Rightarrow> job_log \<Rightarrow> (job_error + job_event \<times> bool) \<times> job_log" where
  "job_append scrub a l =
     (case event_time (ja_timestamp a) of
        None \<Rightarrow> (Inl BadTimestamp, l)
      | Some t \<Rightarrow>
          (let data = job_data scrub (ja_data a); pkey = projection_key_of a;
               (key, l) = storage_key (ja_workspace_id a) (ja_job_id a) l
           in case (case pkey of None \<Rightarrow> None | Some k \<Rightarrow> jl_projections l k) of
                Some e \<Rightarrow> (Inr (e, True), l)
              | None \<Rightarrow>
                  (case map_of event_types (ja_status a) of
                     None \<Rightarrow> (Inl UnknownStatus, l)
                   | Some ty \<Rightarrow>
                       (case map_of (jl_events l) key of
                          None \<Rightarrow> append_first a key pkey t data ty l
                        | Some [] \<Rightarrow> (let e = build_event a ty (case jl_next_revision l key of None \<Rightarrow> 1 | Some n \<Rightarrow> n) t data
                                     in (Inr (e, False), commit_event key pkey t [] e l))
                        | Some (e # es) \<Rightarrow> append_existing a key pkey t data ty (e # es) l))))"

section \<open>Reading\<close>

definition job_snapshot :: "job_log \<Rightarrow> job_event list" where
  "job_snapshot l = concat (map snd (jl_events l))"

text \<open>The names of the jobs a reader means: in one workspace, or in any.\<close>

definition reads_job :: "string \<Rightarrow> string option \<Rightarrow> job_event list \<Rightarrow> bool" where
  "reads_job job ws es \<longleftrightarrow> es \<noteq> [] \<and> je_job_id (last es) = job \<and>
     (case ws of None \<Rightarrow> True | Some w \<Rightarrow> je_workspace_id (last es) = w)"

definition latest_event :: "string \<Rightarrow> string option \<Rightarrow> job_log \<Rightarrow> job_event option" where
  "latest_event job ws l = map_option (last \<circ> snd) (List.find (\<lambda>e. reads_job job ws (snd e)) (jl_events l))"

definition append_recheck :: "(string \<Rightarrow> string) \<Rightarrow> string \<Rightarrow> string \<Rightarrow> pyfloat \<Rightarrow> dict \<Rightarrow> job_log
    \<Rightarrow> (job_error + job_event \<times> bool) \<times> job_log" where
  "append_recheck scrub job ws t data l =
     (case latest_event job (Some ws) l of
        None \<Rightarrow> (Inl JobNotFound, l)
      | Some e \<Rightarrow> job_append scrub \<lparr>ja_workspace_id = je_workspace_id e, ja_session_id = je_session_id e,
          ja_turn_id = je_turn_id e, ja_job_id = job, ja_conversation_id = je_conversation_id e,
          ja_operation_id = je_operation_id e, ja_step_index = je_step_index e, ja_run_id = je_run_id e,
          ja_request_id = je_request_id e, ja_interruption_epoch = je_interruption_epoch e,
          ja_source = je_source e, ja_timestamp = t, ja_status = ''completed'',
          ja_data = Some (dict_set ''recheck'' (JBool True) data), ja_idempotency_key = None\<rparr> l)"

definition active_job_ids :: "job_log \<Rightarrow> string list" where
  "active_job_ids l = map (je_job_id \<circ> last \<circ> snd) (filter (\<lambda>(k, es). k \<notin> jl_terminal l \<and> es \<noteq> []) (jl_events l))"

definition contains_job :: "string \<Rightarrow> string option \<Rightarrow> job_log \<Rightarrow> bool" where
  "contains_job job ws l = (\<exists>e\<in>set (jl_events l). reads_job job ws (snd e))"

definition is_active_job :: "string \<Rightarrow> string option \<Rightarrow> job_log \<Rightarrow> bool" where
  "is_active_job job ws l = (\<exists>e\<in>set (jl_events l). fst e \<notin> jl_terminal l \<and> reads_job job ws (snd e))"

end
