(* ===== verification/Presentation_Runs.thy ===== *)
theory Presentation_Runs
  imports Presentation_Log Prelude
begin

text \<open>
  Any sequence of events offered to the presentation log: every stream is numbered from 1 without a
  gap, keeps one identity and ends with its first terminal event; the log stays within its bound and
  only a stream that ended may be dropped.
\<close>

definition stream_ok :: "string \<Rightarrow> pres_event list \<Rightarrow> bool" where
  "stream_ok k es \<longleftrightarrow> es \<noteq> [] \<and> map pe_revision es = map int [1..<Suc (length es)] \<and>
     (\<forall>e\<in>set es. pe_stream_id e = k \<and> pe_version e = 1 \<and> \<not> is_high_frequency_event (pe_event_type e) \<and>
        pres_identity e = pres_identity (hd es)) \<and>
     (\<forall>e\<in>set (butlast es). \<not> pres_terminal e)"

definition pres_ok :: "pres_log \<Rightarrow> bool" where
  "pres_ok l \<longleftrightarrow> distinct (map fst (pl_events l)) \<and>
     (\<forall>k es. map_of (pl_events l) k = Some es \<longrightarrow> stream_ok k es) \<and>
     (\<forall>k. k \<in> pl_terminal l \<longleftrightarrow> (\<exists>es. map_of (pl_events l) k = Some es \<and> pres_terminal (last es))) \<and>
     length (pl_events l) \<le> pl_max_streams l \<and> 1 \<le> pl_max_streams l"

lemma stream_ok_last: "stream_ok k es \<Longrightarrow> pe_revision (last es) = int (length es)"
proof -
  assume ok: "stream_ok k es"
  then have "es \<noteq> []" "map pe_revision es = map int [1..<Suc (length es)]" by (simp_all add: stream_ok_def)
  then have "last (map pe_revision es) = int (length es)" by (cases es rule: rev_cases) simp_all
  with \<open>es \<noteq> []\<close> show ?thesis by (simp add: last_map)
qed

lemma pres_reduce_InrD:
  "pres_reduce p e = Inr a \<Longrightarrow> a = e \<and> \<not> is_high_frequency_event (pe_event_type e) \<and> pe_version e = 1 \<and>
     (case p of None \<Rightarrow> pe_revision e = 1
      | Some q \<Rightarrow> pres_identity q = pres_identity e \<and> \<not> pres_terminal q \<and> pe_revision e = pe_revision q + 1)"
  by (auto simp: pres_reduce_def split: option.splits if_splits)

lemma stream_ok_extend:
  assumes "stream_ok (pe_stream_id e) es \<or> es = []"
    and "pres_reduce (if es = [] then None else Some (last es)) e = Inr a"
  shows "a = e \<and> stream_ok (pe_stream_id e) (es @ [e])"
proof (cases "es = []")
  case True
  with assms(2) show ?thesis by (auto simp: stream_ok_def dest: pres_reduce_InrD)
next
  case False
  with assms(1) have ok: "stream_ok (pe_stream_id e) es" by simp
  have new: "a = e" "\<not> is_high_frequency_event (pe_event_type e)" "pe_version e = 1"
      "pres_identity (last es) = pres_identity e" "\<not> pres_terminal (last es)" "pe_revision e = pe_revision (last es) + 1"
    using False pres_reduce_InrD [OF assms(2)] by simp_all
  have "\<forall>x\<in>set es. \<not> pres_terminal x"
    using ok new(5) by (cases es rule: rev_cases) (simp_all add: stream_ok_def)
  moreover have "pres_identity e = pres_identity (hd (es @ [e]))"
    using ok new(4) False by (metis hd_append2 last_in_set stream_ok_def)
  moreover have "map pe_revision (es @ [e]) = map int [1..<Suc (length (es @ [e]))]"
    using ok new(6) stream_ok_last [OF ok] by (simp add: stream_ok_def)
  moreover have "\<forall>x\<in>set es. pe_stream_id x = pe_stream_id e \<and> pe_version x = 1 \<and>
      \<not> is_high_frequency_event (pe_event_type x) \<and> pres_identity x = pres_identity (hd (es @ [e]))"
    using ok False unfolding stream_ok_def by (metis hd_append2)
  ultimately have "stream_ok (pe_stream_id e) (es @ [e])"
    unfolding stream_ok_def butlast_snoc using new(2,3) by (metis append_is_Nil_conv not_Cons_self2 set_ConsD set_append Un_iff empty_iff empty_set)
  with new(1) show ?thesis by simp
qed

text \<open>What offering an event does: nothing, or one stream grows, perhaps after a finished one is dropped.\<close>

definition with_stream :: "string \<Rightarrow> pres_event list \<Rightarrow> pres_event \<Rightarrow> pres_log \<Rightarrow> pres_log" where
  "with_stream k es e l = l\<lparr>pl_events := od_to_end k (od_set k (es @ [e]) (pl_events l)),
     pl_terminal := (if pres_terminal e then insert k (pl_terminal l) else pl_terminal l)\<rparr>"

definition drop_stream :: "string \<Rightarrow> pres_log \<Rightarrow> pres_log" where
  "drop_stream k l = l\<lparr>pl_events := od_pop k (pl_events l), pl_terminal := pl_terminal l - {k}\<rparr>"

lemma extend_stream_cases:
  "snd (extend_stream es e l) = l \<or>
     (pres_reduce (if es = [] then None else Some (last es)) e = Inr e \<and>
      snd (extend_stream es e l) = with_stream (pe_stream_id e) es e l)"
  by (auto simp: extend_stream_def with_stream_def Let_def split: sum.splits dest: pres_reduce_InrD)

lemma evict_cases:
  "evict_terminal_stream l = (ok, l') \<Longrightarrow> if ok then \<exists>k\<in>pl_terminal l. map_of (pl_events l) k \<noteq> None \<and> l' = drop_stream k l else l' = l"
  by (auto simp: evict_terminal_stream_def drop_stream_def find_Some_iff map_of_eq_None_iff image_iff
      split: option.splits) (metis fst_conv nth_mem)

lemma pres_append_cases:
  obtains (same) "snd (pres_append_event e l) = l"
    | (grow) es where "map_of (pl_events l) (pe_stream_id e) = Some es"
        "pres_reduce (if es = [] then None else Some (last es)) e = Inr e"
        "snd (pres_append_event e l) = with_stream (pe_stream_id e) es e l"
    | (start) "map_of (pl_events l) (pe_stream_id e) = None" "pres_reduce None e = Inr e"
        "length (pl_events l) < pl_max_streams l" "snd (pres_append_event e l) = with_stream (pe_stream_id e) [] e l"
    | (replace) k where "map_of (pl_events l) (pe_stream_id e) = None" "pres_reduce None e = Inr e"
        "k \<in> pl_terminal l" "map_of (pl_events l) k \<noteq> None"
        "snd (pres_append_event e l) = drop_stream k l \<or>
         snd (pres_append_event e l) = with_stream (pe_stream_id e) [] e (drop_stream k l)"
proof (cases "is_high_frequency_event (pe_event_type e)")
  case True
  then show ?thesis by (intro same) (simp add: pres_append_event_def)
next
  case low: False
  show ?thesis
  proof (cases "map_of (pl_events l) (pe_stream_id e)")
    case (Some es)
    with low same grow [OF Some] extend_stream_cases [of es e l] show ?thesis
      by (auto simp: pres_append_event_def)
  next
    case None
    show ?thesis
    proof (cases "pres_reduce None e")
      case (Inl x)
      with low None show ?thesis by (intro same) (simp add: pres_append_event_def)
    next
      case (Inr a)
      then have red: "pres_reduce None e = Inr e" using pres_reduce_InrD by fastforce
      obtain ok l' where ev: "evict_terminal_stream l = (ok, l')" by fastforce
      show ?thesis
      proof (cases "length (pl_events l) \<ge> pl_max_streams l")
        case False
        with low None red same start extend_stream_cases [of "[]" e l] show ?thesis
          by (auto simp: pres_append_event_def)
      next
        case True
        show ?thesis
        proof (cases ok)
          case False
          with low None red True ev evict_cases [OF ev] show ?thesis
            by (intro same) (simp add: pres_append_event_def)
        next
          case ok: True
          with evict_cases [OF ev] obtain k where k: "k \<in> pl_terminal l" "map_of (pl_events l) k \<noteq> None"
              "l' = drop_stream k l" by auto
          have "snd (pres_append_event e l) = snd (extend_stream [] e l')"
            using low None red True ev ok by (simp add: pres_append_event_def)
          with k extend_stream_cases [of "[]" e l'] replace [OF None red k(1,2)] show ?thesis by auto
        qed
      qed
    qed
  qed
qed

lemma drop_ok: "pres_ok l \<Longrightarrow> map_of (pl_events l) k \<noteq> None \<Longrightarrow> pres_ok (drop_stream k l) \<and>
    length (pl_events (drop_stream k l)) < pl_max_streams (drop_stream k l)"
proof -
  assume ok: "pres_ok l" and k: "map_of (pl_events l) k \<noteq> None"
  have "distinct (map fst (pl_events l))" "pl_events l \<noteq> []" using ok k by (auto simp: pres_ok_def)
  with k have "length (od_pop k (pl_events l)) < length (pl_events l)" by simp
  with ok show ?thesis by (auto simp: pres_ok_def drop_stream_def simp del: od_length map_of_eq_Some_iff)
qed

lemma with_stream_ok:
  assumes "pres_ok l" and "map_of (pl_events l) (pe_stream_id e) = Some es \<or>
      map_of (pl_events l) (pe_stream_id e) = None \<and> es = [] \<and> length (pl_events l) < pl_max_streams l"
    and "pres_reduce (if es = [] then None else Some (last es)) e = Inr e"
  shows "pres_ok (with_stream (pe_stream_id e) es e l)"
proof -
  let ?k = "pe_stream_id e"
  have "stream_ok ?k es \<or> es = []" using assms(1,2) by (auto simp: pres_ok_def)
  then have new: "stream_ok ?k (es @ [e])" using stream_ok_extend assms(3) by blast
  have dist: "distinct (map fst (pl_events l))" using assms(1) by (simp add: pres_ok_def)
  have len: "length (od_to_end ?k (od_set ?k (es @ [e]) (pl_events l))) \<le> pl_max_streams l"
    using assms(1,2) dist by (auto simp: pres_ok_def simp del: map_of_eq_Some_iff)
  have old: "\<not> pres_terminal (last es)" if "es \<noteq> []"
    using pres_reduce_InrD [OF assms(3)] that by simp
  have "es \<noteq> []" if "map_of (pl_events l) ?k = Some es"
    using assms(1) that by (auto simp: pres_ok_def stream_ok_def)
  then show ?thesis
    using assms(1,2) new dist len old by (auto simp: pres_ok_def with_stream_def stream_ok_def [of _ "[]"] simp del: od_length map_of_eq_Some_iff)
qed

lemma pres_step_ok: "pres_ok l \<Longrightarrow> pres_ok (snd (pres_append_event e l))"
proof (cases rule: pres_append_cases [of e l])
  case same
  then show "pres_ok l \<Longrightarrow> ?thesis" by simp
next
  case (grow es)
  then show "pres_ok l \<Longrightarrow> ?thesis" by (simp add: with_stream_ok)
next
  case start
  then show "pres_ok l \<Longrightarrow> ?thesis" by (simp add: with_stream_ok)
next
  case (replace k)
  then show "pres_ok l \<Longrightarrow> ?thesis"
    using drop_ok [of l k] with_stream_ok [of "drop_stream k l" e "[]"] by (auto simp: drop_stream_def)
qed

definition pres_run :: "pres_event list \<Rightarrow> pres_log \<Rightarrow> pres_log" where
  "pres_run es l = fold (\<lambda>e l. snd (pres_append_event e l)) es l"

interpretation presentation: guarded_machine "\<lambda>e l. snd (pres_append_event e l)" pres_ok
  by unfold_locales (rule pres_step_ok)

lemma new_log_ok: "pres_ok (new_pres_log n)"
  by (simp add: pres_ok_def new_pres_log_def)

lemma pres_run_ok: "pres_ok (pres_run es (new_pres_log n))"
  unfolding pres_run_def by (rule presentation.run_inv) (rule new_log_ok)

lemma max_streams_step: "pl_max_streams (snd (pres_append_event e l)) = pl_max_streams l"
  by (cases rule: pres_append_cases [of e l]) (auto simp: with_stream_def drop_stream_def)

lemma max_streams_run: "pl_max_streams (pres_run es l) = pl_max_streams l"
  unfolding pres_run_def by (induction es arbitrary: l) (simp_all add: max_streams_step)

lemma active_stream_step:
  assumes "pres_ok l" and "map_of (pl_events l) k = Some es" and "\<not> pres_terminal (last es)"
  shows "map_of (pl_events (snd (pres_append_event e l))) k \<in> {Some es, Some (es @ [e])}"
proof -
  have "k \<notin> pl_terminal l" using assms by (auto simp: pres_ok_def)
  with assms(2) show ?thesis
    by (cases rule: pres_append_cases [of e l]) (auto simp: with_stream_def drop_stream_def)
qed

section \<open>Property of the presentation log\<close>

text \<open>C18. The presentation log is gapless and keeps what is running: whatever events are offered in whatever
  order, every stream it holds is numbered 1, 2, 3 and so on without a gap, keeps one identity and
  has no event after a terminal one; it never holds more streams than its bound; and a stream that
  has not ended is never dropped, it stays as it is or grows by the offered event.\<close>

theorem presentation_log_gapless:
  assumes "l = pres_run offered (new_pres_log n)" and "map_of (pl_events l) k = Some es"
  shows "map pe_revision es = map int [1..<Suc (length es)] \<and> (\<forall>x\<in>set es. pres_identity x = pres_identity (hd es)) \<and>
    (\<forall>x\<in>set (butlast es). \<not> pres_terminal x) \<and> length (pl_events l) \<le> nat (max 1 n) \<and>
    (pres_terminal (last es) \<or> map_of (pl_events (snd (pres_append_event e l))) k \<in> {Some es, Some (es @ [e])})"
proof -
  have ok: "pres_ok l" using assms(1) by (simp add: pres_run_ok)
  then have "stream_ok k es" using assms(2) by (simp add: pres_ok_def)
  moreover have "length (pl_events l) \<le> nat (max 1 n)"
    using ok max_streams_run [of offered "new_pres_log n"] assms(1) by (simp add: pres_ok_def new_pres_log_def)
  ultimately show ?thesis
    using active_stream_step [OF ok assms(2), of e] unfolding stream_ok_def by blast
qed

definition sample_event :: "string \<Rightarrow> int \<Rightarrow> pres_event" where
  "sample_event ty n = \<lparr>pe_stream_id = ''s'', pe_event_type = ty, pe_revision = n, pe_workspace_id = [],
     pe_session_id = [], pe_turn_id = [], pe_request_id = None, pe_conversation_id = None,
     pe_operation_id = None, pe_run_id = None, pe_step_index = None, pe_generation_id = None,
     pe_interruption_epoch = 0, pe_source = ''agent'', pe_payload = [], pe_version = 1\<rparr>"

lemma sample_names:
  "\<not> is_high_frequency_event ''AgentJobRunning''" "\<not> is_high_frequency_event ''AgentJobFailed''"
  "compact_event_name ''AgentJobRunning'' = ''agentjobrunning''"
  by code_simp+

theorem presentation_log_gapless_witness:
  "\<exists>l es. l = pres_run [sample_event ''AgentJobRunning'' 1, sample_event ''AgentJobFailed'' 2] (new_pres_log 4) \<and>
     map_of (pl_events l) ''s'' = Some es \<and> map pe_revision es = [1, 2] \<and> length (pl_events l) \<le> 4"
proof -
  let ?es = "[sample_event ''AgentJobRunning'' 1, sample_event ''AgentJobFailed'' 2]"
  have "\<not> pres_terminal (sample_event ''AgentJobRunning'' 1)"
    by (simp add: pres_terminal_def sample_event_def sample_names presentation_terminal_types_def suffix_to_prefix Let_def)
  then have stream: "map_of (pl_events (pres_run ?es (new_pres_log 4))) ''s'' = Some ?es"
    by (simp add: pres_run_def pres_append_event_def sample_event_def sample_names new_pres_log_def pres_reduce_def
        extend_stream_def pres_identity_def Let_def)
  from presentation_log_gapless [OF refl this] stream show ?thesis by auto
qed

end
