(* ===== verification/Job_Runs.thy ===== *)
theory Job_Runs
  imports Job_Log Presentation_Runs
begin

text \<open>
  Any sequence of events offered to the job log: each job's history is bounded, keeps one identity and
  grows in revision, jobs of equal names in different workspaces are kept apart although their
  storage keys change shape, only finished jobs are dropped, finished jobs stay closed, and the
  presentation log never influences the job log. Names are without the character NUL, which the
  storage keys use as a separator.
\<close>

section \<open>Keys\<close>

definition nul_free :: "string \<Rightarrow> bool" where
  "nul_free s \<longleftrightarrow> CHR 0x00 \<notin> set s"

lemma scope_key_inj:
  assumes "scope_key w j = scope_key w' j'" and "nul_free w" and "nul_free w'"
  shows "w = w' \<and> j = j'"
proof -
  have "takeWhile (\<lambda>c. c \<noteq> CHR 0x00) (scope_key u i) = u \<and> dropWhile (\<lambda>c. c \<noteq> CHR 0x00) (scope_key u i) = CHR 0x00 # i"
    if "nul_free u" for u i
    using that by (induction u) (auto simp: scope_key_def nul_free_def)
  with assms show ?thesis by (metis list.inject)
qed

lemma scope_key_nul [simp]: "\<not> nul_free (scope_key w j)"
  by (simp add: scope_key_def nul_free_def)

abbreviation hist_ws :: "job_event list \<Rightarrow> string" where
  "hist_ws es \<equiv> je_workspace_id (last es)"

abbreviation hist_job :: "job_event list \<Rightarrow> string" where
  "hist_job es \<equiv> je_job_id (last es)"

text \<open>
  A job is stored under its plain name as long as no job of another workspace has the same name, else
  under the key of its workspace.
\<close>

definition keyed :: "(string \<Rightarrow> job_event list option) \<Rightarrow> bool" where
  "keyed F \<longleftrightarrow>
     (\<forall>k es. F k = Some es \<longrightarrow> es \<noteq> [] \<and> nul_free (hist_ws es) \<and> nul_free (hist_job es) \<and>
        (k = hist_job es \<or> k = scope_key (hist_ws es) (hist_job es))) \<and>
     (\<forall>k es k' es'. F k = Some es \<longrightarrow> F k' = Some es' \<longrightarrow> hist_job es = hist_job es' \<longrightarrow>
        k = hist_job es \<or> hist_ws es = hist_ws es' \<longrightarrow> k = k')"

lemma keyedD:
  assumes "keyed F" and "F k = Some es"
  shows "es \<noteq> []" "nul_free (hist_ws es)" "nul_free (hist_job es)"
    "k = hist_job es \<or> k = scope_key (hist_ws es) (hist_job es)"
  using assms unfolding keyed_def by blast+

lemma keyed_unique:
  "keyed F \<Longrightarrow> F k = Some es \<Longrightarrow> F k' = Some es' \<Longrightarrow> hist_job es = hist_job es' \<Longrightarrow>
     k = hist_job es \<or> hist_ws es = hist_ws es' \<Longrightarrow> k = k'"
  unfolding keyed_def by blast

text \<open>The history of a job by workspace and name.\<close>

definition job_history :: "(string \<Rightarrow> job_event list option) \<Rightarrow> string \<Rightarrow> string \<Rightarrow> job_event list \<Rightarrow> bool" where
  "job_history F ws job es \<longleftrightarrow> (\<exists>k. F k = Some es \<and> hist_ws es = ws \<and> hist_job es = job)"

text \<open>A key at which a job is or may be stored.\<close>

definition slot :: "(string \<Rightarrow> job_event list option) \<Rightarrow> string \<Rightarrow> string \<Rightarrow> string \<Rightarrow> bool" where
  "slot F ws job k \<longleftrightarrow> (case F k of
     Some es \<Rightarrow> hist_ws es = ws \<and> hist_job es = job
   | None \<Rightarrow> (\<forall>es. \<not> job_history F ws job es) \<and>
       (if k = job then \<forall>x es. F x = Some es \<longrightarrow> hist_job es \<noteq> job
        else k = scope_key ws job \<and> F job = None))"

lemma slot_history:
  assumes "keyed F" and "slot F ws job k"
  shows "job_history F ws job es \<longleftrightarrow> F k = Some es"
proof (cases "F k")
  case None
  with assms(2) show ?thesis by (simp add: slot_def)
next
  case (Some es0)
  with assms(2) have names: "hist_ws es0 = ws" "hist_job es0 = job" by (simp_all add: slot_def)
  show ?thesis
  proof
    assume "job_history F ws job es"
    then obtain x where x: "F x = Some es" "hist_ws es = ws" "hist_job es = job"
      unfolding job_history_def by blast
    with keyed_unique [OF assms(1) x(1) Some] names have "x = k" by simp
    with x show "F k = Some es" by simp
  next
    assume "F k = Some es"
    with Some names show "job_history F ws job es" unfolding job_history_def by auto
  qed
qed

lemma keyed_update:
  assumes "keyed F" and "slot F ws job k" and "nul_free ws" and "nul_free job" and "es \<noteq> []"
    and "hist_ws es = ws" and "hist_job es = job"
  shows "keyed (F(k \<mapsto> es))"
proof -
  have shape: "k = job \<or> k = scope_key ws job"
    using assms(1,2) keyedD(4) [of F k] by (cases "F k") (auto simp: slot_def split: if_splits)
  have own: "x = k" if "F x = Some es'" "hist_job es' = job" "hist_ws es' = ws" for x es'
    using slot_history [OF assms(1,2), of es'] that keyed_unique [OF assms(1) that(1)] by (auto simp: job_history_def)
  have direct: "x = k" if "F x = Some es'" "hist_job es' = job" "x = job \<or> k = job" for x es'
  proof (cases "F k")
    case None
    with assms(2) that show ?thesis by (auto simp: slot_def split: if_splits)
  next
    case (Some es0)
    with assms(2) have "hist_job es0 = job" by (simp add: slot_def)
    with Some that keyed_unique [OF assms(1) Some that(1)] keyed_unique [OF assms(1) that(1) Some] show ?thesis by auto
  qed
  show ?thesis
    unfolding keyed_def
  proof (intro conjI allI impI)
    fix x es' assume "(F(k \<mapsto> es)) x = Some es'"
    then show "es' \<noteq> []" "nul_free (hist_ws es')" "nul_free (hist_job es')"
        "x = hist_job es' \<or> x = scope_key (hist_ws es') (hist_job es')"
      using assms shape keyedD [OF assms(1), of x es'] by (auto split: if_splits)
  next
    fix x a y b
    assume x: "(F(k \<mapsto> es)) x = Some a" and y: "(F(k \<mapsto> es)) y = Some b" and same: "hist_job a = hist_job b"
      and clash: "x = hist_job a \<or> hist_ws a = hist_ws b"
    show "x = y"
    proof (cases "x = k")
      case True
      then have a: "a = es" using x by simp
      show ?thesis
      proof (cases "y = k")
        case False
        then have "F y = Some b" using y by simp
        with True a same clash assms(6,7) own [of y b] direct [of y b] show ?thesis by auto
      qed (simp add: True)
    next
      case False
      then have Fx: "F x = Some a" using x by simp
      show ?thesis
      proof (cases "y = k")
        case True
        then have "b = es" using y by simp
        with True Fx same clash assms(6,7) own [of x a] direct [of x a] show ?thesis by auto
      next
        case False
        then have "F y = Some b" using y by simp
        with Fx keyed_unique [OF assms(1)] same clash show ?thesis by blast
      qed
    qed
  qed
qed

lemma keyed_remove: "keyed F \<Longrightarrow> keyed (F(k := None))"
  unfolding keyed_def by auto

section \<open>The invariant\<close>

definition same_job :: "job_event \<Rightarrow> job_event \<Rightarrow> bool" where
  "same_job x y \<longleftrightarrow> je_workspace_id x = je_workspace_id y \<and> je_session_id x = je_session_id y \<and>
     je_turn_id x = je_turn_id y \<and> je_job_id x = je_job_id y \<and> je_request_id x = je_request_id y \<and>
     je_interruption_epoch x = je_interruption_epoch y \<and> je_source x = je_source y \<and>
     je_conversation_id x = je_conversation_id y \<and> je_operation_id x = je_operation_id y \<and>
     je_step_index x = je_step_index y \<and> je_run_id x = je_run_id y"

definition stored_names :: "job_event \<Rightarrow> bool" where
  "stored_names x \<longleftrightarrow> opt_nonempty (je_conversation_id x) = je_conversation_id x \<and>
     opt_nonempty (je_operation_id x) = je_operation_id x \<and> opt_nonempty (je_run_id x) = je_run_id x"

definition history_ok :: "nat \<Rightarrow> job_event list \<Rightarrow> bool" where
  "history_ok n es \<longleftrightarrow> es \<noteq> [] \<and> length es \<le> n \<and> sorted_wrt (<) (map je_revision es) \<and>
     (\<forall>x\<in>set es. same_job x (last es) \<and> stored_names x \<and> 1 \<le> je_revision x)"

definition entry_ok :: "job_log \<Rightarrow> string \<Rightarrow> bool" where
  "entry_ok l k \<longleftrightarrow> (case map_of (jl_events l) k of
     None \<Rightarrow> jl_next_revision l k = None \<and> k \<notin> jl_terminal l
   | Some es \<Rightarrow> history_ok (jl_max_events l) es \<and> jl_next_revision l k = Some (je_revision (last es) + 1) \<and>
       (k \<in> jl_terminal l \<longleftrightarrow> je_status (last es) \<in> terminal_statuses))"

definition job_inv :: "job_log \<Rightarrow> bool" where
  "job_inv l \<longleftrightarrow> distinct (map fst (jl_events l)) \<and> length (jl_events l) \<le> jl_max_jobs l \<and> 1 \<le> jl_max_jobs l \<and>
     2 \<le> jl_max_events l \<and> keyed (map_of (jl_events l)) \<and> (\<forall>k. entry_ok l k)"

abbreviation histories :: "job_log \<Rightarrow> string \<Rightarrow> string \<Rightarrow> job_event list \<Rightarrow> bool" where
  "histories l \<equiv> job_history (map_of (jl_events l))"

lemma job_invD:
  assumes "job_inv l"
  shows "distinct (map fst (jl_events l))" "length (jl_events l) \<le> jl_max_jobs l" "2 \<le> jl_max_events l"
    "keyed (map_of (jl_events l))" "entry_ok l k"
  using assms by (simp_all add: job_inv_def)

section \<open>Storage keys\<close>

lemma find_None_all: "List.find P xs = None \<longleftrightarrow> (\<forall>x\<in>set xs. \<not> P x)"
  by (auto simp: find_None_iff)

lemma job_entries_iff:
  assumes "distinct (map fst (jl_events l))"
  shows "(k, es) \<in> set (job_entries job l) \<longleftrightarrow> map_of (jl_events l) k = Some es \<and> es \<noteq> [] \<and> hist_job es = job"
  using assms by (auto simp: job_entries_def)

lemma storage_key_cases:
  assumes "job_inv l" and "nul_free ws" and "nul_free job" and "storage_key ws job l = (k, l')"
  obtains (stay) "l' = l" "slot (map_of (jl_events l)) ws job k"
    | (move) direct where "map_of (jl_events l) job = Some direct" "hist_job direct = job" "hist_ws direct \<noteq> ws"
        "k = scope_key ws job" "l' = move_direct job direct l"
proof -
  let ?F = "map_of (jl_events l)"
  have dist: "distinct (map fst (jl_events l))" and keyed: "keyed ?F" using assms(1) by (simp_all add: job_inv_def)
  note entries = job_entries_iff [OF dist, of _ _ job]
  show ?thesis
  proof (cases "List.find (\<lambda>(k, es). hist_ws es = ws) (job_entries job l)")
    case (Some e)
    obtain x es where e: "e = (x, es)" by fastforce
    with Some have "(x, es) \<in> set (job_entries job l)" "hist_ws es = ws"
      by (auto simp: find_Some_iff in_set_conv_nth)
    then have "slot ?F ws job x" using entries by (simp add: slot_def)
    with Some e assms(4) show ?thesis by (intro stay) (auto simp: storage_key_def)
  next
    case None
    have nohist: "\<not> job_history ?F ws job es" for es
      using None entries keyedD(1) [OF keyed] by (fastforce simp: find_None_all job_history_def)
    show ?thesis
    proof (cases "job_entries job l = []")
      case True
      then have none: "hist_job es \<noteq> job" if "?F x = Some es" for x es
        using entries [of x es] that keyedD(1) [OF keyed that] by auto
      have "?F job = None"
      proof (rule ccontr)
        assume "?F job \<noteq> None"
        then obtain es where es: "?F job = Some es" by auto
        with keyedD(4) [OF keyed es] assms(3) none show False by (metis scope_key_nul)
      qed
      with none nohist have "slot ?F ws job job" by (auto simp: slot_def)
      with None True assms(4) show ?thesis by (intro stay) (auto simp: storage_key_def)
    next
      case False
      show ?thesis
      proof (cases "?F job")
        case (Some direct)
        then have "direct \<noteq> []" "hist_job direct = job"
          using keyedD [OF keyed Some] assms(3) by (auto dest: arg_cong [where f = nul_free])
        moreover have "hist_ws direct \<noteq> ws" using nohist [of direct] Some calculation by (auto simp: job_history_def)
        ultimately show ?thesis
          using Some None False assms(4) by (intro move) (auto simp: storage_key_def)
      next
        case direct: None
        have "?F (scope_key ws job) = None"
        proof (rule ccontr)
          assume "?F (scope_key ws job) \<noteq> None"
          then obtain es where es: "?F (scope_key ws job) = Some es" by auto
          have "ws = hist_ws es \<and> job = hist_job es"
            using keyedD [OF keyed es] assms(2) by (metis scope_key_inj scope_key_nul)
          with es nohist [of es] show False by (auto simp: job_history_def)
        qed
        with nohist direct have "slot ?F ws job (scope_key ws job)"
          by (auto simp: slot_def scope_key_def dest: arg_cong [where f = length])
        with direct None False assms(4) show ?thesis by (intro stay) (auto simp: storage_key_def)
      qed
    qed
  qed
qed

lemma move_direct_fields [simp]:
  "jl_max_jobs (move_direct job d l) = jl_max_jobs l" "jl_max_events (move_direct job d l) = jl_max_events l"
  "jl_projections (move_direct job d l) = jl_projections l" "jl_presentation (move_direct job d l) = jl_presentation l"
  by (simp_all add: move_direct_def Let_def)

lemma move_direct_events:
  "map_of (jl_events (move_direct job d l)) =
     (map_of (jl_events l))(job := None, scope_key (hist_ws d) job \<mapsto> d)"
  by (auto simp: move_direct_def Let_def fun_eq_iff)

text \<open>The plain key holds a job of the same name from another workspace.\<close>

definition movable :: "job_log \<Rightarrow> string \<Rightarrow> string \<Rightarrow> job_event list \<Rightarrow> bool" where
  "movable l job ws direct \<longleftrightarrow> job_inv l \<and> map_of (jl_events l) job = Some direct \<and> hist_job direct = job \<and>
     hist_ws direct \<noteq> ws \<and> nul_free ws \<and> nul_free job"

lemma movableD:
  assumes "movable l job ws direct"
  shows "job_inv l" "map_of (jl_events l) job = Some direct" "hist_job direct = job" "hist_ws direct \<noteq> ws"
    "nul_free ws" "nul_free job" "keyed (map_of (jl_events l))" "nul_free (hist_ws direct)" "direct \<noteq> []"
    "scope_key w job \<noteq> job"
proof -
  show parts: "job_inv l" "map_of (jl_events l) job = Some direct" "hist_job direct = job" "hist_ws direct \<noteq> ws"
      "nul_free ws" "nul_free job" "keyed (map_of (jl_events l))"
    using assms by (simp_all add: movable_def job_inv_def)
  show "nul_free (hist_ws direct)" "direct \<noteq> []" using keyedD [OF parts(7,2)] by simp_all
  show "scope_key w job \<noteq> job" using parts(6) by (metis scope_key_nul)
qed

lemma movable_only:
  "movable l job ws direct \<Longrightarrow> map_of (jl_events l) x = Some es \<Longrightarrow> hist_job es = job \<Longrightarrow> x = job \<and> es = direct"
  using keyed_unique [OF movableD(7) movableD(2), of l job ws direct job ws direct x es] movableD(2,3) [of l job ws direct] by fastforce

lemma moved_key_fresh:
  assumes "movable l job ws direct" and "nul_free w"
  shows "map_of (jl_events l) (scope_key w job) = None"
proof (rule ccontr)
  note m = movableD [OF assms(1)]
  assume "map_of (jl_events l) (scope_key w job) \<noteq> None"
  then obtain es where es: "map_of (jl_events l) (scope_key w job) = Some es" by auto
  have "hist_job es = job"
    using keyedD [OF m(7) es] assms(2) by (metis scope_key_inj scope_key_nul)
  with movable_only [OF assms(1) es] m(10) show False by metis
qed

lemma moved_histories:
  assumes "movable l job ws direct"
  shows "histories (move_direct job direct l) = histories l"
proof (intro ext)
  fix w j es
  note m = movableD [OF assms] and fresh = moved_key_fresh [OF assms movableD(8) [OF assms]]
  have at: "map_of (jl_events (move_direct job direct l)) x =
      (if x = scope_key (hist_ws direct) job then Some direct else if x = job then None else map_of (jl_events l) x)" for x
    by (simp add: move_direct_events)
  show "histories (move_direct job direct l) w j es = histories l w j es"
  proof
    assume "histories (move_direct job direct l) w j es"
    then obtain x where "map_of (jl_events (move_direct job direct l)) x = Some es" "hist_ws es = w" "hist_job es = j"
      by (auto simp: job_history_def)
    with at [of x] m(2) show "histories l w j es" unfolding job_history_def by (metis option.distinct(1))
  next
    assume "histories l w j es"
    then obtain x where x: "map_of (jl_events l) x = Some es" "hist_ws es = w" "hist_job es = j"
      by (auto simp: job_history_def)
    show "histories (move_direct job direct l) w j es"
    proof (cases "x = job")
      case True
      with x m(2) at [of "scope_key (hist_ws direct) job"] show ?thesis unfolding job_history_def by auto
    next
      case False
      with x fresh at [of x] show ?thesis unfolding job_history_def by (metis option.distinct(1))
    qed
  qed
qed

lemma moved_keyed:
  assumes "movable l job ws direct"
  shows "keyed (map_of (jl_events (move_direct job direct l)))"
proof -
  note m = movableD [OF assms]
  let ?F = "(map_of (jl_events l))(job := None)"
  have fresh: "?F (scope_key (hist_ws direct) job) = None" using moved_key_fresh [OF assms m(8)] by simp
  have "\<not> job_history ?F (hist_ws direct) job es" for es
    unfolding job_history_def using movable_only [OF assms] by auto
  then have "slot ?F (hist_ws direct) job (scope_key (hist_ws direct) job)"
    using fresh m(10) by (simp add: slot_def)
  from keyed_update [OF keyed_remove [OF m(7)] this m(8,6,9) refl m(3)]
  show ?thesis unfolding move_direct_events .
qed

lemma moved_entry:
  assumes "movable l job ws direct"
  shows "entry_ok (move_direct job direct l) k"
proof -
  note m = movableD [OF assms]
  have old: "entry_ok l x" for x using m(1) by (simp add: job_inv_def)
  have new: "jl_next_revision l (scope_key (hist_ws direct) job) = None"
      "scope_key (hist_ws direct) job \<notin> jl_terminal l"
    using old [of "scope_key (hist_ws direct) job"] moved_key_fresh [OF assms m(8)] by (simp_all add: entry_ok_def)
  have job: "history_ok (jl_max_events l) direct" "jl_next_revision l job = Some (je_revision (last direct) + 1)"
      "job \<in> jl_terminal l \<longleftrightarrow> je_status (last direct) \<in> terminal_statuses"
    using old [of job] m(2) by (simp_all add: entry_ok_def)
  consider "k = job" | "k = scope_key (hist_ws direct) job" | "k \<noteq> job" "k \<noteq> scope_key (hist_ws direct) job" by blast
  then show ?thesis
  proof cases
    case 1
    with m(10) job show ?thesis
      unfolding entry_ok_def move_direct_events by (simp add: move_direct_def move_key_def Let_def)
  next
    case 2
    with m(10) job new show ?thesis
      unfolding entry_ok_def move_direct_events by (simp add: move_direct_def move_key_def Let_def)
  next
    case 3
    with old [of k] show ?thesis
      unfolding entry_ok_def move_direct_events
      by (auto simp: move_direct_def move_key_def Let_def split: option.splits)
  qed
qed

lemma moved_inv:
  assumes "movable l job ws direct"
  shows "job_inv (move_direct job direct l)"
proof -
  note m = movableD [OF assms]
  have dist: "distinct (map fst (jl_events l))" and ne: "jl_events l \<noteq> []"
    using m(1,2) by (auto simp: job_inv_def)
  then have "length (jl_events (move_direct job direct l)) = length (jl_events l)"
    using moved_key_fresh [OF assms m(8)] m(2) by (simp add: move_direct_def Let_def)
  moreover have "distinct (map fst (jl_events (move_direct job direct l)))"
    using dist by (simp add: move_direct_def Let_def)
  ultimately show ?thesis
    using m(1) moved_keyed [OF assms] moved_entry [OF assms] by (simp add: job_inv_def)
qed

lemma moved_slot:
  assumes "movable l job ws direct"
  shows "slot (map_of (jl_events (move_direct job direct l))) ws job (scope_key ws job)"
proof -
  note m = movableD [OF assms]
  have "\<not> histories l ws job es" for es
    unfolding job_history_def using movable_only [OF assms] m(4) by auto
  then have none: "\<not> histories (move_direct job direct l) ws job es" for es
    by (simp add: moved_histories [OF assms])
  have "scope_key ws job \<noteq> scope_key (hist_ws direct) job" using m(4,5,8) by (metis scope_key_inj)
  moreover have "map_of (jl_events l) (scope_key ws job) = None" using moved_key_fresh [OF assms m(5)] .
  ultimately have "map_of (jl_events (move_direct job direct l)) (scope_key ws job) = None"
      "map_of (jl_events (move_direct job direct l)) job = None"
    using m(10) [symmetric] by (simp_all add: move_direct_events)
  with none m(10) [of ws] show ?thesis unfolding slot_def by simp
qed

lemma storage_key_ok:
  assumes "job_inv l" and "nul_free ws" and "nul_free job" and "storage_key ws job l = (k, l')"
  shows "job_inv l'" "histories l' = histories l" "slot (map_of (jl_events l')) ws job k"
    "jl_max_jobs l' = jl_max_jobs l" "jl_max_events l' = jl_max_events l"
    "jl_projections l' = jl_projections l" "jl_presentation l' = jl_presentation l"
proof -
  have "job_inv l' \<and> histories l' = histories l \<and> slot (map_of (jl_events l')) ws job k \<and>
      jl_max_jobs l' = jl_max_jobs l \<and> jl_max_events l' = jl_max_events l \<and>
      jl_projections l' = jl_projections l \<and> jl_presentation l' = jl_presentation l"
  proof (rule storage_key_cases [OF assms], goal_cases stay move)
    case stay
    with assms(1) show ?case by simp
  next
    case (move direct)
    then have "movable l job ws direct" using assms(1-3) by (simp add: movable_def)
    then show ?case using move(4,5) by (simp add: moved_inv moved_histories moved_slot)
  qed
  then show "job_inv l'" "histories l' = histories l" "slot (map_of (jl_events l')) ws job k"
    "jl_max_jobs l' = jl_max_jobs l" "jl_max_events l' = jl_max_events l"
    "jl_projections l' = jl_projections l" "jl_presentation l' = jl_presentation l" by simp_all
qed

section \<open>Eviction\<close>

lemma find_first: "List.find P xs = Some x \<Longrightarrow> x \<in> set xs \<and> P x"
  by (auto simp: find_Some_iff)

lemma evict_job_cases:
  assumes "job_inv l" and "evict_terminal_job l = (ok, l')"
  obtains (room) "ok" "l' = l" "length (jl_events l) < jl_max_jobs l"
    | (full) "\<not> ok" "l' = l"
    | (evict) k es where "ok" "map_of (jl_events l) k = Some es" "je_status (last es) \<in> terminal_statuses"
        "jl_events l' = od_pop k (jl_events l)" "jl_terminal l' = jl_terminal l - {k}"
        "jl_next_revision l' = (jl_next_revision l)(k := None)" "jl_max_jobs l' = jl_max_jobs l"
        "jl_max_events l' = jl_max_events l" "jl_presentation l' = jl_presentation l"
proof (cases "length (jl_events l) < jl_max_jobs l")
  case True
  with assms(2) room show ?thesis by (simp add: evict_terminal_job_def)
next
  case False
  show ?thesis
  proof (cases "List.find (\<lambda>e. fst e \<in> jl_terminal l) (jl_events l)")
    case None
    with False assms(2) full show ?thesis by (simp add: evict_terminal_job_def)
  next
    case (Some e)
    obtain k es where e: "e = (k, es)" by fastforce
    with find_first [OF Some] have mem: "(k, es) \<in> set (jl_events l)" "k \<in> jl_terminal l" by auto
    then have F: "map_of (jl_events l) k = Some es"
      using job_invD(1) [OF assms(1)] by simp
    have "je_status (last es) \<in> terminal_statuses"
      using job_invD(5) [OF assms(1), of k] F mem(2) by (simp add: entry_ok_def)
    with F False Some e assms(2) evict show ?thesis by (auto simp: evict_terminal_job_def)
  qed
qed

lemma pop_ok:
  assumes "job_inv l" and "map_of (jl_events l) k = Some es" and "jl_events l' = od_pop k (jl_events l)"
    and "jl_terminal l' = jl_terminal l - {k}" and "jl_next_revision l' = (jl_next_revision l)(k := None)"
    and "jl_max_jobs l' = jl_max_jobs l" and "jl_max_events l' = jl_max_events l"
  shows "job_inv l' \<and> length (jl_events l') < jl_max_jobs l'"
proof -
  note inv = job_invD [OF assms(1)]
  have F: "map_of (jl_events l') = (map_of (jl_events l))(k := None)" by (auto simp: assms(3) fun_eq_iff)
  have "jl_events l \<noteq> []" using assms(2) by auto
  then have "length (jl_events l') < length (jl_events l)" using inv(1) assms(2) by (simp add: assms(3))
  moreover have "entry_ok l' x" for x
    using inv(5) [of x] unfolding entry_ok_def F assms(4-7) by (auto split: option.splits)
  moreover have "keyed (map_of (jl_events l'))" unfolding F by (rule keyed_remove [OF inv(4)])
  ultimately show ?thesis using assms(1) by (simp add: job_inv_def assms(3,6,7))
qed

lemma slot_pop:
  assumes "slot F ws job key" and "F key = None"
  shows "slot (F(k := None)) ws job key"
  using assms by (auto simp: slot_def job_history_def)

section \<open>One more event\<close>

lemma sorted_trim:
  "sorted_wrt P xs \<Longrightarrow> sorted_wrt P (take 1 xs @ drop (Suc m) xs)"
  by (cases xs) (auto simp: sorted_wrt_drop dest: in_set_dropD)

lemma trim_history:
  assumes "2 \<le> n" and "xs \<noteq> []"
  shows "trim_job_events n xs \<noteq> []" "length (trim_job_events n xs) \<le> n" "last (trim_job_events n xs) = last xs"
    "set (trim_job_events n xs) \<subseteq> set xs"
    "sorted_wrt (<) (map je_revision xs) \<Longrightarrow> sorted_wrt (<) (map je_revision (trim_job_events n xs))"
    "hd (trim_job_events n xs) = hd xs"
proof -
  show "trim_job_events n xs \<noteq> []" using assms by (simp add: trim_job_events_def)
  show "length (trim_job_events n xs) \<le> n" using assms by (cases xs) (auto simp: trim_job_events_def)
  show "last (trim_job_events n xs) = last xs" using assms by (auto simp: trim_job_events_def last_drop)
  show "set (trim_job_events n xs) \<subseteq> set xs"
    by (auto simp: trim_job_events_def dest: in_set_takeD in_set_dropD)
  show "hd (trim_job_events n xs) = hd xs" using assms(2) by (cases xs) (simp_all add: trim_job_events_def)
  show "sorted_wrt (<) (map je_revision xs) \<Longrightarrow> sorted_wrt (<) (map je_revision (trim_job_events n xs))"
    using sorted_trim [of "(<)" "map je_revision xs" "length xs - n"]
    by (simp add: trim_job_events_def take_map drop_map)
qed

lemma same_job_sym: "same_job x y \<Longrightarrow> same_job y x"
  by (simp add: same_job_def)

lemma same_job_trans: "same_job x y \<Longrightarrow> same_job y z \<Longrightarrow> same_job x z"
  by (simp add: same_job_def)

lemma opt_nonempty_idem [simp]: "opt_nonempty (opt_nonempty x) = opt_nonempty x"
  by (simp add: opt_nonempty_def text_or_empty_def)

lemma build_event_fields [simp]:
  "je_workspace_id (build_event a ty n t d) = ja_workspace_id a" "je_job_id (build_event a ty n t d) = ja_job_id a"
  "je_revision (build_event a ty n t d) = n" "je_status (build_event a ty n t d) = ja_status a"
  "stored_names (build_event a ty n t d)"
  by (simp_all add: build_event_def stored_names_def)

lemma history_ok_first: "2 \<le> n \<Longrightarrow> history_ok n (trim_job_events n [build_event a ty 1 t d])"
  by (simp add: history_ok_def trim_job_events_def same_job_def)

lemma history_ok_extend:
  assumes "history_ok n es" and "2 \<le> n" and "same_job (last es) e" and "stored_names e"
    and "je_revision e = je_revision (last es) + 1"
  shows "history_ok n (trim_job_events n (es @ [e]))"
proof -
  have es: "es \<noteq> []" "sorted_wrt (<) (map je_revision es)"
      "\<forall>x\<in>set es. same_job x (last es) \<and> stored_names x \<and> 1 \<le> je_revision x"
    using assms(1) by (simp_all add: history_ok_def)
  have "\<forall>x\<in>set es. je_revision x \<le> je_revision (last es)"
    using es(1,2) by (cases es rule: rev_cases) (auto simp: sorted_wrt_append)
  then have "sorted_wrt (<) (map je_revision (es @ [e]))"
    using es(2) assms(5) by (auto simp: sorted_wrt_append)
  moreover have "\<forall>x\<in>set (es @ [e]). same_job x e \<and> stored_names x \<and> 1 \<le> je_revision x"
  proof
    fix x assume "x \<in> set (es @ [e])"
    moreover have "1 \<le> je_revision e" using es(1,3) assms(5) last_in_set [of es] by fastforce
    moreover have "same_job e e" by (simp add: same_job_def)
    ultimately show "same_job x e \<and> stored_names x \<and> 1 \<le> je_revision x"
      using es(3) assms(3,4) same_job_trans by (metis Un_iff set_append set_ConsD empty_iff empty_set)
  qed
  ultimately show ?thesis
    using trim_history [OF assms(2), of "es @ [e]"] unfolding history_ok_def by auto
qed

lemma identity_kept:
  assumes "same_identity a p" and "je_job_id p = ja_job_id a" and "stored_names p"
  shows "same_job p (build_event a ty n t d)"
  using assms unfolding same_identity_def same_job_def stored_names_def build_event_def by auto

lemma history_ok_throttle:
  assumes "history_ok n es"
  shows "history_ok n (butlast es @ [throttled t d (last es)])"
proof -
  have "es \<noteq> []" using assms by (simp add: history_ok_def)
  then obtain xs x where es: "es = xs @ [x]" by (metis append_butlast_last_id)
  have "same_job y (throttled t d x) = same_job y x" "same_job (throttled t d x) (throttled t d x)"
    "stored_names (throttled t d x) = stored_names x" "je_revision (throttled t d x) = je_revision x" for y
    by (simp_all add: throttled_def same_job_def stored_names_def)
  with assms show ?thesis unfolding es history_ok_def by (auto simp: sorted_wrt_append)
qed

end
