(* ===== verification/Job_Properties.thy ===== *)
theory Job_Properties
  imports Job_Runs
begin

text \<open>
  The effect of one offered event on the histories of all jobs, and the properties of the job log.
\<close>

lemma put_ok:
  assumes inv: "job_inv l" and slot: "slot (map_of (jl_events l)) ws job key" and names: "nul_free ws" "nul_free job"
    and es: "es \<noteq> []" "hist_ws es = ws" "hist_job es = job"
    and room: "map_of (jl_events l) key \<noteq> None \<or> length (jl_events l) < jl_max_jobs l"
    and l': "map_of (jl_events l') = (map_of (jl_events l))(key \<mapsto> es)" "distinct (map fst (jl_events l'))"
      "length (jl_events l') = (if map_of (jl_events l) key = None then Suc (length (jl_events l)) else length (jl_events l))"
      "jl_max_jobs l' = jl_max_jobs l" "jl_max_events l' = jl_max_events l"
      "\<And>k. k \<noteq> key \<Longrightarrow> jl_next_revision l' k = jl_next_revision l k \<and> (k \<in> jl_terminal l' \<longleftrightarrow> k \<in> jl_terminal l)"
    and entry: "entry_ok l' key"
  shows "job_inv l'" "histories l' w j h \<longleftrightarrow> (if w = ws \<and> j = job then h = es else histories l w j h)"
proof -
  note i = job_invD [OF inv]
  have keyed: "keyed (map_of (jl_events l'))" unfolding l'(1) by (rule keyed_update [OF i(4) slot names es])
  moreover have "entry_ok l' k" for k
    using i(5) [of k] entry l'(6) [of k] l'(1,5) by (cases "k = key") (simp_all add: entry_ok_def split: option.splits)
  ultimately show "job_inv l'"
    using inv l'(2-5) room by (auto simp: job_inv_def)
  show "histories l' w j h \<longleftrightarrow> (if w = ws \<and> j = job then h = es else histories l w j h)"
  proof (cases "w = ws \<and> j = job")
    case True
    have "slot (map_of (jl_events l')) ws job key" using es by (simp add: slot_def l'(1))
    from slot_history [OF keyed this, of h] True show ?thesis by (auto simp: l'(1))
  next
    case False
    have "map_of (jl_events l) key = Some h \<longrightarrow> \<not> (hist_ws h = w \<and> hist_job h = j)"
      using slot False by (auto simp: slot_def)
    with False es show ?thesis unfolding job_history_def l'(1) by (auto split: if_splits)
  qed
qed

lemma remember_fields [simp]:
  "jl_events (remember_projection k p e l) = jl_events l" "jl_terminal (remember_projection k p e l) = jl_terminal l"
  "jl_next_revision (remember_projection k p e l) = jl_next_revision l"
  "jl_max_jobs (remember_projection k p e l) = jl_max_jobs l" "jl_max_events (remember_projection k p e l) = jl_max_events l"
  "jl_last_progress (remember_projection k p e l) = jl_last_progress l"
  "jl_presentation (remember_projection k p e l) = jl_presentation l"
  by (simp_all add: remember_projection_def Let_def split: prod.splits)

lemma commit_fields:
  "jl_events (commit_event key p t es e l) =
     od_to_end key (od_set key (trim_job_events (jl_max_events l) (es @ [e])) (jl_events l))"
  "jl_next_revision (commit_event key p t es e l) = (jl_next_revision l)(key \<mapsto> je_revision e + 1)"
  "jl_terminal (commit_event key p t es e l) =
     (if je_status e \<in> terminal_statuses then insert key (jl_terminal l) else jl_terminal l)"
  "jl_max_jobs (commit_event key p t es e l) = jl_max_jobs l"
  "jl_max_events (commit_event key p t es e l) = jl_max_events l"
  by (simp_all add: commit_event_def Let_def split: option.splits)

lemma commit_ok:
  assumes "job_inv l" and "slot (map_of (jl_events l)) ws job key" and "nul_free ws" and "nul_free job"
    and "je_workspace_id e = ws" and "je_job_id e = job"
    and "map_of (jl_events l) key \<noteq> None \<or> length (jl_events l) < jl_max_jobs l"
    and "history_ok (jl_max_events l) (trim_job_events (jl_max_events l) (es @ [e]))"
    and "key \<in> jl_terminal l \<Longrightarrow> je_status e \<in> terminal_statuses"
  shows "job_inv (commit_event key p t es e l)"
    "histories (commit_event key p t es e l) w j h \<longleftrightarrow>
       (if w = ws \<and> j = job then h = trim_job_events (jl_max_events l) (es @ [e]) else histories l w j h)"
proof -
  have "2 \<le> jl_max_events l" using assms(1) by (simp add: job_inv_def)
  note trim = trim_history [OF this, of "es @ [e]", simplified]
  have dist: "distinct (map fst (jl_events l))" using assms(1) by (simp add: job_inv_def)
  let ?l = "commit_event key p t es e l"
  have F: "map_of (jl_events ?l) = (map_of (jl_events l))(key \<mapsto> trim_job_events (jl_max_events l) (es @ [e]))"
    by (auto simp: commit_fields fun_eq_iff)
  have "entry_ok ?l key"
    using assms(8,9) trim(3) unfolding entry_ok_def F by (auto simp: commit_fields)
  from put_ok [OF assms(1-4) trim(1) _ _ assms(7) F _ _ _ _ _ this] assms(5,6) trim(3) dist
  show "job_inv ?l" "histories ?l w j h \<longleftrightarrow>
       (if w = ws \<and> j = job then h = trim_job_events (jl_max_events l) (es @ [e]) else histories l w j h)"
    by (simp_all add: commit_fields)
qed

text \<open>The effect of one event on the histories.\<close>

definition recheck_args :: "(string \<Rightarrow> string) \<Rightarrow> job_args \<Rightarrow> bool" where
  "recheck_args scrub a \<longleftrightarrow> is_recheck (job_data scrub (ja_data a)) \<and> ja_status a = ''completed''"

text \<open>What may happen to the history of the addressed job.\<close>

definition extends :: "nat \<Rightarrow> job_event list \<Rightarrow> job_event list \<Rightarrow> bool" where
  "extends n es es' \<longleftrightarrow> (\<exists>e. es' = trim_job_events n (es @ [e]) \<and> je_revision e = je_revision (last es) + 1) \<or>
     (\<exists>t d. es' = butlast es @ [throttled t d (last es)])"

lemma extends_throttle: "extends n es (butlast es @ [throttled t d (last es)])"
  by (auto simp: extends_def)

definition effect_on :: "(string \<Rightarrow> string) \<Rightarrow> job_args \<Rightarrow> job_log \<Rightarrow> job_log \<Rightarrow> bool" where
  "effect_on scrub a l l' \<longleftrightarrow> job_inv l' \<and> jl_max_jobs l' = jl_max_jobs l \<and> jl_max_events l' = jl_max_events l \<and>
     (\<forall>w j es. histories l w j es \<longrightarrow>
        histories l' w j es \<or>
        (w = ja_workspace_id a \<and> j = ja_job_id a \<and> (je_status (last es) \<in> terminal_statuses \<longrightarrow> recheck_args scrub a) \<and>
           (\<exists>es'. histories l' w j es' \<and> extends (jl_max_events l) es es')) \<or>
        ((w, j) \<noteq> (ja_workspace_id a, ja_job_id a) \<and> je_status (last es) \<in> terminal_statuses))"

lemma effect_refl: "job_inv l' \<Longrightarrow> histories l' = histories l \<Longrightarrow> jl_max_jobs l' = jl_max_jobs l \<Longrightarrow>
    jl_max_events l' = jl_max_events l \<Longrightarrow> effect_on scrub a l l'"
  by (simp add: effect_on_def)

lemma effect_onI:
  assumes "job_inv l'" and "jl_max_jobs l' = jl_max_jobs l" and "jl_max_events l' = jl_max_events l"
    and upd: "\<And>w j h. histories l' w j h \<longleftrightarrow> (if w = ja_workspace_id a \<and> j = ja_job_id a then h = es' else H w j h)"
    and other: "\<And>w j es. histories l w j es \<Longrightarrow> (w, j) \<noteq> (ja_workspace_id a, ja_job_id a) \<Longrightarrow>
       H w j es \<or> je_status (last es) \<in> terminal_statuses"
    and own: "\<And>es. histories l (ja_workspace_id a) (ja_job_id a) es \<Longrightarrow>
       (je_status (last es) \<in> terminal_statuses \<longrightarrow> recheck_args scrub a) \<and> extends (jl_max_events l) es es'"
  shows "effect_on scrub a l l'"
  unfolding effect_on_def
proof (intro conjI allI impI assms(1-3))
  fix w j es assume h: "histories l w j es"
  show "histories l' w j es \<or>
        (w = ja_workspace_id a \<and> j = ja_job_id a \<and> (je_status (last es) \<in> terminal_statuses \<longrightarrow> recheck_args scrub a) \<and>
           (\<exists>es'. histories l' w j es' \<and> extends (jl_max_events l) es es')) \<or>
        ((w, j) \<noteq> (ja_workspace_id a, ja_job_id a) \<and> je_status (last es) \<in> terminal_statuses)"
  proof (cases "w = ja_workspace_id a \<and> j = ja_job_id a")
    case True
    with h have "histories l (ja_workspace_id a) (ja_job_id a) es" by simp
    from own [OF this] True upd [of w j es'] show ?thesis by auto
  next
    case False
    with other [OF h] upd [of w j es] show ?thesis by auto
  qed
qed

lemma throttle_ok:
  assumes "job_inv l" and "map_of (jl_events l) key = Some es" and "slot (map_of (jl_events l)) ws job key"
    and "nul_free ws" and "nul_free job" and "jl_events l' = od_set key (butlast es @ [throttled t d (last es)]) (jl_events l)"
    and "jl_max_jobs l' = jl_max_jobs l" and "jl_max_events l' = jl_max_events l"
    and "jl_next_revision l' = jl_next_revision l" and "jl_terminal l' = jl_terminal l"
  shows "job_inv l'"
    "histories l' w j h \<longleftrightarrow> (if w = ws \<and> j = job then h = butlast es @ [throttled t d (last es)] else histories l w j h)"
proof -
  note i = job_invD [OF assms(1)]
  have F: "map_of (jl_events l') = (map_of (jl_events l))(key \<mapsto> butlast es @ [throttled t d (last es)])"
    by (auto simp: assms(6) fun_eq_iff)
  have keep: "je_revision (throttled t d x) = je_revision x" "je_status (throttled t d x) = je_status x"
      "je_workspace_id (throttled t d x) = je_workspace_id x" "je_job_id (throttled t d x) = je_job_id x" for x
    by (simp_all add: throttled_def)
  have "entry_ok l' key"
    using i(5) [of key] assms(2) history_ok_throttle unfolding entry_ok_def F assms(8-10) by (simp add: keep)
  moreover have "hist_ws es = ws" "hist_job es = job" using assms(2,3) by (simp_all add: slot_def)
  ultimately show "job_inv l'"
    "histories l' w j h \<longleftrightarrow> (if w = ws \<and> j = job then h = butlast es @ [throttled t d (last es)] else histories l w j h)"
    using put_ok [OF assms(1,3-5) _ _ _ _ F] i(1) assms(2,6-10) by (simp_all add: keep)
qed

definition args_ok :: "job_args \<Rightarrow> bool" where
  "args_ok a \<longleftrightarrow> nul_free (ja_workspace_id a) \<and> nul_free (ja_job_id a)"

lemma transition_cases:
  "transition_of a t data lp p = Throttle d \<Longrightarrow> je_status p = ''progress''"
  "transition_of a t data lp p = Accept d \<Longrightarrow>
     (je_status p \<in> terminal_statuses \<longrightarrow> is_recheck data \<and> ja_status a = ''completed'') \<and> same_identity a p"
  by (auto simp: transition_of_def Let_def split: if_splits)

lemma append_existing_effect:
  assumes inv: "job_inv l" and args: "args_ok a" and F: "map_of (jl_events l) key = Some es"
    and slot: "slot (map_of (jl_events l)) (ja_workspace_id a) (ja_job_id a) key"
  shows "effect_on scrub a l (snd (append_existing a key pkey t (job_data scrub (ja_data a)) ty es l))"
proof -
  note i = job_invD [OF inv]
  have names: "nul_free (ja_workspace_id a)" "nul_free (ja_job_id a)" using args by (simp_all add: args_ok_def)
  have own: "histories l w j h \<and> w = ja_workspace_id a \<and> j = ja_job_id a \<longrightarrow> h = es" for w j h
    using slot_history [OF i(4) slot, of h] F by auto
  have entry: "history_ok (jl_max_events l) es" "jl_next_revision l key = Some (je_revision (last es) + 1)"
      "key \<in> jl_terminal l \<longleftrightarrow> je_status (last es) \<in> terminal_statuses"
    using i(5) [of key] F by (simp_all add: entry_ok_def)
  have id: "hist_ws es = ja_workspace_id a" "hist_job es = ja_job_id a" "stored_names (last es)" "es \<noteq> []"
    using slot F entry(1) by (simp_all add: slot_def history_ok_def)
  show ?thesis
  proof (cases "transition_of a t (job_data scrub (ja_data a)) (jl_last_progress l key) (last es)")
    case (Refuse e)
    with inv show ?thesis by (simp add: append_existing_def effect_refl)
  next
    case (Throttle d)
    let ?l = "snd (append_existing a key pkey t (job_data scrub (ja_data a)) ty es l)"
    have l': "jl_events ?l = od_set key (butlast es @ [throttled t d (last es)]) (jl_events l)"
        "jl_max_jobs ?l = jl_max_jobs l" "jl_max_events ?l = jl_max_events l"
        "jl_next_revision ?l = jl_next_revision l" "jl_terminal ?l = jl_terminal l"
      using Throttle by (simp_all add: append_existing_def Let_def split: option.splits)
    note ok = throttle_ok [OF inv F slot names l'(1,2,3,4,5)]
    have "je_status (last es) \<notin> terminal_statuses"
      using transition_cases(1) [OF Throttle] by (simp add: terminal_statuses_def)
    then show ?thesis
      using ok own l'(2,3) extends_throttle by (intro effect_onI [where H = "histories l"]) auto
  next
    case (Accept d)
    let ?e = "build_event a ty (je_revision (last es) + 1) t d"
    have l': "snd (append_existing a key pkey t (job_data scrub (ja_data a)) ty es l) = commit_event key pkey t es ?e l"
      using Accept entry(2) by (simp add: append_existing_def Let_def)
    note tr = transition_cases(2) [OF Accept]
    have same: "same_job (last es) ?e" using identity_kept tr id(2,3) by blast
    have hist: "history_ok (jl_max_events l) (trim_job_events (jl_max_events l) (es @ [?e]))"
      using history_ok_extend [OF entry(1) i(3) same] by simp
    have over: "key \<in> jl_terminal l \<Longrightarrow> je_status ?e \<in> terminal_statuses"
      using entry(3) tr by (auto simp: terminal_statuses_def)
    note ok = commit_ok [OF inv slot names _ _ _ hist over, of pkey t]
    have "je_status (last es) \<in> terminal_statuses \<longrightarrow> recheck_args scrub a"
      using tr by (simp add: recheck_args_def)
    moreover have "extends (jl_max_events l) es (trim_job_events (jl_max_events l) (es @ [?e]))"
      unfolding extends_def by (intro disjI1 exI [of _ ?e]) simp
    ultimately show ?thesis
      unfolding l' using ok own F
      by (intro effect_onI [where H = "histories l"]) (auto simp: commit_fields(4,5) simp del: build_event_fields(5))
  qed
qed

lemma append_first_effect:
  assumes inv: "job_inv l" and args: "args_ok a" and F: "map_of (jl_events l) key = None"
    and slot: "slot (map_of (jl_events l)) (ja_workspace_id a) (ja_job_id a) key"
  shows "effect_on scrub a l (snd (append_first a key pkey t data ty l))"
proof -
  note i = job_invD [OF inv]
  have names: "nul_free (ja_workspace_id a)" "nul_free (ja_job_id a)" using args by (simp_all add: args_ok_def)
  have none: "\<not> histories l (ja_workspace_id a) (ja_job_id a) es" for es
    using slot_history [OF i(4) slot, of es] F by simp
  obtain ok l1 where ev: "evict_terminal_job l = (ok, l1)" by fastforce
  have step: "effect_on scrub a l (commit_event key pkey t [] (build_event a ty 1 t data) l1)"
    if "job_inv l1" "length (jl_events l1) < jl_max_jobs l1" "map_of (jl_events l1) key = None"
      "slot (map_of (jl_events l1)) (ja_workspace_id a) (ja_job_id a) key" "jl_max_jobs l1 = jl_max_jobs l"
      "jl_max_events l1 = jl_max_events l"
      "\<And>w j es. histories l w j es \<Longrightarrow> histories l1 w j es \<or> je_status (last es) \<in> terminal_statuses"
  proof -
    have "key \<notin> jl_terminal l1" using job_invD(5) [OF that(1), of key] that(3) by (simp add: entry_ok_def)
    moreover have "history_ok (jl_max_events l1) (trim_job_events (jl_max_events l1) ([] @ [build_event a ty 1 t data]))"
      using history_ok_first [OF job_invD(3) [OF that(1)]] by simp
    ultimately have "job_inv (commit_event key pkey t [] (build_event a ty 1 t data) l1)"
      "\<And>w j h. histories (commit_event key pkey t [] (build_event a ty 1 t data) l1) w j h \<longleftrightarrow>
        (if w = ja_workspace_id a \<and> j = ja_job_id a
         then h = trim_job_events (jl_max_events l1) ([] @ [build_event a ty 1 t data]) else histories l1 w j h)"
      using commit_ok [OF that(1,4) names, of "build_event a ty 1 t data" "[]" pkey t] that(2) by simp_all
    then show ?thesis
      using that(5-7) none by (intro effect_onI [where H = "histories l1"]) (auto simp: commit_fields(4,5))
  qed
  have rev: "jl_next_revision l1 key = None" if "job_inv l1" "map_of (jl_events l1) key = None"
    using job_invD(5) [OF that(1), of key] that(2) by (simp add: entry_ok_def)
  show ?thesis
  proof (cases rule: evict_job_cases [OF inv ev, case_names room full evict])
    case room
    with step inv F slot rev ev show ?thesis by (simp add: append_first_def Let_def)
  next
    case full
    with ev inv show ?thesis by (simp add: append_first_def effect_refl)
  next
    case (evict k es)
    note pop = pop_ok [OF inv evict(2,4-8)]
    have F1: "map_of (jl_events l1) = (map_of (jl_events l))(k := None)" by (auto simp: evict(4) fun_eq_iff)
    have kept: "histories l1 w j h \<or> je_status (last h) \<in> terminal_statuses" if "histories l w j h" for w j h
    proof -
      obtain x where x: "map_of (jl_events l) x = Some h" "hist_ws h = w" "hist_job h = j"
        using \<open>histories l w j h\<close> by (auto simp: job_history_def)
      show ?thesis
      proof (cases "x = k")
        case True
        with x(1) evict(2,3) show ?thesis by simp
      next
        case False
        with x have "map_of (jl_events l1) x = Some h" by (simp add: F1)
        with x(2,3) show ?thesis unfolding job_history_def by blast
      qed
    qed
    have "map_of (jl_events l1) key = None" using F by (simp add: F1)
    moreover have "slot (map_of (jl_events l1)) (ja_workspace_id a) (ja_job_id a) key"
      unfolding F1 using slot F by (rule slot_pop)
    ultimately have "effect_on scrub a l (commit_event key pkey t [] (build_event a ty 1 t data) l1)"
      using pop evict(7,8) kept by (intro step) auto
    with ev evict(1) rev pop \<open>map_of (jl_events l1) key = None\<close> show ?thesis by (simp add: append_first_def Let_def)
  qed
qed

lemma effect_after_key:
  assumes "effect_on scrub a l1 l'" and "histories l1 = histories l" and "jl_max_jobs l1 = jl_max_jobs l"
    and "jl_max_events l1 = jl_max_events l"
  shows "effect_on scrub a l l'"
  using assms by (simp add: effect_on_def)

lemma job_append_effect:
  assumes inv: "job_inv l" and args: "args_ok a"
  shows "effect_on scrub a l (snd (job_append scrub a l))"
proof (cases "event_time (ja_timestamp a)")
  case None
  with inv show ?thesis by (simp add: job_append_def effect_refl)
next
  case (Some t)
  obtain key l1 where sk: "storage_key (ja_workspace_id a) (ja_job_id a) l = (key, l1)" by fastforce
  note ok = storage_key_ok [OF inv _ _ sk]
  have names: "nul_free (ja_workspace_id a)" "nul_free (ja_job_id a)" using args by (simp_all add: args_ok_def)
  note ok = ok [OF names]
  have idle: "effect_on scrub a l l1" using ok by (intro effect_refl) auto
  let ?pkey = "projection_key_of a"
  show ?thesis
  proof (cases "case ?pkey of None \<Rightarrow> None | Some k \<Rightarrow> jl_projections l1 k")
    case (Some e)
    with \<open>event_time (ja_timestamp a) = Some t\<close> sk idle show ?thesis
      by (auto simp: job_append_def Let_def split: option.splits)
  next
    case fresh: None
    show ?thesis
    proof (cases "map_of event_types (ja_status a)")
      case None
      with \<open>event_time (ja_timestamp a) = Some t\<close> sk idle fresh show ?thesis
        by (auto simp: job_append_def Let_def)
    next
      case ty: (Some ty)
      show ?thesis
      proof (cases "map_of (jl_events l1) key")
        case None
        then have "snd (job_append scrub a l) = snd (append_first a key ?pkey t (job_data scrub (ja_data a)) ty l1)"
          using \<open>event_time (ja_timestamp a) = Some t\<close> sk fresh ty by (simp add: job_append_def Let_def)
        then show ?thesis
          using append_first_effect [OF ok(1) args None ok(3)] ok(2,4,5) by (simp add: effect_after_key [of scrub a l1])
      next
        case (Some es)
        then obtain x xs where es: "es = x # xs" using keyedD(1) [OF job_invD(4) [OF ok(1)] Some] by (cases es) auto
        then have "snd (job_append scrub a l) = snd (append_existing a key ?pkey t (job_data scrub (ja_data a)) ty es l1)"
          using Some \<open>event_time (ja_timestamp a) = Some t\<close> sk fresh ty by (simp add: job_append_def Let_def)
        then show ?thesis
          using append_existing_effect [OF ok(1) args Some ok(3)] ok(2,4,5) by (simp add: effect_after_key [of scrub a l1])
      qed
    qed
  qed
qed

section \<open>Runs\<close>

definition job_run :: "(string \<Rightarrow> string) \<Rightarrow> job_args list \<Rightarrow> job_log \<Rightarrow> job_log" where
  "job_run scrub offered l = fold (\<lambda>a l. snd (job_append scrub a l)) offered l"

lemma new_job_log_inv: "job_inv (new_job_log jobs events p)"
  by (auto simp: job_inv_def new_job_log_def keyed_def entry_ok_def)

lemma job_run_ok:
  assumes "job_inv l" and "list_all args_ok offered"
  shows "job_inv (job_run scrub offered l) \<and> jl_max_jobs (job_run scrub offered l) = jl_max_jobs l \<and>
    jl_max_events (job_run scrub offered l) = jl_max_events l"
  using assms
proof (induction offered arbitrary: l)
  case Nil
  then show ?case by (simp add: job_run_def)
next
  case (Cons a offered)
  then have "effect_on scrub a l (snd (job_append scrub a l))" by (simp add: job_append_effect)
  with Cons.IH [of "snd (job_append scrub a l)"] Cons.prems show ?case
    by (simp add: job_run_def effect_on_def)
qed

interpretation job_events: guarded_machine "\<lambda>a l. if args_ok a then snd (job_append scrub a l) else l" job_inv for scrub
  using job_append_effect by unfold_locales (auto simp: effect_on_def)

section \<open>Repeated projections\<close>

lemma pop_expired_last:
  assumes "1 \<le> n" and "\<forall>x\<in>set ks. fst x \<noteq> k"
  shows "snd (pop_expired n (ks @ [(k, ())]) m) k = m k"
  using assms by (induction ks arbitrary: m) auto

lemma remembered:
  assumes "1 \<le> jl_max_events l"
  shows "jl_projections (remember_projection key k e l) k = Some e"
proof -
  have "od_to_end k (od_set k () ks) = od_pop k (od_set k () ks) @ [(k, ())]" for ks :: "(string \<times> unit) list"
    by (simp add: od_to_end_def)
  moreover have "\<forall>x\<in>set (od_pop k d). fst x \<noteq> k" for d :: "(string \<times> unit) list" by (simp add: od_pop_def)
  ultimately show ?thesis
    using pop_expired_last [OF assms] by (simp add: remember_projection_def Let_def split: prod.splits)
       (metis fun_upd_same snd_conv)
qed

lemma commit_remembers:
  "1 \<le> jl_max_events l \<Longrightarrow> jl_projections (commit_event key (Some k) t es e l) k = Some e"
  by (simp add: commit_event_def Let_def remembered)

lemma evict_max_events: "jl_max_events (snd (evict_terminal_job l)) = jl_max_events l"
  by (simp add: evict_terminal_job_def split: option.splits)

lemma storage_key_fields:
  "jl_max_events (snd (storage_key ws job l)) = jl_max_events l"
  "jl_projections (snd (storage_key ws job l)) = jl_projections l"
  "jl_presentation (snd (storage_key ws job l)) = jl_presentation l"
  by (auto simp: storage_key_def move_direct_def Let_def split: option.splits)

lemma accepted_is_remembered:
  assumes "job_append scrub a l = (Inr (e, dup), l')" and "projection_key_of a = Some k" and "1 \<le> jl_max_events l"
  shows "jl_projections l' k = Some e"
proof -
  obtain key l1 where sk: "storage_key (ja_workspace_id a) (ja_job_id a) l = (key, l1)" by fastforce
  have "1 \<le> jl_max_events l1" using assms(3) storage_key_fields(1) [of "ja_workspace_id a" "ja_job_id a" l] sk by simp
  moreover have "1 \<le> jl_max_events (snd (evict_terminal_job l1))" using calculation by (simp add: evict_max_events)
  ultimately show ?thesis
    using assms(1,2) sk
    by (auto simp: job_append_def append_first_def append_existing_def Let_def commit_remembers remembered
        split: option.splits list.splits transition.splits prod.splits if_splits)
qed

section \<open>The presentation log beside the job log\<close>

definition blind :: "job_log \<Rightarrow> job_log" where
  "blind l = l\<lparr>jl_presentation := None\<rparr>"

lemma blind_fields [simp]:
  "jl_events (blind l) = jl_events l" "jl_terminal (blind l) = jl_terminal l"
  "jl_next_revision (blind l) = jl_next_revision l" "jl_last_progress (blind l) = jl_last_progress l"
  "jl_projections (blind l) = jl_projections l" "jl_projection_keys (blind l) = jl_projection_keys l"
  "jl_max_jobs (blind l) = jl_max_jobs l" "jl_max_events (blind l) = jl_max_events l" "blind (blind l) = blind l"
  by (simp_all add: blind_def)

lemma blind_move: "move_direct job d (blind l) = blind (move_direct job d l)"
  by (simp add: move_direct_def blind_def Let_def)

lemma blind_remember: "remember_projection k p e (blind l) = blind (remember_projection k p e l)"
  by (simp add: remember_projection_def blind_def Let_def split: prod.splits)

lemma blind_commit: "blind (commit_event key p t es e (blind l)) = blind (commit_event key p t es e l)"
  by (cases p) (simp_all add: commit_event_def Let_def blind_remember [symmetric], simp_all add: blind_def)

lemma blind_storage: "storage_key ws job (blind l) = map_prod id blind (storage_key ws job l)"
  by (auto simp: storage_key_def job_entries_def blind_move split: option.splits) (simp add: blind_def)

lemma blind_evict: "evict_terminal_job (blind l) = map_prod id blind (evict_terminal_job l)"
  by (auto simp: evict_terminal_job_def blind_def split: option.splits)

lemma blind_first:
  "map_prod id blind (append_first a key p t d ty (blind l)) = map_prod id blind (append_first a key p t d ty l)"
  by (simp add: append_first_def blind_evict blind_commit Let_def split: prod.splits)

lemma blind_existing:
  "map_prod id blind (append_existing a key p t d ty es (blind l)) = map_prod id blind (append_existing a key p t d ty es l)"
  by (simp add: append_existing_def blind_commit Let_def split: transition.splits option.splits)
     (simp add: blind_def remember_projection_def Let_def split: prod.splits)

lemma blind_append: "map_prod id blind (job_append scrub a (blind l)) = map_prod id blind (job_append scrub a l)"
  by (auto simp: job_append_def blind_storage blind_first blind_existing blind_commit Let_def
      split: prod.splits option.splits list.splits)

text \<open>A progress event that is throttled is merged before the identities are compared.\<close>

lemma throttled_skips_identity:
  assumes "je_status p = ''progress''" and "ja_status a = ''progress''" and "t - u < 1/10" and "\<not> is_recheck data"
  shows "transition_of a t data (Some u) p = Throttle data"
  using assms by (simp add: transition_of_def terminal_statuses_def)

section \<open>Properties of the job log\<close>

text \<open>C19. The job log stays consistent: whatever events are offered in whatever order, every stored history
  is about one job of one workspace (its whole identity never changes), has strictly growing
  revisions and at most the configured number of events, there are never more jobs than the
  configured number, no job of a workspace is stored twice although storage keys change shape, and
  a job is marked as finished exactly if its last event is terminal.\<close>

theorem job_log_consistent:
  assumes "l = job_run scrub offered (new_job_log jobs events p)" and "list_all args_ok offered"
    and "map_of (jl_events l) k = Some es"
  shows "es \<noteq> [] \<and> length es \<le> nat (max 2 events) \<and> sorted_wrt (<) (map je_revision es) \<and>
    (\<forall>x\<in>set es. same_job x (last es)) \<and> length (jl_events l) \<le> nat (max 1 jobs) \<and>
    (k \<in> jl_terminal l \<longleftrightarrow> je_status (last es) \<in> terminal_statuses) \<and>
    (\<forall>k' es'. map_of (jl_events l) k' = Some es' \<and> hist_job es' = hist_job es \<and> hist_ws es' = hist_ws es \<longrightarrow> k' = k)"
proof -
  have ok: "job_inv l" "jl_max_jobs l = nat (max 1 jobs)" "jl_max_events l = nat (max 2 events)"
    using job_run_ok [OF new_job_log_inv assms(2)] assms(1) by (simp_all add: new_job_log_def)
  have "entry_ok l k" using job_invD(5) [OF ok(1)] .
  then have "history_ok (nat (max 2 events)) es" "k \<in> jl_terminal l \<longleftrightarrow> je_status (last es) \<in> terminal_statuses"
    using assms(3) ok(3) by (simp_all add: entry_ok_def)
  moreover have "k' = k" if "map_of (jl_events l) k' = Some es'" "hist_job es' = hist_job es" "hist_ws es' = hist_ws es"
    for k' es'
    using keyed_unique [OF job_invD(4) [OF ok(1)] that(1) assms(3)] that by auto
  ultimately show ?thesis
    using job_invD(2) [OF ok(1)] ok(2) unfolding history_ok_def by auto
qed

definition sample_args :: "string \<Rightarrow> string \<Rightarrow> string \<Rightarrow> job_args" where
  "sample_args ws job status = \<lparr>ja_workspace_id = ws, ja_session_id = [], ja_turn_id = [], ja_job_id = job,
     ja_conversation_id = None, ja_operation_id = None, ja_step_index = None, ja_run_id = None,
     ja_request_id = [], ja_interruption_epoch = 0, ja_source = ''agent'', ja_timestamp = Fin 0,
     ja_status = status, ja_data = None, ja_idempotency_key = None\<rparr>"

definition sample_log :: "job_log" where
  "sample_log = job_run id [sample_args ''a'' ''j'' ''running'', sample_args ''b'' ''j'' ''completed''] (new_job_log 4 8 None)"

lemma sample_log_keys:
  "map fst (jl_events sample_log) = [scope_key ''a'' ''j'', scope_key ''b'' ''j'']"
  by (simp add: sample_log_def job_run_def sample_args_def new_job_log_def job_append_def event_time_def
      projection_key_of_def text_or_empty_def storage_key_def job_entries_def move_direct_def event_types_def append_first_def
      evict_terminal_job_def commit_event_def trim_job_events_def od_set_def od_to_end_def od_pop_def build_event_def
      job_data_def py_strip_def scope_key_def Let_def)

lemma sample_args_ok:
  "list_all args_ok [sample_args ''a'' ''j'' ''running'', sample_args ''b'' ''j'' ''completed'']"
  "args_ok (sample_args ''a'' ''j'' ''progress'')"
  by (simp_all add: args_ok_def sample_args_def nul_free_def)

lemma sample_log_entry: "\<exists>es. map_of (jl_events sample_log) (scope_key ''b'' ''j'') = Some es"
proof -
  have "scope_key ''b'' ''j'' \<in> set (map fst (jl_events sample_log))" unfolding sample_log_keys by simp
  then show ?thesis by (metis list.set_map map_of_eq_None_iff not_None_eq)
qed

theorem job_log_consistent_witness:
  "\<exists>es. map_of (jl_events sample_log) (scope_key ''b'' ''j'') = Some es \<and> es \<noteq> [] \<and> length es \<le> 8 \<and>
     length (jl_events sample_log) \<le> 4"
proof -
  obtain es where es: "map_of (jl_events sample_log) (scope_key ''b'' ''j'') = Some es" using sample_log_entry by blast
  from job_log_consistent [OF sample_log_def sample_args_ok(1) es] es show ?thesis by auto
qed

text \<open>C20. Events of one job never touch another: offering an event to a reachable log leaves every history of
  every job as it is, except that the addressed job of the addressed workspace is extended (or its
  last progress event refreshed), after its end only by a recheck that completes it again, and that
  a finished job may be evicted. An active job is never lost.\<close>

theorem job_log_isolates_jobs:
  assumes "l = job_run scrub offered (new_job_log jobs events p)" and "list_all args_ok offered" and "args_ok a"
    and "histories l w j es"
  shows "histories (snd (job_append scrub a l)) w j es \<or>
    ((w, j) = (ja_workspace_id a, ja_job_id a) \<and>
       (je_status (last es) \<in> terminal_statuses \<longrightarrow> recheck_args scrub a) \<and>
       (\<exists>es'. histories (snd (job_append scrub a l)) w j es' \<and> extends (nat (max 2 events)) es es')) \<or>
    ((w, j) \<noteq> (ja_workspace_id a, ja_job_id a) \<and> je_status (last es) \<in> terminal_statuses)"
proof -
  have "job_inv l" "jl_max_events l = nat (max 2 events)"
    using job_run_ok [OF new_job_log_inv assms(2)] assms(1) by (simp_all add: new_job_log_def)
  with job_append_effect [of l a scrub] assms(3,4) show ?thesis unfolding effect_on_def by auto
qed

theorem job_log_isolates_jobs_witness:
  "\<exists>w j es. histories sample_log w j es \<and> (w, j) \<noteq> (''a'', ''j'') \<and>
     (histories (snd (job_append id (sample_args ''a'' ''j'' ''progress'') sample_log)) w j es \<or>
      je_status (last es) \<in> terminal_statuses)"
proof -
  obtain es where es: "map_of (jl_events sample_log) (scope_key ''b'' ''j'') = Some es" using sample_log_entry by blast
  have inv: "job_inv sample_log" using job_run_ok [OF new_job_log_inv sample_args_ok(1)] by (simp add: sample_log_def)
  note key = keyedD [OF job_invD(4) [OF inv] es]
  have "nul_free ''b''" by (simp add: nul_free_def)
  with key have "hist_ws es = ''b''" by (metis scope_key_inj scope_key_nul)
  then have hist: "histories sample_log ''b'' (hist_job es) es" using es by (auto simp: job_history_def)
  from job_log_isolates_jobs [OF sample_log_def sample_args_ok hist] hist show ?thesis
    by (auto simp: sample_args_def)
qed

text \<open>The presentation log never affects the job log: whatever presentation log is attached, an offered
  event has the same result and leaves the same histories, marks, revisions and remembered keys; in
  particular a presentation event that is refused never makes the job event fail.\<close>

theorem presentation_never_affects_jobs:
  "fst (job_append scrub a (l\<lparr>jl_presentation := p\<rparr>)) = fst (job_append scrub a l) \<and>
   (snd (job_append scrub a (l\<lparr>jl_presentation := p\<rparr>)))\<lparr>jl_presentation := q\<rparr> =
     (snd (job_append scrub a l))\<lparr>jl_presentation := q\<rparr>"
proof -
  have "blind (l\<lparr>jl_presentation := p\<rparr>) = blind l" by (simp add: blind_def)
  with blind_append [of scrub a "l\<lparr>jl_presentation := p\<rparr>"] blind_append [of scrub a l]
  have "map_prod id blind (job_append scrub a (l\<lparr>jl_presentation := p\<rparr>)) = map_prod id blind (job_append scrub a l)"
    by simp
  then have "fst (job_append scrub a (l\<lparr>jl_presentation := p\<rparr>)) = fst (job_append scrub a l)"
      "blind (snd (job_append scrub a (l\<lparr>jl_presentation := p\<rparr>))) = blind (snd (job_append scrub a l))"
    by (metis fst_map_prod id_apply, metis snd_map_prod)
  moreover have "x\<lparr>jl_presentation := q\<rparr> = (blind x)\<lparr>jl_presentation := q\<rparr>" for x
    by (simp add: blind_def)
  ultimately show ?thesis by metis
qed

text \<open>Repeated job events are absorbed: after an event with an idempotency key was accepted, any event with
  the same key and a finite timestamp is answered with the recorded event and the mark of a
  duplicate, and no history changes.\<close>

theorem repeated_key_is_absorbed:
  assumes "l = job_run scrub offered (new_job_log jobs events p)" and "list_all args_ok offered" and "args_ok a" and "args_ok b"
    and "job_append scrub a l = (Inr (e, dup), l')" and "projection_key_of a = Some k" and "projection_key_of b = Some k"
    and "event_time (ja_timestamp b) = Some t"
  shows "fst (job_append scrub b l') = Inr (e, True) \<and> histories (snd (job_append scrub b l')) = histories l'"
proof -
  have "job_inv l" using job_run_ok [OF new_job_log_inv assms(2)] assms(1) by simp
  then have inv: "job_inv l'" "1 \<le> jl_max_events l"
    using job_append_effect [of l a scrub] assms(3,5) job_invD(3) [of l] by (simp_all add: effect_on_def)
  have found: "jl_projections l' k = Some e" using accepted_is_remembered [OF assms(5,6) inv(2)] .
  obtain key l2 where sk: "storage_key (ja_workspace_id b) (ja_job_id b) l' = (key, l2)" by fastforce
  have "histories l2 = histories l'" "jl_projections l2 = jl_projections l'"
    using storage_key_ok [OF inv(1) _ _ sk] assms(4) by (simp_all add: args_ok_def)
  with found sk assms(7,8) show ?thesis by (simp add: job_append_def)
qed

definition keyed_args :: "job_args" where
  "keyed_args = (sample_args ''a'' ''j'' ''running'')\<lparr>ja_idempotency_key := Some ''k''\<rparr>"

lemma keyed_args_facts:
  "args_ok keyed_args" "projection_key_of keyed_args = Some ''k''" "event_time (ja_timestamp keyed_args) = Some 0"
  by (simp_all add: keyed_args_def sample_args_def args_ok_def nul_free_def projection_key_of_def text_or_empty_def
      py_strip_def py_isspace_def event_time_def)

theorem repeated_key_is_absorbed_witness:
  "\<exists>e l'. job_append id keyed_args (new_job_log 4 8 None) = (Inr (e, False), l') \<and>
     fst (job_append id keyed_args l') = Inr (e, True)"
proof -
  have "ja_status keyed_args = ''running''" by (simp add: keyed_args_def sample_args_def)
  then have "\<exists>e l'. job_append id keyed_args (new_job_log 4 8 None) = (Inr (e, False), l')"
    by (simp add: job_append_def keyed_args_facts storage_key_def job_entries_def new_job_log_def
      event_types_def append_first_def evict_terminal_job_def Let_def)
  then obtain e l' where first: "job_append id keyed_args (new_job_log 4 8 None) = (Inr (e, False), l')" by blast
  have run: "new_job_log 4 8 None = job_run id [] (new_job_log 4 8 None)" by (simp add: job_run_def)
  from repeated_key_is_absorbed [OF run _ keyed_args_facts(1) keyed_args_facts(1) first keyed_args_facts(2,2,3)] first
  show ?thesis by auto
qed

end
