(* ===== verification/Policy_Runs.thy ===== *)
theory Policy_Runs
  imports Policy_Engine
begin

text \<open>
  The policy engine under any sequence of operations: when a call is allowed without asking, who
  answers a waiting request and how often, what a failed save leaves behind, and that a restart
  finds the decisions and the audit log again.
\<close>

section \<open>Commands\<close>

datatype policy_cmd =
    Evaluate string bool fresh_ids tool_definition "string option" "string option" json bool
  | Register string
  | Discard string
  | CancelRequest string
  | AbandonFuture nat
  | Resolve string bool string bool bool "string option" "string option"
  | Revoke string bool "string option" "string option"
  | ClearAll string bool

primrec exec_policy :: "(string \<Rightarrow> string \<times> bool) \<Rightarrow> policy_cmd \<Rightarrow> policy_engine \<Rightarrow> policy_engine" where
  "exec_policy url (Evaluate now disk ids t request scope parameters force) e =
     snd (evaluate_tool url now disk ids t request scope parameters force e)"
| "exec_policy url (Register request) e = snd (register_pending request e)"
| "exec_policy url (Discard request) e = discard_permission request e"
| "exec_policy url (CancelRequest request) e = snd (cancel_pending request e)"
| "exec_policy url (AbandonFuture f) e = abandon f e"
| "exec_policy url (Resolve now disk request allowed remember tool scope) e =
     snd (resolve_pending now disk request allowed remember tool scope e)"
| "exec_policy url (Revoke now disk tool scope) e = snd (revoke now disk tool scope e)"
| "exec_policy url (ClearAll now disk) e = snd (clear_remembered now disk e)"

definition policy_run :: "(string \<Rightarrow> string \<times> bool) \<Rightarrow> policy_cmd list \<Rightarrow> policy_engine \<Rightarrow> policy_engine" where
  "policy_run url cs e = fold (exec_policy url) cs e"

section \<open>Effects of the operations\<close>

lemma append_audit_fields [simp]:
  "pg_pending (snd (append_audit disk a e)) = pg_pending e" "pg_futures (snd (append_audit disk a e)) = pg_futures e"
  "pg_next_future (snd (append_audit disk a e)) = pg_next_future e"
  "pg_metadata (snd (append_audit disk a e)) = pg_metadata e"
  "pg_remembered (snd (append_audit disk a e)) = pg_remembered e"
  "fst (append_audit disk a e) = (if disk then None else Some SaveFailed)"
  by (simp_all add: append_audit_def save_store_def)

lemma append_audit_pair: "append_audit disk a e = (if disk then None else Some SaveFailed, snd (append_audit disk a e))"
  by (metis append_audit_fields(6) prod.collapse)

lemma audit_result:
  "(let (err, e') = append_audit disk a e in (case err of Some x \<Rightarrow> Inl x | None \<Rightarrow> Inr v, e')) =
     (if disk then Inr v else Inl SaveFailed, snd (append_audit disk a e))"
  by (subst append_audit_pair) simp

lemma audited_eq:
  "audited disk a d e = (if disk then Inr d else Inl SaveFailed, snd (append_audit disk a e))"
  unfolding audited_def by (rule audit_result)

lemma resolve_eq:
  "resolve_pending now disk request allowed remember tool scope e =
     (case open_future request e of
        None \<Rightarrow> (Inr False, e)
      | Some f \<Rightarrow> if disk then (Inr True, set_answer f (Answered allowed) (drop_pending request (snd (append_audit True
            (answer_audit now request allowed remember tool scope e) (remember_decision allowed remember tool scope e)))))
          else (Inl SaveFailed, e))"
  unfolding resolve_pending_def
  by (subst append_audit_pair)
     (auto simp: append_audit_def save_store_def remember_decision_def split: option.splits)

lemma revoke_cases:
  obtains (none) "revoke now disk tool scope e = (Inr False, e)"
    | (revoked) key a where "revoke now disk tool scope e = (if disk then Inr True else Inl SaveFailed,
        snd (append_audit disk a (e\<lparr>pg_remembered := od_pop key (pg_remembered e)\<rparr>)))"
proof -
  let ?raw = "py_strip (text_or_empty tool)"
  let ?direct = "scope = None \<and> sublist ''::'' ?raw \<and> map_of (pg_remembered e) ?raw \<noteq> None"
  let ?key = "if ?direct then ?raw else build_scope_key ?raw scope"
  let ?a = "(new_audit now ''revoked'')
     \<lparr>au_tool_name := (if ?direct then Some (fst (split_scope ?raw)) else if ?raw = [] then None else Some ?raw),
      au_remember_scope := Some (if ?direct then snd (split_scope ?raw) else scope_of scope)\<rparr>"
  have "revoke now disk tool scope e = (if ?key = [] \<or> map_of (pg_remembered e) ?key = None then (Inr False, e)
      else (if disk then Inr True else Inl SaveFailed,
        snd (append_audit disk ?a (e\<lparr>pg_remembered := od_pop ?key (pg_remembered e)\<rparr>))))"
    unfolding revoke_def Let_def [of "py_strip _"] Let_def [of "_ = None \<and> _"] Let_def [of "if _ then _ else _"] audit_result
    by (rule refl)
  then show ?thesis
    by (cases "?key = [] \<or> map_of (pg_remembered e) ?key = None") (simp only: if_True none, simp only: if_False, rule revoked)
qed

lemma clear_eq:
  "clear_remembered now disk e = (if disk then Inr (length (pg_remembered e)) else Inl SaveFailed,
     snd (append_audit disk (new_audit now ''cleared'') (e\<lparr>pg_remembered := []\<rparr>)))"
  unfolding clear_remembered_def Let_def [of "length _"] by (rule audit_result)

section \<open>Decisions\<close>

lemma preview_shape:
  "pd_reason (preview_tool t scope force e) = ReasonRemembered \<Longrightarrow> \<not> pd_require_confirm (preview_tool t scope force e)"
  "pd_require_confirm (preview_tool t scope force e) \<Longrightarrow> \<not> pd_allowed (preview_tool t scope force e)"
  "\<not> force \<Longrightarrow> is_selected_external_tool t \<Longrightarrow> preview_tool t scope force e = plain_decision True ReasonOk False"
proof -
  show "\<not> force \<Longrightarrow> is_selected_external_tool t \<Longrightarrow> preview_tool t scope force e = plain_decision True ReasonOk False"
    by (simp add: preview_tool_def)
  have fields: "pd_allowed (plain_decision a r c) = a" "pd_reason (plain_decision a r c) = r"
      "pd_require_confirm (plain_decision a r c) = c" for a r c by (simp_all add: plain_decision_def)
  define m where "m = map_of (pg_remembered e) (build_scope_key (td_name t) scope)"
  define high where "high \<longleftrightarrow> td_risk_level t \<in> {''high'', ''critical''}"
  have eq: "preview_tool t scope force e =
     (if \<not> force \<and> is_selected_external_tool t then plain_decision True ReasonOk False
      else case (if m = Some True \<and> (\<not> td_allow_remembered_decision t \<or> high) then None else m) of
              Some b \<Rightarrow> if \<not> force \<or> \<not> b then plain_decision b ReasonRemembered False else plain_decision False ReasonFollowup True
            | None \<Rightarrow> if force \<or> td_require_confirm t \<or> high
                then plain_decision False (if force then ReasonFollowup else ReasonPermission) True
                else plain_decision True ReasonOk False)"
    by (simp only: preview_tool_def Let_def m_def high_def)
  show "pd_reason (preview_tool t scope force e) = ReasonRemembered \<Longrightarrow> \<not> pd_require_confirm (preview_tool t scope force e)"
    "pd_require_confirm (preview_tool t scope force e) \<Longrightarrow> \<not> pd_allowed (preview_tool t scope force e)"
    unfolding eq by (auto simp: fields split: if_splits option.splits)
qed

lemma evaluate_follows_preview:
  assumes "fst (evaluate_tool url now disk ids t request scope parameters force e) = Inr d"
  shows "pd_allowed d = pd_allowed (preview_tool t scope force e) \<and>
    pd_require_confirm d = pd_require_confirm (preview_tool t scope force e)"
proof (cases "\<not> force \<and> is_selected_external_tool t")
  case True
  with assms preview_shape(3) [of force t scope e] show ?thesis by (auto simp: evaluate_tool_def)
next
  case False
  then have "fst (evaluate_tool url now disk ids t request scope parameters force e) = Inr d \<longrightarrow>
      pd_allowed d = pd_allowed (preview_tool t scope force e) \<and>
      pd_require_confirm d = pd_require_confirm (preview_tool t scope force e)"
    using preview_shape(1,2) [of t scope force e]
    by (cases "pd_reason (preview_tool t scope force e) = ReasonRemembered";
        cases "pd_require_confirm (preview_tool t scope force e)")
       (auto simp: evaluate_tool_def audited_eq plain_decision_def Let_def split: if_splits)
  with assms show ?thesis by blast
qed

lemma preview_allowedD:
  assumes "pd_allowed (preview_tool t scope force e)"
  shows "\<not> force" "td_risk_level t \<notin> {''high'', ''critical''}"
    "td_require_confirm t \<Longrightarrow> td_allow_remembered_decision t \<and>
       map_of (pg_remembered e) (build_scope_key (td_name t) scope) = Some True"
proof -
  have "\<not> force \<and> td_risk_level t \<notin> {''high'', ''critical''} \<and> (td_require_confirm t \<longrightarrow>
     td_allow_remembered_decision t \<and> map_of (pg_remembered e) (build_scope_key (td_name t) scope) = Some True)"
    using assms
    by (cases "map_of (pg_remembered e) (build_scope_key (td_name t) scope)")
       (auto simp: preview_tool_def plain_decision_def is_selected_external_tool_def Let_def split: if_splits)
  then show "\<not> force" "td_risk_level t \<notin> {''high'', ''critical''}"
    "td_require_confirm t \<Longrightarrow> td_allow_remembered_decision t \<and>
       map_of (pg_remembered e) (build_scope_key (td_name t) scope) = Some True" by blast+
qed

lemma evaluate_saved: "\<exists>d. fst (evaluate_tool url now True ids t request scope parameters force e) = Inr d"
  by (simp add: evaluate_tool_def audited_eq Let_def)

lemma evaluate_confirm_receipt:
  assumes "fst (evaluate_tool url now disk ids t request scope parameters force e) = Inr d" and "pd_require_confirm d"
  shows "pd_request_id d = Some (fi_permission ids) \<and> (\<exists>r. pd_receipt d = Some r \<and> pr_decision r = Required \<and>
    pr_permission_request_id r = fi_permission ids)"
proof -
  have "fst (evaluate_tool url now disk ids t request scope parameters force e) = Inr d \<longrightarrow> pd_require_confirm d \<longrightarrow>
      pd_request_id d = Some (fi_permission ids) \<and> (\<exists>r. pd_receipt d = Some r \<and> pr_decision r = Required \<and>
        pr_permission_request_id r = fi_permission ids)"
    by (cases "\<not> force \<and> is_selected_external_tool t"; cases "pd_reason (preview_tool t scope force e) = ReasonRemembered";
        cases "pd_require_confirm (preview_tool t scope force e)")
       (auto simp: evaluate_tool_def audited_eq plain_decision_def policy_receipt_def build_permission_receipt_def Let_def
        text_or_def text_or_empty_def split: prod.splits if_splits)
  with assms show ?thesis by blast
qed

text \<open>An answer of the user that remembers an approval under a key.\<close>

definition grants :: "policy_cmd \<Rightarrow> string \<Rightarrow> bool" where
  "grants c key \<longleftrightarrow> (\<exists>now request tool scope. c = Resolve now True request True True (Some tool) scope \<and>
     tool \<noteq> [] \<and> build_scope_key tool scope = key)"

lemma evaluate_fields:
  "pg_remembered (snd (evaluate_tool url now disk ids t request scope parameters force e)) = pg_remembered e"
  "pg_futures (snd (evaluate_tool url now disk ids t request scope parameters force e)) = pg_futures e"
  "pg_pending (snd (evaluate_tool url now disk ids t request scope parameters force e)) = pg_pending e"
  "pg_next_future (snd (evaluate_tool url now disk ids t request scope parameters force e)) = pg_next_future e"
  by (simp_all add: evaluate_tool_def audited_eq Let_def)

lemma remembered_step:
  assumes "map_of (pg_remembered (exec_policy url c e)) key = Some True"
  shows "map_of (pg_remembered e) key = Some True \<or> grants c key"
proof (cases c)
  case (Resolve now disk request allowed remember tool scope)
  with assms show ?thesis
    by (cases tool) (auto simp: resolve_eq set_answer_def drop_pending_def remember_decision_def text_or_empty_def grants_def
        split: option.splits if_splits)
next
  case (Revoke now disk tool scope)
  with assms show ?thesis by (cases rule: revoke_cases [of now disk tool scope e]) (auto split: if_splits)
qed (use assms in \<open>auto simp: evaluate_fields register_pending_def discard_permission_def cancel_pending_def
    drop_pending_def set_answer_def abandon_def clear_eq Let_def split: option.splits if_splits\<close>)

lemma remembered_run:
  "map_of (pg_remembered (policy_run url cs e)) key = Some True \<Longrightarrow>
     map_of (pg_remembered e) key = Some True \<or> (\<exists>c\<in>set cs. grants c key)"
proof (induction cs rule: rev_induct)
  case (snoc c cs)
  with remembered_step [of url c "policy_run url cs e" key] show ?case by (auto simp: policy_run_def)
qed (simp add: policy_run_def)

section \<open>Answers\<close>

definition futures_ok :: "policy_engine \<Rightarrow> bool" where
  "futures_ok e \<longleftrightarrow> (\<forall>f. pg_futures e f \<noteq> None \<longrightarrow> f < pg_next_future e)"

definition answers_kept :: "policy_engine \<Rightarrow> policy_engine \<Rightarrow> bool" where
  "answers_kept e e' \<longleftrightarrow> (\<forall>f a. pg_futures e f = Some a \<and> a \<noteq> Waiting \<longrightarrow> pg_futures e' f = Some a)"

lemma open_futureD: "open_future request e = Some f \<Longrightarrow> pg_futures e f = Some Waiting \<and> pg_pending e request = Some f"
  by (auto simp: open_future_def split: option.splits if_splits)

lemma futures_step:
  obtains (same) "pg_futures (exec_policy url c e) = pg_futures e" "pg_next_future (exec_policy url c e) = pg_next_future e"
  | (register) request where "c = Register request" "pg_next_future (exec_policy url c e) = pg_next_future e + 1"
      "pg_futures (exec_policy url c e) = (pg_futures e)(pg_next_future e \<mapsto> Waiting)"
  | (resolve) now request allowed remember tool scope f where "c = Resolve now True request allowed remember tool scope"
      "open_future request e = Some f" "pg_futures (exec_policy url c e) = (pg_futures e)(f \<mapsto> Answered allowed)"
      "pg_next_future (exec_policy url c e) = pg_next_future e"
  | (cancel) request f where "c = CancelRequest request" "open_future request e = Some f"
      "pg_futures (exec_policy url c e) = (pg_futures e)(f \<mapsto> Answered False)"
      "pg_next_future (exec_policy url c e) = pg_next_future e"
  | (abandoned) f where "pg_futures e f = Some Waiting" "pg_futures (exec_policy url c e) = (pg_futures e)(f \<mapsto> Abandoned)"
      "pg_next_future (exec_policy url c e) = pg_next_future e"
proof (cases c)
  case (Resolve now disk request allowed remember tool scope)
  then show ?thesis
    by (cases "open_future request e"; cases disk)
       (auto simp: resolve_eq set_answer_def drop_pending_def remember_decision_def intro: same resolve)
next
  case (Revoke now disk tool scope)
  then show ?thesis
    by (cases rule: revoke_cases [of now disk tool scope e]) (auto intro: same)
next
  case (CancelRequest request)
  then show ?thesis
    by (cases "open_future request e") (auto simp: cancel_pending_def set_answer_def drop_pending_def intro: same cancel)
next
  case (AbandonFuture f)
  then show ?thesis
    by (cases "pg_futures e f = Some Waiting") (auto simp: abandon_def set_answer_def intro: same abandoned)
qed (auto simp: evaluate_fields register_pending_def discard_permission_def clear_eq Let_def intro: same register)

lemma futures_ok_step: "futures_ok e \<Longrightarrow> futures_ok (exec_policy url c e)"
  by (cases rule: futures_step [of url c e]) (auto simp: futures_ok_def dest!: open_futureD less_SucI)

lemma answers_step: "futures_ok e \<Longrightarrow> answers_kept e (exec_policy url c e)"
  by (cases rule: futures_step [of url c e]) (auto simp: answers_kept_def futures_ok_def dest!: open_futureD)

interpretation policy: ordered_machine "exec_policy url" futures_ok answers_kept for url
  by unfold_locales (auto simp: futures_ok_step answers_step, auto simp: answers_kept_def)

lemma answered_step:
  assumes "pg_futures (exec_policy url c e) f = Some (Answered True)" and "pg_futures e f \<noteq> Some (Answered True)"
  obtains now request remember tool scope where "c = Resolve now True request True remember tool scope"
    "open_future request e = Some f"
  using assms by (cases rule: futures_step [of url c e]) (auto split: if_splits)

text \<open>A future belongs to the request it was registered for.\<close>

lemma pending_step:
  "pg_pending (exec_policy url c e) r = Some g \<Longrightarrow> pg_pending e r = Some g \<or> c = Register r \<and> g = pg_next_future e"
proof (cases c)
  case (Resolve now disk request allowed remember tool scope)
  then show "pg_pending (exec_policy url c e) r = Some g \<Longrightarrow> ?thesis"
    by (cases "open_future request e"; cases disk)
       (auto simp: resolve_eq set_answer_def drop_pending_def remember_decision_def split: if_splits)
next
  case (Revoke now disk tool scope)
  then show "pg_pending (exec_policy url c e) r = Some g \<Longrightarrow> ?thesis"
    by (cases rule: revoke_cases [of now disk tool scope e]) auto
qed (auto simp: evaluate_fields register_pending_def discard_permission_def cancel_pending_def drop_pending_def
    set_answer_def abandon_def clear_eq Let_def split: option.splits if_splits)

lemma next_future_step: "pg_next_future e \<le> pg_next_future (exec_policy url c e)"
  by (cases rule: futures_step [of url c e]) simp_all

definition pendings_ok :: "policy_engine \<Rightarrow> bool" where
  "pendings_ok e \<longleftrightarrow> (\<forall>r g. pg_pending e r = Some g \<longrightarrow> g < pg_next_future e)"

lemma pendings_ok_run: "pendings_ok e \<Longrightarrow> pendings_ok (policy_run url cs e)"
proof (induction cs rule: rev_induct)
  case (snoc c cs)
  then have ok: "pendings_ok (policy_run url cs e)" by simp
  have "g < pg_next_future (exec_policy url c (policy_run url cs e))"
    if "pg_pending (exec_policy url c (policy_run url cs e)) r = Some g" for r g
    using pending_step [OF that] ok next_future_step [of "policy_run url cs e" url c]
    by (fastforce simp: pendings_ok_def register_pending_def Let_def)
  then show ?case by (simp add: policy_run_def pendings_ok_def)
qed (simp add: policy_run_def)

definition owned_by :: "nat \<Rightarrow> string \<Rightarrow> policy_engine \<Rightarrow> bool" where
  "owned_by f request e \<longleftrightarrow> f < pg_next_future e \<and> (\<forall>r. pg_pending e r = Some f \<longrightarrow> r = request)"

lemma owned_step: "owned_by f request e \<Longrightarrow> owned_by f request (exec_policy url c e)"
  using pending_step [of url c e _ f] next_future_step [of e url c] by (fastforce simp: owned_by_def)

lemma owned_register: "pendings_ok e \<Longrightarrow> owned_by (pg_next_future e) request (snd (register_pending request e))"
  by (auto simp: owned_by_def pendings_ok_def register_pending_def Let_def split: if_splits)

lemma owner_answered:
  assumes "owned_by f request e" and "pg_futures e f \<noteq> Some (Answered True)"
    and "pg_futures (policy_run url cs e) f = Some (Answered True)"
  shows "\<exists>now remember tool scope. Resolve now True request True remember tool scope \<in> set cs"
  using assms(3)
proof (induction cs rule: rev_induct)
  case Nil
  with assms(2) show ?case by (simp add: policy_run_def)
next
  case (snoc c cs)
  have own: "owned_by f request (policy_run url cs e)"
    unfolding policy_run_def using assms(1) by (induction cs arbitrary: e) (simp_all add: owned_step)
  show ?case
  proof (cases "pg_futures (policy_run url cs e) f = Some (Answered True)")
    case True
    with snoc.IH show ?thesis by auto
  next
    case False
    moreover have "pg_futures (exec_policy url c (policy_run url cs e)) f = Some (Answered True)"
      using snoc.prems by (simp add: policy_run_def)
    ultimately obtain now r remember tool scope where "c = Resolve now True r True remember tool scope"
        "open_future r (policy_run url cs e) = Some f"
      by (blast elim: answered_step)
    moreover from this(2) own have "r = request" by (auto simp: owned_by_def dest: open_futureD)
    ultimately show ?thesis by auto
  qed
qed

section \<open>The file\<close>

primrec writes_ok :: "policy_cmd \<Rightarrow> bool" where
  "writes_ok (Evaluate now disk ids t request scope parameters force) = disk"
| "writes_ok (Register request) = True"
| "writes_ok (Discard request) = True"
| "writes_ok (CancelRequest request) = True"
| "writes_ok (AbandonFuture f) = True"
| "writes_ok (Resolve now disk request allowed remember tool scope) = disk"
| "writes_ok (Revoke now disk tool scope) = disk"
| "writes_ok (ClearAll now disk) = disk"

definition synced :: "policy_engine \<Rightarrow> bool" where
  "synced e \<longleftrightarrow> load_store (pg_file e) = (pg_remembered e, pg_audit e)"

lemma last_entries_bound: "length (last_entries xs) \<le> audit_max_entries"
  by (simp add: last_entries_def)

lemma last_entries_idem: "length xs \<le> audit_max_entries \<Longrightarrow> last_entries xs = xs"
  by (simp add: last_entries_def)

lemma load_saved:
  assumes "length (pg_audit e) \<le> audit_max_entries"
  shows "load_store (Stored (saved_document e)) = (pg_remembered e, pg_audit e)"
proof -
  have "load_remembered (saved_document e) = pg_remembered e"
    by (cases "pg_remembered e = []")
       (auto simp: load_remembered_def saved_document_def dict_get_Cons json_or_def case_prod_beta intro!: map_idI)
  moreover have "concat (map (\<lambda>x. case x of JObj e \<Rightarrow> [e] | _ \<Rightarrow> []) (map JObj xs)) = xs" for xs
    by (induction xs) simp_all
  then have "load_audit (saved_document e) = pg_audit e"
    using assms
    by (cases "pg_audit e = []")
       (auto simp: load_audit_def saved_document_def dict_get_Cons json_or_def last_entries_idem)
  ultimately show ?thesis by (simp add: load_store_def)
qed

lemma synced_append: "synced (snd (append_audit True a e))"
proof -
  let ?e = "e\<lparr>pg_audit := last_entries (pg_audit e @ [audit_to_dict a])\<rparr>"
  have "length (pg_audit ?e) \<le> audit_max_entries" by (simp add: last_entries_bound)
  from load_saved [OF this] show ?thesis by (simp add: synced_def append_audit_def save_store_def)
qed

lemma synced_cong:
  "pg_remembered e' = pg_remembered e \<Longrightarrow> pg_audit e' = pg_audit e \<Longrightarrow> pg_file e' = pg_file e \<Longrightarrow> synced e' = synced e"
  by (simp add: synced_def)

lemma synced_step: "synced e \<Longrightarrow> writes_ok c \<Longrightarrow> synced (exec_policy url c e)"
proof (cases c)
  case (Evaluate now disk ids t request scope parameters force)
  then show "synced e \<Longrightarrow> writes_ok c \<Longrightarrow> ?thesis"
    by (simp add: evaluate_tool_def audited_eq Let_def synced_append)
next
  case (Resolve now disk request allowed remember tool scope)
  have "synced (set_answer f a (drop_pending request e')) = synced e'" for f a e'
    by (rule synced_cong) (simp_all add: set_answer_def drop_pending_def)
  with Resolve show "synced e \<Longrightarrow> writes_ok c \<Longrightarrow> ?thesis"
    by (auto simp: resolve_eq synced_append split: option.splits)
next
  case (Revoke now disk tool scope)
  then show "synced e \<Longrightarrow> writes_ok c \<Longrightarrow> ?thesis"
    by (cases rule: revoke_cases [of now disk tool scope e]) (auto simp: synced_append)
next
  case (ClearAll now disk)
  then show "synced e \<Longrightarrow> writes_ok c \<Longrightarrow> ?thesis" by (simp add: clear_eq synced_append)
qed (auto simp: synced_def register_pending_def discard_permission_def cancel_pending_def
    drop_pending_def set_answer_def abandon_def Let_def split: option.splits)

lemma synced_run: "synced e \<Longrightarrow> list_all writes_ok cs \<Longrightarrow> synced (policy_run url cs e)"
  unfolding policy_run_def by (induction cs arbitrary: e) (simp_all add: synced_step)

section \<open>Properties of the policy engine\<close>

text \<open>C21. Confirmation is never bypassed: whatever happened to the engine, a tool call that is allowed without
  asking was not forced to ask, is not of high or critical risk, and if the tool requires
  confirmation it accepts remembered decisions and either the loaded file or an explicit remembered
  approval by the user holds for its key.\<close>

theorem confirmation_never_bypassed:
  assumes "e = policy_run url cs (new_policy_engine file)"
    and "fst (evaluate_tool url now disk ids t request scope parameters force e) = Inr d" and "pd_allowed d"
  shows "\<not> force \<and> td_risk_level t \<notin> {''high'', ''critical''} \<and>
    (td_require_confirm t \<longrightarrow> td_allow_remembered_decision t \<and>
      (map_of (fst (load_store file)) (build_scope_key (td_name t) scope) = Some True \<or>
       (\<exists>c\<in>set cs. grants c (build_scope_key (td_name t) scope))))"
proof -
  have "pd_allowed (preview_tool t scope force e)" using evaluate_follows_preview [OF assms(2)] assms(3) by simp
  note allowed = preview_allowedD [OF this]
  with remembered_run [of url cs "new_policy_engine file" "build_scope_key (td_name t) scope"] assms(1)
  show ?thesis by (auto simp: new_policy_engine_def)
qed

definition sample_tool_definition :: "tool_definition" where
  "sample_tool_definition = \<lparr>td_name = ''t'', td_source = ''local'', td_require_confirm = True, td_risk_level = ''low'',
     td_allow_remembered_decision = True\<rparr>"

definition sample_ids :: fresh_ids where
  "sample_ids = \<lparr>fi_agent = ''a'', fi_permission = ''p'', fi_call = ''c''\<rparr>"

definition asked :: "policy_cmd list" where
  "asked = [Evaluate ''now'' True sample_ids sample_tool_definition None None JNull False, Register ''p'',
     Resolve ''now'' True ''p'' True True (Some ''t'') None]"

lemma asked_run:
  "map_of (pg_remembered (policy_run url asked (new_policy_engine NoFile))) ''t::default'' = Some True"
  "pg_futures (policy_run url asked (new_policy_engine NoFile)) 0 = Some (Answered True)"
  by (simp_all add: asked_def policy_run_def resolve_eq open_future_def evaluate_fields register_pending_def
      new_policy_engine_def set_answer_def drop_pending_def remember_decision_def text_or_empty_def load_store_def
      build_scope_key_def scope_of_def text_or_def py_strip_def py_isspace_def)

theorem confirmation_never_bypassed_witness:
  "\<exists>e d. e = policy_run (\<lambda>s. (s, False)) asked (new_policy_engine NoFile) \<and>
     fst (evaluate_tool (\<lambda>s. (s, False)) ''now'' True sample_ids sample_tool_definition None None JNull False e) = Inr d \<and>
     pd_allowed d \<and> (\<exists>c\<in>set asked. grants c ''t::default'')"
proof -
  let ?url = "\<lambda>s. (s, False)"
  define e where "e = policy_run ?url asked (new_policy_engine NoFile)"
  have key: "build_scope_key ''t'' None = ''t::default''"
    by (simp add: build_scope_key_def scope_of_def text_or_def text_or_empty_def py_strip_def py_isspace_def)
  have preview: "preview_tool sample_tool_definition None False e = plain_decision True ReasonRemembered False"
    using asked_run(1) [of ?url]
    by (simp add: preview_tool_def sample_tool_definition_def key is_selected_external_tool_def e_def)
  obtain d where d: "fst (evaluate_tool ?url ''now'' True sample_ids sample_tool_definition None None JNull False e) = Inr d"
    using evaluate_saved by blast
  then have allowed: "pd_allowed d"
    using evaluate_follows_preview [OF d] preview by (simp add: plain_decision_def)
  have "map_of (fst (load_store NoFile)) k = None" for k by (simp add: load_store_def)
  with confirmation_never_bypassed [OF e_def d allowed] d allowed e_def key show ?thesis
    by (auto simp: sample_tool_definition_def)
qed

text \<open>Only the user says yes, once: a task that waits on a permission request is told yes only by a saved
  answer of the user to the request it was registered for while it was still open, and whatever
  happens later the answer it was given stays the same.\<close>

theorem answers_come_from_the_user:
  assumes "e = policy_run url cs (new_policy_engine file)" and "pg_futures e f = Some (Answered True)"
  shows "(\<exists>before now request remember tool scope after.
      cs = before @ Resolve now True request True remember tool scope # after \<and>
      open_future request (policy_run url before (new_policy_engine file)) = Some f) \<and>
    pg_futures (policy_run url ds e) f = Some (Answered True)"
proof
  let ?new = "new_policy_engine file"
  have "pg_futures (policy_run url cs ?new) f = Some (Answered True) \<Longrightarrow>
      \<exists>before now request remember tool scope after. cs = before @ Resolve now True request True remember tool scope # after \<and>
        open_future request (policy_run url before ?new) = Some f" for cs
  proof (induction cs rule: rev_induct)
    case Nil
    then show ?case by (simp add: policy_run_def new_policy_engine_def)
  next
    case (snoc c cs)
    show ?case
    proof (cases "pg_futures (policy_run url cs ?new) f = Some (Answered True)")
      case True
      with snoc.IH show ?thesis by (metis append.assoc append_Cons)
    next
      case False
      moreover have "pg_futures (exec_policy url c (policy_run url cs ?new)) f = Some (Answered True)"
        using snoc.prems by (simp add: policy_run_def)
      ultimately obtain now request remember tool scope where "c = Resolve now True request True remember tool scope"
          "open_future request (policy_run url cs ?new) = Some f"
        by (blast elim: answered_step)
      then show ?thesis by blast
    qed
  qed
  with assms show "\<exists>before now request remember tool scope after.
      cs = before @ Resolve now True request True remember tool scope # after \<and>
      open_future request (policy_run url before ?new) = Some f" by simp
next
  have "futures_ok (new_policy_engine file)" by (simp add: futures_ok_def new_policy_engine_def)
  then have "futures_ok e" unfolding assms(1) policy_run_def by (rule policy.run_inv)
  from policy.run_leq [OF this, of url ds] assms(2) show "pg_futures (policy_run url ds e) f = Some (Answered True)"
    by (simp add: answers_kept_def policy_run_def)
qed

theorem answers_come_from_the_user_witness:
  "\<exists>before now request remember tool scope after. asked = before @ Resolve now True request True remember tool scope # after \<and>
     pg_futures (policy_run (\<lambda>s. (s, False)) [CancelRequest ''p'']
       (policy_run (\<lambda>s. (s, False)) asked (new_policy_engine NoFile))) 0 = Some (Answered True)"
  using answers_come_from_the_user [OF refl asked_run(2), of "\<lambda>s. (s, False)" "[CancelRequest ''p'']"] by blast

text \<open>C22. An answer is applied completely or not at all: if the answer cannot be saved the engine is exactly as
  before, so the request still waits and nothing is remembered; if it is applied the waiting task has
  the answer, the decision is remembered exactly if that was asked for, the answer is in the audit
  log, and any later answer to the same request is refused without effect.\<close>

theorem answer_is_atomic:
  assumes "resolve_pending now disk request allowed remember (Some tool) scope e = (res, e')"
  shows "(\<forall>err. res = Inl err \<longrightarrow> e' = e) \<and> (res = Inr False \<longrightarrow> e' = e) \<and>
    (res = Inr True \<longrightarrow>
      (\<exists>f. open_future request e = Some f \<and> pg_futures e' f = Some (Answered allowed)) \<and>
      map_of (pg_remembered e') (build_scope_key tool scope) =
        (if remember \<and> tool \<noteq> [] then Some allowed else map_of (pg_remembered e) (build_scope_key tool scope)) \<and>
      last (pg_audit e') = audit_to_dict (answer_audit now request allowed remember (Some tool) scope e) \<and>
      resolve_pending now2 disk2 request allowed2 remember2 tool2 scope2 e' = (Inr False, e'))"
proof (cases "open_future request e")
  case None
  with assms show ?thesis by (auto simp: resolve_eq)
next
  case (Some f)
  have shape: "xs \<noteq> [] \<Longrightarrow> last (last_entries xs) = last xs" for xs
    by (simp add: last_entries_def audit_max_entries_def last_drop)
  show ?thesis
  proof (cases disk)
    case False
    with Some assms show ?thesis by (auto simp: resolve_eq)
  next
    case True
    then have e': "res = Inr True" "e' = set_answer f (Answered allowed) (drop_pending request (snd (append_audit True
        (answer_audit now request allowed remember (Some tool) scope e) (remember_decision allowed remember (Some tool) scope e))))"
      using Some assms by (auto simp: resolve_eq)
    have "open_future request e' = None"
      unfolding e' by (simp add: open_future_def set_answer_def drop_pending_def)
    moreover have "last (pg_audit e') = audit_to_dict (answer_audit now request allowed remember (Some tool) scope e)"
      unfolding e' by (simp add: set_answer_def drop_pending_def append_audit_def save_store_def shape)
    moreover have "pg_futures e' f = Some (Answered allowed)"
      unfolding e' by (simp add: set_answer_def)
    moreover have "map_of (pg_remembered e') (build_scope_key tool scope) =
        (if remember \<and> tool \<noteq> [] then Some allowed else map_of (pg_remembered e) (build_scope_key tool scope))"
      unfolding e' by (simp add: set_answer_def drop_pending_def remember_decision_def text_or_empty_def)
    ultimately show ?thesis using Some e'(1) by (auto simp: resolve_eq)
  qed
qed

theorem answer_is_atomic_witness:
  "\<exists>e e'. e = snd (register_pending ''p'' (new_policy_engine NoFile)) \<and>
     resolve_pending ''now'' True ''p'' False True (Some ''t'') None e = (Inr True, e') \<and>
     map_of (pg_remembered e') (build_scope_key ''t'' None) = Some False \<and>
     resolve_pending ''now'' True ''p'' True True (Some ''t'') None e' = (Inr False, e')"
proof -
  let ?e = "snd (register_pending ''p'' (new_policy_engine NoFile))"
  have "open_future ''p'' ?e = Some 0"
    by (simp add: open_future_def register_pending_def new_policy_engine_def)
  then obtain e' where res: "resolve_pending ''now'' True ''p'' False True (Some ''t'') None ?e = (Inr True, e')"
    by (simp add: resolve_eq)
  from answer_is_atomic [OF res, of "''now''" True True True "Some ''t''" None] res show ?thesis by auto
qed

text \<open>C23. A restart restores the policy: after any run whose writes succeed, an engine that loads the file
  has the same remembered decisions and the same audit log, in the same order.\<close>

theorem restart_restores_policy:
  assumes "list_all writes_ok cs" and "e = policy_run url cs (new_policy_engine file)"
  shows "pg_remembered (new_policy_engine (pg_file e)) = pg_remembered e \<and>
    pg_audit (new_policy_engine (pg_file e)) = pg_audit e"
proof -
  have "synced (new_policy_engine file)" by (simp add: synced_def new_policy_engine_def)
  from synced_run [OF this assms(1), of url] assms(2) have "synced e" by simp
  then show ?thesis by (simp add: synced_def new_policy_engine_def)
qed

theorem restart_restores_policy_witness:
  "\<exists>e. e = policy_run (\<lambda>s. (s, False)) asked (new_policy_engine NoFile) \<and>
     map_of (pg_remembered (new_policy_engine (pg_file e))) ''t::default'' = Some True"
proof -
  have "list_all writes_ok asked" by (simp add: asked_def)
  from restart_restores_policy [OF this refl, of "\<lambda>s. (s, False)" NoFile] asked_run(1) show ?thesis by auto
qed

end
