(* ===== verification/Tool_Executor.thy ===== *)
theory Tool_Executor
  imports Policy_Runs Job_Log Tool_Result
begin

text \<open>
  The execution of one tool call (\<open>modules/agent/tool_executor.py\<close>): the
  authorisation of a retry from the job log, the decision of the policy engine, the question to the
  user, the dispatch of the handler, and the event that ends the job. The policy engine and the job
  log are those of the other theories. What the environment does is the record \<open>tool_io\<close>: fresh
  identifiers and clocks, the results of plugins and of the handler, the user's wait, and what other
  tasks do to the policy engine and the job log while this call waits.
\<close>

section \<open>Tools, calls and the world\<close>

record tool_entry =
  tn_definition :: tool_definition
  tn_effect_kind :: string
  tn_has_recheck :: bool
  tn_needs_permit :: bool

definition tool_may_change_state :: "tool_entry \<Rightarrow> bool" where
  "tool_may_change_state t \<longleftrightarrow> tn_effect_kind t \<noteq> ''read''"

record tool_ctx =
  tc_workspace_id :: "string option"
  tc_active_workspace :: "string option"
  tc_session_id :: "string option"
  tc_turn_id :: "string option"
  tc_request_id :: "string option"
  tc_run_id :: "string option"
  tc_job_id :: "string option"
  tc_interruption_epoch :: int
  tc_permission_scope :: "string option"

record tool_params =
  xp_tool_name :: string
  xp_args :: dict
  xp_has_callback :: bool
  xp_ctx :: tool_ctx
  xp_force :: bool
  xp_request_id :: "string option"
  xp_run_id :: "string option"
  xp_job_id :: "string option"
  xp_source :: "string option"
  xp_retry :: bool

record tool_world =
  tw_policy :: policy_engine
  tw_log :: "job_log option"
  tw_observed :: "bool list"
  tw_dispatched :: "dict list"

datatype tool_exception = Cancelled | Failed string | JobLogFailed job_error

datatype tool_outcome = Returned tool_result | Raised tool_exception | Blocked

text \<open>What the plugins, the user and the handler do.\<close>

datatype prepared = Prepared dict | PrepareCancelled | PrepareFailed string | CancelledDeciding dict

datatype wait = WaitDone | WaitSignalled | WaitCancelled bool | WaitFailed string

datatype ran = RanResult tool_result | RanSignalled | RanCancelled | RanFailed string

record tool_io =
  ti_request :: string
  ti_run :: string
  ti_job :: string
  ti_retry_suffix :: string
  ti_clock :: "string \<Rightarrow> pyfloat"
  ti_cancelled_at_start :: bool
  ti_prepared :: prepared
  ti_now :: string
  ti_disk :: bool
  ti_answer_disk :: bool
  ti_disk_error :: string
  ti_ids :: fresh_ids
  ti_others_deciding :: "policy_cmd list \<times> job_args list"
  ti_others_waiting :: "policy_cmd list \<times> job_args list"
  ti_others_running :: "policy_cmd list \<times> job_args list"
  ti_wait :: wait
  ti_permit_fails :: "string option"
  ti_handler :: ran
  ti_after :: ran
  ti_duration :: int
  ti_artifacts :: int
  ti_verification :: dict
  ti_summary :: string

section \<open>Job events\<close>

definition dict_union :: "dict \<Rightarrow> dict \<Rightarrow> dict" where
  "dict_union a b = merge_data (Some a) (Some b)"

definition first_nonempty :: "string option list \<Rightarrow> string option" where
  "first_nonempty xs = (case filter (\<lambda>x. text_or_empty x \<noteq> []) xs of [] \<Rightarrow> None | x # _ \<Rightarrow> x)"

definition event_workspace :: "tool_ctx \<Rightarrow> string" where
  "event_workspace c = (case first_nonempty [tc_workspace_id c] of Some w \<Rightarrow> w
     | None \<Rightarrow> (case tc_active_workspace c of None \<Rightarrow> ''default'' | Some w \<Rightarrow> w))"

record tool_call =
  cl_ctx :: tool_ctx
  cl_tool_name :: string
  cl_request_id :: string
  cl_run_id :: string
  cl_job_id :: string
  cl_source :: string
  cl_job_data :: dict
  cl_force :: bool

definition event_data :: "string \<Rightarrow> real option \<Rightarrow> string option \<Rightarrow> dict \<Rightarrow> dict" where
  "event_data tool progress error data =
     (let d = dict_union [(''toolName'', JStr tool)] data;
          d = (case progress of None \<Rightarrow> d | Some x \<Rightarrow> dict_set ''progress'' (JFloat (Fin (max 0 (min 1 x)))) d)
      in case first_nonempty [error] of None \<Rightarrow> d | Some e \<Rightarrow> dict_set ''error'' (JStr e) d)"

definition tool_event_args :: "tool_call \<Rightarrow> pyfloat \<Rightarrow> string \<Rightarrow> real option \<Rightarrow> string option \<Rightarrow> dict \<Rightarrow> job_args" where
  "tool_event_args c t status progress error data =
     \<lparr>ja_workspace_id = event_workspace (cl_ctx c),
      ja_session_id = text_or (text_or_empty (tc_session_id (cl_ctx c))) ''tool'',
      ja_turn_id = text_or (text_or_empty (tc_turn_id (cl_ctx c))) (''turn:'' @ cl_request_id c),
      ja_job_id = cl_job_id c, ja_conversation_id = None, ja_operation_id = None, ja_step_index = None,
      ja_run_id = Some (cl_run_id c), ja_request_id = cl_request_id c,
      ja_interruption_epoch = tc_interruption_epoch (cl_ctx c), ja_source = cl_source c, ja_timestamp = t,
      ja_status = status, ja_data = Some (event_data (cl_tool_name c) progress error data), ja_idempotency_key = None\<rparr>"

datatype emitted = EventOk | EventCapacity | EventRaised job_error

definition tool_job_event :: "(string \<Rightarrow> string) \<Rightarrow> tool_call \<Rightarrow> tool_io \<Rightarrow> string \<Rightarrow> real option \<Rightarrow> string option \<Rightarrow> dict
    \<Rightarrow> tool_world \<Rightarrow> emitted \<times> tool_world" where
  "tool_job_event scrub c io status progress error data w =
     (case tw_log w of
        None \<Rightarrow> (EventOk, w)
      | Some l \<Rightarrow>
          (case job_append scrub (tool_event_args c (ti_clock io status) status progress error data) l of
             (Inr _, l') \<Rightarrow> (EventOk, w\<lparr>tw_log := Some l'\<rparr>)
           | (Inl JobCapacity, l') \<Rightarrow> (EventCapacity, w\<lparr>tw_log := Some l'\<rparr>)
           | (Inl e, l') \<Rightarrow> (EventRaised e, w\<lparr>tw_log := Some l'\<rparr>)))"

text \<open>An event and then the rest; only a full log is ignored.\<close>

definition emit_then :: "(string \<Rightarrow> string) \<Rightarrow> tool_call \<Rightarrow> tool_io \<Rightarrow> string \<Rightarrow> real option \<Rightarrow> string option \<Rightarrow> dict
    \<Rightarrow> (tool_world \<Rightarrow> tool_outcome \<times> tool_world) \<Rightarrow> tool_world \<Rightarrow> tool_outcome \<times> tool_world" where
  "emit_then scrub c io status progress error data k w =
     (case tool_job_event scrub c io status progress error data w of
        (EventRaised e, w') \<Rightarrow> (Raised (JobLogFailed e), w')
      | (_, w') \<Rightarrow> k w')"

definition observe :: "bool \<Rightarrow> tool_world \<Rightarrow> tool_world" where
  "observe success w = w\<lparr>tw_observed := tw_observed w @ [success]\<rparr>"

definition finish_tool :: "tool_result \<Rightarrow> tool_world \<Rightarrow> tool_outcome \<times> tool_world" where
  "finish_tool e w = (Returned e, observe (te_success e) w)"

definition others_act :: "(string \<Rightarrow> string \<times> bool) \<Rightarrow> (string \<Rightarrow> string) \<Rightarrow> policy_cmd list \<times> job_args list
    \<Rightarrow> tool_world \<Rightarrow> tool_world" where
  "others_act url scrub acts w = w\<lparr>tw_policy := policy_run url (fst acts) (tw_policy w),
     tw_log := map_option (fold (\<lambda>a l. snd (job_append scrub a l)) (snd acts)) (tw_log w)\<rparr>"

section \<open>Authorising a retry\<close>

datatype retry_error = RetryUnavailable | RetryJobNotFound | RetryIdentityMismatch | RetryToolMissing | RetryNotAuthorized

definition retry_error_text :: "retry_error \<Rightarrow> string" where
  "retry_error_text e = (case e of RetryUnavailable \<Rightarrow> ''retry_authorization_unavailable''
     | RetryJobNotFound \<Rightarrow> ''retry_job_not_found'' | RetryIdentityMismatch \<Rightarrow> ''retry_job_identity_mismatch''
     | RetryToolMissing \<Rightarrow> ''retry_tool_not_available'' | RetryNotAuthorized \<Rightarrow> ''retry_not_authorized'')"

definition retry_workspace :: "tool_ctx \<Rightarrow> string" where
  "retry_workspace c = (case first_nonempty [tc_workspace_id c, tc_active_workspace c] of
     Some w \<Rightarrow> w | None \<Rightarrow> ''default'')"

text \<open>\<open>str(d.get(k) or "")\<close> for an entry that is a text.\<close>

definition text_entry :: "dict \<Rightarrow> string \<Rightarrow> string" where
  "text_entry d k = (case dict_get d k of JStr s \<Rightarrow> s | _ \<Rightarrow> [])"

text \<open>The flag \<open>forceConfirmation\<close> of an authorised retry.\<close>

definition validate_retry_request :: "(string \<Rightarrow> tool_entry option) \<Rightarrow> string \<Rightarrow> dict \<Rightarrow> tool_ctx \<Rightarrow> string option
    \<Rightarrow> string option \<Rightarrow> job_log option \<Rightarrow> retry_error + bool" where
  "validate_retry_request registry tool_name args ctx run_id job_id jobs =
     (case jobs of
        None \<Rightarrow> Inl RetryUnavailable
      | Some l \<Rightarrow>
          if text_or_empty job_id = [] \<or> text_or_empty run_id = [] then Inl RetryUnavailable
          else case latest_event (text_or_empty job_id) (Some (retry_workspace ctx)) l of
              None \<Rightarrow> Inl RetryJobNotFound
            | Some original \<Rightarrow>
                (let data = (case je_data original of None \<Rightarrow> [] | Some d \<Rightarrow> d)
                 in if je_workspace_id original \<noteq> retry_workspace ctx \<or> text_entry data ''toolName'' \<noteq> tool_name \<or>
                       text_or_empty (je_run_id original) \<noteq> text_or_empty run_id \<or>
                       (case dict_get data ''args'' of JObj d \<Rightarrow> \<not> py_equal (JObj d) (JObj args) | _ \<Rightarrow> True) \<or>
                       dict_get data ''replayArgsAvailable'' \<noteq> JBool True \<or> je_status original \<notin> terminal_statuses
                    then Inl RetryIdentityMismatch
                    else case registry tool_name of
                        None \<Rightarrow> Inl RetryToolMissing
                      | Some tool \<Rightarrow>
                          (let unknown_write = (text_entry data ''effectOutcome'' = ''unknown_effect'' \<and> tool_may_change_state tool)
                           in if dict_get data ''retryable'' \<noteq> JBool True \<and> \<not> unknown_write then Inl RetryNotAuthorized
                              else Inr unknown_write)))"

section \<open>The start of a call\<close>

definition tool_source :: "tool_entry \<Rightarrow> string" where
  "tool_source t = td_source (tn_definition t)"

definition failed_call :: "tool_entry \<Rightarrow> string \<Rightarrow> string \<Rightarrow> json \<Rightarrow> permission_receipt option \<Rightarrow> effect_outcome \<Rightarrow> bool
    \<Rightarrow> tool_result" where
  "failed_call t name error data receipt outcome retryable =
     failed_result_envelope (tool_source t) name error data receipt outcome retryable"

definition optional_text :: "string \<Rightarrow> string option \<Rightarrow> dict" where
  "optional_text k x = (case first_nonempty [x] of None \<Rightarrow> [] | Some s \<Rightarrow> [(k, JStr s)])"

text \<open>The identifiers and the common event data of the call; \<open>force\<close> includes that of the retry.\<close>

definition new_call :: "tool_entry \<Rightarrow> tool_params \<Rightarrow> tool_io \<Rightarrow> bool \<Rightarrow> tool_call" where
  "new_call t p io force =
     (let ctx = xp_ctx p; retry = xp_retry p;
          retry_run = first_nonempty (if retry then [xp_run_id p] else [xp_run_id p, tc_run_id ctx]);
          retry_job = first_nonempty (if retry then [xp_job_id p] else [xp_job_id p, tc_job_id ctx]);
          run = text_or (text_or_empty retry_run) (ti_run io);
          source = text_or (tool_source t) ''builtin''
      in \<lparr>cl_ctx = ctx, cl_tool_name = xp_tool_name p,
          cl_request_id = text_or (text_or_empty (first_nonempty [xp_request_id p, tc_request_id ctx])) (ti_request io),
          cl_run_id = (if retry then run @ '':retry:'' @ ti_retry_suffix io else run),
          cl_job_id = (if retry then ti_job io else text_or (text_or_empty retry_job) (ti_job io)),
          cl_source = source,
          cl_job_data = [(''toolSource'', JStr source)] @ optional_text ''invocationSource'' (xp_source p) @
            (if retry then (''retry'', JBool True) # optional_text ''retryOfJobId'' retry_job @ optional_text ''retryOfRunId'' retry_run
             else []),
          cl_force = force\<rparr>)"

definition code_data :: "string \<Rightarrow> json" where
  "code_data code = JObj [(''code'', JStr code)]"

section \<open>The decision\<close>

definition reason_text :: "policy_reason \<Rightarrow> string" where
  "reason_text r = (case r of ReasonOk \<Rightarrow> ''ok'' | ReasonRemembered \<Rightarrow> ''remembered''
     | ReasonPermission \<Rightarrow> ''permission_required'' | ReasonFollowup \<Rightarrow> ''untrusted_mcp_followup_requires_confirmation''
     | ReasonConfirm name risk \<Rightarrow>
         ''Tool '' @ [CHR 0x27] @ name @ [CHR 0x27] @ '' requires user confirmation (risk='' @ risk @ '') before execution'')"

record verdict =
  vd_allowed :: bool
  vd_confirm :: bool
  vd_request :: "string option"
  vd_reason :: string
  vd_receipt :: permission_receipt

text \<open>A decision without a receipt gets one, and a forced confirmation is never dropped.\<close>

definition verdict_of :: "(string \<Rightarrow> string \<times> bool) \<Rightarrow> tool_entry \<Rightarrow> tool_call \<Rightarrow> fresh_ids \<Rightarrow> dict \<Rightarrow> policy_decision \<Rightarrow> verdict" where
  "verdict_of url t c ids args d =
     (let def = tn_definition t; allowed = pd_allowed d; confirm = pd_require_confirm d;
          receipt = (case pd_receipt d of Some r \<Rightarrow> r
            | None \<Rightarrow> build_permission_receipt url (fi_permission ids) (fi_call ids) (cl_request_id c)
                (if confirm then Required else if allowed then Allowed else Denied)
                (if confirm then ''legacy_policy_permission_required''
                 else if allowed then ''legacy_policy_allowed'' else ''legacy_policy_denied'')
                (allowed \<and> \<not> confirm) (text_or (text_or_empty (tc_permission_scope (cl_ctx c))) ''default'')
                (td_name def) ''tool'' (td_source def @ ''-tool'') (td_risk_level def) (JObj args) (pd_request_id d) None None);
          request = (if confirm \<and> text_or_empty (pd_request_id d) = [] then Some (pr_permission_request_id receipt)
                     else pd_request_id d)
      in if cl_force c \<and> \<not> confirm \<and> allowed
         then \<lparr>vd_allowed = False, vd_confirm = True, vd_request = Some (pr_permission_request_id receipt),
               vd_reason = ''Untrusted MCP output cannot authorize a follow-up side effect'',
               vd_receipt = receipt\<lparr>pr_decision := Required,
                 pr_reason_code := ''untrusted_mcp_followup_requires_confirmation'', pr_retryable := False\<rparr>\<rparr>
         else \<lparr>vd_allowed = allowed, vd_confirm = confirm, vd_request = request, vd_reason = reason_text (pd_reason d),
               vd_receipt = receipt\<rparr>)"

text \<open>The data of the event that ends the job.\<close>

definition terminal_data :: "tool_call \<Rightarrow> permission_receipt \<Rightarrow> dict" where
  "terminal_data c receipt =
     dict_union (cl_job_data c) [(''args'', pr_parameters receipt), (''retryable'', JBool (pr_redacted_paths receipt = [])),
       (''replayArgsAvailable'', JBool (pr_redacted_paths receipt = []))]"

definition refused_data :: "tool_call \<Rightarrow> permission_receipt \<Rightarrow> dict" where
  "refused_data c receipt = dict_union (cl_job_data c) [(''args'', pr_parameters receipt), (''retryable'', JBool False)]"

section \<open>Asking the user\<close>

text \<open>An interrupted question is answered with no; a failing save of that answer is raised.\<close>

definition close_request :: "tool_entry \<Rightarrow> tool_call \<Rightarrow> tool_io \<Rightarrow> string \<Rightarrow> (tool_world \<Rightarrow> tool_outcome \<times> tool_world)
    \<Rightarrow> tool_world \<Rightarrow> tool_outcome \<times> tool_world" where
  "close_request t c io request k w =
     (case resolve_pending (ti_now io) (ti_answer_disk io) request False False (Some (td_name (tn_definition t)))
             (tc_permission_scope (cl_ctx c)) (tw_policy w) of
        (Inl err, e) \<Rightarrow> (Raised (Failed (ti_disk_error io)), w\<lparr>tw_policy := e\<rparr>)
      | (Inr done_, e) \<Rightarrow> k (w\<lparr>tw_policy := e\<rparr>))"

text \<open>The awaiting task is cancelled, in the callback or while it waits for the answer.\<close>

definition wait_cancelled :: "(string \<Rightarrow> string) \<Rightarrow> tool_entry \<Rightarrow> tool_call \<Rightarrow> tool_io \<Rightarrow> string \<Rightarrow> permission_receipt
    \<Rightarrow> tool_world \<Rightarrow> tool_outcome \<times> tool_world" where
  "wait_cancelled scrub t c io request receipt w = close_request t c io request
     (emit_then scrub c io ''cancelled'' None (Some ''cancelled'') (terminal_data c receipt)
       (\<lambda>w. (Raised Cancelled, observe False w))) w"

definition no_callback_receipt :: "permission_receipt \<Rightarrow> permission_receipt" where
  "no_callback_receipt r =
     (if pr_reason_code r = ''untrusted_mcp_followup_requires_confirmation'' then r
      else r\<lparr>pr_reason_code := ''interactive_permission_unavailable''\<rparr>)"

definition user_receipt :: "tool_io \<Rightarrow> bool \<Rightarrow> permission_receipt \<Rightarrow> permission_receipt" where
  "user_receipt io allowed r = r\<lparr>pr_decision := (if allowed then Allowed else Denied),
     pr_reason_code := (if allowed then ''user_allowed'' else ''user_denied''), pr_retryable := allowed,
     pr_decided_at := Some (ti_now io)\<rparr>"

definition ask_user :: "(string \<Rightarrow> string \<times> bool) \<Rightarrow> (string \<Rightarrow> string) \<Rightarrow> tool_entry \<Rightarrow> tool_params \<Rightarrow> tool_call \<Rightarrow> tool_io
    \<Rightarrow> verdict \<Rightarrow> (permission_receipt \<Rightarrow> tool_world \<Rightarrow> tool_outcome \<times> tool_world) \<Rightarrow> tool_world \<Rightarrow> tool_outcome \<times> tool_world" where
  "ask_user url scrub t p c io v k w =
     (let request = text_or_empty (vd_request v); receipt = vd_receipt v; name = xp_tool_name p
      in if \<not> xp_has_callback p
         then emit_then scrub c io ''failed'' None (Some (vd_reason v)) (refused_data c receipt)
                (finish_tool (failed_call t name (vd_reason v) JNull (Some (no_callback_receipt receipt)) KnownFailure True))
                (w\<lparr>tw_policy := discard_permission request (tw_policy w)\<rparr>)
         else
           (let (f, e) = register_pending request (tw_policy w);
                w = others_act url scrub (ti_others_waiting io) (w\<lparr>tw_policy := e\<rparr>);
                left = w\<lparr>tw_policy := abandon f (tw_policy w)\<rparr>
            in case ti_wait io of
                 WaitFailed msg \<Rightarrow> close_request t c io request
                   (emit_then scrub c io ''failed'' None (Some msg) (terminal_data c receipt)
                     (\<lambda>w. (Raised (Failed msg), observe False w))) w
               | WaitCancelled in_callback \<Rightarrow> wait_cancelled scrub t c io request receipt (if in_callback then w else left)
               | WaitSignalled \<Rightarrow> close_request t c io request
                   (emit_then scrub c io ''cancelled'' None (Some ''cancelled'') (terminal_data c receipt)
                     (finish_tool (failed_call t name ''Tool execution cancelled'' JNull (Some receipt) KnownFailure True))) left
               | WaitDone \<Rightarrow>
                   (case pg_futures (tw_policy w) f of
                      Some (Answered True) \<Rightarrow> k (user_receipt io True receipt) w
                    | Some (Answered False) \<Rightarrow>
                        emit_then scrub c io ''cancelled'' None (Some ''permission_denied'') (refused_data c receipt)
                          (finish_tool (failed_call t name
                            (''Tool '' @ [CHR 0x27] @ name @ [CHR 0x27] @ '' was denied by user'') JNull
                            (Some (user_receipt io False receipt)) KnownFailure True)) w
                    | Some Abandoned \<Rightarrow> wait_cancelled scrub t c io request receipt w
                    | _ \<Rightarrow> (Blocked, w))))"

definition permission_gate :: "(string \<Rightarrow> string \<times> bool) \<Rightarrow> (string \<Rightarrow> string) \<Rightarrow> tool_entry \<Rightarrow> tool_params \<Rightarrow> tool_call \<Rightarrow> tool_io
    \<Rightarrow> verdict \<Rightarrow> (permission_receipt \<Rightarrow> tool_world \<Rightarrow> tool_outcome \<times> tool_world) \<Rightarrow> tool_world \<Rightarrow> tool_outcome \<times> tool_world" where
  "permission_gate url scrub t p c io v k w =
     (if vd_confirm v \<and> text_or_empty (vd_request v) \<noteq> [] then ask_user url scrub t p c io v k w
      else if \<not> vd_allowed v \<and> \<not> (vd_confirm v \<and> pr_decision (vd_receipt v) = Allowed)
      then emit_then scrub c io ''failed'' None (Some (vd_reason v)) (refused_data c (vd_receipt v))
             (finish_tool (failed_call t (xp_tool_name p) (vd_reason v) JNull (Some (vd_receipt v)) KnownFailure True)) w
      else k (vd_receipt v) w)"

section \<open>Running the handler\<close>

text \<open>\<open>_mint_execution_permit\<close> wants a fresh decision of the user for this tool.\<close>

definition permit_refused :: "tool_entry \<Rightarrow> tool_io \<Rightarrow> permission_receipt \<Rightarrow> string option" where
  "permit_refused t io r =
     (if \<not> tn_needs_permit t then None
      else case ti_permit_fails io of
          Some msg \<Rightarrow> Some msg
        | None \<Rightarrow>
            if pr_decision r \<noteq> Allowed \<or> pr_reason_code r \<noteq> ''user_allowed'' \<or> pr_decided_at r = None \<or>
               pr_capability_id r \<noteq> td_name (tn_definition t)
            then Some ''execution permit requires a fresh matching user decision'' else None)"

text \<open>How the handler and the plugins after it ended: a failing plugin does not undo the handler's result.\<close>

definition handler_end :: "tool_io \<Rightarrow> ran" where
  "handler_end io = (case ti_handler io of
     RanResult r \<Rightarrow> (case ti_after io of RanFailed msg \<Rightarrow> RanResult r | x \<Rightarrow> x)
   | x \<Rightarrow> x)"

definition recheck_capable :: "tool_entry \<Rightarrow> permission_receipt \<Rightarrow> bool" where
  "recheck_capable t r \<longleftrightarrow> tool_may_change_state t \<and> tn_has_recheck t \<and> pr_redacted_paths r = []"

definition interrupted_outcome :: "tool_entry \<Rightarrow> effect_outcome" where
  "interrupted_outcome t = (if tool_may_change_state t then UnknownEffect else KnownFailure)"

definition interrupted_data :: "tool_entry \<Rightarrow> tool_call \<Rightarrow> tool_io \<Rightarrow> permission_receipt \<Rightarrow> dict \<Rightarrow> dict \<Rightarrow> dict" where
  "interrupted_data t c io r before after =
     dict_union (terminal_data c r) ([(''durationMs'', JInt (ti_duration io))] @ before @
       [(''effectOutcome'', JStr (outcome_text (interrupted_outcome t)))] @ after)"

definition unknown_code :: "tool_entry \<Rightarrow> json" where
  "unknown_code t = (if tool_may_change_state t then code_data ''TOOL_OUTCOME_UNKNOWN'' else JNull)"

definition completed_data :: "tool_entry \<Rightarrow> tool_call \<Rightarrow> tool_io \<Rightarrow> permission_receipt \<Rightarrow> tool_result \<Rightarrow> dict" where
  "completed_data t c io r e =
     (let d = dict_union (terminal_data c r) ([(''durationMs'', JInt (ti_duration io)), (''artifactCount'', JInt (ti_artifacts io)),
            (''recheckAvailable'', JBool (tn_has_recheck t \<and> pr_redacted_paths r = []))] @ ti_verification io @
            optional_text ''resultSummary'' (Some (ti_summary io)))
      in dict_union d [(''effectOutcome'', JStr (outcome_text (te_outcome e))),
           (''retryable'', if te_outcome e = KnownSuccess then dict_get d ''retryable'' else JBool (te_retryable e))])"

definition end_tool :: "(string \<Rightarrow> string) \<Rightarrow> tool_entry \<Rightarrow> tool_params \<Rightarrow> tool_call \<Rightarrow> tool_io \<Rightarrow> permission_receipt
    \<Rightarrow> tool_world \<Rightarrow> tool_outcome \<times> tool_world" where
  "end_tool scrub t p c io r w =
     (let name = xp_tool_name p; recheck = (''recheckAvailable'', JBool (recheck_capable t r)); changes = tool_may_change_state t
      in case handler_end io of
           RanCancelled \<Rightarrow>
             emit_then scrub c io ''cancelled'' None (Some ''cancelled'') (interrupted_data t c io r [] [recheck])
               (finish_tool (failed_call t name
                 (if changes then ''Tool execution cancelled after dispatch; effect is unknown''
                  else ''Tool execution cancelled after read dispatch'')
                 (unknown_code t) (Some r) (interrupted_outcome t) (\<not> changes))) w
         | RanFailed msg \<Rightarrow>
             emit_then scrub c io ''failed'' None (Some msg)
               (interrupted_data t c io r [] (if changes then [(''retryable'', JBool False), recheck] else [(''retryable'', JBool True)]))
               (finish_tool (failed_call t name
                 (if changes then ''Tool execution failed after dispatch; effect is unknown''
                  else ''Read-only tool execution failed after dispatch'')
                 (unknown_code t) (Some r) (interrupted_outcome t) (\<not> changes))) w
         | RanSignalled \<Rightarrow>
             emit_then scrub c io ''cancelled'' (Some 1) (Some ''cancelled'')
               (interrupted_data t c io r [(''cancellationReason'', JStr ''cancelled'')] [recheck])
               (finish_tool (failed_call t name
                 (if changes then ''Tool execution cancelled after dispatch; effect is unknown''
                  else ''Tool execution cancelled after read dispatch'')
                 (unknown_code t) (Some r) (interrupted_outcome t) (\<not> changes))) w
         | RanResult e \<Rightarrow>
             emit_then scrub c io (if te_outcome e = KnownSuccess then ''completed'' else ''failed'') (Some 1)
               (if te_outcome e = KnownSuccess then None
                else Some (case te_error e of None \<Rightarrow> ''None'' | Some msg \<Rightarrow> msg))
               (completed_data t c io r e) (finish_tool (e\<lparr>te_receipt := Some r\<rparr>)) w)"

definition run_tool_call :: "(string \<Rightarrow> string \<times> bool) \<Rightarrow> (string \<Rightarrow> string) \<Rightarrow> tool_entry \<Rightarrow> tool_params \<Rightarrow> tool_call \<Rightarrow> tool_io
    \<Rightarrow> dict \<Rightarrow> permission_receipt \<Rightarrow> tool_world \<Rightarrow> tool_outcome \<times> tool_world" where
  "run_tool_call url scrub t p c io args r w =
     emit_then scrub c io ''running'' None None (cl_job_data c)
       (\<lambda>w. case permit_refused t io r of
          Some msg \<Rightarrow> emit_then scrub c io ''failed'' None (Some msg)
            (dict_union (terminal_data c r) [(''durationMs'', JInt (ti_duration io))])
            (\<lambda>w. (Raised (Failed msg), observe False w)) w
        | None \<Rightarrow> end_tool scrub t p c io r
            (others_act url scrub (ti_others_running io) (w\<lparr>tw_dispatched := tw_dispatched w @ [args]\<rparr>))) w"

section \<open>The call\<close>

definition pre_dispatch_failure :: "(string \<Rightarrow> string) \<Rightarrow> tool_entry \<Rightarrow> tool_params \<Rightarrow> tool_call \<Rightarrow> tool_io \<Rightarrow> string
    \<Rightarrow> tool_world \<Rightarrow> tool_outcome \<times> tool_world" where
  "pre_dispatch_failure scrub t p c io msg w =
     emit_then scrub c io ''failed'' None (Some msg)
       (dict_union (cl_job_data c) [(''retryable'', JBool True), (''dispatchStarted'', JBool False)])
       (finish_tool (failed_call t (xp_tool_name p) (''Tool pre-dispatch policy failure: '' @ msg)
         (code_data ''TOOL_PRE_DISPATCH_FAILURE'') None KnownFailure True)) w"

definition evaluate_call :: "(string \<Rightarrow> string \<times> bool) \<Rightarrow> tool_entry \<Rightarrow> tool_call \<Rightarrow> tool_io \<Rightarrow> dict \<Rightarrow> tool_world
    \<Rightarrow> (policy_error + policy_decision) \<times> tool_world" where
  "evaluate_call url t c io args w =
     (let (d, e) = evaluate_tool url (ti_now io) (ti_disk io) (ti_ids io) (tn_definition t) (Some (cl_request_id c))
            (tc_permission_scope (cl_ctx c)) (JObj args) (cl_force c) (tw_policy w)
      in (d, w\<lparr>tw_policy := e\<rparr>))"

definition cancelled_early :: "(string \<Rightarrow> string) \<Rightarrow> tool_call \<Rightarrow> tool_io \<Rightarrow> tool_world \<Rightarrow> tool_outcome \<times> tool_world" where
  "cancelled_early scrub c io w = emit_then scrub c io ''cancelled'' None (Some ''cancelled'') (cl_job_data c)
     (\<lambda>w. (Raised Cancelled, observe False w)) w"

definition decide_call :: "(string \<Rightarrow> string \<times> bool) \<Rightarrow> (string \<Rightarrow> string) \<Rightarrow> tool_entry \<Rightarrow> tool_params \<Rightarrow> tool_call \<Rightarrow> tool_io
    \<Rightarrow> tool_world \<Rightarrow> tool_outcome \<times> tool_world" where
  "decide_call url scrub t p c io w =
     (let w = others_act url scrub (ti_others_deciding io) w
      in case ti_prepared io of
           PrepareCancelled \<Rightarrow> cancelled_early scrub c io w
         | PrepareFailed msg \<Rightarrow> pre_dispatch_failure scrub t p c io msg w
         | CancelledDeciding args \<Rightarrow> cancelled_early scrub c io (snd (evaluate_call url t c io args w))
         | Prepared args \<Rightarrow>
             (case evaluate_call url t c io args w of
                (Inl err, w) \<Rightarrow> pre_dispatch_failure scrub t p c io (ti_disk_error io) w
              | (Inr d, w) \<Rightarrow>
                  permission_gate url scrub t p c io (verdict_of url t c (ti_ids io) args d)
                    (run_tool_call url scrub t p c io args) w))"

definition start_call :: "(string \<Rightarrow> string \<times> bool) \<Rightarrow> (string \<Rightarrow> string) \<Rightarrow> tool_entry \<Rightarrow> tool_params \<Rightarrow> tool_call \<Rightarrow> tool_io
    \<Rightarrow> tool_world \<Rightarrow> tool_outcome \<times> tool_world" where
  "start_call url scrub t p c io w =
     (case tool_job_event scrub c io ''created'' None None (cl_job_data c) w of
        (EventRaised e, w') \<Rightarrow> (Raised (JobLogFailed e), w')
      | (EventCapacity, w') \<Rightarrow> finish_tool (failed_call t (xp_tool_name p)
            ''Tool execution rejected: companion job capacity exceeded'' (code_data ''TOOL_JOB_CAPACITY_EXCEEDED'') None
            KnownFailure True) w'
      | (EventOk, w') \<Rightarrow>
          if ti_cancelled_at_start io
          then emit_then scrub c io ''cancelled'' None (Some ''cancelled'') (cl_job_data c)
                 (finish_tool (failed_call t (xp_tool_name p) ''Tool execution cancelled'' JNull None KnownFailure True)) w'
          else decide_call url scrub t p c io w')"

definition execute_tool :: "(string \<Rightarrow> string \<times> bool) \<Rightarrow> (string \<Rightarrow> string) \<Rightarrow> (string \<Rightarrow> tool_entry option) \<Rightarrow> tool_params
    \<Rightarrow> tool_io \<Rightarrow> tool_world \<Rightarrow> tool_outcome \<times> tool_world" where
  "execute_tool url scrub registry p io w =
     (case registry (xp_tool_name p) of
        None \<Rightarrow> finish_tool (failed_result_envelope ''builtin'' (xp_tool_name p) (''Unknown tool: '' @ xp_tool_name p) JNull None
            KnownFailure True) w
      | Some t \<Rightarrow>
          if \<not> xp_retry p then start_call url scrub t p (new_call t p io (xp_force p)) io w
          else case validate_retry_request registry (xp_tool_name p) (xp_args p) (xp_ctx p) (xp_run_id p) (xp_job_id p) (tw_log w) of
              Inl e \<Rightarrow> finish_tool (failed_call t (xp_tool_name p) (''Tool retry rejected: '' @ retry_error_text e)
                (JObj [(''code'', JStr ''TOOL_RETRY_NOT_AUTHORIZED''), (''reason'', JStr (retry_error_text e))]) None KnownFailure False) w
            | Inr unknown_write \<Rightarrow> start_call url scrub t p (new_call t p io (xp_force p \<or> unknown_write)) io w)"

end
