(* ===== verification/Tool_Runs.thy ===== *)
theory Tool_Runs
  imports Tool_Executor Job_Properties
begin

text \<open>
  One tool call in any environment: when its handler is dispatched, how its job ends, and what an
  interrupted call reports.
\<close>

section \<open>Dispatch\<close>

lemma job_event_fields [simp]:
  "tw_dispatched (snd (tool_job_event scrub c io st pr er d w)) = tw_dispatched w"
  "tw_policy (snd (tool_job_event scrub c io st pr er d w)) = tw_policy w"
  by (auto simp: tool_job_event_def split: option.splits prod.splits sum.splits job_error.splits)

lemma finish_fields [simp]:
  "tw_dispatched (snd (finish_tool e w)) = tw_dispatched w" "tw_dispatched (observe b w) = tw_dispatched w"
  "tw_policy (observe b w) = tw_policy w" "tw_log (observe b w) = tw_log w" "fst (finish_tool e w) = Returned e"
  "tw_log (snd (finish_tool e w)) = tw_log w"
  by (simp_all add: finish_tool_def observe_def)

lemma emit_dispatched:
  assumes "\<And>w. tw_dispatched (snd (k w)) = tw_dispatched w"
  shows "tw_dispatched (snd (emit_then scrub c io st pr er d k w)) = tw_dispatched w"
proof -
  obtain x w1 where "tool_job_event scrub c io st pr er d w = (x, w1)" by fastforce
  moreover from this have "tw_dispatched w1 = tw_dispatched w" using job_event_fields(1) [of scrub c io st pr er d w] by simp
  ultimately show ?thesis using assms by (cases x) (simp_all add: emit_then_def)
qed

lemma close_dispatched:
  assumes "\<And>w. tw_dispatched (snd (k w)) = tw_dispatched w"
  shows "tw_dispatched (snd (close_request t c io request k w)) = tw_dispatched w"
  using assms by (simp add: close_request_def split: prod.splits sum.splits)

lemma wait_dispatched: "tw_dispatched (snd (wait_cancelled scrub t c io request r w)) = tw_dispatched w"
  by (simp add: wait_cancelled_def close_dispatched emit_dispatched)

lemma others_dispatched [simp]: "tw_dispatched (others_act url scrub acts w) = tw_dispatched w"
  by (simp add: others_act_def)

lemma end_dispatched: "tw_dispatched (snd (end_tool scrub t p c io r w)) = tw_dispatched w"
  by (simp add: end_tool_def emit_dispatched Let_def split: ran.splits)

lemma early_dispatched:
  "tw_dispatched (snd (cancelled_early scrub c io w)) = tw_dispatched w"
  "tw_dispatched (snd (pre_dispatch_failure scrub t p c io msg w)) = tw_dispatched w"
  "tw_dispatched (snd (evaluate_call url t c io args w)) = tw_dispatched w"
  by (simp_all add: cancelled_early_def pre_dispatch_failure_def emit_dispatched evaluate_call_def split: prod.splits)

text \<open>The answer of the user after what others did while the call waited.\<close>

definition user_answer :: "(string \<Rightarrow> string \<times> bool) \<Rightarrow> tool_io \<Rightarrow> string \<Rightarrow> policy_engine \<Rightarrow> answer option" where
  "user_answer url io request e =
     pg_futures (policy_run url (fst (ti_others_waiting io)) (snd (register_pending request e))) (pg_next_future e)"

lemma ask_dispatched:
  "tw_dispatched (snd (ask_user url scrub t p c io v k w)) = tw_dispatched w \<or>
   user_answer url io (text_or_empty (vd_request v)) (tw_policy w) = Some (Answered True)"
proof -
  have "fst (register_pending request e) = pg_next_future e" for request e by (simp add: register_pending_def Let_def)
  then have reg: "register_pending request e = (pg_next_future e, snd (register_pending request e))" for request e
    by (metis prod.collapse)
  show ?thesis
    unfolding ask_user_def Let_def
    by (subst reg) (auto simp: user_answer_def others_act_def emit_dispatched close_dispatched wait_dispatched
      split: wait.splits option.splits answer.splits)
qed

lemma verdict_engine:
  assumes "fst (evaluate_tool url now disk ids def request scope parameters (cl_force c) e) = Inr d"
  shows "vd_allowed (verdict_of url t c ids args d) = pd_allowed d"
    "vd_confirm (verdict_of url t c ids args d) = pd_require_confirm d"
    "pd_require_confirm d \<Longrightarrow> vd_request (verdict_of url t c ids args d) = Some (fi_permission ids)"
    "pd_require_confirm d \<Longrightarrow> pr_decision (vd_receipt (verdict_of url t c ids args d)) = Required"
proof -
  have "pd_allowed d \<Longrightarrow> \<not> cl_force c"
    using evaluate_follows_preview [OF assms] preview_allowedD(1) by blast
  then show "vd_allowed (verdict_of url t c ids args d) = pd_allowed d"
    "vd_confirm (verdict_of url t c ids args d) = pd_require_confirm d"
    by (auto simp: verdict_of_def Let_def)
  assume confirm: "pd_require_confirm d"
  show "vd_request (verdict_of url t c ids args d) = Some (fi_permission ids)"
    "pr_decision (vd_receipt (verdict_of url t c ids args d)) = Required"
    using evaluate_confirm_receipt [OF assms confirm] confirm by (auto simp: verdict_of_def text_or_empty_def Let_def)
qed

lemma gate_dispatched:
  assumes "tw_dispatched (snd (permission_gate url scrub t p c io v k w)) \<noteq> tw_dispatched w"
  shows "vd_confirm v \<and> text_or_empty (vd_request v) \<noteq> [] \<and>
      user_answer url io (text_or_empty (vd_request v)) (tw_policy w) = Some (Answered True) \<or>
    vd_allowed v \<or> vd_confirm v \<and> pr_decision (vd_receipt v) = Allowed"
  using assms ask_dispatched [of url scrub t p c io v k w]
  by (auto simp: permission_gate_def emit_dispatched split: if_splits)

lemma user_said_yes:
  assumes "user_answer url io request e = Some (Answered True)" and "pendings_ok e"
  shows "\<exists>now remember tool scope. Resolve now True request True remember tool scope \<in> set (fst (ti_others_waiting io))"
proof -
  have "pg_futures (snd (register_pending request e)) (pg_next_future e) = Some Waiting"
    by (simp add: register_pending_def Let_def)
  with owner_answered [OF owned_register [OF assms(2)], of request url] assms(1) show ?thesis
    by (simp add: user_answer_def)
qed

text \<open>Why a handler may be dispatched: the policy as it stands, or the user's answer to this request.\<close>

definition policy_allows :: "policy_engine \<Rightarrow> tool_entry \<Rightarrow> tool_call \<Rightarrow> bool" where
  "policy_allows e t c \<longleftrightarrow> pd_allowed (preview_tool (tn_definition t) (tc_permission_scope (cl_ctx c)) (cl_force c) e)"

definition user_confirms :: "tool_io \<Rightarrow> bool" where
  "user_confirms io \<longleftrightarrow> (\<exists>now remember tool scope.
     Resolve now True (fi_permission (ti_ids io)) True remember tool scope \<in> set (fst (ti_others_waiting io)))"

lemma decide_dispatched:
  assumes "tw_dispatched (snd (decide_call url scrub t p c io w)) \<noteq> tw_dispatched w" and "pendings_ok (tw_policy w)"
  shows "policy_allows (policy_run url (fst (ti_others_deciding io)) (tw_policy w)) t c \<or> user_confirms io"
proof -
  let ?w = "others_act url scrub (ti_others_deciding io) w"
  have pol: "tw_policy ?w = policy_run url (fst (ti_others_deciding io)) (tw_policy w)" by (simp add: others_act_def)
  have ok: "pendings_ok (tw_policy ?w)" unfolding pol by (rule pendings_ok_run [OF assms(2)])
  obtain args where args: "ti_prepared io = Prepared args"
    using assms(1) by (cases "ti_prepared io") (auto simp: decide_call_def Let_def early_dispatched)
  obtain d e where ev: "evaluate_tool url (ti_now io) (ti_disk io) (ti_ids io) (tn_definition t) (Some (cl_request_id c))
      (tc_permission_scope (cl_ctx c)) (JObj args) (cl_force c) (tw_policy ?w) = (d, e)" by fastforce
  let ?v = "\<lambda>x. verdict_of url t c (ti_ids io) args x"
  show ?thesis
  proof (cases d)
    case (Inl err)
    with assms(1) args ev show ?thesis by (simp add: decide_call_def evaluate_call_def early_dispatched Let_def)
  next
    case (Inr x)
    have fst: "fst (evaluate_tool url (ti_now io) (ti_disk io) (ti_ids io) (tn_definition t) (Some (cl_request_id c))
      (tc_permission_scope (cl_ctx c)) (JObj args) (cl_force c) (tw_policy ?w)) = Inr x" using ev Inr by simp
    note v = verdict_engine [OF fst, of t args]
    have follows: "pd_allowed x = policy_allows (tw_policy ?w) t c"
      using evaluate_follows_preview [OF fst] by (simp add: policy_allows_def)
    have pend: "pendings_ok e"
      using ok ev evaluate_fields(3,4) [of url "ti_now io" "ti_disk io" "ti_ids io" "tn_definition t" "Some (cl_request_id c)"
        "tc_permission_scope (cl_ctx c)" "JObj args" "cl_force c" "tw_policy ?w"] by (simp add: pendings_ok_def)
    have "tw_dispatched (snd (permission_gate url scrub t p c io (?v x) (run_tool_call url scrub t p c io args) (?w\<lparr>tw_policy := e\<rparr>)))
        \<noteq> tw_dispatched (?w\<lparr>tw_policy := e\<rparr>)"
      using assms(1) args ev Inr by (simp add: decide_call_def evaluate_call_def Let_def)
    from gate_dispatched [OF this] show ?thesis
    proof (elim disjE conjE)
      assume "vd_confirm (?v x)" "text_or_empty (vd_request (?v x)) \<noteq> []"
        "user_answer url io (text_or_empty (vd_request (?v x))) (tw_policy (?w\<lparr>tw_policy := e\<rparr>)) = Some (Answered True)"
      moreover from this v(2,3) have "vd_request (?v x) = Some (fi_permission (ti_ids io))"
        by simp
      ultimately show ?thesis using user_said_yes [OF _ pend, of url io] by (simp add: user_confirms_def text_or_empty_def)
    qed (use v follows pol in auto)
  qed
qed

section \<open>The end of a job in the log\<close>

lemma throttle_is_progress: "transition_of a t data lp p = Throttle d \<Longrightarrow> ja_status a = ''progress''"
  by (auto simp: transition_of_def Let_def split: if_splits)

lemma append_existing_status:
  assumes inv: "job_inv l" and args: "args_ok a" and F: "map_of (jl_events l) key = Some es"
    and slot: "slot (map_of (jl_events l)) (ja_workspace_id a) (ja_job_id a) key"
    and res: "append_existing a key pkey t data ty es l = (Inr x, l')" and status: "ja_status a \<noteq> ''progress''"
    and h: "histories l' (ja_workspace_id a) (ja_job_id a) h"
  shows "je_status (last h) = ja_status a"
proof -
  note i = job_invD [OF inv]
  have names: "nul_free (ja_workspace_id a)" "nul_free (ja_job_id a)" using args by (simp_all add: args_ok_def)
  have entry: "history_ok (jl_max_events l) es" "jl_next_revision l key = Some (je_revision (last es) + 1)"
      "key \<in> jl_terminal l \<longleftrightarrow> je_status (last es) \<in> terminal_statuses"
    using i(5) [of key] F by (simp_all add: entry_ok_def)
  have id: "hist_ws es = ja_workspace_id a" "hist_job es = ja_job_id a" "stored_names (last es)"
    using slot F entry(1) by (simp_all add: slot_def history_ok_def)
  obtain d where tr: "transition_of a t data (jl_last_progress l key) (last es) = Accept d"
    using res status throttle_is_progress
    by (cases "transition_of a t data (jl_last_progress l key) (last es)") (fastforce simp: append_existing_def)+
  let ?e = "build_event a ty (je_revision (last es) + 1) t d"
  have l': "l' = commit_event key pkey t es ?e l"
    using res tr entry(2) by (simp add: append_existing_def Let_def)
  note acc = transition_cases(2) [OF tr]
  have same: "same_job (last es) ?e" using identity_kept acc id(2,3) by blast
  have hist: "history_ok (jl_max_events l) (trim_job_events (jl_max_events l) (es @ [?e]))"
    using history_ok_extend [OF entry(1) i(3) same] by simp
  have over: "key \<in> jl_terminal l \<Longrightarrow> je_status ?e \<in> terminal_statuses"
    using entry(3) acc by (auto simp: terminal_statuses_def)
  have "h = trim_job_events (jl_max_events l) (es @ [?e])"
    using commit_ok(2) [OF inv slot names _ _ _ hist over, of pkey t "ja_workspace_id a" "ja_job_id a" h] h F by (simp add: l')
  then show ?thesis using trim_history(3) [OF i(3), of "es @ [?e]"] by simp
qed

lemma append_first_status:
  assumes inv: "job_inv l" and args: "args_ok a" and F: "map_of (jl_events l) key = None"
    and slot: "slot (map_of (jl_events l)) (ja_workspace_id a) (ja_job_id a) key"
    and res: "append_first a key pkey t data ty l = (Inr x, l')"
    and h: "histories l' (ja_workspace_id a) (ja_job_id a) h"
  shows "je_status (last h) = ja_status a"
proof -
  note i = job_invD [OF inv]
  have names: "nul_free (ja_workspace_id a)" "nul_free (ja_job_id a)" using args by (simp_all add: args_ok_def)
  obtain ok l1 where ev: "evict_terminal_job l = (ok, l1)" by fastforce
  have l1: "job_inv l1 \<and> map_of (jl_events l1) key = None \<and> slot (map_of (jl_events l1)) (ja_workspace_id a) (ja_job_id a) key \<and>
      length (jl_events l1) < jl_max_jobs l1 \<and> ok"
  proof (cases rule: evict_job_cases [OF inv ev, case_names room full evict])
    case room
    with inv F slot show ?thesis by simp
  next
    case full
    with ev res show ?thesis by (simp add: append_first_def)
  next
    case (evict k es)
    have F1: "map_of (jl_events l1) = (map_of (jl_events l))(k := None)" by (auto simp: evict(4) fun_eq_iff)
    from pop_ok [OF inv evict(2,4-8)] slot_pop [OF slot F, of k] evict(1) F show ?thesis unfolding F1 by simp
  qed
  let ?e = "build_event a ty 1 t data"
  have "jl_next_revision l1 key = None" "key \<notin> jl_terminal l1"
    using l1 job_invD(5) [of l1 key] by (auto simp: entry_ok_def)
  moreover from this(1) have l': "l' = commit_event key pkey t [] ?e l1"
    using res ev l1 by (simp add: append_first_def Let_def)
  moreover have "history_ok (jl_max_events l1) (trim_job_events (jl_max_events l1) ([] @ [?e]))"
    using history_ok_first job_invD(3) [of l1] l1 by simp
  ultimately have "h = trim_job_events (jl_max_events l1) ([] @ [?e])"
    using commit_ok(2) [of l1 "ja_workspace_id a" "ja_job_id a" key ?e "[]" pkey t "ja_workspace_id a" "ja_job_id a" h] h l1 names
    by simp
  then show ?thesis using trim_history(3) [of "jl_max_events l1" "[] @ [?e]"] job_invD(3) [of l1] l1 by simp
qed

lemma append_first_capacity:
  assumes "append_first a key pkey t data ty l = (Inl JobCapacity, l')"
  shows "l' = l"
  using assms by (auto simp: append_first_def evict_terminal_job_def Let_def split: if_splits option.splits prod.splits)

lemma append_existing_no_capacity: "append_existing a key pkey t data ty es l \<noteq> (Inl JobCapacity, l')"
  by (auto simp: append_existing_def transition_of_def Let_def split: transition.splits if_splits)

lemma job_append_status:
  assumes inv: "job_inv l" and args: "args_ok a" and key: "projection_key_of a = None" and status: "ja_status a \<noteq> ''progress''"
    and res: "job_append scrub a l = (res, l')" "(\<exists>x. res = Inr x) \<or> res = Inl JobCapacity"
    and h: "histories l' (ja_workspace_id a) (ja_job_id a) h"
  shows "je_status (last h) = ja_status a"
proof -
  obtain t where t: "event_time (ja_timestamp a) = Some t"
    using res by (cases "event_time (ja_timestamp a)") (auto simp: job_append_def)
  obtain k l1 where sk: "storage_key (ja_workspace_id a) (ja_job_id a) l = (k, l1)" by fastforce
  have names: "nul_free (ja_workspace_id a)" "nul_free (ja_job_id a)" using args by (simp_all add: args_ok_def)
  note ok = storage_key_ok [OF inv names sk]
  obtain ty where ty: "map_of event_types (ja_status a) = Some ty"
    using res t sk key by (cases "map_of event_types (ja_status a)") (auto simp: job_append_def Let_def)
  show ?thesis
  proof (cases "map_of (jl_events l1) k")
    case None
    then have eq: "append_first a k None t (job_data scrub (ja_data a)) ty l1 = (res, l')"
      using res t sk key ty by (simp add: job_append_def Let_def)
    show ?thesis
    proof (cases res)
      case (Inl e)
      with res(2) eq have "l' = l1" using append_first_capacity by auto
      with h slot_history [OF job_invD(4) [OF ok(1)] ok(3), of h] None show ?thesis by simp
    next
      case (Inr x)
      with append_first_status [OF ok(1) args None ok(3)] eq h show ?thesis by blast
    qed
  next
    case (Some es)
    then obtain x xs where es: "es = x # xs" using keyedD(1) [OF job_invD(4) [OF ok(1)] Some] by (cases es) auto
    then have eq: "append_existing a k None t (job_data scrub (ja_data a)) ty es l1 = (res, l')"
      using res t sk key ty Some by (simp add: job_append_def Let_def)
    then obtain y where "res = Inr y" using res(2) append_existing_no_capacity by blast
    with append_existing_status [OF ok(1) args Some ok(3)] eq status h show ?thesis by blast
  qed
qed

text \<open>The log of the world is sound, and the job of a call is not left running.\<close>

definition world_ok :: "tool_world \<Rightarrow> bool" where
  "world_ok w \<longleftrightarrow> (\<forall>l. tw_log w = Some l \<longrightarrow> job_inv l)"

definition names_ok :: "tool_call \<Rightarrow> bool" where
  "names_ok c \<longleftrightarrow> nul_free (event_workspace (cl_ctx c)) \<and> nul_free (cl_job_id c)"

definition others_ok :: "policy_cmd list \<times> job_args list \<Rightarrow> bool" where
  "others_ok acts \<longleftrightarrow> list_all args_ok (snd acts)"

definition ended :: "tool_call \<Rightarrow> tool_world \<Rightarrow> bool" where
  "ended c w \<longleftrightarrow> (\<forall>l es. tw_log w = Some l \<longrightarrow> histories l (event_workspace (cl_ctx c)) (cl_job_id c) es \<longrightarrow>
     je_status (last es) \<in> terminal_statuses)"

definition unsaved_close :: "tool_io \<Rightarrow> tool_outcome \<Rightarrow> bool" where
  "unsaved_close io out \<longleftrightarrow> \<not> ti_answer_disk io \<and> out = Raised (Failed (ti_disk_error io))"

definition ends :: "tool_call \<Rightarrow> tool_io \<Rightarrow> tool_outcome \<times> tool_world \<Rightarrow> bool" where
  "ends c io x \<longleftrightarrow> fst x = Blocked \<or> (\<exists>e. fst x = Raised (JobLogFailed e)) \<or> unsaved_close io (fst x) \<or> ended c (snd x)"

lemma job_event_ok:
  assumes "tool_job_event scrub c io st pr er d w = (x, w1)" and "world_ok w" and "names_ok c"
  shows "world_ok w1" "st \<in> terminal_statuses \<Longrightarrow> (\<And>e. x \<noteq> EventRaised e) \<Longrightarrow> ended c w1"
proof -
  let ?a = "tool_event_args c (ti_clock io st) st pr er d"
  have a: "args_ok ?a" "projection_key_of ?a = None" "ja_status ?a = st"
      "ja_workspace_id ?a = event_workspace (cl_ctx c)" "ja_job_id ?a = cl_job_id c"
    using assms(3) by (simp_all add: args_ok_def names_ok_def tool_event_args_def projection_key_of_def text_or_empty_def)
  have "world_ok w1 \<and> (st \<in> terminal_statuses \<longrightarrow> (\<forall>e. x \<noteq> EventRaised e) \<longrightarrow> ended c w1)"
  proof (cases "tw_log w")
    case None
    with assms(1) show ?thesis by (auto simp: tool_job_event_def world_ok_def ended_def)
  next
    case (Some l)
    then have inv: "job_inv l" using assms(2) by (simp add: world_ok_def)
    obtain res l' where app: "job_append scrub ?a l = (res, l')" by fastforce
    have w1: "tw_log w1 = Some l'"
      using assms(1) Some app by (auto simp: tool_job_event_def split: sum.splits job_error.splits)
    have "job_inv l'" using job_append_effect [OF inv a(1), of scrub] app by (simp add: effect_on_def)
    moreover have "je_status (last h) = st" if "st \<in> terminal_statuses" "\<forall>e. x \<noteq> EventRaised e"
        "histories l' (event_workspace (cl_ctx c)) (cl_job_id c) h" for h
    proof -
      have "(\<exists>y. res = Inr y) \<or> res = Inl JobCapacity"
        using assms(1) Some app that(2) by (auto simp: tool_job_event_def split: sum.splits job_error.splits)
      moreover have "ja_status ?a \<noteq> ''progress''" using that(1) a(3) by (auto simp: terminal_statuses_def)
      ultimately show ?thesis using job_append_status [OF inv a(1,2) _ app] that(3) a(3-5) by simp
    qed
    ultimately show ?thesis using w1 by (auto simp: world_ok_def ended_def)
  qed
  then show "world_ok w1" "st \<in> terminal_statuses \<Longrightarrow> (\<And>e. x \<noteq> EventRaised e) \<Longrightarrow> ended c w1" by blast+
qed

lemma emit_terminal:
  assumes "world_ok w" and "names_ok c" and "st \<in> terminal_statuses" and "\<And>w. tw_log (snd (k w)) = tw_log w"
  shows "ends c io (emit_then scrub c io st pr er d k w)"
proof -
  obtain x w1 where ev: "tool_job_event scrub c io st pr er d w = (x, w1)" by fastforce
  show ?thesis
  proof (cases x)
    case (EventRaised e)
    with ev show ?thesis by (simp add: emit_then_def ends_def)
  qed (use ev job_event_ok(2) [OF ev assms(1-3)] assms(4) in \<open>auto simp: emit_then_def ends_def ended_def\<close>)
qed

lemma emit_next:
  assumes "world_ok w" and "names_ok c" and "\<And>w. world_ok w \<Longrightarrow> ends c io (k w)"
  shows "ends c io (emit_then scrub c io st pr er d k w)"
proof -
  obtain x w1 where ev: "tool_job_event scrub c io st pr er d w = (x, w1)" by fastforce
  show ?thesis
  proof (cases x)
    case (EventRaised e)
    with ev show ?thesis by (simp add: emit_then_def ends_def)
  qed (use ev job_event_ok(1) [OF ev assms(1,2)] assms(3) in \<open>auto simp: emit_then_def\<close>)
qed

lemma terminal_names [simp]:
  "''cancelled'' \<in> terminal_statuses" "''failed'' \<in> terminal_statuses" "''completed'' \<in> terminal_statuses"
  by (simp_all add: terminal_statuses_def)

lemma world_ok_log: "tw_log w' = tw_log w \<Longrightarrow> world_ok w' = world_ok w"
  by (simp add: world_ok_def)

lemma close_ends:
  assumes "world_ok w" and "\<And>w. world_ok w \<Longrightarrow> ends c io (k w)"
  shows "ends c io (close_request t c io request k w)"
proof -
  obtain r e where res: "resolve_pending (ti_now io) (ti_answer_disk io) request False False (Some (td_name (tn_definition t)))
      (tc_permission_scope (cl_ctx c)) (tw_policy w) = (r, e)" by fastforce
  show ?thesis
  proof (cases r)
    case (Inl x)
    with res have "\<not> ti_answer_disk io"
      by (cases "open_future request (tw_policy w)"; cases "ti_answer_disk io") (auto simp: resolve_eq)
    with Inl res show ?thesis by (simp add: close_request_def ends_def unsaved_close_def)
  next
    case (Inr x)
    have "world_ok (w\<lparr>tw_policy := e\<rparr>)" using assms(1) by (simp add: world_ok_def)
    with Inr res assms(2) show ?thesis by (simp add: close_request_def)
  qed
qed

lemma others_world:
  assumes "world_ok w" and "others_ok acts"
  shows "world_ok (others_act url scrub acts w)"
proof -
  have "job_inv (fold (\<lambda>a l. snd (job_append scrub a l)) xs l)" if "job_inv l" "list_all args_ok xs" for xs l
    using job_run_ok [OF that, of scrub] by (simp add: job_run_def)
  with assms show ?thesis by (auto simp: world_ok_def others_act_def others_ok_def)
qed

lemma policy_world [simp]: "world_ok (w\<lparr>tw_policy := e\<rparr>) = world_ok w" "world_ok (w\<lparr>tw_dispatched := x\<rparr>) = world_ok w"
  by (simp_all add: world_ok_def)

lemma wait_ends:
  "world_ok w \<Longrightarrow> names_ok c \<Longrightarrow> ends c io (wait_cancelled scrub t c io request r w)"
  unfolding wait_cancelled_def by (intro close_ends emit_terminal) simp_all

lemma ask_ends:
  assumes "world_ok w" and "names_ok c" and "others_ok (ti_others_waiting io)"
    and "\<And>r w. world_ok w \<Longrightarrow> ends c io (k r w)"
  shows "ends c io (ask_user url scrub t p c io v k w)"
proof (cases "xp_has_callback p")
  case False
  with assms show ?thesis by (simp add: ask_user_def emit_terminal Let_def)
next
  case True
  obtain f e where reg: "register_pending (text_or_empty (vd_request v)) (tw_policy w) = (f, e)" by fastforce
  have ok: "world_ok (others_act url scrub (ti_others_waiting io) (w\<lparr>tw_policy := e\<rparr>))"
    using assms(1,3) by (simp add: others_world)
  show ?thesis
  proof (cases "ti_wait io")
    case WaitDone
    with True reg ok assms show ?thesis
      by (auto simp: ask_user_def Let_def ends_def [of _ _ "(Blocked, _)"] intro!: emit_terminal wait_ends split: option.splits answer.splits bool.splits)
  qed (use True reg ok assms(2) in \<open>auto simp: ask_user_def Let_def intro!: close_ends emit_terminal wait_ends\<close>)
qed

lemma end_tool_ends: "world_ok w \<Longrightarrow> names_ok c \<Longrightarrow> ends c io (end_tool scrub t p c io r w)"
  by (auto simp: end_tool_def Let_def intro!: emit_terminal split: ran.splits)

lemma run_tool_ends:
  assumes "world_ok w" and "names_ok c" and "others_ok (ti_others_running io)"
  shows "ends c io (run_tool_call url scrub t p c io args r w)"
  unfolding run_tool_call_def
  using assms by (intro emit_next) (auto intro!: emit_terminal end_tool_ends others_world split: option.splits)

lemma start_ends:
  assumes ok: "world_ok w" and names: "names_ok c"
    and others: "others_ok (ti_others_deciding io)" "others_ok (ti_others_waiting io)" "others_ok (ti_others_running io)"
    and "tool_job_event scrub c io ''created'' None None (cl_job_data c) w = (EventOk, w1)"
  shows "ends c io (start_call url scrub t p c io w)"
proof -
  have w1: "world_ok w1" by (rule job_event_ok(1) [OF assms(6) ok names])
  let ?w = "others_act url scrub (ti_others_deciding io) w1"
  have w2: "world_ok ?w" by (rule others_world [OF w1 others(1)])
  have ev: "world_ok (snd (evaluate_call url t c io args ?w))" for args
    using w2 by (simp add: evaluate_call_def split: prod.splits)
  have gate: "ends c io (permission_gate url scrub t p c io v (run_tool_call url scrub t p c io args) w)" if "world_ok w" for v args w
    unfolding permission_gate_def
    using that names others(2,3) by (auto intro!: ask_ends emit_terminal run_tool_ends)
  have "ends c io (decide_call url scrub t p c io w1)"
  proof (cases "ti_prepared io")
    case (Prepared args)
    obtain d e where eq: "evaluate_call url t c io args ?w = (d, e)" by fastforce
    then have "world_ok e" using ev [of args] by simp
    with Prepared eq names show ?thesis
      by (cases d) (auto simp: decide_call_def pre_dispatch_failure_def Let_def intro!: gate emit_terminal)
  qed (use w2 ev names in \<open>auto simp: decide_call_def Let_def cancelled_early_def pre_dispatch_failure_def intro!: emit_terminal\<close>)
  with w1 names assms(6) show ?thesis
    by (auto simp: start_call_def intro!: emit_terminal)
qed

section \<open>What is reported\<close>

text \<open>Without a dispatch only a known failure is returned.\<close>

definition quiet :: "dict list \<Rightarrow> tool_outcome \<times> tool_world \<Rightarrow> bool" where
  "quiet D x \<longleftrightarrow> tw_dispatched (snd x) = D \<and> (\<forall>r. fst x = Returned r \<longrightarrow> te_outcome r = KnownFailure \<and> \<not> te_success r)"

lemma emit_quiet:
  assumes "\<And>w. tw_dispatched w = D \<Longrightarrow> quiet D (k w)" and "tw_dispatched w = D"
  shows "quiet D (emit_then scrub c io st pr er d k w)"
proof -
  obtain x w1 where ev: "tool_job_event scrub c io st pr er d w = (x, w1)" by fastforce
  then have "tw_dispatched w1 = D" using assms(2) job_event_fields(1) [of scrub c io st pr er d w] by simp
  with ev assms(1) show ?thesis by (cases x) (auto simp: emit_then_def quiet_def)
qed

lemma finish_quiet: "tw_dispatched w = D \<Longrightarrow> quiet D (finish_tool (failed_call t n m x r KnownFailure b) w)"
  by (simp add: quiet_def finish_tool_def failed_call_def failed_result_envelope_def observe_def)

lemma raise_quiet: "tw_dispatched w = D \<Longrightarrow> quiet D (Raised x, w)" "tw_dispatched w = D \<Longrightarrow> quiet D (Blocked, w)"
  by (simp_all add: quiet_def)

lemma close_quiet:
  assumes "\<And>w. tw_dispatched w = D \<Longrightarrow> quiet D (k w)" and "tw_dispatched w = D"
  shows "quiet D (close_request t c io request k w)"
proof -
  have "tw_dispatched (w\<lparr>tw_policy := e\<rparr>) = D" for e using assms(2) by simp
  then show ?thesis using assms(1) by (auto simp: close_request_def intro!: raise_quiet split: prod.splits sum.splits)
qed

lemmas quiet_rules = emit_quiet close_quiet finish_quiet raise_quiet

text \<open>A call either stays quiet or reaches its handler's stage.\<close>

lemma ask_quiet:
  assumes D: "tw_dispatched w = D"
  shows "quiet D (ask_user url scrub t p c io v k w) \<or>
     (\<exists>r w1. ask_user url scrub t p c io v k w = k r w1 \<and> tw_dispatched w1 = D)"
proof -
  obtain f e where reg: "register_pending (text_or_empty (vd_request v)) (tw_policy w) = (f, e)" by fastforce
  let ?w = "others_act url scrub (ti_others_waiting io) (w\<lparr>tw_policy := e\<rparr>)"
  have w: "tw_dispatched ?w = D" using D by simp
  show ?thesis
  proof (cases "xp_has_callback p \<and> ti_wait io = WaitDone \<and> pg_futures (tw_policy ?w) f = Some (Answered True)")
    case True
    then have "ask_user url scrub t p c io v k w = k (user_receipt io True (vd_receipt v)) ?w"
      using reg by (simp add: ask_user_def Let_def)
    with w show ?thesis by blast
  next
    case False
    then show ?thesis
      using D w reg unfolding ask_user_def wait_cancelled_def Let_def
      by (cases "ti_wait io") (auto intro!: quiet_rules split: option.splits answer.splits bool.splits)
  qed
qed

lemma gate_quiet:
  "tw_dispatched w = D \<Longrightarrow> quiet D (permission_gate url scrub t p c io v k w) \<or>
     (\<exists>r w1. permission_gate url scrub t p c io v k w = k r w1 \<and> tw_dispatched w1 = D)"
  using ask_quiet [of w D url scrub t p c io v k] by (auto simp: permission_gate_def intro!: quiet_rules)

lemma run_tool_cases:
  assumes "tw_dispatched w = D"
  shows "quiet D (run_tool_call url scrub t p c io args r w) \<or>
    (\<exists>w1. run_tool_call url scrub t p c io args r w = end_tool scrub t p c io r w1 \<and> tw_dispatched w1 = D @ [args])"
proof -
  obtain x w1 where ev: "tool_job_event scrub c io ''running'' None None (cl_job_data c) w = (x, w1)" by fastforce
  then have "tw_dispatched w1 = D"
    using assms job_event_fields(1) [of scrub c io "''running''" None None "cl_job_data c" w] by simp
  with ev show ?thesis
    by (cases x) (auto simp: run_tool_call_def emit_then_def [of _ _ _ "''running''"] intro!: quiet_rules split: option.splits)
qed

lemma decide_cases:
  assumes "tw_dispatched w = D"
  shows "quiet D (decide_call url scrub t p c io w) \<or>
    (\<exists>args r w1. decide_call url scrub t p c io w = run_tool_call url scrub t p c io args r w1 \<and> tw_dispatched w1 = D)"
proof -
  let ?w = "others_act url scrub (ti_others_deciding io) w"
  have disp: "tw_dispatched ?w = D" "tw_dispatched (snd (evaluate_call url t c io args ?w)) = D" for args
    using assms early_dispatched(3) [of url t c io args ?w] by simp_all
  show ?thesis
  proof (cases "ti_prepared io")
    case (Prepared args)
    obtain d w1 where ev: "evaluate_call url t c io args ?w = (d, w1)" by fastforce
    then have w1: "tw_dispatched w1 = D" using disp(2) [of args] by simp
    show ?thesis
    proof (cases d)
      case (Inl e)
      with Prepared ev w1 show ?thesis by (auto simp: decide_call_def pre_dispatch_failure_def Let_def intro!: quiet_rules)
    next
      case (Inr x)
      with Prepared ev gate_quiet [OF w1, of url scrub t p c io "verdict_of url t c (ti_ids io) args x" "run_tool_call url scrub t p c io args"]
      show ?thesis by (fastforce simp: decide_call_def Let_def)
    qed
  qed (use disp in \<open>auto simp: decide_call_def Let_def cancelled_early_def pre_dispatch_failure_def intro!: quiet_rules\<close>)
qed

lemma start_cases:
  "quiet (tw_dispatched w) (start_call url scrub t p c io w) \<or>
    (\<exists>args r w1. start_call url scrub t p c io w = end_tool scrub t p c io r w1 \<and> tw_dispatched w1 = tw_dispatched w @ [args])"
proof -
  obtain x w1 where ev: "tool_job_event scrub c io ''created'' None None (cl_job_data c) w = (x, w1)" by fastforce
  then have w1: "tw_dispatched w1 = tw_dispatched w"
    using job_event_fields(1) [of scrub c io "''created''" None None "cl_job_data c" w] by simp
  show ?thesis
  proof (cases "x = EventOk \<and> \<not> ti_cancelled_at_start io")
    case True
    then have eq: "start_call url scrub t p c io w = decide_call url scrub t p c io w1" using ev by (simp add: start_call_def)
    from decide_cases [OF w1, of url scrub t p c io] show ?thesis
      unfolding eq using run_tool_cases by metis
  next
    case False
    with ev w1 show ?thesis by (cases x) (auto simp: start_call_def intro!: quiet_rules)
  qed
qed

lemma execute_cases:
  "quiet (tw_dispatched w) (execute_tool url scrub registry p io w) \<or>
    (\<exists>t c args r w1. registry (xp_tool_name p) = Some t \<and>
       execute_tool url scrub registry p io w = end_tool scrub t p c io r w1 \<and> tw_dispatched w1 = tw_dispatched w @ [args])"
proof (cases "registry (xp_tool_name p)")
  case None
  then show ?thesis by (simp add: execute_tool_def quiet_def finish_tool_def failed_result_envelope_def observe_def)
next
  case (Some t)
  show ?thesis
  proof (cases "xp_retry p")
    case False
    with Some start_cases [of w url scrub t p "new_call t p io (xp_force p)" io] show ?thesis
      by (auto simp: execute_tool_def)
  next
    case True
    show ?thesis
    proof (cases "validate_retry_request registry (xp_tool_name p) (xp_args p) (xp_ctx p) (xp_run_id p) (xp_job_id p) (tw_log w)")
      case (Inl e)
      with Some True show ?thesis by (auto simp: execute_tool_def intro!: quiet_rules)
    next
      case (Inr b)
      with Some True start_cases [of w url scrub t p "new_call t p io (xp_force p \<or> b)" io] show ?thesis
        by (auto simp: execute_tool_def)
    qed
  qed
qed

lemma end_tool_reports:
  assumes "end_tool scrub t p c io r w = (Returned e, w')" and "\<And>x. handler_end io \<noteq> RanResult x"
  shows "te_outcome e = interrupted_outcome t \<and> \<not> te_success e \<and> (tool_may_change_state t \<longrightarrow> \<not> te_retryable e)"
proof -
  have emit: "emit_then scrub c io st pr er d (finish_tool x) w = (Returned e, w') \<Longrightarrow> e = x" for st pr er d x
    by (auto simp: emit_then_def finish_tool_def split: prod.splits emitted.splits)
  show ?thesis
    using assms by (cases "handler_end io")
      (auto simp: end_tool_def Let_def failed_call_def failed_result_envelope_def dest!: emit)
qed

end
