(* ===== verification/Tool_Properties.thy ===== *)
theory Tool_Properties
  imports Tool_Runs
begin

text \<open>
  The properties of tool calls: no handler runs without permission, no job is left running, and an
  interrupted write is never reported as known.
\<close>

section \<open>A sample call\<close>

definition sample_entry :: tool_entry where
  "sample_entry = \<lparr>tn_definition = sample_tool_definition, tn_effect_kind = ''write'', tn_has_recheck = False,
     tn_needs_permit = False\<rparr>"

definition sample_registry :: "string \<Rightarrow> tool_entry option" where
  "sample_registry = [''t'' \<mapsto> sample_entry]"

definition sample_ctx :: tool_ctx where
  "sample_ctx = \<lparr>tc_workspace_id = None, tc_active_workspace = None, tc_session_id = None, tc_turn_id = None,
     tc_request_id = None, tc_run_id = None, tc_job_id = None, tc_interruption_epoch = 0, tc_permission_scope = None\<rparr>"

definition sample_params :: tool_params where
  "sample_params = \<lparr>xp_tool_name = ''t'', xp_args = [], xp_has_callback = True, xp_ctx = sample_ctx, xp_force = False,
     xp_request_id = None, xp_run_id = None, xp_job_id = None, xp_source = None, xp_retry = False\<rparr>"

definition sample_io :: tool_io where
  "sample_io = \<lparr>ti_request = ''r'', ti_run = ''run'', ti_job = ''job'', ti_retry_suffix = ''x'', ti_clock = (\<lambda>_. Fin 0),
     ti_cancelled_at_start = False, ti_prepared = Prepared [], ti_now = ''now'', ti_disk = True, ti_answer_disk = True,
     ti_disk_error = ''disk'', ti_ids = sample_ids, ti_others_deciding = ([], []),
     ti_others_waiting = ([Resolve ''now'' True ''p'' True False (Some ''t'') None], []), ti_others_running = ([], []),
     ti_wait = WaitDone, ti_permit_fails = None, ti_handler = RanFailed ''lost'', ti_after = RanSignalled, ti_duration = 0,
     ti_artifacts = 0, ti_verification = [], ti_summary = []\<rparr>"

definition sample_world :: tool_world where
  "sample_world = \<lparr>tw_policy = new_policy_engine NoFile, tw_log = None, tw_observed = [], tw_dispatched = []\<rparr>"

abbreviation plain_url :: "string \<Rightarrow> string \<times> bool" where
  "plain_url s \<equiv> (s, False)"

lemma sample_io_simps [simp]:
  "ti_now sample_io = ''now''" "ti_disk sample_io" "ti_answer_disk sample_io" "ti_ids sample_io = sample_ids"
  "ti_cancelled_at_start sample_io = False" "ti_prepared sample_io = Prepared []" "ti_wait sample_io = WaitDone"
  "ti_others_deciding sample_io = ([], [])" "ti_others_running sample_io = ([], [])"
  "ti_others_waiting sample_io = ([Resolve ''now'' True ''p'' True False (Some ''t'') None], [])"
  "ti_handler sample_io = RanFailed ''lost''" "ti_after sample_io = RanSignalled"
  by (simp_all add: sample_io_def)

lemma sample_call_simps [simp]:
  "sample_registry ''t'' = Some sample_entry" "xp_tool_name sample_params = ''t''" "xp_retry sample_params = False"
  "xp_has_callback sample_params = True" "xp_force sample_params = False" "tn_definition sample_entry = sample_tool_definition"
  "tn_needs_permit sample_entry = False" "tool_may_change_state sample_entry" "cl_force (new_call sample_entry sample_params io b) = b"
  "cl_ctx (new_call sample_entry sample_params io b) = sample_ctx" "tc_permission_scope sample_ctx = None"
  by (simp_all add: sample_registry_def sample_params_def sample_entry_def tool_may_change_state_def new_call_def sample_ctx_def Let_def)

lemma sample_world_simps [simp]:
  "tw_log sample_world = None" "tw_policy sample_world = new_policy_engine NoFile" "tw_dispatched sample_world = []"
  by (simp_all add: sample_world_def)

lemma emit_unlogged: "tw_log w = None \<Longrightarrow> emit_then scrub c io st pr er d k w = k w"
  by (simp add: emit_then_def tool_job_event_def)

lemma sample_preview:
  "preview_tool sample_tool_definition scope False (new_policy_engine NoFile) = plain_decision False ReasonPermission True"
  by (simp add: preview_tool_def sample_tool_definition_def is_selected_external_tool_def new_policy_engine_def load_store_def)

lemma sample_gate:
  assumes "vd_confirm v" and "vd_request v = Some ''p''" and "tw_log w = None" and "tw_dispatched w = []"
  shows "\<exists>rc w'. permission_gate plain_url id sample_entry sample_params c sample_io v k w = k rc w' \<and>
    tw_log w' = None \<and> tw_dispatched w' = []"
proof -
  let ?n = "pg_next_future (tw_policy w)"
  obtain e where reg: "register_pending ''p'' (tw_policy w) = (?n, e)"
    and e: "pg_futures e ?n = Some Waiting" "pg_pending e ''p'' = Some ?n"
    by (simp add: register_pending_def Let_def)
  let ?w = "others_act plain_url id (ti_others_waiting sample_io) (w\<lparr>tw_policy := e\<rparr>)"
  have "open_future ''p'' e = Some ?n" using e by (simp add: open_future_def)
  then have "pg_futures (tw_policy ?w) ?n = Some (Answered True)"
    by (simp add: others_act_def policy_run_def resolve_eq set_answer_def)
  then have "permission_gate plain_url id sample_entry sample_params c sample_io v k w = k (user_receipt sample_io True (vd_receipt v)) ?w"
    using assms(1,2) reg by (simp add: permission_gate_def ask_user_def text_or_empty_def Let_def)
  moreover have "tw_log ?w = None" "tw_dispatched ?w = []" using assms(3,4) by (simp_all add: others_act_def)
  ultimately show ?thesis by blast
qed

lemma sample_handler_run:
  assumes "tw_log w = None" and "tw_dispatched w = []"
  shows "\<exists>r w'. run_tool_call plain_url id sample_entry sample_params c sample_io [] rc w = (Returned r, w') \<and> tw_dispatched w' = [[]]"
proof -
  let ?w = "others_act plain_url id (ti_others_running sample_io) (w\<lparr>tw_dispatched := tw_dispatched w @ [[]]\<rparr>)"
  have w: "tw_log ?w = None" "tw_dispatched ?w = [[]]" using assms by (simp_all add: others_act_def)
  have "run_tool_call plain_url id sample_entry sample_params c sample_io [] rc w = end_tool id sample_entry sample_params c sample_io rc ?w"
    using assms(1) by (simp add: run_tool_call_def emit_unlogged permit_refused_def)
  moreover have "\<exists>r. end_tool id sample_entry sample_params c sample_io rc ?w = (Returned r, observe (te_success r) ?w)"
    unfolding end_tool_def Let_def using w(1) by (simp add: emit_unlogged handler_end_def finish_tool_def)
  ultimately show ?thesis using w(2) by auto
qed

lemma sample_execution:
  "\<exists>r w'. execute_tool plain_url id sample_registry sample_params sample_io sample_world = (Returned r, w') \<and>
     tw_dispatched w' = [[]]"
proof -
  let ?c = "new_call sample_entry sample_params sample_io False"
  let ?ev = "evaluate_tool plain_url ''now'' True sample_ids sample_tool_definition (Some (cl_request_id ?c)) None (JObj []) False
    (new_policy_engine NoFile)"
  obtain d e where ev: "?ev = (Inr d, e)"
    using evaluate_saved [of plain_url "''now''" sample_ids sample_tool_definition "Some (cl_request_id ?c)" None "JObj []" False
      "new_policy_engine NoFile"] by (metis prod.collapse)
  then have fst: "fst ?ev = Inr d" by simp
  have d: "pd_require_confirm d" using evaluate_follows_preview [OF fst] sample_preview by (simp add: plain_decision_def)
  let ?v = "verdict_of plain_url sample_entry ?c sample_ids [] d" and ?w = "sample_world\<lparr>tw_policy := e\<rparr>"
  have v: "vd_confirm ?v" "vd_request ?v = Some ''p''"
    using verdict_engine(2,3) [of plain_url "''now''" True sample_ids sample_tool_definition "Some (cl_request_id ?c)" None "JObj []" ?c
      "new_policy_engine NoFile" d sample_entry "[]"] fst d by (simp_all add: sample_ids_def)
  have decided: "evaluate_call plain_url sample_entry ?c sample_io [] (others_act plain_url id ([], []) sample_world) = (Inr d, ?w)"
    using ev by (simp add: evaluate_call_def others_act_def policy_run_def)
  obtain rc w' where gate: "permission_gate plain_url id sample_entry sample_params ?c sample_io ?v
      (run_tool_call plain_url id sample_entry sample_params ?c sample_io []) ?w =
      run_tool_call plain_url id sample_entry sample_params ?c sample_io [] rc w'" "tw_log w' = None" "tw_dispatched w' = []"
    using sample_gate [OF v, of ?w ?c "run_tool_call plain_url id sample_entry sample_params ?c sample_io []"] by auto
  have "execute_tool plain_url id sample_registry sample_params sample_io sample_world =
      decide_call plain_url id sample_entry sample_params ?c sample_io sample_world"
    by (simp add: execute_tool_def start_call_def tool_job_event_def)
  also have "\<dots> = run_tool_call plain_url id sample_entry sample_params ?c sample_io [] rc w'"
    using decided gate(1) by (simp add: decide_call_def Let_def)
  finally show ?thesis using sample_handler_run [OF gate(2,3)] by simp
qed

section \<open>Permission\<close>

lemma new_call_fields [simp]: "cl_ctx (new_call t p io force) = xp_ctx p" "cl_force (new_call t p io force) = force"
  by (simp_all add: new_call_def Let_def)

lemma start_dispatched:
  assumes "tw_dispatched (snd (start_call url scrub t p c io w)) \<noteq> tw_dispatched w" and "pendings_ok (tw_policy w)"
  shows "policy_allows (policy_run url (fst (ti_others_deciding io)) (tw_policy w)) t c \<or> user_confirms io"
proof -
  obtain x w1 where ev: "tool_job_event scrub c io ''created'' None None (cl_job_data c) w = (x, w1)" by fastforce
  then have w1: "tw_policy w1 = tw_policy w" "tw_dispatched w1 = tw_dispatched w"
    using job_event_fields [of scrub c io "''created''" None None "cl_job_data c" w] by simp_all
  have "tw_dispatched (snd (decide_call url scrub t p c io w1)) \<noteq> tw_dispatched w1"
    using assms(1) ev w1(2) by (auto simp: start_call_def emit_dispatched split: emitted.splits if_splits)
  from decide_dispatched [OF this] w1(1) assms(2) show ?thesis by simp
qed

text \<open>C24. Tools run only with permission: a handler is dispatched only if the user answered yes to this very
  request while the call waited for it, or the call was not forced to ask, its tool is not of high or
  critical risk, the approval of a tool that requires confirmation is in the loaded file or was
  remembered by an answer of the user before the decision, and a retry does not repeat a write of
  unknown effect.\<close>

theorem tools_run_only_with_permission:
  assumes "tw_policy w = policy_run url cs (new_policy_engine file)" and "registry (xp_tool_name p) = Some t"
    and "tw_dispatched (snd (execute_tool url scrub registry p io w)) \<noteq> tw_dispatched w"
    and "key = build_scope_key (td_name (tn_definition t)) (tc_permission_scope (xp_ctx p))"
  shows "user_confirms io \<or>
    \<not> xp_force p \<and> td_risk_level (tn_definition t) \<notin> {''high'', ''critical''} \<and>
    (td_require_confirm (tn_definition t) \<longrightarrow> td_allow_remembered_decision (tn_definition t) \<and>
      (map_of (fst (load_store file)) key = Some True \<or> (\<exists>c\<in>set (cs @ fst (ti_others_deciding io)). grants c key))) \<and>
    (xp_retry p \<longrightarrow> validate_retry_request registry (xp_tool_name p) (xp_args p) (xp_ctx p) (xp_run_id p) (xp_job_id p)
      (tw_log w) = Inr False)"
proof -
  let ?valid = "validate_retry_request registry (xp_tool_name p) (xp_args p) (xp_ctx p) (xp_run_id p) (xp_job_id p) (tw_log w)"
  let ?cs = "cs @ fst (ti_others_deciding io)"
  have "pendings_ok (new_policy_engine file)" by (simp add: pendings_ok_def new_policy_engine_def)
  then have ok: "pendings_ok (tw_policy w)" unfolding assms(1) by (rule pendings_ok_run)
  obtain force where force: "execute_tool url scrub registry p io w = start_call url scrub t p (new_call t p io force) io w"
      "xp_force p \<longrightarrow> force" "xp_retry p \<longrightarrow> ?valid = Inr False \<or> force"
  proof (cases "xp_retry p")
    case False
    with assms(2) that [of "xp_force p"] show ?thesis by (simp add: execute_tool_def)
  next
    case True
    then obtain b where "?valid = Inr b"
      using assms(2,3) by (cases ?valid) (auto simp: execute_tool_def)
    with True assms(2) that [of "xp_force p \<or> b"] show ?thesis by (cases b) (simp_all add: execute_tool_def)
  qed
  have run: "policy_run url (fst (ti_others_deciding io)) (tw_policy w) = policy_run url ?cs (new_policy_engine file)"
    by (simp add: assms(1) policy_run_def)
  have "policy_allows (policy_run url ?cs (new_policy_engine file)) t (new_call t p io force) \<or> user_confirms io"
    using start_dispatched [OF _ ok, of url scrub t p "new_call t p io force" io] assms(3) force(1) run by simp
  then show ?thesis
  proof
    assume "policy_allows (policy_run url ?cs (new_policy_engine file)) t (new_call t p io force)"
    then have "pd_allowed (preview_tool (tn_definition t) (tc_permission_scope (xp_ctx p)) force (policy_run url ?cs (new_policy_engine file)))"
      by (simp add: policy_allows_def)
    note allowed = preview_allowedD [OF this]
    have "map_of (pg_remembered (new_policy_engine file)) key = map_of (fst (load_store file)) key" by (simp add: new_policy_engine_def)
    with allowed force(2,3) remembered_run [of url ?cs "new_policy_engine file" key] assms(4) show ?thesis by auto
  qed simp
qed

theorem tools_run_only_with_permission_witness:
  "\<exists>w. tw_dispatched (snd (execute_tool plain_url id sample_registry sample_params sample_io w)) \<noteq> tw_dispatched w \<and> user_confirms sample_io"
proof -
  obtain r w' where ex: "execute_tool plain_url id sample_registry sample_params sample_io sample_world = (Returned r, w')"
      "tw_dispatched w' = [[]]" using sample_execution by blast
  have "load_store NoFile = ([], [])" by (simp add: load_store_def)
  then have no: "map_of (fst (load_store NoFile)) k \<noteq> Some True" for k by simp
  have "tw_policy sample_world = policy_run plain_url [] (new_policy_engine NoFile)" by (simp add: policy_run_def)
  from tools_run_only_with_permission [OF this, of sample_registry sample_params sample_entry id sample_io] ex no
  show ?thesis by (intro exI [of _ sample_world]) (auto simp: sample_tool_definition_def)
qed

section \<open>The end of the job\<close>

text \<open>C25. Every job ends, with three exceptions: once the job of a call has been created in a sound log, whatever
  the plugins, the user, the handler and other tasks do, the last event stored for the job is terminal,
  unless the call waits for the user, the log refused an event, or the answer that closes an interrupted
  question could not be saved and the call raises that error (its job then stays open).\<close>

theorem tool_job_always_ends:
  assumes "tw_log w = Some l" and "job_inv l" and "names_ok c"
    and "others_ok (ti_others_deciding io)" and "others_ok (ti_others_waiting io)" and "others_ok (ti_others_running io)"
    and "tool_job_event scrub c io ''created'' None None (cl_job_data c) w = (EventOk, w1)"
    and "start_call url scrub t p c io w = (out, w')"
    and "tw_log w' = Some l'" and "histories l' (event_workspace (cl_ctx c)) (cl_job_id c) es"
  shows "je_status (last es) \<in> terminal_statuses \<or> out = Blocked \<or> (\<exists>e. out = Raised (JobLogFailed e)) \<or>
    (\<not> ti_answer_disk io \<and> out = Raised (Failed (ti_disk_error io)))"
proof -
  have "world_ok w" using assms(1,2) by (simp add: world_ok_def)
  from start_ends [OF this assms(3-7), of url t p] assms(8-10) show ?thesis by (auto simp: ends_def ended_def unsaved_close_def)
qed

definition cancelled_io :: tool_io where
  "cancelled_io = sample_io\<lparr>ti_prepared := PrepareCancelled\<rparr>"

definition logged_world :: tool_world where
  "logged_world = sample_world\<lparr>tw_log := Some (new_job_log 4 8 None)\<rparr>"

definition sample_call :: tool_call where
  "sample_call = new_call sample_entry sample_params cancelled_io False"

lemma sample_created: "fst (tool_job_event id sample_call cancelled_io ''created'' None None (cl_job_data sample_call) logged_world) = EventOk"
  by code_simp

lemma sample_history:
  "(case start_call plain_url id sample_entry sample_params sample_call cancelled_io logged_world of
      (Raised Cancelled, w) \<Rightarrow> (case tw_log w of None \<Rightarrow> False | Some l \<Rightarrow>
         (case map_of (jl_events l) (fst (hd (jl_events l))) of None \<Rightarrow> False | Some es \<Rightarrow>
           hist_ws es = event_workspace (cl_ctx sample_call) \<and> hist_job es = cl_job_id sample_call \<and>
           map je_status es = [''created'', ''cancelled'']))
    | _ \<Rightarrow> False)"
  by code_simp

theorem tool_job_always_ends_witness:
  "\<exists>w' l es. start_call plain_url id sample_entry sample_params sample_call cancelled_io logged_world = (Raised Cancelled, w') \<and>
     tw_log w' = Some l \<and> histories l (event_workspace (cl_ctx sample_call)) (cl_job_id sample_call) es \<and>
     je_status (last es) \<in> terminal_statuses"
proof -
  let ?h = "\<lambda>l es. histories l (event_workspace (cl_ctx sample_call)) (cl_job_id sample_call) es"
  obtain w' l es where run: "start_call plain_url id sample_entry sample_params sample_call cancelled_io logged_world = (Raised Cancelled, w')"
      "tw_log w' = Some l" "?h l es"
    using sample_history
    by (auto simp: job_history_def split: prod.splits tool_outcome.splits tool_exception.splits option.splits list.splits)
  obtain w1 where created: "tool_job_event id sample_call cancelled_io ''created'' None None (cl_job_data sample_call) logged_world = (EventOk, w1)"
    using sample_created by (metis prod.collapse)
  have names: "names_ok sample_call" by code_simp
  have quiet: "others_ok (ti_others_deciding cancelled_io)" "others_ok (ti_others_waiting cancelled_io)"
      "others_ok (ti_others_running cancelled_io)"
    by (simp_all add: cancelled_io_def others_ok_def)
  have "tw_log logged_world = Some (new_job_log 4 8 None)" by (simp add: logged_world_def)
  from tool_job_always_ends [OF this new_job_log_inv names quiet created run] run show ?thesis by blast
qed

section \<open>What an interrupted call reports\<close>

text \<open>An interrupted write is unknown: if the handler was dispatched and no result of it is known because it
  failed, was cancelled, or was stopped by the signal, a tool that may change state reports an
  unknown effect that is not retryable; a tool that reads and a call that was never dispatched report
  a known failure; never a success.\<close>

theorem interrupted_write_is_unknown:
  assumes "execute_tool url scrub registry p io w = (Returned r, w')" and "registry (xp_tool_name p) = Some t"
    and "\<forall>x. handler_end io \<noteq> RanResult x"
  shows "\<not> te_success r \<and>
    te_outcome r = (if tw_dispatched w' \<noteq> tw_dispatched w \<and> tool_may_change_state t then UnknownEffect else KnownFailure) \<and>
    (te_outcome r = UnknownEffect \<longrightarrow> \<not> te_retryable r)"
  using execute_cases [of w url scrub registry p io]
proof
  assume "quiet (tw_dispatched w) (execute_tool url scrub registry p io w)"
  with assms(1) show ?thesis by (simp add: quiet_def)
next
  assume "\<exists>t c args r w1. registry (xp_tool_name p) = Some t \<and>
    execute_tool url scrub registry p io w = end_tool scrub t p c io r w1 \<and> tw_dispatched w1 = tw_dispatched w @ [args]"
  then obtain c args rc w1 where eq: "end_tool scrub t p c io rc w1 = (Returned r, w')" "tw_dispatched w1 = tw_dispatched w @ [args]"
    using assms(1,2) by auto
  then have "tw_dispatched w' \<noteq> tw_dispatched w" using end_dispatched [of scrub t p c io rc w1] by simp
  moreover have "te_outcome r = interrupted_outcome t \<and> \<not> te_success r \<and> (tool_may_change_state t \<longrightarrow> \<not> te_retryable r)"
    using end_tool_reports [OF eq(1)] assms(3) by blast
  ultimately show ?thesis by (auto simp: interrupted_outcome_def)
qed

theorem interrupted_write_is_unknown_witness:
  "\<exists>r w'. execute_tool plain_url id sample_registry sample_params sample_io sample_world = (Returned r, w') \<and>
     te_outcome r = UnknownEffect \<and> \<not> te_retryable r"
proof -
  obtain r w' where ex: "execute_tool plain_url id sample_registry sample_params sample_io sample_world = (Returned r, w')"
      "tw_dispatched w' = [[]]" using sample_execution by blast
  have "\<forall>x. handler_end sample_io \<noteq> RanResult x" by (simp add: handler_end_def)
  from interrupted_write_is_unknown [OF ex(1) _ this] ex show ?thesis by simp
qed

section \<open>Interrupted questions\<close>

text \<open>The wait for the user is cancelled by cancelling its future. The answer with which the executor then wants
  to close the request finds a finished future: the request stays open in the engine's tables and no
  refusal is recorded.\<close>

lemma abandoned_request_stays:
  assumes "pg_pending e request = Some f" and "pg_futures e f = Some Waiting"
  shows "resolve_pending now disk request False False tool scope (abandon f e) = (Inr False, abandon f e) \<and>
    pg_pending (abandon f e) request = Some f \<and> pg_metadata (abandon f e) request = pg_metadata e request \<and>
    pg_audit (abandon f e) = pg_audit e"
  using assms by (simp add: resolve_eq open_future_def abandon_def set_answer_def)

text \<open>When the question itself fails, and the answer that closes it cannot be saved, the call raises before the event
  that ends its job.\<close>

lemma unsaved_close_raises:
  assumes "open_future request (tw_policy w) \<noteq> None" and "\<not> ti_answer_disk io"
  shows "\<exists>e. fst (close_request t c io request k w) = Raised e" "tw_log (snd (close_request t c io request k w)) = tw_log w"
  using assms by (auto simp: close_request_def resolve_eq)

end
