(* ===== verification/Stream_Moderation.thy ===== *)
theory Stream_Moderation
  imports Context_Window
begin

text \<open>
  The moderation of outgoing stream chat (\<open>modules/system/stream_moderation.py\<close>): the settings and how they
  are read, patched, stored and loaded again, and the decision on one message. Unicode case folding is the
  parameter \<open>casefold\<close>, the reading of a number from a text the parameter \<open>pf\<close>; a float is a real number
  or one of the special values, without rounding.
\<close>

section \<open>Settings\<close>

datatype moderation_error =
    EnabledType
  | TermsType
  | TermEntryType
  | TermTooLong
  | TooManyTerms
  | NumberType
  | NumberUnreadable
  | NumberNotFinite
  | NumberOverflow
  | SlowModeRange
  | RateType
  | RateRange
  | UnknownField

record moderation_policy =
  mp_enabled :: bool
  mp_blocked_terms :: "string list"
  mp_slow_mode_seconds :: real
  mp_max_messages_per_minute :: int

text \<open>The smallest integer that \<open>float\<close> does not convert.\<close>

definition float_limit :: int where
  "float_limit = 2 ^ 1024 - 2 ^ 970"

definition to_float :: "(string \<Rightarrow> pyfloat option) \<Rightarrow> json \<Rightarrow> moderation_error + pyfloat" where
  "to_float pf v = (case v of
     JInt i \<Rightarrow> if \<bar>i\<bar> \<ge> float_limit then Inl NumberOverflow else Inr (Fin (of_int i))
   | JFloat f \<Rightarrow> Inr f
   | JStr s \<Rightarrow> (case pf s of None \<Rightarrow> Inl NumberUnreadable | Some f \<Rightarrow> Inr f)
   | _ \<Rightarrow> Inl NumberType)"

definition finite_number :: "(string \<Rightarrow> pyfloat option) \<Rightarrow> json \<Rightarrow> moderation_error + real" where
  "finite_number pf v = (case to_float pf v of
     Inl e \<Rightarrow> Inl (if e = NumberUnreadable then NumberType else e)
   | Inr (Fin r) \<Rightarrow> Inr r
   | Inr _ \<Rightarrow> Inl NumberNotFinite)"

text \<open>The loop over the entries, with the terms collected so far.\<close>

fun collect_terms :: "(string \<Rightarrow> string) \<Rightarrow> string list \<Rightarrow> json list \<Rightarrow> moderation_error + string list" where
  "collect_terms casefold terms [] = Inr terms"
| "collect_terms casefold terms (JStr raw # rest) =
     (let term = py_strip raw
      in if term = [] then collect_terms casefold terms rest
         else if length term > 80 then Inl TermTooLong
         else
           (let folded = casefold term; terms = (if folded \<in> set terms then terms else terms @ [folded])
            in if length terms > 64 then Inl TooManyTerms else collect_terms casefold terms rest))"
| "collect_terms casefold terms (_ # rest) = Inl TermEntryType"

definition normalize_terms :: "(string \<Rightarrow> string) \<Rightarrow> json \<Rightarrow> moderation_error + string list" where
  "normalize_terms casefold v = (case v of
     JNull \<Rightarrow> Inr []
   | JList xs \<Rightarrow> collect_terms casefold [] xs
   | JObj d \<Rightarrow> collect_terms casefold [] (map (JStr \<circ> fst) d)
   | _ \<Rightarrow> Inl TermsType)"

definition new_policy :: "(string \<Rightarrow> string) \<Rightarrow> (string \<Rightarrow> pyfloat option) \<Rightarrow> json \<Rightarrow> json \<Rightarrow> json \<Rightarrow> json
    \<Rightarrow> moderation_error + moderation_policy" where
  "new_policy casefold pf enabled blocked slow_mode rate = (case enabled of
     JBool on \<Rightarrow>
       (case normalize_terms casefold blocked of
          Inl e \<Rightarrow> Inl e
        | Inr terms \<Rightarrow>
            (case finite_number pf slow_mode of
               Inl e \<Rightarrow> Inl e
             | Inr slow \<Rightarrow>
                 if slow < 0 \<or> slow > 3600 then Inl SlowModeRange
                 else (case rate of
                     JInt n \<Rightarrow> if \<not> (1 \<le> n \<and> n \<le> 600) then Inl RateRange
                       else Inr \<lparr>mp_enabled = on, mp_blocked_terms = terms, mp_slow_mode_seconds = slow,
                                 mp_max_messages_per_minute = n\<rparr>
                   | _ \<Rightarrow> Inl RateType)))
   | _ \<Rightarrow> Inl EnabledType)"

definition default_policy :: moderation_policy where
  "default_policy = \<lparr>mp_enabled = True, mp_blocked_terms = [], mp_slow_mode_seconds = 0, mp_max_messages_per_minute = 30\<rparr>"

definition is_bool_value :: "json \<Rightarrow> bool" where
  "is_bool_value v = (case v of JBool b \<Rightarrow> True | _ \<Rightarrow> False)"

definition is_int_value :: "json \<Rightarrow> bool" where
  "is_int_value v = (case v of JInt i \<Rightarrow> True | _ \<Rightarrow> False)"

definition is_iterable :: "json \<Rightarrow> bool" where
  "is_iterable v = (case v of JList xs \<Rightarrow> True | JObj d \<Rightarrow> True | _ \<Rightarrow> False)"

definition policy_of_mapping :: "(string \<Rightarrow> string) \<Rightarrow> (string \<Rightarrow> pyfloat option) \<Rightarrow> dict \<Rightarrow> moderation_error + moderation_policy" where
  "policy_of_mapping casefold pf d =
     (let enabled = get_default d ''enabled'' (JBool True);
          blocked = get_default d ''blockedTerms'' (get_default d ''blocked_terms'' (JList []));
          slow = get_default d ''slowModeSeconds'' (get_default d ''slow_mode_seconds'' (JFloat (Fin 0)));
          rate = get_default d ''maxMessagesPerMinute'' (get_default d ''max_messages_per_minute'' (JInt 30))
      in if \<not> is_bool_value enabled then Inl EnabledType
         else if \<not> is_iterable blocked then Inl TermsType
         else if \<not> (case slow of JInt i \<Rightarrow> True | JFloat f \<Rightarrow> True | JStr s \<Rightarrow> True | _ \<Rightarrow> False) then Inl NumberType
         else if \<not> is_int_value rate then Inl RateType
         else (case to_float pf slow of
             Inl e \<Rightarrow> Inl e
           | Inr f \<Rightarrow> new_policy casefold pf enabled blocked (JFloat f) rate))"

definition policy_snapshot :: "moderation_policy \<Rightarrow> dict" where
  "policy_snapshot p =
     [(''schemaVersion'', JStr ''yuizaki.stream-moderation.v1''),
      (''enabled'', JBool (mp_enabled p)),
      (''blockedTerms'', JList (map JStr (mp_blocked_terms p))),
      (''slowModeSeconds'', JFloat (Fin (mp_slow_mode_seconds p))),
      (''maxMessagesPerMinute'', JInt (mp_max_messages_per_minute p))]"

definition patch_fields :: "string list" where
  "patch_fields = [''enabled'', ''blockedTerms'', ''slowModeSeconds'', ''maxMessagesPerMinute'']"

definition with_patch :: "(string \<Rightarrow> string) \<Rightarrow> (string \<Rightarrow> pyfloat option) \<Rightarrow> dict \<Rightarrow> moderation_policy
    \<Rightarrow> moderation_error + moderation_policy" where
  "with_patch casefold pf d p =
     (if \<not> list_all (\<lambda>e. fst e \<in> set patch_fields) d then Inl UnknownField
      else policy_of_mapping casefold pf (fold (\<lambda>(k, v). dict_set k v) d (policy_snapshot p)))"

section \<open>Storing the settings\<close>

definition moderation_document :: "moderation_policy \<Rightarrow> json" where
  "moderation_document p = JObj [(''schemaVersion'', JStr ''yuizaki.stream-moderation.v1''), (''policy'', JObj (policy_snapshot p))]"

text \<open>\<open>_load_moderation_policy\<close>: settings given to the runtime, else the file's content if it was read.\<close>

definition stored_policy_fields :: "json option \<Rightarrow> dict" where
  "stored_policy_fields file = (case file of
     Some (JObj raw) \<Rightarrow> if dict_get raw ''schemaVersion'' = JStr ''yuizaki.stream-moderation.v1'' then dict_of (dict_get raw ''policy'') else []
   | _ \<Rightarrow> [])"

definition load_moderation_policy :: "(string \<Rightarrow> string) \<Rightarrow> (string \<Rightarrow> pyfloat option) \<Rightarrow> dict option \<Rightarrow> json option
    \<Rightarrow> moderation_error + moderation_policy" where
  "load_moderation_policy casefold pf override file =
     (case policy_of_mapping casefold pf (case override of Some d \<Rightarrow> d | None \<Rightarrow> stored_policy_fields file) of
        Inr p \<Rightarrow> Inr p
      | Inl e \<Rightarrow> if e = NumberOverflow then Inl e else Inr default_policy)"

section \<open>Deciding on a message\<close>

record moderation_decision =
  md_allowed :: bool
  md_reason_code :: string
  md_retry_after_seconds :: "real option"
  md_matched_term_count :: nat

definition moderation_verdict :: "bool \<Rightarrow> string \<Rightarrow> real option \<Rightarrow> nat \<Rightarrow> moderation_decision" where
  "moderation_verdict allowed reason retry matched =
     \<lparr>md_allowed = allowed, md_reason_code = reason, md_retry_after_seconds = retry, md_matched_term_count = matched\<rparr>"

definition decision_snapshot :: "moderation_decision \<Rightarrow> dict" where
  "decision_snapshot d =
     [(''allowed'', JBool (md_allowed d)), (''reasonCode'', JStr (md_reason_code d)),
      (''retryAfterSeconds'', case md_retry_after_seconds d of None \<Rightarrow> JNull | Some r \<Rightarrow> JFloat (Fin r)),
      (''matchedTermCount'', JInt (int (md_matched_term_count d)))]"

text \<open>\<open>round(x, 2)\<close>: to the nearest hundredth, a tie to the even one.\<close>

definition round2 :: "real \<Rightarrow> real" where
  "round2 x = (let n = \<lfloor>100 * x\<rfloor>; rest = 100 * x - of_int n
     in of_int (if rest < 1/2 \<or> (rest = 1/2 \<and> even n) then n else n + 1) / 100)"

definition finite_times :: "pyfloat list \<Rightarrow> real list" where
  "finite_times sent = sort (concat (map (\<lambda>f. case f of Fin r \<Rightarrow> [r] | _ \<Rightarrow> []) sent))"

definition matched_terms :: "moderation_policy \<Rightarrow> string \<Rightarrow> nat" where
  "matched_terms p folded = length (filter (\<lambda>t. sublist t folded) (mp_blocked_terms p))"

definition within_limits :: "moderation_policy \<Rightarrow> real list \<Rightarrow> real \<Rightarrow> moderation_decision" where
  "within_limits p ts current =
     (let wait = mp_slow_mode_seconds p - (current - last ts)
      in if ts \<noteq> [] \<and> mp_slow_mode_seconds p > 0 \<and> wait > 0
         then moderation_verdict False ''slow_mode'' (Some (round2 wait)) 0
         else
           (let recent = filter (\<lambda>t. t \<ge> current - 60) ts
            in if int (length recent) \<ge> mp_max_messages_per_minute p
               then moderation_verdict False ''rate_limit'' (Some (round2 (max (1/100) (hd recent + 60 - current)))) 0
               else moderation_verdict True ''allowed'' None 0))"

definition evaluate_message :: "(string \<Rightarrow> string) \<Rightarrow> (string \<Rightarrow> pyfloat option) \<Rightarrow> real \<Rightarrow> moderation_policy \<Rightarrow> string
    \<Rightarrow> pyfloat list \<Rightarrow> json option \<Rightarrow> moderation_error + moderation_decision" where
  "evaluate_message casefold pf clock p message sent now =
     (let normalized = py_strip message; matched = matched_terms p (casefold normalized)
      in if normalized = [] then Inr (moderation_verdict False ''empty_text'' None 0)
         else if \<not> mp_enabled p then Inr (moderation_verdict True ''disabled'' None 0)
         else if matched > 0 then Inr (moderation_verdict False ''blocked_term'' None matched)
         else (case (case now of None \<Rightarrow> Inr clock | Some v \<Rightarrow> finite_number pf v) of
             Inl e \<Rightarrow> Inl e
           | Inr current \<Rightarrow> Inr (within_limits p (finite_times sent) current)))"

section \<open>What the settings guarantee\<close>

text \<open>A blocked term as it is stored: the folding of a stripped text of at most 80 characters. The folding
  itself may be longer.\<close>

definition bounded_term :: "(string \<Rightarrow> string) \<Rightarrow> string \<Rightarrow> bool" where
  "bounded_term casefold u \<longleftrightarrow> (\<exists>raw. py_strip raw \<noteq> [] \<and> length (py_strip raw) \<le> 80 \<and> u = casefold (py_strip raw))"

definition policy_in_bounds :: "(string \<Rightarrow> string) \<Rightarrow> moderation_policy \<Rightarrow> bool" where
  "policy_in_bounds casefold p \<longleftrightarrow> 0 \<le> mp_slow_mode_seconds p \<and> mp_slow_mode_seconds p \<le> 3600 \<and>
     1 \<le> mp_max_messages_per_minute p \<and> mp_max_messages_per_minute p \<le> 600 \<and>
     distinct (mp_blocked_terms p) \<and> length (mp_blocked_terms p) \<le> 64 \<and> list_all (bounded_term casefold) (mp_blocked_terms p)"

lemma collect_terms_bounds:
  "collect_terms casefold acc xs = Inr terms \<Longrightarrow> distinct acc \<Longrightarrow> length acc \<le> 64 \<Longrightarrow> list_all (bounded_term casefold) acc \<Longrightarrow>
     distinct terms \<and> length terms \<le> 64 \<and> list_all (bounded_term casefold) terms"
proof (induction casefold acc xs rule: collect_terms.induct)
  case (2 casefold acc raw rest)
  have "bounded_term casefold (casefold (py_strip raw))" if "py_strip raw \<noteq> []" "length (py_strip raw) \<le> 80"
    using that unfolding bounded_term_def by blast
  with 2 show ?case by (auto simp: Let_def split: if_splits)
qed auto

lemma normalize_terms_bounds:
  "normalize_terms casefold v = Inr terms \<Longrightarrow> distinct terms \<and> length terms \<le> 64 \<and> list_all (bounded_term casefold) terms"
  by (auto simp: normalize_terms_def split: json.splits dest: collect_terms_bounds)

lemma new_policy_bounds: "new_policy casefold pf a b c d = Inr p \<Longrightarrow> policy_in_bounds casefold p"
  by (auto simp: new_policy_def policy_in_bounds_def split: json.splits sum.splits if_splits dest: normalize_terms_bounds)

lemma policy_of_mapping_bounds: "policy_of_mapping casefold pf d = Inr p \<Longrightarrow> policy_in_bounds casefold p"
  by (auto simp: policy_of_mapping_def Let_def split: if_splits sum.splits dest: new_policy_bounds)

lemma default_policy_bounds: "policy_in_bounds casefold default_policy"
  by (simp add: default_policy_def policy_in_bounds_def)

lemma policy_sources_bounds:
  "with_patch casefold pf d q = Inr p \<Longrightarrow> policy_in_bounds casefold p"
  "load_moderation_policy casefold pf override file = Inr p \<Longrightarrow> policy_in_bounds casefold p"
  by (auto simp: with_patch_def load_moderation_policy_def default_policy_bounds
      split: if_splits sum.splits dest: policy_of_mapping_bounds)

section \<open>Storing and loading\<close>

text \<open>Terms that are read again as they are: stripped, short enough, and folded.\<close>

definition stable_terms :: "(string \<Rightarrow> string) \<Rightarrow> string list \<Rightarrow> bool" where
  "stable_terms casefold terms \<longleftrightarrow> list_all (\<lambda>t. t \<noteq> [] \<and> py_strip t = t \<and> length t \<le> 80 \<and> casefold t = t) terms"

lemma collect_stable:
  "stable_terms casefold terms \<Longrightarrow> distinct (acc @ terms) \<Longrightarrow> length (acc @ terms) \<le> 64 \<Longrightarrow>
     collect_terms casefold acc (map JStr terms) = Inr (acc @ terms)"
  by (induction terms arbitrary: acc) (auto simp: stable_terms_def Let_def)

lemma snapshot_read_back:
  assumes "policy_in_bounds casefold p" and "stable_terms casefold (mp_blocked_terms p)"
  shows "policy_of_mapping casefold pf (policy_snapshot p) = Inr p"
proof -
  have "collect_terms casefold [] (map JStr (mp_blocked_terms p)) = Inr (mp_blocked_terms p)"
    using collect_stable [OF assms(2), of "[]"] assms(1) by (simp add: policy_in_bounds_def)
  then show ?thesis
    using assms(1)
    by (simp add: policy_of_mapping_def policy_snapshot_def get_default_def is_bool_value_def is_iterable_def is_int_value_def
        to_float_def new_policy_def normalize_terms_def finite_number_def policy_in_bounds_def)
qed

lemma document_read_back: "stored_policy_fields (Some (moderation_document p)) = policy_snapshot p"
  by (simp add: stored_policy_fields_def moderation_document_def dict_get_Cons dict_of_def)

text \<open>A patch that changes nothing is accepted whenever the settings are read back.\<close>

lemma load_document:
  "policy_in_bounds casefold p \<Longrightarrow> stable_terms casefold (mp_blocked_terms p) \<Longrightarrow>
     load_moderation_policy casefold pf None (Some (moderation_document p)) = Inr p"
  by (simp add: load_moderation_policy_def document_read_back snapshot_read_back)

text \<open>
  Folding may lengthen a text (the German sharp s becomes two characters): a term of 80 characters is
  accepted and stored with more than 80, and the settings with it are not read back. The runtime then
  starts with the default settings, without any blocked term.
\<close>

definition sharp_fold :: "string \<Rightarrow> string" where
  "sharp_fold s = concat (map (\<lambda>c. if c = CHR 0xDF then ''ss'' else [py_lower_char c]) s)"

definition sharp_patch :: dict where
  "sharp_patch = [(''blockedTerms'', JList [JStr (replicate 80 CHR 0xDF)])]"

lemma folded_terms_are_lost:
  "\<exists>p. with_patch sharp_fold (\<lambda>_. None) sharp_patch default_policy = Inr p \<and> mp_blocked_terms p \<noteq> [] \<and>
     load_moderation_policy sharp_fold (\<lambda>_. None) None (Some (moderation_document p)) = Inr default_policy"
proof -
  have "case with_patch sharp_fold (\<lambda>_. None) sharp_patch default_policy of
      Inr p \<Rightarrow> mp_blocked_terms p \<noteq> [] \<and>
        load_moderation_policy sharp_fold (\<lambda>_. None) None (Some (moderation_document p)) = Inr default_policy
    | Inl e \<Rightarrow> False" by code_simp
  then show ?thesis by (auto split: sum.splits)
qed

section \<open>Deciding\<close>

text \<open>When a message passes, stated without the order of the checks.\<close>

definition message_passes :: "(string \<Rightarrow> string) \<Rightarrow> moderation_policy \<Rightarrow> string \<Rightarrow> real list \<Rightarrow> real \<Rightarrow> bool" where
  "message_passes casefold p message ts current \<longleftrightarrow> py_strip message \<noteq> [] \<and>
     (mp_enabled p \<longrightarrow> (\<forall>t\<in>set (mp_blocked_terms p). \<not> sublist t (casefold (py_strip message))) \<and>
       (\<forall>t\<in>set ts. mp_slow_mode_seconds p \<le> current - t \<or> mp_slow_mode_seconds p \<le> 0) \<and>
       int (length (filter (\<lambda>t. current - 60 \<le> t) ts)) < mp_max_messages_per_minute p)"

lemma sorted_last: "sorted xs \<Longrightarrow> t \<in> set xs \<Longrightarrow> t \<le> last xs" for t :: real
  by (induction xs) (auto split: if_splits)

lemma last_sort_le: "t \<in> set xs \<Longrightarrow> t \<le> last (sort xs)" for t :: real
  by (rule sorted_last) simp_all

lemma finite_times_Fin: "finite_times (map Fin ts) = sort ts"
proof -
  have "concat (map (\<lambda>f. case f of Fin r \<Rightarrow> [r] | _ \<Rightarrow> []) (map Fin ts)) = ts" by (induction ts) simp_all
  then show ?thesis by (simp add: finite_times_def)
qed

lemma limits_allow:
  "md_allowed (within_limits p (sort ts) current) \<longleftrightarrow>
     (\<forall>t\<in>set ts. mp_slow_mode_seconds p \<le> current - t \<or> mp_slow_mode_seconds p \<le> 0) \<and>
     int (length (filter (\<lambda>t. current - 60 \<le> t) ts)) < mp_max_messages_per_minute p"
proof -
  have "length (filter (\<lambda>t. current - 60 \<le> t) (sort ts)) = length (filter (\<lambda>t. current - 60 \<le> t) ts)"
    by (simp add: filter_sort)
  moreover have "(\<forall>t\<in>set ts. mp_slow_mode_seconds p \<le> current - t \<or> mp_slow_mode_seconds p \<le> 0) \<longleftrightarrow>
      \<not> (sort ts \<noteq> [] \<and> mp_slow_mode_seconds p > 0 \<and> mp_slow_mode_seconds p - (current - last (sort ts)) > 0)"
  proof (cases "ts = []")
    case False
    then have full: "sort ts \<noteq> []" by (metis set_empty set_sort)
    then have "last (sort ts) \<in> set ts" by (metis last_in_set set_sort)
    show ?thesis
    proof (intro iffI notI ballI)
      fix t assume "t \<in> set ts" and "\<not> (sort ts \<noteq> [] \<and> mp_slow_mode_seconds p > 0 \<and> mp_slow_mode_seconds p - (current - last (sort ts)) > 0)"
      with full last_sort_le [of t ts] show "mp_slow_mode_seconds p \<le> current - t \<or> mp_slow_mode_seconds p \<le> 0" by auto
    qed (use \<open>last (sort ts) \<in> set ts\<close> in fastforce)
  qed simp
  ultimately show ?thesis by (auto simp: within_limits_def moderation_verdict_def Let_def)
qed

end
