(* ===== verification/Stream_Runtime.thy ===== *)
theory Stream_Runtime
  imports Stream_Moderation Json_Order Ordered_Dict
begin

text \<open>
  The controlled actions of a live stream (\<open>StreamRuntime\<close> in \<open>modules/system/stream_runtime.py\<close>): a preview
  issues a ticket, an execution redeems it under the lock, calls the provider outside it and records what
  is known of the effect; the queue of incoming events with the claims of the draft worker; the human
  takeover; the moderation settings; and what a restart reads back. Every section under the lock is one
  operation. Fresh identifiers, clocks, whether a file could be written, and how a provider answers are
  arguments; \<open>when\<close> reads a time stamp, \<open>str_of\<close> is \<open>str\<close> of a value that is not a text. The texts shown to
  the user are left out.
\<close>

section \<open>Actions\<close>

datatype stream_error =
    ActionRequired | ActionUnsupported | ParamsType | TextRequired | TextTooLong | Moderated string
  | SubscriptionsUnavailable | RequestIdRequired | NotConfirmed | TicketUnknown | TicketExpired | ParamsMismatch
  | ActionMismatch | ChatUnconfigured | TwitchRevoked | ObsUnconfigured | SceneInvalid | ProfileInvalid | TakeoverActive
  | AuditInvalid | AuditUnsaved | Unhashable | ProviderValueError | UnknownEffect string | KindInvalid | TextEmpty
  | AuthorType | AuthorTooLong | SourceType | SourceTooLong | DraftStatus | SettingsInvalid moderation_error
  | SettingsUnsaved | LimitInvalid

record action_spec =
  as_risk :: string
  as_reversible :: bool
  as_confirmation :: bool

definition action_specs :: "(string \<times> action_spec) list" where
  "action_specs = map (\<lambda>(a, r, v, c). (a, \<lparr>as_risk = r, as_reversible = v, as_confirmation = c\<rparr>))
     [(''stream.status'', ''low'', True, False), (''stream.scene_preview'', ''low'', True, False),
      (''stream.scene_switch'', ''medium'', True, True), (''stream.profile_preview'', ''low'', True, False),
      (''stream.profile_switch'', ''medium'', True, True), (''stream.broadcast_start'', ''high'', True, True),
      (''stream.broadcast_stop'', ''medium'', True, True), (''stream.caption_draft'', ''low'', True, False),
      (''stream.chat_send'', ''medium'', False, True), (''stream.twitch_subscriptions_sync'', ''high'', True, True)]"

definition external_actions :: "string list" where
  "external_actions = [''stream.scene_switch'', ''stream.profile_switch'', ''stream.broadcast_start'',
     ''stream.broadcast_stop'', ''stream.chat_send'', ''stream.twitch_subscriptions_sync'']"

definition text_value :: "(json \<Rightarrow> string) \<Rightarrow> json \<Rightarrow> string" where
  "text_value str_of v = (case v of JStr s \<Rightarrow> s | x \<Rightarrow> str_of x)"

text \<open>Membership in a set of texts; a list or a dictionary cannot be looked up.\<close>

definition text_in :: "string list \<Rightarrow> json \<Rightarrow> stream_error + bool" where
  "text_in ss v = (case v of JStr s \<Rightarrow> Inr (s \<in> set ss) | JList xs \<Rightarrow> Inl Unhashable | JObj d \<Rightarrow> Inl Unhashable | _ \<Rightarrow> Inr False)"

definition bounded_str :: "nat \<Rightarrow> json \<Rightarrow> bool" where
  "bounded_str n v = (case v of JStr s \<Rightarrow> length s \<le> n | _ \<Rightarrow> False)"

definition visible_str :: "json \<Rightarrow> bool" where
  "visible_str v = (case v of JStr s \<Rightarrow> py_strip s \<noteq> [] | _ \<Rightarrow> False)"

section \<open>The audit of actions\<close>

definition audit_keys :: "string list" where
  "audit_keys = [''action'', ''requestId'', ''at'', ''status'', ''outcome'', ''externalSideEffects'', ''verificationStatus'',
     ''errorCode'', ''confirmed'']"

definition kept_field :: "string \<Rightarrow> json \<Rightarrow> dict" where
  "kept_field k v = (if v = JNull then [] else [(k, v)])"

definition sanitize_action :: "json \<Rightarrow> stream_error + dict option" where
  "sanitize_action v = (case v of
     JObj raw \<Rightarrow>
       if \<not> list_all (\<lambda>e. fst e \<in> set audit_keys) raw then Inr None
       else
         (let action = dict_get raw ''action''; request_id = dict_get raw ''requestId''; stamp = dict_get raw ''at'';
              status = get_default raw ''status'' (dict_get raw ''outcome'');
              external = get_default raw ''externalSideEffects'' (JBool False);
              confirmed = dict_get raw ''confirmed''; verification = dict_get raw ''verificationStatus'';
              code = dict_get raw ''errorCode''
          in if \<not> (case action of JStr a \<Rightarrow> a \<in> set (map fst action_specs @ [''stream.event_enqueue'', ''stream.takeover'']) | _ \<Rightarrow> False)
             then Inr None
             else if \<not> bounded_str 160 request_id then Inr None
             else if \<not> bounded_str 80 stamp \<or> stamp = JStr [] then Inr None
             else (case text_in [''sending'', ''known_success'', ''unknown_effect'', ''failed''] status of
                 Inl e \<Rightarrow> Inl e
               | Inr known \<Rightarrow>
                   if \<not> known \<or> \<not> is_bool_value external \<or>
                      (confirmed \<noteq> JNull \<and> \<not> is_bool_value confirmed) \<or>
                      (verification \<noteq> JNull \<and> \<not> bounded_str 80 verification) \<or>
                      (code \<noteq> JNull \<and> \<not> bounded_str 120 code)
                   then Inr None
                   else Inr (Some ([(''action'', action), (''requestId'', request_id), (''at'', stamp), (''status'', status),
                       (''outcome'', status), (''externalSideEffects'', external)] @ kept_field ''confirmed'' confirmed @
                       kept_field ''verificationStatus'' verification @ kept_field ''errorCode'' code))))
   | _ \<Rightarrow> Inr None)"

text \<open>The acceptable ones among the last \<open>n\<close> stored entries.\<close>

fun load_all :: "(json \<Rightarrow> stream_error + 'a option) \<Rightarrow> json list \<Rightarrow> stream_error + 'a list" where
  "load_all f [] = Inr []"
| "load_all f (x # xs) = (case f x of
     Inl e \<Rightarrow> Inl e
   | Inr y \<Rightarrow> map_sum id (\<lambda>ys. (case y of None \<Rightarrow> ys | Some z \<Rightarrow> z # ys)) (load_all f xs))"

definition last_n :: "nat \<Rightarrow> 'a list \<Rightarrow> 'a list" where
  "last_n n xs = drop (length xs - n) xs"

definition stored_items :: "string \<Rightarrow> string \<Rightarrow> json option \<Rightarrow> json list" where
  "stored_items schema name file = (case file of
     Some (JObj d) \<Rightarrow> if dict_get d ''schemaVersion'' = JStr schema
       then (case dict_get d name of JList xs \<Rightarrow> xs | _ \<Rightarrow> []) else []
   | _ \<Rightarrow> [])"

section \<open>Events\<close>

record stream_event =
  se_id :: string
  se_kind :: string
  se_text :: string
  se_author :: "string option"
  se_received_at :: string
  se_source :: string
  se_delivered :: bool
  se_draft_state :: string
  se_draft_error :: "string option"

definition event_keys :: "string list" where
  "event_keys = [''eventId'', ''kind'', ''text'', ''author'', ''receivedAt'', ''source'', ''delivered'',
     ''externalSideEffects'', ''draftState'', ''draftError'']"

definition event_dict :: "stream_event \<Rightarrow> dict" where
  "event_dict e =
     [(''eventId'', JStr (se_id e)), (''kind'', JStr (se_kind e)), (''text'', JStr (se_text e)),
      (''author'', json_text (se_author e)), (''receivedAt'', JStr (se_received_at e)), (''source'', JStr (se_source e)),
      (''delivered'', JBool (se_delivered e)), (''draftState'', JStr (se_draft_state e))] @
     (case se_draft_error e of None \<Rightarrow> [] | Some x \<Rightarrow> [(''draftError'', JStr x)]) @
     [(''externalSideEffects'', JBool False)]"

definition draft_state_of :: "string \<Rightarrow> string" where
  "draft_state_of s = (if s \<in> {''generated'', ''failed''} then s else ''pending'')"

definition sanitize_event :: "(json \<Rightarrow> string) \<Rightarrow> json \<Rightarrow> stream_error + stream_event option" where
  "sanitize_event str_of v = (case v of
     JObj raw \<Rightarrow>
       if \<not> list_all (\<lambda>e. fst e \<in> set event_keys) raw then Inr None
       else
         (let body = dict_get raw ''text''; author = dict_get raw ''author''; event_id = dict_get raw ''eventId'';
              received = dict_get raw ''receivedAt''
          in case text_in [''chat'', ''caption''] (dict_get raw ''kind'') of
               Inl e \<Rightarrow> Inl e
             | Inr known \<Rightarrow>
                 if \<not> known \<or> \<not> visible_str body \<or> \<not> bounded_str 4000 body \<or> \<not> visible_str event_id \<or>
                    \<not> bounded_str 160 event_id \<or> (author \<noteq> JNull \<and> \<not> bounded_str 200 author) \<or> \<not> bounded_str 80 received
                 then Inr None
                 else
                   (let txt = text_value str_of; who = py_strip (txt author); problem = dict_get raw ''draftError''
                    in Inr (Some \<lparr>se_id = py_strip (txt event_id), se_kind = txt (dict_get raw ''kind''),
                         se_text = py_strip (txt body),
                         se_author = (if author = JNull \<or> who = [] then None else Some who), se_received_at = txt received,
                         se_source = take 80 (txt (json_or (dict_get raw ''source'') (JStr ''local''))),
                         se_delivered = truthy (dict_get raw ''delivered''),
                         se_draft_state = draft_state_of (py_lower (py_strip (txt (json_or (dict_get raw ''draftState'') (JStr ''pending''))))),
                         se_draft_error = (case problem of JStr x \<Rightarrow> if x \<noteq> [] \<and> length x \<le> 400 then Some x else None | _ \<Rightarrow> None)\<rparr>)))
   | _ \<Rightarrow> Inr None)"

section \<open>The runtime\<close>

record ticket =
  tk_action :: string
  tk_params :: dict
  tk_expires_at :: real

text \<open>\<open>sr_calls\<close> lists the calls that reached a provider, with the ticket they redeemed.\<close>

record stream_runtime =
  sr_previews :: "(string \<times> ticket) list"
  sr_actions :: "dict list"
  sr_saved_actions :: "json option"
  sr_events :: "stream_event list"
  sr_saved_events :: "json option"
  sr_policy :: moderation_policy
  sr_saved_policy :: "json option"
  sr_send_times :: "real list"
  sr_takeover :: bool
  sr_mode :: string
  sr_last_action :: json
  sr_calls :: "(string \<times> string \<times> dict) list"

definition actions_document :: "dict list \<Rightarrow> json" where
  "actions_document xs = JObj [(''schemaVersion'', JStr ''yuizaki.stream-actions.v1''), (''actions'', JList (map JObj (last_n 200 xs)))]"

definition events_document :: "stream_event list \<Rightarrow> json" where
  "events_document es =
     JObj [(''schemaVersion'', JStr ''yuizaki.stream-events.v1''), (''events'', JList (map (JObj \<circ> event_dict) (last_n 100 es)))]"

definition send_times_of :: "(string \<Rightarrow> real option) \<Rightarrow> dict list \<Rightarrow> real list" where
  "send_times_of when actions = concat (map (\<lambda>a.
     if dict_get a ''action'' = JStr ''stream.chat_send''
     then (case dict_get a ''at'' of JStr s \<Rightarrow> if s = [] then [] else (case when s of None \<Rightarrow> [] | Some t \<Rightarrow> [t]) | _ \<Rightarrow> [])
     else []) actions)"

text \<open>\<open>__init__\<close> over the three files; a restart loses the tickets and starts with the human in control.\<close>

definition start_runtime :: "(string \<Rightarrow> string) \<Rightarrow> (string \<Rightarrow> pyfloat option) \<Rightarrow> (string \<Rightarrow> real option) \<Rightarrow> (json \<Rightarrow> string)
    \<Rightarrow> dict option \<Rightarrow> json option \<Rightarrow> json option \<Rightarrow> json option \<Rightarrow> stream_error + stream_runtime" where
  "start_runtime casefold pf when str_of override events_file actions_file policy_file =
     (case load_all (sanitize_event str_of) (last_n 100 (stored_items ''yuizaki.stream-events.v1'' ''events'' events_file)) of
        Inl e \<Rightarrow> Inl e
      | Inr events \<Rightarrow>
          (case load_all sanitize_action (last_n 200 (stored_items ''yuizaki.stream-actions.v1'' ''actions'' actions_file)) of
             Inl e \<Rightarrow> Inl e
           | Inr actions \<Rightarrow>
               (case load_moderation_policy casefold pf override policy_file of
                  Inl e \<Rightarrow> Inl (SettingsInvalid e)
                | Inr policy \<Rightarrow> Inr \<lparr>sr_previews = [], sr_actions = actions, sr_saved_actions = actions_file, sr_events = events,
                    sr_saved_events = events_file, sr_policy = policy, sr_saved_policy = policy_file,
                    sr_send_times = send_times_of when actions, sr_takeover = True, sr_mode = ''disconnected'',
                    sr_last_action = (if actions = [] then JNull else JObj (last actions)), sr_calls = []\<rparr>)))"

text \<open>\<open>append\<close> to a deque of bounded length.\<close>

definition push :: "nat \<Rightarrow> 'a \<Rightarrow> 'a list \<Rightarrow> 'a list" where
  "push n x xs = last_n n (xs @ [x])"

text \<open>
  \<open>_record_action_locked\<close>; \<open>saved\<close> tells whether the file could be written. An entry that had to be saved
  and was not is taken out again.
\<close>

definition record_action :: "dict \<Rightarrow> bool \<Rightarrow> bool \<Rightarrow> stream_runtime \<Rightarrow> (stream_error + bool) \<times> stream_runtime" where
  "record_action audit required saved s = (case sanitize_action (JObj audit) of
     Inl e \<Rightarrow> (Inl e, s)
   | Inr None \<Rightarrow> (Inl AuditInvalid, s)
   | Inr (Some a) \<Rightarrow>
       (let actions = push 200 a (sr_actions s)
        in if saved then (Inr True, s\<lparr>sr_actions := actions, sr_saved_actions := Some (actions_document actions), sr_last_action := JObj a\<rparr>)
           else if required then (Inl AuditUnsaved, s\<lparr>sr_actions := butlast actions\<rparr>)
           else (Inr False, s\<lparr>sr_actions := actions, sr_last_action := JObj a\<rparr>)))"

definition audit_of :: "string \<Rightarrow> string \<Rightarrow> string \<Rightarrow> string \<Rightarrow> dict \<Rightarrow> dict" where
  "audit_of action request_id stamp status extra =
     [(''action'', JStr action), (''requestId'', JStr request_id), (''at'', JStr stamp), (''status'', JStr status)] @ extra @
     [(''outcome'', JStr status), (''externalSideEffects'', JBool (action \<in> set external_actions))]"

section \<open>Previews\<close>

text \<open>What is configured outside: chat sender, revocation, subscription provider, OBS.\<close>

record stream_ports =
  sp_chat :: bool
  sp_revoked :: bool
  sp_subscriptions :: bool
  sp_obs :: bool

definition moderate :: "(string \<Rightarrow> string) \<Rightarrow> (string \<Rightarrow> pyfloat option) \<Rightarrow> real \<Rightarrow> string \<Rightarrow> stream_runtime
    \<Rightarrow> stream_error + moderation_decision" where
  "moderate casefold pf clock message s =
     (case evaluate_message casefold pf clock (sr_policy s) message (map Fin (sr_send_times s)) None of
        Inl e \<Rightarrow> Inl (SettingsInvalid e)
      | Inr d \<Rightarrow> if md_allowed d then Inr d else Inl (Moderated (md_reason_code d)))"

definition chat_preview :: "(string \<Rightarrow> string) \<Rightarrow> (string \<Rightarrow> pyfloat option) \<Rightarrow> real \<Rightarrow> dict \<Rightarrow> stream_runtime
    \<Rightarrow> stream_error + moderation_decision" where
  "chat_preview casefold pf clock params s = (case dict_get params ''text'' of
     JStr message \<Rightarrow>
       if py_strip message = [] then Inl TextRequired
       else if length (py_strip message) > 500 then Inl TextTooLong
       else moderate casefold pf clock message s
   | _ \<Rightarrow> Inl TextRequired)"

definition plan_of :: "string \<Rightarrow> action_spec \<Rightarrow> dict \<Rightarrow> dict \<Rightarrow> dict" where
  "plan_of action spec params extra =
     [(''action'', JStr action), (''params'', JObj params), (''risk'', JStr (as_risk spec)),
      (''reversible'', JBool (as_reversible spec)), (''confirmationRequired'', JBool (as_confirmation spec)),
      (''execute'', JBool False)] @ extra"

text \<open>Expired tickets go, and the oldest one of 128.\<close>

definition issue_ticket :: "string \<Rightarrow> string \<Rightarrow> dict \<Rightarrow> real \<Rightarrow> stream_runtime \<Rightarrow> stream_runtime" where
  "issue_ticket request_id action params now s =
     (let live = filter (\<lambda>e. \<not> tk_expires_at (snd e) \<le> now) (sr_previews s);
          kept = (if length live \<ge> 128 then tl live else live)
      in s\<lparr>sr_previews := od_set request_id \<lparr>tk_action = action, tk_params = params, tk_expires_at = now + 120\<rparr> kept\<rparr>)"

definition preview :: "(string \<Rightarrow> string) \<Rightarrow> (string \<Rightarrow> pyfloat option) \<Rightarrow> stream_ports \<Rightarrow> dict \<Rightarrow> string \<Rightarrow> real \<Rightarrow> real
    \<Rightarrow> stream_runtime \<Rightarrow> (stream_error + string \<times> dict) \<times> stream_runtime" where
  "preview casefold pf ports body request_id clock now s = (case dict_get body ''action'' of
     JStr raw \<Rightarrow>
       (let action = py_strip raw
        in if action = [] then (Inl ActionRequired, s)
           else (case map_of action_specs action of
               None \<Rightarrow> (Inl ActionUnsupported, s)
             | Some spec \<Rightarrow>
                 (case get_default body ''params'' (JObj []) of
                    JObj params \<Rightarrow>
                      (case (if action = ''stream.chat_send'' then map_sum id Some (chat_preview casefold pf clock params s) else Inr None) of
                         Inl e \<Rightarrow> (Inl e, s)
                       | Inr decision \<Rightarrow>
                           if action = ''stream.twitch_subscriptions_sync'' \<and> \<not> sp_subscriptions ports then (Inl SubscriptionsUnavailable, s)
                           else (Inr (request_id, plan_of action spec params
                                   (case decision of None \<Rightarrow> [] | Some d \<Rightarrow> [(''moderation'', JObj (decision_snapshot d))])),
                                 issue_ticket request_id action params now s))
                  | _ \<Rightarrow> (Inl ParamsType, s))))
   | _ \<Rightarrow> (Inl ActionRequired, s))"

section \<open>Executing\<close>

definition name_ok :: "json \<Rightarrow> bool" where
  "name_ok v = (case v of JStr s \<Rightarrow> py_strip s \<noteq> [] \<and> length (py_strip s) \<le> 200 | _ \<Rightarrow> False)"

definition ready_for :: "stream_ports \<Rightarrow> string \<Rightarrow> stream_error option" where
  "ready_for ports action =
     (if action = ''stream.chat_send'' then
        (if \<not> sp_chat ports then Some ChatUnconfigured else if sp_revoked ports then Some TwitchRevoked else None)
      else if action = ''stream.twitch_subscriptions_sync'' then (if \<not> sp_subscriptions ports then Some SubscriptionsUnavailable else None)
      else if action \<noteq> ''stream.caption_draft'' \<and> \<not> sp_obs ports then Some ObsUnconfigured
      else None)"

definition ticket_error :: "ticket \<Rightarrow> string \<Rightarrow> dict \<Rightarrow> stream_error option" where
  "ticket_error tk action params =
     (if \<not> py_equal (JObj (tk_params tk)) (JObj params) then Some ParamsMismatch
      else if tk_action tk \<noteq> action then Some ActionMismatch else None)"

text \<open>The checks before the claim: the request, its ticket, and what is configured.\<close>

definition check_request :: "stream_ports \<Rightarrow> dict \<Rightarrow> real \<Rightarrow> stream_runtime
    \<Rightarrow> (stream_error + string \<times> string \<times> dict) \<times> stream_runtime" where
  "check_request ports body now s = (case (dict_get body ''requestId'', dict_get body ''action'') of
     (JStr request_id, JStr raw) \<Rightarrow>
       if py_strip request_id = [] then (Inl RequestIdRequired, s)
       else if py_strip raw = [] then (Inl ActionRequired, s)
       else if dict_get body ''confirmed'' \<noteq> JBool True then (Inl NotConfirmed, s)
       else (case get_default body ''params'' (JObj []) of
           JObj params \<Rightarrow>
             (case map_of (sr_previews s) request_id of
                None \<Rightarrow> (Inl TicketUnknown, s)
              | Some tk \<Rightarrow>
                  if now \<ge> tk_expires_at tk then (Inl TicketExpired, s\<lparr>sr_previews := od_pop request_id (sr_previews s)\<rparr>)
                  else
                    (let action = py_strip raw
                     in case ticket_error tk action params of
                          Some e \<Rightarrow> (Inl e, s)
                        | None \<Rightarrow>
                            (case ready_for ports action of
                               Some e \<Rightarrow> (Inl e, s)
                             | None \<Rightarrow>
                                 if action = ''stream.scene_switch'' \<and> \<not> name_ok (dict_get params ''sceneName'') then (Inl SceneInvalid, s)
                                 else if action = ''stream.profile_switch'' \<and> \<not> name_ok (dict_get params ''profileName'') then (Inl ProfileInvalid, s)
                                 else (Inr (request_id, action, params), s))))
         | _ \<Rightarrow> (Inl ParamsType, s))
   | (JStr request_id, _) \<Rightarrow> (Inl (if py_strip request_id = [] then RequestIdRequired else ActionRequired), s)
   | _ \<Rightarrow> (Inl RequestIdRequired, s))"

record send_clock =
  cc_lock :: real
  cc_eval :: real
  cc_send :: real

definition chat_admitted :: "(string \<Rightarrow> string) \<Rightarrow> (string \<Rightarrow> pyfloat option) \<Rightarrow> real \<Rightarrow> dict \<Rightarrow> stream_runtime \<Rightarrow> stream_error option" where
  "chat_admitted casefold pf clock params s = (case dict_get params ''text'' of
     JStr message \<Rightarrow> if py_strip message = [] then Some TextRequired
       else (case moderate casefold pf clock message s of Inl e \<Rightarrow> Some e | Inr d \<Rightarrow> None)
   | _ \<Rightarrow> Some TextRequired)"

text \<open>The claim: everything is checked again, the ticket goes, and the attempt is on record before the provider is called.\<close>

definition claim_action :: "(string \<Rightarrow> string) \<Rightarrow> (string \<Rightarrow> pyfloat option) \<Rightarrow> stream_ports \<Rightarrow> string \<Rightarrow> string \<Rightarrow> dict
    \<Rightarrow> send_clock \<Rightarrow> string \<Rightarrow> bool \<Rightarrow> stream_runtime \<Rightarrow> stream_error option \<times> stream_runtime" where
  "claim_action casefold pf ports request_id action params clk stamp saved s = (case map_of (sr_previews s) request_id of
     None \<Rightarrow> (Some TicketUnknown, s)
   | Some tk \<Rightarrow>
       if cc_lock clk \<ge> tk_expires_at tk then (Some TicketExpired, s\<lparr>sr_previews := od_pop request_id (sr_previews s)\<rparr>)
       else (case ticket_error tk action params of
           Some e \<Rightarrow> (Some e, s)
         | None \<Rightarrow>
             if action = ''stream.chat_send'' \<and> sp_revoked ports then (Some TwitchRevoked, s)
             else if sr_takeover s then (Some TakeoverActive, s)
             else (case (if action = ''stream.chat_send'' then chat_admitted casefold pf (cc_eval clk) params s else None) of
                 Some e \<Rightarrow> (Some e, s)
               | None \<Rightarrow>
                   (let s = s\<lparr>sr_previews := od_pop request_id (sr_previews s)\<rparr>;
                        (recorded, s) = record_action (audit_of action request_id stamp ''sending'' [])
                          (action \<in> set external_actions) saved s
                    in case recorded of
                         Inl e \<Rightarrow> (Some e, s)
                       | Inr _ \<Rightarrow>
                           (None, s\<lparr>sr_send_times := (if action = ''stream.chat_send'' then sr_send_times s @ [cc_send clk] else sr_send_times s),
                              sr_calls := (if action = ''stream.caption_draft'' then sr_calls s
                                else sr_calls s @ [(request_id, action, params)])\<rparr>)))))"

text \<open>How the provider ends: with a response and the state read for verification, or with an exception.\<close>

datatype provider_end = Responds dict dict | RaisesValueError | RaisesOther string

definition verified :: "string \<Rightarrow> dict \<Rightarrow> dict \<Rightarrow> dict \<Rightarrow> string option + string" where
  "verified action params response seen =
     (let ack = (\<lambda>ok. Inr (if ok then ''provider_acknowledged'' else ''unknown_effect''));
          name = (\<lambda>k. (case dict_get params k of JStr s \<Rightarrow> py_strip s | _ \<Rightarrow> []))
      in if action = ''stream.caption_draft'' then
           (case get_default params ''text'' (JStr []) of
              JStr t \<Rightarrow> if py_strip t = [] \<or> length t > 4000 then Inl None else Inr ''local_only''
            | _ \<Rightarrow> Inl None)
         else if action = ''stream.chat_send'' then ack (dict_get response ''sent'' = JBool True)
         else if action = ''stream.twitch_subscriptions_sync'' then
           (case get_default response ''subscriptionPlan'' (JObj []) of
              JObj plan \<Rightarrow> ack (dict_get plan ''status'' = JStr ''synced'')
            | _ \<Rightarrow> Inl (Some ''AttributeError''))
         else if action = ''stream.scene_switch'' then ack (dict_get seen ''currentProgramSceneName'' = JStr (name ''sceneName''))
         else if action = ''stream.profile_switch'' then ack (dict_get seen ''currentProfileName'' = JStr (name ''profileName''))
         else if action = ''stream.broadcast_start'' then ack (dict_get seen ''outputActive'' = JBool True)
         else if action = ''stream.broadcast_stop'' then ack (dict_get seen ''outputActive'' = JBool False)
         else ack True)"

definition unknown_effect :: "string \<Rightarrow> string \<Rightarrow> string \<Rightarrow> string \<Rightarrow> bool \<Rightarrow> stream_runtime \<Rightarrow> stream_error \<times> stream_runtime" where
  "unknown_effect request_id action code stamp saved s =
     (let (recorded, s) = record_action (audit_of action request_id stamp ''unknown_effect'' [(''confirmed'', JBool True), (''errorCode'', JStr code)])
            False saved (s\<lparr>sr_mode := ''error''\<rparr>)
      in (case recorded of Inl e \<Rightarrow> e | Inr _ \<Rightarrow> UnknownEffect code, s))"

definition mode_after :: "string \<Rightarrow> dict \<Rightarrow> string \<Rightarrow> string" where
  "mode_after action response mode =
     (if action = ''stream.broadcast_start'' then ''live'' else if action = ''stream.broadcast_stop'' then ''ended''
      else if action \<in> {''stream.status'', ''stream.scene_preview'', ''stream.scene_switch''}
      then (if dict_get response ''outputActive'' = JBool True then ''live'' else ''ready'') else mode)"

definition finish_action :: "string \<Rightarrow> string \<Rightarrow> dict \<Rightarrow> provider_end \<Rightarrow> string \<Rightarrow> bool \<Rightarrow> stream_runtime
    \<Rightarrow> (stream_error + dict) \<times> stream_runtime" where
  "finish_action request_id action params ending stamp saved s =
     (case (case ending of Responds response seen \<Rightarrow> verified action params response seen
              | RaisesValueError \<Rightarrow> Inl None | RaisesOther name \<Rightarrow> Inl (Some name)) of
        Inl None \<Rightarrow> (Inl ProviderValueError, s)
      | Inl (Some name) \<Rightarrow> apfst Inl (unknown_effect request_id action name stamp saved s)
      | Inr status \<Rightarrow>
          if status = ''unknown_effect'' then apfst Inl (unknown_effect request_id action ''verification_mismatch'' stamp saved s)
          else
            (let response = (case ending of Responds r _ \<Rightarrow> r | _ \<Rightarrow> []);
                 (recorded, s) = record_action (audit_of action request_id stamp ''known_success'' [(''confirmed'', JBool True),
                   (''verificationStatus'', JStr status)]) False saved (s\<lparr>sr_mode := mode_after action response (sr_mode s)\<rparr>)
             in (case recorded of Inl e \<Rightarrow> Inl e | Inr _ \<Rightarrow> Inr response, s)))"

section \<open>The event queue\<close>

definition save_events :: "bool \<Rightarrow> stream_runtime \<Rightarrow> stream_runtime" where
  "save_events saved s = (if saved then s\<lparr>sr_saved_events := Some (events_document (sr_events s))\<rparr> else s)"

definition enqueue_event :: "dict \<Rightarrow> string \<Rightarrow> string \<Rightarrow> bool \<Rightarrow> stream_runtime \<Rightarrow> (stream_error + stream_event) \<times> stream_runtime" where
  "enqueue_event body event_id stamp saved s =
     (let author = get_default body ''author'' (JStr []); source = get_default body ''source'' (JStr ''local'')
      in case text_in [''chat'', ''caption''] (dict_get body ''kind'') of
           Inl e \<Rightarrow> (Inl e, s)
         | Inr False \<Rightarrow> (Inl KindInvalid, s)
         | Inr True \<Rightarrow>
             (case (dict_get body ''kind'', dict_get body ''text'', author, source) of
                (JStr kind, JStr content, who, src) \<Rightarrow>
                  if py_strip content = [] then (Inl TextEmpty, s)
                  else if length content > 4000 then (Inl TextTooLong, s)
                  else (case (who, src) of
                      (JStr a, JStr origin) \<Rightarrow>
                        if length a > 200 then (Inl AuthorTooLong, s)
                        else if length origin > 80 then (Inl SourceTooLong, s)
                        else
                          (let e = \<lparr>se_id = event_id, se_kind = kind, se_text = py_strip content,
                                 se_author = (if py_strip a = [] then None else Some (py_strip a)), se_received_at = stamp,
                                 se_source = (if py_strip origin = [] then ''local'' else py_strip origin), se_delivered = False,
                                 se_draft_state = ''pending'', se_draft_error = None\<rparr>;
                               s = save_events saved (s\<lparr>sr_events := push 100 e (sr_events s)\<rparr>)
                           in (Inr e, s\<lparr>sr_last_action := JObj [(''action'', JStr ''stream.event_enqueue''),
                                 (''eventId'', JStr event_id), (''at'', JStr stamp), (''externalSideEffects'', JBool False)]\<rparr>))
                    | (JStr a, _) \<Rightarrow> (Inl (if length a > 200 then AuthorTooLong else SourceType), s)
                    | _ \<Rightarrow> (Inl AuthorType, s))
              | _ \<Rightarrow> (Inl TextEmpty, s)))"

definition get_event :: "string \<Rightarrow> stream_runtime \<Rightarrow> stream_event option" where
  "get_event event_id s =
     (let k = py_strip event_id in if k = [] then None else List.find (\<lambda>e. se_id e = k) (rev (sr_events s)))"

text \<open>The first event with a property is changed.\<close>

fun change_first :: "('a \<Rightarrow> bool) \<Rightarrow> ('a \<Rightarrow> 'a) \<Rightarrow> 'a list \<Rightarrow> 'a list" where
  "change_first P f [] = []"
| "change_first P f (x # xs) = (if P x then f x # xs else x # change_first P f xs)"

definition change_event :: "(stream_event \<Rightarrow> bool) \<Rightarrow> (stream_event \<Rightarrow> stream_event) \<Rightarrow> bool \<Rightarrow> stream_runtime
    \<Rightarrow> stream_event option \<times> stream_runtime" where
  "change_event P f saved s = (case List.find P (sr_events s) of
     None \<Rightarrow> (None, s)
   | Some e \<Rightarrow> (Some (f e), save_events saved (s\<lparr>sr_events := change_first P f (sr_events s)\<rparr>)))"

definition claim_next_draft_event :: "bool \<Rightarrow> stream_runtime \<Rightarrow> stream_event option \<times> stream_runtime" where
  "claim_next_draft_event saved s =
     change_event (\<lambda>e. se_draft_state e = ''pending'') (\<lambda>e. e\<lparr>se_draft_state := ''processing'', se_draft_error := None\<rparr>) saved s"

definition release_draft_event :: "string \<Rightarrow> bool \<Rightarrow> stream_runtime \<Rightarrow> stream_event option \<times> stream_runtime" where
  "release_draft_event event_id saved s =
     (let k = py_strip event_id
      in if k = [] then (None, s)
         else case List.find (\<lambda>e. se_id e = k) (sr_events s) of
             None \<Rightarrow> (None, s)
           | Some e \<Rightarrow>
               if se_draft_state e \<noteq> ''processing'' then (Some e, s)
               else change_event (\<lambda>e. se_id e = k) (\<lambda>e. e\<lparr>se_draft_state := ''pending'', se_draft_error := None\<rparr>) saved s)"

definition complete_draft_event :: "string \<Rightarrow> string \<Rightarrow> string option \<Rightarrow> bool \<Rightarrow> stream_runtime
    \<Rightarrow> (stream_error + stream_event option) \<times> stream_runtime" where
  "complete_draft_event event_id status problem saved s =
     (let k = py_strip event_id; state = py_lower (py_strip status)
      in if state \<notin> {''generated'', ''failed''} then (Inl DraftStatus, s)
         else apfst Inr (change_event (\<lambda>e. se_id e = k) (\<lambda>e. e\<lparr>se_draft_state := state,
             se_draft_error := (if text_or_empty problem = [] then None else Some (take 400 (text_or_empty problem)))\<rparr>) saved s))"

text \<open>\<open>events\<close> and \<open>actions\<close>: the newest first.\<close>

definition newest :: "int \<Rightarrow> 'a list \<Rightarrow> stream_error + 'a list" where
  "newest limit xs = (if 1 \<le> limit \<and> limit \<le> 100 then Inr (rev (last_n (nat limit) xs)) else Inl LimitInvalid)"

section \<open>Takeover and settings\<close>

definition set_takeover :: "bool \<Rightarrow> string \<Rightarrow> stream_runtime \<Rightarrow> stream_runtime" where
  "set_takeover enabled stamp s = s\<lparr>sr_takeover := enabled,
     sr_last_action := JObj [(''action'', JStr ''stream.takeover''), (''enabled'', JBool enabled), (''at'', JStr stamp),
       (''externalSideEffects'', JBool False)]\<rparr>"

definition configure_moderation :: "(string \<Rightarrow> string) \<Rightarrow> (string \<Rightarrow> pyfloat option) \<Rightarrow> dict \<Rightarrow> bool \<Rightarrow> stream_runtime
    \<Rightarrow> stream_error option \<times> stream_runtime" where
  "configure_moderation casefold pf patch saved s = (case with_patch casefold pf patch (sr_policy s) of
     Inl e \<Rightarrow> (Some (SettingsInvalid e), s)
   | Inr p \<Rightarrow> if \<not> saved then (Some SettingsUnsaved, s)
       else (None, s\<lparr>sr_policy := p, sr_saved_policy := Some (moderation_document p)\<rparr>))"

section \<open>The machine\<close>

text \<open>
  Executions run in threads: \<open>sm_checked\<close> are those past the first checks, with the body they were called
  with, \<open>sm_running\<close> those whose provider call is under way. A command is one section under the lock of
  one of them, or an operation of somebody else.
\<close>

record stream_machine =
  sm_runtime :: stream_runtime
  sm_checked :: "(dict \<times> string \<times> string \<times> dict) list"
  sm_running :: "(string \<times> string \<times> dict) list"

datatype stream_cmd =
    SPreview stream_ports dict string real real
  | SCheck stream_ports dict real
  | SClaim nat stream_ports send_clock string bool
  | SFinish nat provider_end string bool
  | SEnqueue dict string string bool
  | SClaimDraft bool
  | SRelease string bool
  | SComplete string string "string option" bool
  | STakeover bool string
  | SConfigure dict bool
  | SRestart

record stream_env =
  fn_fold :: "string \<Rightarrow> string"
  fn_float :: "string \<Rightarrow> pyfloat option"
  fn_when :: "string \<Rightarrow> real option"
  fn_str :: "json \<Rightarrow> string"

definition drop_nth :: "nat \<Rightarrow> 'a list \<Rightarrow> 'a list" where
  "drop_nth n xs = take n xs @ drop (Suc n) xs"

definition on_runtime :: "(stream_runtime \<Rightarrow> stream_runtime) \<Rightarrow> stream_machine \<Rightarrow> stream_machine" where
  "on_runtime f m = m\<lparr>sm_runtime := f (sm_runtime m)\<rparr>"

definition restart :: "stream_env \<Rightarrow> stream_runtime \<Rightarrow> stream_runtime" where
  "restart env s = (case start_runtime (fn_fold env) (fn_float env) (fn_when env) (fn_str env) None
       (sr_saved_events s) (sr_saved_actions s) (sr_saved_policy s) of
     Inl e \<Rightarrow> s\<lparr>sr_previews := []\<rparr> | Inr s' \<Rightarrow> s'\<lparr>sr_calls := sr_calls s\<rparr>)"

fun exec_stream :: "stream_env \<Rightarrow> stream_cmd \<Rightarrow> stream_machine \<Rightarrow> stream_machine" where
  "exec_stream env (SPreview ports body request_id clock now) m =
     on_runtime (\<lambda>s. snd (preview (fn_fold env) (fn_float env) ports body request_id clock now s)) m"
| "exec_stream env (SCheck ports body now) m =
     (let (r, s) = check_request ports body now (sm_runtime m)
      in m\<lparr>sm_runtime := s, sm_checked := sm_checked m @ (case r of Inl e \<Rightarrow> [] | Inr x \<Rightarrow> [(body, x)])\<rparr>)"
| "exec_stream env (SClaim n ports clk stamp saved) m =
     (if n < length (sm_checked m)
      then (let (body, request_id, action, params) = sm_checked m ! n;
                (r, s) = claim_action (fn_fold env) (fn_float env) ports request_id action params clk stamp saved (sm_runtime m)
            in m\<lparr>sm_runtime := s, sm_checked := drop_nth n (sm_checked m),
                 sm_running := sm_running m @ (case r of None \<Rightarrow> [(request_id, action, params)] | Some e \<Rightarrow> [])\<rparr>)
      else m)"
| "exec_stream env (SFinish n ending stamp saved) m =
     (if n < length (sm_running m)
      then (let (request_id, action, params) = sm_running m ! n;
                (r, s) = finish_action request_id action params ending stamp saved (sm_runtime m)
            in m\<lparr>sm_runtime := s, sm_running := drop_nth n (sm_running m)\<rparr>)
      else m)"
| "exec_stream env (SEnqueue body event_id stamp saved) m = on_runtime (\<lambda>s. snd (enqueue_event body event_id stamp saved s)) m"
| "exec_stream env (SClaimDraft saved) m = on_runtime (\<lambda>s. snd (claim_next_draft_event saved s)) m"
| "exec_stream env (SRelease event_id saved) m = on_runtime (\<lambda>s. snd (release_draft_event event_id saved s)) m"
| "exec_stream env (SComplete event_id status problem saved) m =
     on_runtime (\<lambda>s. snd (complete_draft_event event_id status problem saved s)) m"
| "exec_stream env (STakeover enabled stamp) m = on_runtime (set_takeover enabled stamp) m"
| "exec_stream env (SConfigure patch saved) m =
     on_runtime (\<lambda>s. snd (configure_moderation (fn_fold env) (fn_float env) patch saved s)) m"
| "exec_stream env SRestart m = \<lparr>sm_runtime = restart env (sm_runtime m), sm_checked = [], sm_running = []\<rparr>"

end
