(* ===== verification/Stream_Runs.thy ===== *)
theory Stream_Runs
  imports Stream_Runtime
begin

text \<open>
  What holds over every interleaving of previews, executions, events, settings and restarts: a provider
  is called at most once per ticket and only for a confirmed, unexpired, previewed request outside a
  human takeover, with the attempt in the history; chat stays within the moderation limits; settings
  stay in bounds and survive a restart.
\<close>

section \<open>What the operations leave alone\<close>

text \<open>The same tickets, calls, settings and times of sending.\<close>

definition same_tickets :: "stream_runtime \<Rightarrow> stream_runtime \<Rightarrow> bool" where
  "same_tickets s s' \<longleftrightarrow> sr_previews s' = sr_previews s \<and> sr_calls s' = sr_calls s \<and> sr_policy s' = sr_policy s \<and>
     sr_send_times s' = sr_send_times s \<and> sr_saved_policy s' = sr_saved_policy s"

lemma same_tickets_refl [simp]: "same_tickets s s"
  by (simp add: same_tickets_def)

lemma same_tickets_mode: "same_tickets (s\<lparr>sr_mode := m\<rparr>) s' \<Longrightarrow> same_tickets s s'"
  by (simp add: same_tickets_def)

lemma record_action_same: "record_action a required saved s = (r, s') \<Longrightarrow> same_tickets s s'"
  by (auto simp: record_action_def same_tickets_def Let_def split: sum.splits option.splits if_splits)

lemma change_event_same: "same_tickets s (snd (change_event P f saved s))"
  by (auto simp: change_event_def save_events_def same_tickets_def split: option.splits)

lemma event_operations_same:
  "same_tickets s (snd (enqueue_event body i stamp saved s))"
  "same_tickets s (snd (release_draft_event k saved s))"
  "same_tickets s (snd (complete_draft_event k st pr saved s))"
  "same_tickets s (snd (claim_next_draft_event saved s))"
  "same_tickets s (set_takeover b stamp s)"
  by (auto simp: enqueue_event_def save_events_def same_tickets_def Let_def split: sum.splits bool.splits json.splits if_splits)
     (auto simp: release_draft_event_def complete_draft_event_def claim_next_draft_event_def set_takeover_def Let_def
       change_event_same [unfolded same_tickets_def] split: option.splits)

lemma unknown_effect_same: "unknown_effect rid a code stamp saved s = (r, s') \<Longrightarrow> same_tickets s s'"
  by (auto simp: unknown_effect_def split: prod.splits intro: same_tickets_mode dest!: record_action_same)

lemma finish_same: "finish_action rid a ps ending stamp saved s = (r, s') \<Longrightarrow> same_tickets s s'"
  by (auto simp: finish_action_def Let_def apfst_def map_prod_def split: sum.splits option.splits if_splits prod.splits
      intro: same_tickets_mode dest!: record_action_same unknown_effect_same)

section \<open>Previews and claims\<close>

lemma set_od_pop: "set (od_pop k d) = {e \<in> set d. fst e \<noteq> k}"
  by (simp add: od_pop_def)

lemma keys_od_set: "fst ` set (od_set k v d) = insert k (fst ` set d)"
proof -
  have "set (map fst (od_set k v d)) = insert k (set (map fst d))"
    unfolding keys_set by (auto simp: map_of_eq_None_iff)
  then show ?thesis by simp
qed

lemma issue_ticket_keys: "fst ` set (sr_previews (issue_ticket rid a ps now s)) \<subseteq> insert rid (fst ` set (sr_previews s))"
proof -
  let ?live = "filter (\<lambda>e. \<not> tk_expires_at (snd e) \<le> now) (sr_previews s)"
  have "set (if length ?live \<ge> 128 then tl ?live else ?live) \<subseteq> set (sr_previews s)"
    using set_mono_suffix [OF suffix_tl, of ?live] by auto
  then show ?thesis by (auto simp: issue_ticket_def Let_def keys_od_set simp del: filter_filter)
qed

lemma preview_step:
  assumes "preview casefold pf ports body rid clock now s = (r, s')"
  shows "sr_calls s' = sr_calls s \<and> sr_policy s' = sr_policy s \<and> sr_send_times s' = sr_send_times s \<and> sr_saved_policy s' = sr_saved_policy s \<and>
    fst ` set (sr_previews s') \<subseteq> insert rid (fst ` set (sr_previews s))"
proof -
  have frame: "sr_calls (issue_ticket rid a ps now s) = sr_calls s" "sr_policy (issue_ticket rid a ps now s) = sr_policy s"
      "sr_send_times (issue_ticket rid a ps now s) = sr_send_times s" "sr_saved_policy (issue_ticket rid a ps now s) = sr_saved_policy s" for a ps
    by (simp_all add: issue_ticket_def Let_def)
  have "s' = s \<or> (\<exists>a ps. s' = issue_ticket rid a ps now s)"
    using assms by (auto simp: preview_def Let_def split: json.splits if_splits option.splits sum.splits)
  then show ?thesis
  proof
    assume "\<exists>a ps. s' = issue_ticket rid a ps now s"
    then obtain a ps where "s' = issue_ticket rid a ps now s" by blast
    with issue_ticket_keys [of rid a ps now s] frame show ?thesis by simp
  qed auto
qed

lemma check_step:
  assumes "check_request ports body now s = (r, s')"
  shows "fst ` set (sr_previews s') \<subseteq> fst ` set (sr_previews s)" "sr_calls s' = sr_calls s" "sr_policy s' = sr_policy s"
    "sr_send_times s' = sr_send_times s" "sr_saved_policy s' = sr_saved_policy s"
    "r = Inr (rid, action, params) \<Longrightarrow> dict_get body ''requestId'' = JStr rid \<and> dict_get body ''confirmed'' = JBool True \<and>
       get_default body ''params'' (JObj []) = JObj params \<and> (\<exists>raw. dict_get body ''action'' = JStr raw \<and> action = py_strip raw)"
proof -
  have "s' = s \<or> (\<exists>k. s' = s\<lparr>sr_previews := od_pop k (sr_previews s)\<rparr>)"
    using assms by (auto simp: check_request_def Let_def split: json.splits if_splits option.splits)
  then show "fst ` set (sr_previews s') \<subseteq> fst ` set (sr_previews s)" "sr_calls s' = sr_calls s" "sr_policy s' = sr_policy s"
      "sr_send_times s' = sr_send_times s" "sr_saved_policy s' = sr_saved_policy s"
    by (auto simp: set_od_pop)
  assume "r = Inr (rid, action, params)"
  with assms show "dict_get body ''requestId'' = JStr rid \<and> dict_get body ''confirmed'' = JBool True \<and>
      get_default body ''params'' (JObj []) = JObj params \<and> (\<exists>raw. dict_get body ''action'' = JStr raw \<and> action = py_strip raw)"
    by (auto simp: check_request_def Let_def split: json.splits if_splits option.splits)
qed

text \<open>A claim that is granted redeems a valid ticket.\<close>

definition redeems :: "stream_env \<Rightarrow> stream_ports \<Rightarrow> string \<Rightarrow> string \<Rightarrow> dict \<Rightarrow> send_clock \<Rightarrow> stream_runtime \<Rightarrow> bool" where
  "redeems env ports rid action params clk s \<longleftrightarrow>
     (\<exists>tk. map_of (sr_previews s) rid = Some tk \<and> cc_lock clk < tk_expires_at tk \<and> tk_action tk = action \<and>
        py_equal (JObj (tk_params tk)) (JObj params)) \<and> \<not> sr_takeover s \<and>
     (action = ''stream.chat_send'' \<longrightarrow> \<not> sp_revoked ports \<and> chat_admitted (fn_fold env) (fn_float env) (cc_eval clk) params s = None)"

text \<open>The latest entry of the history says that this request is being sent; the saved history has it, too.\<close>

definition in_history :: "string \<Rightarrow> string \<Rightarrow> stream_runtime \<Rightarrow> bool" where
  "in_history rid action s \<longleftrightarrow> sr_actions s \<noteq> [] \<and> dict_get (last (sr_actions s)) ''requestId'' = JStr rid \<and>
     dict_get (last (sr_actions s)) ''action'' = JStr action \<and> dict_get (last (sr_actions s)) ''status'' = JStr ''sending''"

definition on_record :: "string \<Rightarrow> string \<Rightarrow> stream_runtime \<Rightarrow> bool" where
  "on_record rid action s \<longleftrightarrow> in_history rid action s \<and> sr_saved_actions s = Some (actions_document (sr_actions s))"

lemma last_push: "0 < n \<Longrightarrow> push n x xs \<noteq> [] \<and> last (push n x xs) = x"
  by (simp add: push_def last_n_def)

lemma sanitized_sending:
  assumes "sanitize_action (JObj (audit_of action rid stamp ''sending'' [])) = Inr (Some a)"
  shows "dict_get a ''requestId'' = JStr rid" "dict_get a ''status'' = JStr ''sending''" "dict_get a ''action'' = JStr action"
  using assms
  by (auto simp: sanitize_action_def audit_of_def Let_def dict_get_Cons get_default_def text_in_def kept_field_def split: if_splits)

lemma claim_granted:
  assumes "claim_action (fn_fold env) (fn_float env) ports rid action params clk stamp saved s = (None, s')"
  shows "redeems env ports rid action params clk s" "sr_previews s' = od_pop rid (sr_previews s)"
    "sr_calls s' = (if action = ''stream.caption_draft'' then sr_calls s else sr_calls s @ [(rid, action, params)])"
    "sr_send_times s' = (if action = ''stream.chat_send'' then sr_send_times s @ [cc_send clk] else sr_send_times s)"
    "sr_policy s' = sr_policy s" "sr_saved_policy s' = sr_saved_policy s"
    "in_history rid action s'" "action \<in> set external_actions \<Longrightarrow> on_record rid action s'"
proof -
  obtain tk where tk: "map_of (sr_previews s) rid = Some tk" "cc_lock clk < tk_expires_at tk" "ticket_error tk action params = None"
      "\<not> sr_takeover s" "action = ''stream.chat_send'' \<Longrightarrow> \<not> sp_revoked ports"
      "action = ''stream.chat_send'' \<Longrightarrow> chat_admitted (fn_fold env) (fn_float env) (cc_eval clk) params s = None"
    using assms by (auto simp: claim_action_def Let_def split: option.splits if_splits)
  let ?s = "s\<lparr>sr_previews := od_pop rid (sr_previews s)\<rparr>"
  obtain b s1 where rec: "record_action (audit_of action rid stamp ''sending'' []) (action \<in> set external_actions) saved ?s = (Inr b, s1)"
      and s': "s' = s1\<lparr>sr_send_times := (if action = ''stream.chat_send'' then sr_send_times s1 @ [cc_send clk] else sr_send_times s1),
        sr_calls := (if action = ''stream.caption_draft'' then sr_calls s1 else sr_calls s1 @ [(rid, action, params)])\<rparr>"
    using assms tk by (auto simp: claim_action_def Let_def split: option.splits if_splits prod.splits sum.splits)
  note frame = record_action_same [OF rec, unfolded same_tickets_def]
  show "redeems env ports rid action params clk s"
    using tk by (auto simp: redeems_def ticket_error_def split: if_splits)
  show "sr_previews s' = od_pop rid (sr_previews s)"
    "sr_calls s' = (if action = ''stream.caption_draft'' then sr_calls s else sr_calls s @ [(rid, action, params)])"
    "sr_send_times s' = (if action = ''stream.chat_send'' then sr_send_times s @ [cc_send clk] else sr_send_times s)"
    "sr_policy s' = sr_policy s" "sr_saved_policy s' = sr_saved_policy s"
    using frame by (simp_all add: s')
  obtain a where a: "sanitize_action (JObj (audit_of action rid stamp ''sending'' [])) = Inr (Some a)" "sr_actions s1 = push 200 a (sr_actions s)"
    using rec by (auto simp: record_action_def Let_def split: sum.splits option.splits if_splits)
  with sanitized_sending [OF a(1)] last_push [of 200 a "sr_actions s"] show history: "in_history rid action s'"
    by (simp add: in_history_def s')
  assume "action \<in> set external_actions"
  with rec have "sr_saved_actions s1 = Some (actions_document (sr_actions s1))"
    by (auto simp: record_action_def Let_def split: sum.splits option.splits if_splits)
  with history show "on_record rid action s'" by (simp add: on_record_def s')
qed

lemma claim_refused:
  assumes "claim_action casefold pf ports rid action params clk stamp saved s = (Some e, s')"
  shows "fst ` set (sr_previews s') \<subseteq> fst ` set (sr_previews s)" "sr_calls s' = sr_calls s" "sr_policy s' = sr_policy s"
    "sr_send_times s' = sr_send_times s" "sr_saved_policy s' = sr_saved_policy s"
proof -
  have rec: "record_action a q saved (s\<lparr>sr_previews := d\<rparr>) = (x, t) \<Longrightarrow> sr_previews t = d \<and> sr_calls t = sr_calls s \<and>
      sr_policy t = sr_policy s \<and> sr_send_times t = sr_send_times s \<and> sr_saved_policy t = sr_saved_policy s" for a q d x t
    using record_action_same [of a q saved "s\<lparr>sr_previews := d\<rparr>" x t] by (simp add: same_tickets_def)
  have "s' = s \<or> s' = s\<lparr>sr_previews := od_pop rid (sr_previews s)\<rparr> \<or>
      (\<exists>a q x. record_action a q saved (s\<lparr>sr_previews := od_pop rid (sr_previews s)\<rparr>) = (x, s'))"
    using assms by (auto simp: claim_action_def Let_def split: option.splits if_splits prod.splits sum.splits)
  with rec show "fst ` set (sr_previews s') \<subseteq> fst ` set (sr_previews s)" "sr_calls s' = sr_calls s" "sr_policy s' = sr_policy s"
      "sr_send_times s' = sr_send_times s" "sr_saved_policy s' = sr_saved_policy s"
    by (auto simp: set_od_pop)
qed

section \<open>One provider call per ticket\<close>

definition run_stream :: "stream_env \<Rightarrow> stream_cmd list \<Rightarrow> stream_machine \<Rightarrow> stream_machine" where
  "run_stream env cs m = fold (exec_stream env) cs m"

fun issued_id :: "stream_cmd \<Rightarrow> string list" where
  "issued_id (SPreview ports body request_id clock now) = [request_id]"
| "issued_id _ = []"

definition ticket_ids :: "stream_machine \<Rightarrow> string set" where
  "ticket_ids m = fst ` set (sr_previews (sm_runtime m))"

definition call_ids :: "stream_machine \<Rightarrow> string list" where
  "call_ids m = map fst (sr_calls (sm_runtime m))"

lemma on_runtime_same: "same_tickets (sm_runtime m) (f (sm_runtime m)) \<Longrightarrow> ticket_ids (on_runtime f m) = ticket_ids m \<and> call_ids (on_runtime f m) = call_ids m"
  by (simp add: on_runtime_def ticket_ids_def call_ids_def same_tickets_def)

lemma restart_calls: "sr_calls (restart env s) = sr_calls s" "sr_previews (restart env s) = []"
  by (auto simp: restart_def start_runtime_def split: sum.splits)

text \<open>One command: a ticket is issued, lost, or redeemed by a call.\<close>

lemma machine_step:
  "(ticket_ids (exec_stream env c m) \<subseteq> ticket_ids m \<union> set (issued_id c) \<and> call_ids (exec_stream env c m) = call_ids m) \<or>
   (\<exists>k\<in>ticket_ids m. issued_id c = [] \<and> ticket_ids (exec_stream env c m) \<subseteq> ticket_ids m - {k} \<and>
      call_ids (exec_stream env c m) = call_ids m @ [k])"
proof (cases c)
  case (SPreview ports body rid clock now)
  obtain r s' where "preview (fn_fold env) (fn_float env) ports body rid clock now (sm_runtime m) = (r, s')" by fastforce
  with preview_step [OF this] SPreview show ?thesis
    by (auto simp: on_runtime_def ticket_ids_def call_ids_def)
next
  case (SCheck ports body now)
  obtain r s' where "check_request ports body now (sm_runtime m) = (r, s')" by fastforce
  with check_step(1,2) [OF this] SCheck show ?thesis by (auto simp: ticket_ids_def call_ids_def)
next
  case (SClaim n ports clk stamp saved)
  show ?thesis
  proof (cases "n < length (sm_checked m)")
    case True
    obtain body rid action params where nth: "sm_checked m ! n = (body, rid, action, params)" by (metis prod_cases4)
    obtain r s' where cl: "claim_action (fn_fold env) (fn_float env) ports rid action params clk stamp saved (sm_runtime m) = (r, s')" by fastforce
    show ?thesis
    proof (cases r)
      case None
      note g = claim_granted [OF cl [unfolded None]]
      have "rid \<in> ticket_ids m" using g(1) by (force simp: redeems_def ticket_ids_def dest: map_of_SomeD)
      with g(2,3) True nth cl SClaim show ?thesis by (auto simp: ticket_ids_def call_ids_def set_od_pop)
    next
      case (Some e)
      with claim_refused(1,2) [OF cl [unfolded Some]] True nth cl SClaim show ?thesis
        by (auto simp: ticket_ids_def call_ids_def)
    qed
  qed (use SClaim in simp)
next
  case (SFinish n ending stamp saved)
  show ?thesis
  proof (cases "n < length (sm_running m)")
    case True
    obtain rid action params where nth: "sm_running m ! n = (rid, action, params)" by (metis prod_cases3)
    obtain r s' where "finish_action rid action params ending stamp saved (sm_runtime m) = (r, s')" by fastforce
    with finish_same [OF this] True nth SFinish show ?thesis by (auto simp: ticket_ids_def call_ids_def same_tickets_def)
  qed (use SFinish in simp)
next
  case SRestart
  then show ?thesis by (simp add: ticket_ids_def call_ids_def restart_calls)
next
  case (SConfigure patch saved)
  then show ?thesis
    by (auto simp: on_runtime_def ticket_ids_def call_ids_def configure_moderation_def split: sum.splits)
qed (use on_runtime_same event_operations_same in simp_all)

text \<open>With fresh ticket identifiers, the identifiers of calls are distinct and never those of open tickets.\<close>

definition tickets_inv :: "string set \<Rightarrow> stream_machine \<Rightarrow> bool" where
  "tickets_inv used m \<longleftrightarrow> distinct (call_ids m) \<and> ticket_ids m \<inter> set (call_ids m) = {} \<and> ticket_ids m \<union> set (call_ids m) \<subseteq> used"

lemma tickets_step:
  assumes "tickets_inv used m" and "set (issued_id c) \<inter> used = {}"
  shows "tickets_inv (used \<union> set (issued_id c)) (exec_stream env c m)"
  using machine_step [of env c m]
proof
  assume "ticket_ids (exec_stream env c m) \<subseteq> ticket_ids m \<union> set (issued_id c) \<and> call_ids (exec_stream env c m) = call_ids m"
  with assms show ?thesis unfolding tickets_inv_def by (simp, blast)
next
  assume "\<exists>k\<in>ticket_ids m. issued_id c = [] \<and> ticket_ids (exec_stream env c m) \<subseteq> ticket_ids m - {k} \<and>
      call_ids (exec_stream env c m) = call_ids m @ [k]"
  then obtain k where "k \<in> ticket_ids m" "ticket_ids (exec_stream env c m) \<subseteq> ticket_ids m - {k}"
      "call_ids (exec_stream env c m) = call_ids m @ [k]" by blast
  with assms show ?thesis unfolding tickets_inv_def by (simp, blast)
qed

lemma tickets_run:
  "tickets_inv used m \<Longrightarrow> distinct (concat (map issued_id cs)) \<Longrightarrow> set (concat (map issued_id cs)) \<inter> used = {} \<Longrightarrow>
     \<exists>used'. tickets_inv used' (run_stream env cs m)"
proof (induction cs arbitrary: used m)
  case (Cons c cs)
  have "tickets_inv (used \<union> set (issued_id c)) (exec_stream env c m)"
    using Cons.prems by (intro tickets_step) auto
  from Cons.IH [OF this] Cons.prems show ?case by (auto simp: run_stream_def)
qed (auto simp: run_stream_def)

definition idle_machine :: "stream_runtime \<Rightarrow> stream_machine" where
  "idle_machine s = \<lparr>sm_runtime = s, sm_checked = [], sm_running = []\<rparr>"

text \<open>C31. A provider is called at most once per ticket: in every run from a started runtime, with fresh
  identifiers for previews, no two calls redeem the same ticket - however executions with the same
  request interleave, whatever fails or raises, and across restarts.\<close>

theorem one_call_per_ticket:
  assumes "start_runtime (fn_fold env) (fn_float env) (fn_when env) (fn_str env) settings ef af pf' = Inr s"
    and "distinct (concat (map issued_id cs))"
  shows "distinct (map fst (sr_calls (sm_runtime (run_stream env cs (idle_machine s)))))"
proof -
  have "sr_calls s = []" "sr_previews s = []" using assms(1) by (auto simp: start_runtime_def split: sum.splits)
  then have "tickets_inv {} (idle_machine s)" by (simp add: tickets_inv_def ticket_ids_def call_ids_def idle_machine_def)
  from tickets_run [OF this assms(2)] show ?thesis by (auto simp: tickets_inv_def call_ids_def)
qed

section \<open>Only confirmed requests\<close>

text \<open>The body of a checked execution names its ticket and its parameters, and was confirmed.\<close>

definition confirmed_body :: "dict \<times> string \<times> string \<times> dict \<Rightarrow> bool" where
  "confirmed_body x = (case x of (body, rid, action, params) \<Rightarrow>
     dict_get body ''requestId'' = JStr rid \<and> dict_get body ''confirmed'' = JBool True \<and>
     get_default body ''params'' (JObj []) = JObj params \<and> (\<exists>raw. dict_get body ''action'' = JStr raw \<and> action = py_strip raw))"

lemma confirmed_step:
  assumes "\<forall>x\<in>set (sm_checked m). confirmed_body x"
  shows "\<forall>x\<in>set (sm_checked (exec_stream env c m)). confirmed_body x"
proof (cases c)
  case (SCheck ports body now)
  obtain r s' where ch: "check_request ports body now (sm_runtime m) = (r, s')" by fastforce
  have "confirmed_body (body, x)" if "r = Inr x" for x
    using check_step(6) [OF ch, of "fst x" "fst (snd x)" "snd (snd x)"] that by (auto simp: confirmed_body_def split_def)
  with SCheck ch assms show ?thesis by (auto split: sum.splits)
next
  case (SClaim n ports clk stamp saved)
  have "set (drop_nth n (sm_checked m)) \<subseteq> set (sm_checked m)" by (auto simp: drop_nth_def dest: in_set_takeD in_set_dropD)
  with SClaim assms show ?thesis by (auto simp: Let_def split: prod.splits)
next
  case (SFinish n ending stamp saved)
  with assms show ?thesis by (auto simp: Let_def split: prod.splits)
qed (use assms in \<open>simp_all add: on_runtime_def\<close>)

lemma confirmed_run: "\<forall>x\<in>set (sm_checked m). confirmed_body x \<Longrightarrow> \<forall>x\<in>set (sm_checked (run_stream env cs m)). confirmed_body x"
  unfolding run_stream_def
proof (induction cs arbitrary: m)
  case (Cons c cs)
  show ?case using Cons.IH [OF confirmed_step [OF Cons.prems]] by simp
qed simp

text \<open>C32. Executing actions reaches a provider only for confirmed, previewed requests: in every run, a command
  that adds a call is the claim of an execution whose body was confirmed and carries the parameters of
  the call; its ticket is open, unexpired and was issued for this action and equal parameters; no human
  has taken over; chat is admitted by the moderation and Twitch not revoked; the latest entry of the
  history says that this request is being sent; and for an action with external effects the history with
  this entry has been saved first. (A runtime configured without a history file skips the saving; the model
  has the file. The listing of OBS profiles and the probe of a connection ask the
  provider without a ticket; they are not executions of actions and not part of the model.)\<close>

theorem calls_redeem_confirmed_tickets:
  assumes "m = run_stream env cs (idle_machine s)" and "sr_calls (sm_runtime (exec_stream env c m)) \<noteq> sr_calls (sm_runtime m)"
  shows "\<exists>n ports clk stamp saved body rid action params. c = SClaim n ports clk stamp saved \<and>
    n < length (sm_checked m) \<and> sm_checked m ! n = (body, rid, action, params) \<and>
    dict_get body ''confirmed'' = JBool True \<and> dict_get body ''requestId'' = JStr rid \<and>
    get_default body ''params'' (JObj []) = JObj params \<and>
    sr_calls (sm_runtime (exec_stream env c m)) = sr_calls (sm_runtime m) @ [(rid, action, params)] \<and>
    redeems env ports rid action params clk (sm_runtime m) \<and>
    in_history rid action (sm_runtime (exec_stream env c m)) \<and>
    (action \<in> set external_actions \<longrightarrow> on_record rid action (sm_runtime (exec_stream env c m)))"
proof (cases c)
  case (SClaim n ports clk stamp saved)
  then have n: "n < length (sm_checked m)" using assms(2) by (cases "n < length (sm_checked m)") simp_all
  obtain body rid action params where nth: "sm_checked m ! n = (body, rid, action, params)" by (metis prod_cases4)
  obtain r s' where cl: "claim_action (fn_fold env) (fn_float env) ports rid action params clk stamp saved (sm_runtime m) = (r, s')" by fastforce
  have after: "sm_runtime (exec_stream env c m) = s'" using SClaim n nth cl by (simp add: Let_def)
  have r: "r = None" using claim_refused(2) cl assms(2) after by (cases r) auto
  note g = claim_granted [OF cl [unfolded r]]
  have "confirmed_body (body, rid, action, params)"
    using confirmed_run [of "idle_machine s" env cs] assms(1) n nth by (metis idle_machine_def nth_mem stream_machine.select_convs(2) empty_iff list.set(1))
  then have body: "dict_get body ''confirmed'' = JBool True" "dict_get body ''requestId'' = JStr rid" "get_default body ''params'' (JObj []) = JObj params"
    by (simp_all add: confirmed_body_def)
  have "sr_calls s' = sr_calls (sm_runtime m) @ [(rid, action, params)]" using g(3) assms(2) after by (auto split: if_splits)
  with SClaim n nth body g(1,7,8) after show ?thesis by blast
next
  case (SPreview ports body rid clock now)
  obtain r s' where "preview (fn_fold env) (fn_float env) ports body rid clock now (sm_runtime m) = (r, s')" by fastforce
  with preview_step [OF this] SPreview assms(2) show ?thesis by (simp add: on_runtime_def)
next
  case (SCheck ports body now)
  obtain r s' where "check_request ports body now (sm_runtime m) = (r, s')" by fastforce
  with check_step(2) [OF this] SCheck assms(2) show ?thesis by simp
next
  case (SFinish n ending stamp saved)
  obtain rid action params where nth: "sm_running m ! n = (rid, action, params)" by (metis prod_cases3)
  obtain r s' where "finish_action rid action params ending stamp saved (sm_runtime m) = (r, s')" by fastforce
  with finish_same [OF this] nth SFinish assms(2) show ?thesis by (auto simp: same_tickets_def split: if_splits)
next
  case SRestart
  with assms(2) show ?thesis by (simp add: restart_calls)
next
  case (SConfigure patch saved)
  with assms(2) show ?thesis by (auto simp: on_runtime_def configure_moderation_def split: sum.splits if_splits)
qed (use assms(2) event_operations_same [unfolded same_tickets_def] in \<open>simp_all add: on_runtime_def\<close>)

end
