(* ===== verification/Stream_Properties.thy ===== *)
theory Stream_Properties
  imports Stream_Runs
begin

text \<open>
  Chat limits, settings over restarts, what an execution reports, and the witnesses of the properties of
  the stream runtime.
\<close>

section \<open>Chat stays within its limits\<close>






fun keeps_settings :: "stream_cmd \<Rightarrow> bool" where
  "keeps_settings (SConfigure patch saved) = False"
| "keeps_settings SRestart = False"
| "keeps_settings _ = True"

lemma chat_step:
  assumes "keeps_settings c"
  shows "sr_policy (sm_runtime (exec_stream env c m)) = sr_policy (sm_runtime m) \<and>
    (sr_send_times (sm_runtime (exec_stream env c m)) = sr_send_times (sm_runtime m) \<or>
     (\<exists>n ports clk stamp saved params. c = SClaim n ports clk stamp saved \<and>
        chat_admitted (fn_fold env) (fn_float env) (cc_eval clk) params (sm_runtime m) = None \<and>
        sr_send_times (sm_runtime (exec_stream env c m)) = sr_send_times (sm_runtime m) @ [cc_send clk]))"
proof (cases c)
  case (SClaim n ports clk stamp saved)
  show ?thesis
  proof (cases "n < length (sm_checked m)")
    case True
    obtain body rid action params where nth: "sm_checked m ! n = (body, rid, action, params)" by (metis prod_cases4)
    obtain r s' where cl: "claim_action (fn_fold env) (fn_float env) ports rid action params clk stamp saved (sm_runtime m) = (r, s')" by fastforce
    have after: "sm_runtime (exec_stream env c m) = s'" using SClaim True nth cl by (simp add: Let_def)
    show ?thesis
    proof (cases r)
      case None
      note g = claim_granted [OF cl [unfolded None]]
      show ?thesis
      proof (cases "action = ''stream.chat_send''")
        case True
        with g(1) have "chat_admitted (fn_fold env) (fn_float env) (cc_eval clk) params (sm_runtime m) = None" by (simp add: redeems_def)
        with g(4,5) True after SClaim show ?thesis by auto
      qed (use g(4,5) after in simp)
    next
      case (Some e)
      with claim_refused(3,4) [OF cl [unfolded Some]] after show ?thesis by simp
    qed
  qed (use SClaim in simp)
next
  case (SPreview ports body rid clock now)
  obtain r s' where "preview (fn_fold env) (fn_float env) ports body rid clock now (sm_runtime m) = (r, s')" by fastforce
  with preview_step [OF this] SPreview show ?thesis by (simp add: on_runtime_def)
next
  case (SCheck ports body now)
  obtain r s' where "check_request ports body now (sm_runtime m) = (r, s')" by fastforce
  with check_step(3,4) [OF this] SCheck show ?thesis by simp
next
  case (SFinish n ending stamp saved)
  obtain rid action params where nth: "sm_running m ! n = (rid, action, params)" by (metis prod_cases3)
  obtain r s' where "finish_action rid action params ending stamp saved (sm_runtime m) = (r, s')" by fastforce
  with finish_same [OF this] nth SFinish show ?thesis by (auto simp: same_tickets_def)
qed (use assms event_operations_same [unfolded same_tickets_def] in \<open>simp_all add: on_runtime_def\<close>)


text \<open>
  A restart takes the times of sending from the last 200 entries of the saved history, whatever their
  action: a rate above 200 messages a minute can be exceeded, and entries of other actions push messages out.
\<close>

lemma load_all_length: "load_all f xs = Inr ys \<Longrightarrow> length ys \<le> length xs"
proof (induction xs arbitrary: ys)
  case (Cons x xs)
  then obtain y zs where "load_all f xs = Inr zs" "ys = (case y of None \<Rightarrow> zs | Some z \<Rightarrow> z # zs)"
    by (cases "load_all f xs") (auto split: sum.splits)
  with Cons.IH [of zs] show ?case by (cases y) auto
qed simp

lemma restart_remembers_little:
  assumes "start_runtime casefold pf when str_of override ef af mf = Inr s"
  shows "length (sr_send_times s) \<le> 200"
proof -
  obtain actions where actions: "load_all sanitize_action (last_n 200 (stored_items ''yuizaki.stream-actions.v1'' ''actions'' af)) = Inr actions"
      "sr_send_times s = send_times_of when actions"
    using assms by (auto simp: start_runtime_def split: sum.splits)
  have "length (send_times_of when actions) \<le> length actions"
    unfolding send_times_of_def by (induction actions) (auto split: json.splits option.splits)
  also have "\<dots> \<le> length (last_n 200 (stored_items ''yuizaki.stream-actions.v1'' ''actions'' af))"
    using load_all_length [OF actions(1)] .
  also have "\<dots> \<le> 200" by (simp add: last_n_def)
  finally show ?thesis unfolding actions(2) .
qed

section \<open>Settings over a restart\<close>

definition settings_inv :: "stream_env \<Rightarrow> stream_machine \<Rightarrow> bool" where
  "settings_inv env m \<longleftrightarrow> policy_in_bounds (fn_fold env) (sr_policy (sm_runtime m))"

lemma restart_policy:
  "sr_policy (restart env s) = sr_policy s \<or>
     load_moderation_policy (fn_fold env) (fn_float env) None (sr_saved_policy s) = Inr (sr_policy (restart env s))"
  by (auto simp: restart_def start_runtime_def split: sum.splits)

lemma settings_step: "settings_inv env m \<Longrightarrow> settings_inv env (exec_stream env c m)"
proof (cases "keeps_settings c")
  case True
  assume "settings_inv env m"
  with chat_step [OF True, of env m] show ?thesis by (simp add: settings_inv_def)
next
  case False
  assume "settings_inv env m"
  with False show ?thesis
  proof (cases c)
    case (SConfigure patch saved)
    with \<open>settings_inv env m\<close> show ?thesis
      by (auto simp: settings_inv_def on_runtime_def configure_moderation_def policy_sources_bounds split: sum.splits)
  next
    case SRestart
    with \<open>settings_inv env m\<close> restart_policy [of env "sm_runtime m"] show ?thesis
      by (auto simp: settings_inv_def policy_sources_bounds(2))
  qed simp_all
qed

interpretation settings: guarded_machine "exec_stream env" "settings_inv env" for env
  by unfold_locales (rule settings_step)

text \<open>C34. The moderation settings are always sane: whatever patches are applied, whatever the stored file holds
  and however often the runtime restarts, the slow mode lies between 0 and 3600 seconds, the rate
  between 1 and 600 messages a minute, and the blocked terms are distinct, at most 64, and each the folding of
  a non-empty stripped text of at most 80 characters. (The folding itself may be longer.)\<close>

theorem settings_stay_in_bounds:
  assumes "start_runtime (fn_fold env) (fn_float env) (fn_when env) (fn_str env) given ef af mf = Inr s"
  shows "policy_in_bounds (fn_fold env) (sr_policy (sm_runtime (run_stream env cs (idle_machine s))))"
proof -
  have "settings_inv env (idle_machine s)"
    using assms policy_sources_bounds(2)
    by (auto simp: settings_inv_def idle_machine_def start_runtime_def split: sum.splits)
  then have "settings_inv env (run_stream env cs (idle_machine s))" unfolding run_stream_def by (rule settings.run_inv)
  then show ?thesis by (simp add: settings_inv_def)
qed

lemma saved_settings_read_back:
  assumes "configure_moderation casefold pf patch saved s = (None, s')" and "stable_terms casefold (mp_blocked_terms (sr_policy s'))"
  shows "load_moderation_policy casefold pf None (sr_saved_policy s') = Inr (sr_policy s')"
  using assms
  by (auto simp: configure_moderation_def load_document policy_sources_bounds(1) split: sum.splits if_splits)

section \<open>What an execution reports\<close>

text \<open>Success is reported only for what the provider acknowledged; every other answer is on record as an unknown effect.\<close>

lemma success_is_acknowledged:
  assumes "finish_action rid action params ending stamp saved s = (Inr response, s')"
  shows "\<exists>r seen status. ending = Responds r seen \<and> response = r \<and> verified action params r seen = Inr status \<and> status \<noteq> ''unknown_effect''"
  using assms
  by (cases ending)
     (auto simp: finish_action_def Let_def apfst_def map_prod_def split: sum.splits option.splits if_splits prod.splits)

text \<open>
  A provider that raises a \<open>ValueError\<close> after its request was sent - an answer that is not JSON raises one -
  leaves the action on record as being sent: no unknown effect is recorded.
\<close>

lemma value_error_stays_sending: "finish_action rid action params RaisesValueError stamp saved s = (Inl ProviderValueError, s)"
  by (simp add: finish_action_def)

section \<open>Witnesses\<close>

definition sample_env :: stream_env where
  "sample_env = \<lparr>fn_fold = py_lower, fn_float = (\<lambda>_. None), fn_when = (\<lambda>_. Some 5), fn_str = (\<lambda>_. [])\<rparr>"

definition fresh_runtime :: stream_runtime where
  "fresh_runtime = \<lparr>sr_previews = [], sr_actions = [], sr_saved_actions = None, sr_events = [], sr_saved_events = None,
     sr_policy = default_policy, sr_saved_policy = None, sr_send_times = [], sr_takeover = True, sr_mode = ''disconnected'',
     sr_last_action = JNull, sr_calls = []\<rparr>"

lemma fresh_started:
  "start_runtime (fn_fold sample_env) (fn_float sample_env) (fn_when sample_env) (fn_str sample_env) None None None None = Inr fresh_runtime"
  by code_simp

definition open_ports :: stream_ports where
  "open_ports = \<lparr>sp_chat = True, sp_revoked = False, sp_subscriptions = False, sp_obs = False\<rparr>"

definition chat_body :: "string \<Rightarrow> dict" where
  "chat_body rid = [(''action'', JStr ''stream.chat_send''), (''params'', JObj [(''text'', JStr ''hello'')]),
     (''requestId'', JStr rid), (''confirmed'', JBool True)]"

text \<open>A message is previewed and executed by two competing executions; one of them sends it.\<close>

definition chat_session :: "stream_cmd list" where
  "chat_session = [STakeover False ''0'', SPreview open_ports (chat_body ''r1'') ''r1'' 1 1, SCheck open_ports (chat_body ''r1'') 2,
     SCheck open_ports (chat_body ''r1'') 2, SClaim 1 open_ports \<lparr>cc_lock = 3, cc_eval = 3, cc_send = 3\<rparr> ''3'' True,
     SClaim 0 open_ports \<lparr>cc_lock = 4, cc_eval = 4, cc_send = 4\<rparr> ''4'' True,
     SFinish 0 (Responds [(''sent'', JBool True)] []) ''5'' True]"

abbreviation after_session :: stream_machine where
  "after_session \<equiv> run_stream sample_env chat_session (idle_machine fresh_runtime)"

lemma session_sends:
  "length (sr_calls (sm_runtime after_session)) = 1" "length (sr_actions (sm_runtime after_session)) = 2"
  by code_simp+

text \<open>
  A restart takes the times of sending from the history, where a message is recorded when it is sent and
  again when its outcome is known: one message counts twice.
\<close>

lemma restart_counts_twice:
  "length (sr_send_times (sm_runtime after_session)) = 1 \<and> length (sr_send_times (restart sample_env (sm_runtime after_session))) = 2"
  by code_simp

theorem one_call_per_ticket_witness:
  "distinct (map fst (sr_calls (sm_runtime after_session))) \<and> length (sr_calls (sm_runtime after_session)) = 1"
proof -
  have "distinct (concat (map issued_id chat_session))" by (simp add: chat_session_def)
  from one_call_per_ticket [OF fresh_started this] session_sends(1) show ?thesis by simp
qed

definition before_claim :: "stream_cmd list" where
  "before_claim = take 4 chat_session"

lemma claim_sends:
  "sr_calls (sm_runtime (exec_stream sample_env (chat_session ! 4) (run_stream sample_env before_claim (idle_machine fresh_runtime)))) \<noteq>
     sr_calls (sm_runtime (run_stream sample_env before_claim (idle_machine fresh_runtime)))"
  by code_simp

theorem calls_redeem_confirmed_tickets_witness:
  "\<exists>rid action params. sr_calls (sm_runtime (exec_stream sample_env (chat_session ! 4) (run_stream sample_env before_claim (idle_machine fresh_runtime)))) =
     sr_calls (sm_runtime (run_stream sample_env before_claim (idle_machine fresh_runtime))) @ [(rid, action, params)]"
  using calls_redeem_confirmed_tickets [OF refl claim_sends] by blast



theorem settings_stay_in_bounds_witness:
  "policy_in_bounds py_lower (sr_policy (sm_runtime (run_stream sample_env [SConfigure sharp_patch True, SRestart] (idle_machine fresh_runtime))))"
  using settings_stay_in_bounds [OF fresh_started] by (simp add: sample_env_def)

end
