(* ===== verification/Scheduler.thy ===== *)
theory Scheduler
  imports Job_Log Turn_Payload
begin

text \<open>
  Scheduled tasks (\<open>modules/agent/scheduler.py\<close>, \<open>modules/agent/schedule_store.py\<close>): the store of tasks, the
  loop that queues due ones, the runs with their job events in the modelled job log, cancellation, and
  what a restart makes of interrupted runs. The event loop is single-threaded, so a command is what one
  coroutine does between two awaits; a store access is taken as one step, and \<open>saved\<close> tells whether its
  file could be written. Fresh identifiers, clocks and how an execution ends are arguments. Semantic
  execution goes through the turn service; the legacy pipeline without it is left out.
\<close>

section \<open>Tasks and runs\<close>

record sched_task =
  ta_id :: string
  ta_name :: string
  ta_source :: string
  ta_prompt :: string
  ta_enabled :: bool
  ta_mode :: string
  ta_created_at :: real
  ta_run_after_seconds :: "int option"
  ta_interval_seconds :: "int option"
  ta_next_run_at :: "real option"
  ta_last_run_at :: "real option"
  ta_last_status :: "string option"
  ta_last_run_id :: "string option"
  ta_last_job_id :: "string option"
  ta_last_request_id :: "string option"
  ta_last_run_summary :: "string option"
  ta_owner_agent_id :: "string option"
  ta_owner_agent_role :: "string option"
  ta_route_reason :: "string option"

text \<open>\<open>NotStarted\<close>: the asyncio task exists but has not run yet. \<open>Ended\<close>: it is done.\<close>

datatype run_phase = NotStarted | Starting | Executing | Ended

record sched_run =
  ru_task_id :: string
  ru_job_id :: string
  ru_request_id :: string
  ru_workspace_id :: string
  ru_session_id :: string
  ru_turn_id :: string
  ru_interruption_epoch :: int
  ru_status :: string
  ru_created_at :: real
  ru_finished_at :: "real option"
  ru_outcome :: "string option"
  ru_retryable :: "bool option"
  ru_summary :: "string option"
  ru_configured_budget :: dict
  ru_consumed_usage :: dict
  ru_phase :: run_phase

definition terminal_run_statuses :: "string list" where
  "terminal_run_statuses = [''completed'', ''failed'', ''cancelled'', ''interrupted'', ''unknown_effect'']"

text \<open>
  Tasks and runs are objects that several tables share: \<open>sd_tasks\<close> and \<open>sd_runs\<close> hold the objects by
  identifier, the other components refer to them. \<open>sd_stored\<close> are the keys of the store, \<open>sd_file\<close> what was
  written last, \<open>sd_history\<close> the keys of \<open>_runs_by_id\<close> in their order, \<open>sd_loop\<close> what the loop still has to
  look at and since when, \<open>sd_wanted\<close> the tasks that \<open>run_now\<close> marked and has not queued yet, and \<open>sd_executed\<close>
  the runs whose turn was executed.
\<close>

record scheduler =
  sd_tasks :: "(string \<times> sched_task) list"
  sd_stored :: "string list"
  sd_file :: "sched_task list"
  sd_active :: "string list"
  sd_runs :: "(string \<times> sched_run) list"
  sd_history :: "string list"
  sd_by_task :: "(string \<times> string) list"
  sd_by_job :: "(string \<times> string) list"
  sd_latest :: "(string \<times> string) list"
  sd_loop :: "real \<times> string list"
  sd_wanted :: "string list"
  sd_log :: job_log
  sd_executed :: "string list"

abbreviation task_of :: "scheduler \<Rightarrow> string \<Rightarrow> sched_task option" where
  "task_of s i \<equiv> map_of (sd_tasks s) i"

abbreviation run_of :: "scheduler \<Rightarrow> string \<Rightarrow> sched_run option" where
  "run_of s r \<equiv> map_of (sd_runs s) r"

section \<open>The store\<close>

definition stored_tasks :: "scheduler \<Rightarrow> sched_task list" where
  "stored_tasks s = concat (map (\<lambda>i. case task_of s i of None \<Rightarrow> [] | Some t \<Rightarrow> [t]) (sd_stored s))"

definition save_tasks :: "bool \<Rightarrow> scheduler \<Rightarrow> scheduler" where
  "save_tasks saved s = (if saved then s\<lparr>sd_file := stored_tasks s\<rparr> else s)"

definition upsert_task :: "bool \<Rightarrow> sched_task \<Rightarrow> scheduler \<Rightarrow> scheduler" where
  "upsert_task saved t s = save_tasks saved
     (s\<lparr>sd_tasks := od_set (ta_id t) t (sd_tasks s),
        sd_stored := (if ta_id t \<in> set (sd_stored s) then sd_stored s else sd_stored s @ [ta_id t])\<rparr>)"

definition remove_stored :: "bool \<Rightarrow> string \<Rightarrow> scheduler \<Rightarrow> scheduler" where
  "remove_stored saved i s = save_tasks saved (s\<lparr>sd_stored := filter (\<lambda>k. k \<noteq> i) (sd_stored s)\<rparr>)"

text \<open>The object is changed in place; the store may or may not know it.\<close>

definition set_task :: "sched_task \<Rightarrow> scheduler \<Rightarrow> scheduler" where
  "set_task t s = s\<lparr>sd_tasks := od_set (ta_id t) t (sd_tasks s)\<rparr>"

definition set_run :: "string \<Rightarrow> sched_run \<Rightarrow> scheduler \<Rightarrow> scheduler" where
  "set_run r x s = s\<lparr>sd_runs := od_set r x (sd_runs s)\<rparr>"

section \<open>Job events\<close>

definition run_event_args :: "string \<Rightarrow> sched_run \<Rightarrow> sched_task \<Rightarrow> string \<Rightarrow> real \<Rightarrow> dict \<Rightarrow> job_args" where
  "run_event_args r x t status now extra =
     \<lparr>ja_workspace_id = ru_workspace_id x, ja_session_id = ru_session_id x, ja_turn_id = ru_turn_id x, ja_job_id = ru_job_id x,
      ja_conversation_id = None, ja_operation_id = None, ja_step_index = None, ja_run_id = Some r,
      ja_request_id = ru_request_id x, ja_interruption_epoch = ru_interruption_epoch x, ja_source = ''scheduler'',
      ja_timestamp = Fin now, ja_status = status,
      ja_data = Some ([(''taskId'', JStr (ta_id t)), (''runId'', JStr r), (''taskName'', JStr (ta_name t)), (''mode'', JStr (ta_mode t))] @ extra),
      ja_idempotency_key = None\<rparr>"

text \<open>\<open>_emit_event\<close>: the status of the run changes even when the log refuses the event; then its error is the result.\<close>

definition emit_event :: "(string \<Rightarrow> string) \<Rightarrow> real \<Rightarrow> string \<Rightarrow> sched_run \<Rightarrow> sched_task \<Rightarrow> string \<Rightarrow> dict \<Rightarrow> job_log
    \<Rightarrow> job_error option \<times> sched_run \<times> job_log" where
  "emit_event scrub now r x t status extra l =
     (let x = x\<lparr>ru_status := status\<rparr>;
          x = (if status \<in> set terminal_run_statuses then x\<lparr>ru_finished_at := Some now\<rparr> else x);
          (res, l) = job_append scrub (run_event_args r x t status now extra) l
      in (case res of Inl e \<Rightarrow> Some e | Inr _ \<Rightarrow> None, x, l))"

section \<open>History\<close>

definition is_terminal_run :: "scheduler \<Rightarrow> string \<Rightarrow> bool" where
  "is_terminal_run s r \<longleftrightarrow> (case run_of s r of None \<Rightarrow> False | Some x \<Rightarrow> ru_status x \<in> set terminal_run_statuses)"

definition forget_run :: "string \<Rightarrow> scheduler \<Rightarrow> scheduler" where
  "forget_run r s = (case run_of s r of
     None \<Rightarrow> s\<lparr>sd_history := filter (\<lambda>k. k \<noteq> r) (sd_history s)\<rparr>
   | Some x \<Rightarrow> s\<lparr>sd_history := filter (\<lambda>k. k \<noteq> r) (sd_history s), sd_by_job := od_pop (ru_job_id x) (sd_by_job s),
       sd_latest := (if map_of (sd_latest s) (ru_task_id x) = Some r then od_pop (ru_task_id x) (sd_latest s) else sd_latest s)\<rparr>)"

lemma forget_shorter:
  "r \<in> set (sd_history s) \<Longrightarrow> length (sd_history (forget_run r s)) < length (sd_history s)"
  by (auto simp: forget_run_def intro: length_filter_less split: option.splits)

function trim_run_history :: "nat \<Rightarrow> scheduler \<Rightarrow> scheduler" where
  "trim_run_history n s =
     (if length (sd_history s) \<le> n then s
      else (case List.find (is_terminal_run s) (sd_history s) of
          None \<Rightarrow> s
        | Some r \<Rightarrow> trim_run_history n (forget_run r s)))"
  by pat_completeness auto
termination
  by (relation "measure (\<lambda>(n, s). length (sd_history s))") (auto simp: find_Some_iff in_set_conv_nth intro!: forget_shorter)

declare trim_run_history.simps [simp del]

section \<open>Queueing\<close>

record queue_ids =
  qi_job :: string
  qi_run :: string
  qi_request :: string
  qi_workspace :: string
  qi_epoch :: int
  qi_now :: real

definition new_run :: "queue_ids \<Rightarrow> sched_task \<Rightarrow> sched_run" where
  "new_run q t = \<lparr>ru_task_id = ta_id t, ru_job_id = qi_job q, ru_request_id = qi_request q,
     ru_workspace_id = text_or (py_strip (qi_workspace q)) ''default'', ru_session_id = ''schedule:'' @ ta_id t,
     ru_turn_id = ''turn:'' @ qi_job q, ru_interruption_epoch = max 0 (qi_epoch q), ru_status = ''created'', ru_created_at = qi_now q,
     ru_finished_at = None, ru_outcome = None, ru_retryable = None, ru_summary = None, ru_configured_budget = [],
     ru_consumed_usage = [], ru_phase = NotStarted\<rparr>"

text \<open>\<open>_queue_task\<close>; a full job log defers the task, any other refusal of the log is raised.\<close>

definition queue_task :: "(string \<Rightarrow> string) \<Rightarrow> queue_ids \<Rightarrow> bool \<Rightarrow> sched_task \<Rightarrow> scheduler \<Rightarrow> scheduler" where
  "queue_task scrub q saved t s =
     (if ta_id t \<in> set (sd_active s) then s
      else
        (let (refused, x, l) = emit_event scrub (qi_now q) (qi_run q) (new_run q t) t ''created'' [] (sd_log s);
             s = s\<lparr>sd_log := l\<rparr>
         in case refused of
              Some JobCapacity \<Rightarrow> upsert_task saved (t\<lparr>ta_last_status := Some ''blocked:job_capacity'',
                ta_last_run_summary := Some ''Scheduler job capacity is full; the task has not started.'',
                ta_next_run_at := Some (qi_now q + 5)\<rparr>) s
            | Some e \<Rightarrow> s
            | None \<Rightarrow>
                (let s = set_task (t\<lparr>ta_last_run_id := Some (qi_run q), ta_last_job_id := Some (qi_job q),
                           ta_last_request_id := Some (qi_request q)\<rparr>) (set_run (qi_run q) x s)
                 in trim_run_history 256 (s\<lparr>sd_active := ta_id t # sd_active s,
                      sd_by_task := od_set (ta_id t) (qi_run q) (sd_by_task s),
                      sd_by_job := od_set (qi_job q) (qi_run q) (sd_by_job s),
                      sd_history := (if qi_run q \<in> set (sd_history s) then sd_history s else sd_history s @ [qi_run q]),
                      sd_latest := od_set (ta_id t) (qi_run q) (sd_latest s)\<rparr>))))"

section \<open>Running\<close>

text \<open>The fields of a result, which is an object or the stored dictionary of one.\<close>

record sched_result =
  rr_outcome :: string
  rr_reply :: string
  rr_retryable :: bool
  rr_budget :: dict
  rr_usage :: dict
  rr_created_at :: "real option"

definition result_of :: "pipeline_result \<Rightarrow> sched_result" where
  "result_of r = \<lparr>rr_outcome = pr_outcome r, rr_reply = pr_reply r, rr_retryable = pr_retryable r,
     rr_budget = pr_configured_budget r, rr_usage = pr_consumed_usage r, rr_created_at = None\<rparr>"

definition stored_run_result :: "(json \<Rightarrow> string) \<Rightarrow> real option \<Rightarrow> dict \<Rightarrow> sched_result" where
  "stored_run_result str_of created d =
     (let txt = (\<lambda>v. case v of JStr s \<Rightarrow> s | _ \<Rightarrow> str_of v)
      in \<lparr>rr_outcome = txt (json_or (dict_get d ''outcome'') (JStr ''completed'')),
          rr_reply = txt (json_or (dict_get d ''reply'') (JStr [])), rr_retryable = truthy (dict_get d ''retryable''),
          rr_budget = dict_of (json_or (dict_get d ''configured_budget'') (JObj [])),
          rr_usage = dict_of (json_or (dict_get d ''consumed_usage'') (JObj [])), rr_created_at = created\<rparr>)"

definition some_text :: "string \<Rightarrow> string option" where
  "some_text s = (if s = [] then None else Some s)"

text \<open>\<open>_apply_authoritative_result\<close>; an unknown outcome is refused.\<close>

definition apply_result :: "sched_result \<Rightarrow> real \<Rightarrow> sched_run \<Rightarrow> sched_task \<Rightarrow> (sched_run \<times> sched_task) option" where
  "apply_result res now x t =
     (let outcome = py_lower (py_strip (text_or (rr_outcome res) ''completed'')); summary = some_text (take 160 (rr_reply res))
      in if outcome \<notin> set terminal_run_statuses then None
         else Some (x\<lparr>ru_status := outcome, ru_outcome := Some outcome,
                ru_retryable := Some (outcome \<noteq> ''unknown_effect'' \<and> rr_retryable res), ru_summary := summary,
                ru_configured_budget := rr_budget res, ru_consumed_usage := rr_usage res, ru_finished_at := Some (case rr_created_at res of Some created \<Rightarrow> created | None \<Rightarrow> now)\<rparr>,
              t\<lparr>ta_last_status := Some (if outcome = ''completed'' then ''ok'' else outcome),
                ta_last_request_id := Some (ru_request_id x), ta_last_run_summary := summary\<rparr>))"

text \<open>How the execution of a run ends; a durable commit of its turn may be found afterwards.\<close>

datatype execution_end =
    EndCommitted pipeline_result
  | EndRaised "sched_result option"
  | EndCancelled "sched_result option"

definition failure_text :: string where
  "failure_text = ''scheduled task failed; inspect the local log''"

text \<open>
  The \<open>except\<close> branches: the durable commit if there is one, else an event; \<open>None\<close> as the last component
  when no terminal status could be set.
\<close>

definition settle :: "(string \<Rightarrow> string) \<Rightarrow> real \<Rightarrow> string \<Rightarrow> string \<Rightarrow> dict \<Rightarrow> sched_result option \<Rightarrow> sched_run \<Rightarrow> sched_task \<Rightarrow> job_log
    \<Rightarrow> bool \<times> sched_run \<times> sched_task \<times> job_log" where
  "settle scrub now r status extra durable x t l = (case durable of
     Some res \<Rightarrow> (case apply_result res now x t of Some (x', t') \<Rightarrow> (True, x', t', l) | None \<Rightarrow> (False, x, t, l))
   | None \<Rightarrow> (let (refused, x, l) = emit_event scrub now r x t status extra l in (refused = None, x, t, l)))"

definition fail_run :: "(string \<Rightarrow> string) \<Rightarrow> real \<Rightarrow> string \<Rightarrow> sched_result option \<Rightarrow> sched_run \<Rightarrow> sched_task \<Rightarrow> job_log
    \<Rightarrow> bool \<times> sched_run \<times> sched_task \<times> job_log" where
  "fail_run scrub now r durable x t l =
     settle scrub now r ''failed'' [(''error'', JStr ''scheduled_task_exception'')] durable x
       (t\<lparr>ta_last_status := Some ''error:scheduled_task_exception'', ta_last_request_id := Some (ru_request_id x),
          ta_last_run_summary := Some failure_text\<rparr>) l"

definition cancel_run :: "(string \<Rightarrow> string) \<Rightarrow> real \<Rightarrow> string \<Rightarrow> sched_result option \<Rightarrow> sched_run \<Rightarrow> sched_task \<Rightarrow> job_log
    \<Rightarrow> bool \<times> sched_run \<times> sched_task \<times> job_log" where
  "cancel_run scrub now r durable x t l =
     settle scrub now r ''cancelled'' [(''reason'', JStr ''cancelled'')] durable x
       (t\<lparr>ta_last_status := Some ''cancelled'', ta_last_request_id := Some (ru_request_id x),
          ta_last_run_summary := Some ''cancelled''\<rparr>) l"

definition commit_run :: "(string \<Rightarrow> string) \<Rightarrow> real \<Rightarrow> string \<Rightarrow> pipeline_result \<Rightarrow> sched_run \<Rightarrow> sched_task \<Rightarrow> job_log
    \<Rightarrow> bool \<times> sched_run \<times> sched_task \<times> job_log" where
  "commit_run scrub now r result x t l = (case apply_result (result_of result) now x t of
     Some (x', t') \<Rightarrow> (True, x', t', l)
   | None \<Rightarrow> fail_run scrub now r None x t l)"

text \<open>The next time of an interval task; a task that runs once is switched off.\<close>

definition after_run :: "real \<Rightarrow> sched_task \<Rightarrow> sched_task" where
  "after_run now t =
     (let t = t\<lparr>ta_last_run_at := Some now\<rparr>
      in if ta_mode t = ''once'' then t\<lparr>ta_enabled := False, ta_next_run_at := None\<rparr>
         else (case ta_interval_seconds t of
             Some n \<Rightarrow> if n \<noteq> 0 then t\<lparr>ta_next_run_at := Some (now + of_int n)\<rparr> else t
           | None \<Rightarrow> t))"

text \<open>The \<open>finally\<close> block, after the run was settled.\<close>

definition finish_run :: "(string \<Rightarrow> string) \<Rightarrow> real \<Rightarrow> bool \<Rightarrow> string \<Rightarrow> bool \<times> sched_run \<times> sched_task \<times> job_log \<Rightarrow> scheduler \<Rightarrow> scheduler" where
  "finish_run scrub now saved r settled s =
     (let (terminal, x, t, l) = settled;
          t = after_run now t;
          s = s\<lparr>sd_active := filter (\<lambda>k. k \<noteq> ta_id t) (sd_active s), sd_by_task := od_pop (ta_id t) (sd_by_task s), sd_log := l\<rparr>;
          known = (ta_id t \<in> set (sd_stored s));
          s = (if known then upsert_task saved t s else set_task t s)
      in if known \<and> \<not> saved then set_run r (x\<lparr>ru_phase := Ended\<rparr>) s
         else if terminal then trim_run_history 256 (set_run r (x\<lparr>ru_phase := Ended\<rparr>) s)
         else
           (let (refused, x, l) = emit_event scrub now r x t ''failed'' [(''error'', JStr ''run terminated without a terminal status'')] l;
                s = set_run r (x\<lparr>ru_phase := Ended\<rparr>) (s\<lparr>sd_log := l\<rparr>)
            in if refused = None then trim_run_history 256 s else s))"

section \<open>The machine\<close>

datatype sched_cmd =
    AddTask sched_task bool
  | SetEnabled string bool real bool
  | RemoveTask string bool
  | RunNow string bool
  | QueueWanted queue_ids bool
  | LoopStart real
  | LoopNext queue_ids bool
  | RunStart string real bool bool
  | RunBegin string real bool bool
  | RunEnd string real execution_end bool
  | CancelUnstarted string

definition new_task :: "string \<Rightarrow> string \<Rightarrow> string \<Rightarrow> string \<Rightarrow> string \<Rightarrow> int \<Rightarrow> real \<Rightarrow> sched_task" where
  "new_task i name prompt source mode seconds now =
     \<lparr>ta_id = i, ta_name = name, ta_source = source, ta_prompt = prompt, ta_enabled = True, ta_mode = mode, ta_created_at = now,
      ta_run_after_seconds = (if mode = ''once'' then Some seconds else None),
      ta_interval_seconds = (if mode = ''once'' then None else Some seconds), ta_next_run_at = Some (now + of_int seconds),
      ta_last_run_at = None, ta_last_status = None, ta_last_run_id = None, ta_last_job_id = None, ta_last_request_id = None,
      ta_last_run_summary = None, ta_owner_agent_id = Some ''yuizaki.task-router'', ta_owner_agent_role = Some ''router'',
      ta_route_reason = Some (if mode = ''interval'' then ''Scheduled interval task owned by task-router''
        else ''Scheduled once task owned by task-router'')\<rparr>"

definition nonzero :: "int option \<Rightarrow> int option" where
  "nonzero x = (case x of Some n \<Rightarrow> if n = 0 then None else Some n | None \<Rightarrow> None)"

definition set_enabled :: "string \<Rightarrow> bool \<Rightarrow> real \<Rightarrow> bool \<Rightarrow> scheduler \<Rightarrow> scheduler" where
  "set_enabled i enabled now saved s =
     (if i \<notin> set (sd_stored s) then s
      else (case task_of s i of
          None \<Rightarrow> s
        | Some t \<Rightarrow>
            (let t = t\<lparr>ta_enabled := enabled\<rparr>;
                 wait = (case nonzero (ta_interval_seconds t) of Some n \<Rightarrow> n
                   | None \<Rightarrow> (case nonzero (ta_run_after_seconds t) of Some n \<Rightarrow> n | None \<Rightarrow> 1))
             in upsert_task saved (if enabled \<and> ta_next_run_at t = None then t\<lparr>ta_next_run_at := Some (now + of_int wait)\<rparr> else t) s)))"

definition run_now :: "string \<Rightarrow> bool \<Rightarrow> scheduler \<Rightarrow> scheduler" where
  "run_now i saved s =
     (if i \<notin> set (sd_stored s) \<or> i \<in> set (sd_active s) then s
      else (case task_of s i of
          None \<Rightarrow> s
        | Some t \<Rightarrow>
            (let s = upsert_task saved (t\<lparr>ta_last_status := Some ''queued''\<rparr>) s
             in if saved then s\<lparr>sd_wanted := sd_wanted s @ [i]\<rparr> else s)))"

text \<open>A task the loop looks at is queued if it is enabled and was due when the loop started.\<close>

definition is_due :: "real \<Rightarrow> sched_task \<Rightarrow> bool" where
  "is_due now t \<longleftrightarrow> ta_enabled t \<and> (case ta_next_run_at t of None \<Rightarrow> False | Some due \<Rightarrow> due \<le> now)"

definition loop_next :: "(string \<Rightarrow> string) \<Rightarrow> queue_ids \<Rightarrow> bool \<Rightarrow> scheduler \<Rightarrow> scheduler" where
  "loop_next scrub q saved s = (case sd_loop s of
     (now, []) \<Rightarrow> s
   | (now, i # rest) \<Rightarrow>
       (let s = s\<lparr>sd_loop := (now, rest)\<rparr>
        in case task_of s i of None \<Rightarrow> s | Some t \<Rightarrow> if is_due now t then queue_task scrub q saved t s else s))"

text \<open>The first segment of a run: it is marked as running and stored.\<close>

definition start_run :: "(string \<Rightarrow> string) \<Rightarrow> string \<Rightarrow> real \<Rightarrow> bool \<Rightarrow> bool \<Rightarrow> scheduler \<Rightarrow> scheduler" where
  "start_run scrub r now saved saved_end s = (case run_of s r of
     None \<Rightarrow> s
   | Some x \<Rightarrow> (case task_of s (ru_task_id x) of
       None \<Rightarrow> s
     | Some t \<Rightarrow>
         if ru_phase x \<noteq> NotStarted then s
         else
           (let t = t\<lparr>ta_last_status := Some ''running'', ta_last_request_id := Some (ru_request_id x)\<rparr>;
                s = upsert_task saved t s
            in if saved then set_run r (x\<lparr>ru_phase := Starting\<rparr>) s
               else finish_run scrub now saved_end r (fail_run scrub now r None x t (sd_log s)) s)))"

text \<open>The second: the running event, the context, and the call of the turn service.\<close>

definition begin_run :: "(string \<Rightarrow> string) \<Rightarrow> string \<Rightarrow> real \<Rightarrow> bool \<Rightarrow> bool \<Rightarrow> scheduler \<Rightarrow> scheduler" where
  "begin_run scrub r now context_ok saved s = (case run_of s r of
     None \<Rightarrow> s
   | Some x \<Rightarrow> (case task_of s (ru_task_id x) of
       None \<Rightarrow> s
     | Some t \<Rightarrow>
         if ru_phase x \<noteq> Starting then s
         else
           (let (refused, x, l) = emit_event scrub now r x t ''running'' [] (sd_log s); s = s\<lparr>sd_log := l\<rparr>
            in if refused = None \<and> context_ok
               then set_run r (x\<lparr>ru_phase := Executing\<rparr>) (s\<lparr>sd_executed := sd_executed s @ [r]\<rparr>)
               else finish_run scrub now saved r (fail_run scrub now r None x t l) s)))"

definition end_run :: "(string \<Rightarrow> string) \<Rightarrow> string \<Rightarrow> real \<Rightarrow> execution_end \<Rightarrow> bool \<Rightarrow> scheduler \<Rightarrow> scheduler" where
  "end_run scrub r now ending saved s = (case run_of s r of
     None \<Rightarrow> s
   | Some x \<Rightarrow> (case task_of s (ru_task_id x) of
       None \<Rightarrow> s
     | Some t \<Rightarrow>
         if ru_phase x \<noteq> Executing \<and> \<not> (ru_phase x = Starting \<and> ending = EndCancelled None) then s
         else finish_run scrub now saved r
           (case ending of
              EndCommitted result \<Rightarrow> commit_run scrub now r result x t (sd_log s)
            | EndRaised durable \<Rightarrow> fail_run scrub now r durable x t (sd_log s)
            | EndCancelled durable \<Rightarrow> cancel_run scrub now r durable x t (sd_log s)) s))"

text \<open>
  An asyncio task that is cancelled before its first step never enters its coroutine, so nothing of the
  run's own clean-up happens.
\<close>

definition cancel_unstarted :: "string \<Rightarrow> scheduler \<Rightarrow> scheduler" where
  "cancel_unstarted r s = (case run_of s r of
     None \<Rightarrow> s | Some x \<Rightarrow> if ru_phase x = NotStarted then set_run r (x\<lparr>ru_phase := Ended\<rparr>) s else s)"

fun exec_sched :: "(string \<Rightarrow> string) \<Rightarrow> sched_cmd \<Rightarrow> scheduler \<Rightarrow> scheduler" where
  "exec_sched scrub (AddTask t saved) s = upsert_task saved t s"
| "exec_sched scrub (SetEnabled i enabled now saved) s = set_enabled i enabled now saved s"
| "exec_sched scrub (RemoveTask i saved) s = remove_stored saved i s"
| "exec_sched scrub (RunNow i saved) s = run_now i saved s"
| "exec_sched scrub (QueueWanted q saved) s = (case sd_wanted s of
     [] \<Rightarrow> s
   | i # rest \<Rightarrow> (case task_of s i of
       None \<Rightarrow> s\<lparr>sd_wanted := rest\<rparr>
     | Some t \<Rightarrow> queue_task scrub q saved t (s\<lparr>sd_wanted := rest\<rparr>)))"
| "exec_sched scrub (LoopStart now) s = (if snd (sd_loop s) = [] then s\<lparr>sd_loop := (now, sd_stored s)\<rparr> else s)"
| "exec_sched scrub (LoopNext q saved) s = loop_next scrub q saved s"
| "exec_sched scrub (RunStart r now saved saved_end) s = start_run scrub r now saved saved_end s"
| "exec_sched scrub (RunBegin r now context_ok saved) s = begin_run scrub r now context_ok saved s"
| "exec_sched scrub (RunEnd r now ending saved) s = end_run scrub r now ending saved s"
| "exec_sched scrub (CancelUnstarted r) s = cancel_unstarted r s"

section \<open>After a restart\<close>

text \<open>\<open>_recover_interrupted_tasks\<close> for one task; a full log is tolerated, any other refusal ends the recovery.\<close>

definition recovered_args :: "string \<Rightarrow> real \<Rightarrow> sched_task \<Rightarrow> job_args" where
  "recovered_args workspace now t =
     (let job = text_or (text_or_empty (ta_last_job_id t)) (''schedjob_recovered_'' @ ta_id t);
          run = text_or (text_or_empty (ta_last_run_id t)) (''schedrun_recovered_'' @ ta_id t)
      in \<lparr>ja_workspace_id = text_or (py_strip workspace) ''default'', ja_session_id = ''schedule:'' @ ta_id t,
          ja_turn_id = ''turn:'' @ job, ja_job_id = job, ja_conversation_id = None, ja_operation_id = None, ja_step_index = None,
          ja_run_id = Some run, ja_request_id = text_or (text_or_empty (ta_last_request_id t)) (''schedreq_recovered_'' @ ta_id t),
          ja_interruption_epoch = 0, ja_source = ''scheduler'', ja_timestamp = Fin now, ja_status = ''interrupted'',
          ja_data = Some [(''taskId'', JStr (ta_id t)), (''runId'', JStr run), (''taskName'', JStr (ta_name t)), (''mode'', JStr (ta_mode t)),
            (''previousStatus'', json_text (ta_last_status t)), (''retryable'', JBool True),
            (''reason'', JStr ''scheduler_restarted_before_run_finished'')],
          ja_idempotency_key = None\<rparr>)"

definition interrupted_task :: "real \<Rightarrow> sched_task \<Rightarrow> sched_task" where
  "interrupted_task now t =
     (let t = t\<lparr>ta_last_status := Some ''interrupted:manual_rerun_required'',
                ta_last_run_summary := Some ''Previous scheduler run was interrupted; run manually to retry.''\<rparr>
      in if ta_mode t = ''once'' then t\<lparr>ta_enabled := False, ta_next_run_at := None\<rparr>
         else (case nonzero (ta_interval_seconds t) of
             Some n \<Rightarrow> t\<lparr>ta_next_run_at := Some (now + of_int n)\<rparr>
           | None \<Rightarrow> t\<lparr>ta_enabled := False, ta_next_run_at := None\<rparr>))"

definition was_interrupted :: "sched_task \<Rightarrow> bool" where
  "was_interrupted t \<longleftrightarrow> ta_last_status t \<in> {Some ''queued'', Some ''running''}"

fun recover_tasks :: "(string \<Rightarrow> string) \<Rightarrow> string \<Rightarrow> real \<Rightarrow> sched_task list \<Rightarrow> job_log \<Rightarrow> job_error option \<times> sched_task list \<times> job_log" where
  "recover_tasks scrub workspace now [] l = (None, [], l)"
| "recover_tasks scrub workspace now (t # rest) l =
     (if \<not> was_interrupted t then recover_tasks scrub workspace now rest l
      else (case job_append scrub (recovered_args workspace now t) l of
          (Inl e, l) \<Rightarrow>
            if e \<noteq> JobCapacity then (Some e, [], l)
            else map_prod id (apfst (\<lambda>ts. interrupted_task now t # ts)) (recover_tasks scrub workspace now rest l)
        | (Inr _, l) \<Rightarrow> map_prod id (apfst (\<lambda>ts. interrupted_task now t # ts)) (recover_tasks scrub workspace now rest l)))"

text \<open>
  \<open>start\<close> in a new process: the file is read, interrupted runs are closed and their tasks stored, before the
  loop runs. An error leaves the scheduler stopped.
\<close>

definition load_scheduler :: "sched_task list \<Rightarrow> job_log \<Rightarrow> scheduler" where
  "load_scheduler file l =
     (let tasks = fold (\<lambda>t. od_set (ta_id t) t) (filter (\<lambda>t. ta_id t \<noteq> []) file) []
      in \<lparr>sd_tasks = tasks, sd_stored = map fst tasks, sd_file = file, sd_active = [], sd_runs = [], sd_history = [],
          sd_by_task = [], sd_by_job = [], sd_latest = [], sd_loop = (0, []), sd_wanted = [], sd_log = l, sd_executed = []\<rparr>)"

definition start_scheduler :: "(string \<Rightarrow> string) \<Rightarrow> string \<Rightarrow> real \<Rightarrow> bool \<Rightarrow> sched_task list \<Rightarrow> job_log \<Rightarrow> scheduler option" where
  "start_scheduler scrub workspace now saved file l =
     (let s = load_scheduler file l; (failed, changed, l) = recover_tasks scrub workspace now (map snd (sd_tasks s)) l
      in if failed \<noteq> None \<or> changed \<noteq> [] \<and> \<not> saved then None
         else Some (fold (upsert_task saved) changed (s\<lparr>sd_log := l\<rparr>)))"

section \<open>Reading\<close>

definition resolve_run :: "scheduler \<Rightarrow> string \<Rightarrow> string option" where
  "resolve_run s k = (case map_of (sd_by_task s) k of Some r \<Rightarrow> Some r
     | None \<Rightarrow> (case map_of (sd_by_job s) k of Some r \<Rightarrow> Some r
       | None \<Rightarrow> if k \<in> set (sd_history s) then Some k else map_of (sd_latest s) k))"

definition serialize_run :: "string \<Rightarrow> sched_run \<Rightarrow> dict" where
  "serialize_run r x =
     [(''taskId'', JStr (ru_task_id x)), (''runId'', JStr r), (''jobId'', JStr (ru_job_id x)), (''requestId'', JStr (ru_request_id x)),
      (''workspaceId'', JStr (ru_workspace_id x)), (''sessionId'', JStr (ru_session_id x)), (''turnId'', JStr (ru_turn_id x)),
      (''status'', JStr (ru_status x)), (''outcome'', json_text (ru_outcome x)),
      (''retryable'', case ru_retryable x of None \<Rightarrow> JNull | Some b \<Rightarrow> JBool b), (''summary'', json_text (ru_summary x)),
      (''configuredBudget'', JObj (ru_configured_budget x)), (''consumedUsage'', JObj (ru_consumed_usage x)),
      (''createdAt'', JFloat (Fin (ru_created_at x))),
      (''finishedAt'', case ru_finished_at x of None \<Rightarrow> JNull | Some t \<Rightarrow> JFloat (Fin t))]"

definition get_run :: "scheduler \<Rightarrow> string \<Rightarrow> dict option" where
  "get_run s k = (case resolve_run s k of None \<Rightarrow> None | Some r \<Rightarrow> map_option (serialize_run r) (run_of s r))"

end
