(* ===== verification/Scheduler_Properties.thy ===== *)
theory Scheduler_Properties
  imports Scheduler_Runs
begin

text \<open>
  The contract of the scheduler: a task that runs once is not started again, an interrupted run is not
  repeated after a restart, the history is bounded; and the task whose run was cancelled before its first
  step is blocked for good.
\<close>

section \<open>Once\<close>

text \<open>The three parts of a run's coroutine.\<close>

fun steps_run :: "string \<Rightarrow> sched_cmd \<Rightarrow> bool" where
  "steps_run r (RunStart k now saved saved_end) = (k = r)"
| "steps_run r (RunBegin k now ok saved) = (k = r)"
| "steps_run r (RunEnd k now ending saved) = (k = r)"
| "steps_run r c = False"

definition live_run :: "string \<Rightarrow> scheduler \<Rightarrow> bool" where
  "live_run r s \<longleftrightarrow> (case run_of s r of None \<Rightarrow> False | Some x \<Rightarrow> ru_phase x \<noteq> Ended)"

lemma finished_off:
  assumes "settled_for x t settled" and "ta_mode t = ''once''" and "ta_id t \<notin> set (sd_wanted s)"
  shows "switched_off (ta_id t) (finish_run scrub now saved r settled s)"
proof -
  note f = run_end_fields [OF assms(1) refl, of scrub now saved r s]
  from f(1,3,5) assms(2,3) show ?thesis by (auto simp: switched_off_def)
qed

lemma ended_off:
  assumes "sched_inv s" and "run_of s r = Some x" and "task_of s (ru_task_id x) = Some t" and "ta_mode t = ''once''"
    and "ru_task_id x \<notin> set (sd_wanted s)" and "live_run r s" and "steps_run r c" and "\<not> live_run r (exec_sched scrub c s)"
  shows "switched_off (ru_task_id x) (exec_sched scrub c s)"
proof -
  have named: "ta_id t = ru_task_id x" using assms(1,3) by (auto simp: sched_inv_def tasks_named_def)
  have alive: "ru_phase x \<noteq> Ended" using assms(2,6) by (simp add: live_run_def)
  consider (start) now saved saved_end where "c = RunStart r now saved saved_end" | (beginning) now ok saved where "c = RunBegin r now ok saved"
    | (ending) now ending saved where "c = RunEnd r now ending saved"
    using assms(7) by (cases c) auto
  then show ?thesis
  proof cases
    case start
    let ?t = "t\<lparr>ta_last_status := Some ''running'', ta_last_request_id := Some (ru_request_id x)\<rparr>"
    have "ru_phase x = NotStarted \<and> \<not> saved"
      using assms(2,3,8) alive start by (auto simp: start_run_def live_run_def Let_def split: if_splits)
    then have "exec_sched scrub c s = finish_run scrub now saved_end r (fail_run scrub now r None x ?t (sd_log s)) (upsert_task saved ?t s)"
      using assms(2,3) start by (simp add: start_run_def Let_def)
    with finished_off [OF settled_ways(1), of ?t "upsert_task saved ?t s"] assms(4,5) named show ?thesis by simp
  next
    case beginning
    obtain e x' l where em: "emit_event scrub now r x t ''running'' [] (sd_log s) = (e, x', l)" by (metis prod_cases3)
    have "ru_phase x = Starting \<and> \<not> (e = None \<and> ok)"
      using assms(2,3,8) alive beginning em by (auto simp: begin_run_def live_run_def Let_def split: if_splits)
    then have "exec_sched scrub c s = finish_run scrub now saved r (fail_run scrub now r None x' t l) (s\<lparr>sd_log := l\<rparr>)"
      using assms(2,3) beginning em by (auto simp: begin_run_def Let_def)
    with finished_off [OF settled_ways(1), of t "s\<lparr>sd_log := l\<rparr>"] assms(4,5) named show ?thesis by simp
  next
    case ending
    let ?y = "case ending of EndCommitted result \<Rightarrow> commit_run scrub now r result x t (sd_log s)
      | EndRaised durable \<Rightarrow> fail_run scrub now r durable x t (sd_log s) | EndCancelled durable \<Rightarrow> cancel_run scrub now r durable x t (sd_log s)"
    have "exec_sched scrub c s = s \<or> exec_sched scrub c s = finish_run scrub now saved r ?y s"
      using assms(2,3) ending by (simp add: end_run_def)
    then have "exec_sched scrub c s = finish_run scrub now saved r ?y s" using assms(6,8) by auto
    moreover have "settled_for x t ?y" using settled_ways by (cases ending) simp_all
    ultimately show ?thesis using finished_off [of x t ?y s] assms(4,5) named by simp
  qed
qed

text \<open>C36. A task that runs once rests after its run: whichever part of the run's coroutine ends it - the start whose
  status cannot be stored, the beginning whose event is refused or whose context fails, the execution that
  returns, raises or is cancelled, the cancellation before the execution - the task is switched off and from
  then on no run of it is alive, whatever the loop, the other tasks and the other coroutines do, unless
  somebody adds it again, enables it or starts it by hand. The one exception is a run that is cancelled
  before the first step of its coroutine: none of its parts is executed, and the task stays enabled and
  blocked.\<close>

theorem finished_once_task_rests:
  assumes "reachable_sched scrub s" and "run_of s r = Some x" and "live_run r s" and "steps_run r c" and "\<not> live_run r (exec_sched scrub c s)"
    and "task_of s (ru_task_id x) = Some t" and "ta_mode t = ''once''" and "ru_task_id x \<notin> set (sd_wanted s)"
    and "\<forall>c\<in>set cs. leaves_alone (ru_task_id x) c"
  shows "case fold (exec_sched scrub) cs (exec_sched scrub c s) of s' \<Rightarrow>
     switched_off (ru_task_id x) s' \<and> \<not> list_ex (\<lambda>(k, y). ru_task_id y = ru_task_id x \<and> map_of (sd_runs s') k = Some y \<and> live_run k s') (sd_runs s')"
proof -
  let ?e = "exec_sched scrub c s"
  have off: "switched_off (ru_task_id x) ?e"
    by (rule ended_off [OF reachable_sched_inv [OF assms(1)] assms(2,6,7,8,3,4,5)])
  have reach: "reachable_sched scrub ?e" using reachable_sched.step [OF assms(1)] .
  let ?s = "fold (exec_sched scrub) cs ?e"
  have last: "switched_off (ru_task_id x) ?s" "sched_inv ?s"
    using off_stays [OF reach off assms(9)] reachable_sched_inv [OF reachable_fold [OF reach]] by auto
  have "\<not> list_ex (\<lambda>(k, y). ru_task_id y = ru_task_id x \<and> map_of (sd_runs ?s) k = Some y \<and> live_run k ?s) (sd_runs ?s)"
    using off_has_no_live_run [OF last] by (fastforce simp: list_ex_iff live_run_def)
  with last(1) show ?thesis by simp
qed

section \<open>Restart\<close>

lemma recover_result:
  "recover_tasks scrub workspace now ts l = (None, changed, l') \<Longrightarrow> changed = map (interrupted_task now) (filter was_interrupted ts)"
proof (induction ts arbitrary: changed l)
  case (Cons t ts)
  show ?case
  proof (cases "was_interrupted t")
    case True
    obtain res l1 where a: "job_append scrub (recovered_args workspace now t) l = (res, l1)" by fastforce
    obtain e c l2 where r: "recover_tasks scrub workspace now ts l1 = (e, c, l2)" by (metis prod_cases3)
    from Cons.prems True a r have "e = None" "l2 = l'" "changed = interrupted_task now t # c" by (auto split: sum.splits if_splits)
    with r Cons.IH [of l1 c] True show ?thesis by simp
  qed (use Cons in simp)
qed simp

lemma interrupted_same_id [simp]: "ta_id (interrupted_task now t) = ta_id t"
  by (auto simp: interrupted_task_def Let_def split: option.splits)

lemma find_in: "List.find P xs = Some x \<Longrightarrow> x \<in> set xs \<and> P x"
  by (auto simp: find_Some_iff)

lemma upsert_all:
  "map_of (sd_tasks (fold (upsert_task saved) ts s)) i =
     (case List.find (\<lambda>t. ta_id t = i) (rev ts) of None \<Rightarrow> task_of s i | Some t \<Rightarrow> Some t)"
proof (induction ts rule: rev_induct)
  case (snoc t ts)
  then show ?case by simp
qed simp

lemma loaded_distinct: "distinct (map fst (fold (\<lambda>t. od_set (ta_id t) t) ts m))" if "distinct (map fst m)"
  using that by (induction ts arbitrary: m) (simp_all add: keys_set map_of_eq_None_iff)

text \<open>C37. An interrupted run is not repeated by itself: after a restart every stored task that was queued or
  running is marked as interrupted, is not due now and, if it runs once, is switched off; every other task
  is as stored; no run exists, and nothing was executed.\<close>

theorem interrupted_tasks_wait:
  assumes "start_scheduler scrub workspace now saved file l = Some s" and "task_of (load_scheduler file l) i = Some t"
    and "case ta_interval_seconds t of None \<Rightarrow> True | Some n \<Rightarrow> 0 \<le> n"
  shows "sd_runs s = [] \<and> sd_executed s = [] \<and>
    task_of s i = Some (if was_interrupted t then interrupted_task now t else t) \<and>
    (was_interrupted t \<longrightarrow> ta_last_status (interrupted_task now t) = Some ''interrupted:manual_rerun_required'' \<and>
       \<not> is_due now (interrupted_task now t) \<and> (ta_mode t = ''once'' \<longrightarrow> \<not> ta_enabled (interrupted_task now t)))"
proof -
  let ?m = "sd_tasks (load_scheduler file l)"
  let ?c = "map (interrupted_task now) (filter was_interrupted (map snd ?m))"
  obtain l' where s: "s = fold (upsert_task saved) ?c ((load_scheduler file l)\<lparr>sd_log := l'\<rparr>)"
    using assms(1) by (auto simp: start_scheduler_def Let_def split: prod.splits if_splits dest!: recover_result)
  have rest: "sd_runs (fold (upsert_task saved) c u) = sd_runs u \<and> sd_executed (fold (upsert_task saved) c u) = sd_executed u" for c u
    by (induction c arbitrary: u) (simp_all add: upsert_task_def save_tasks_def)
  have dist: "distinct (map fst ?m)" by (simp add: load_scheduler_def Let_def loaded_distinct)
  have named: "ta_id u = k" if "map_of ?m k = Some u" for k u
    using that by (auto simp: load_scheduler_def Let_def intro: loaded_named)
  have all: "ta_id u = k \<and> map_of ?m k = Some u" if "(k, u) \<in> set ?m" for k u
    using that dist named by auto
  have "(i, t) \<in> set ?m" using assms(2) by (rule map_of_SomeD)
  then have t: "t \<in> set (map snd ?m)" "ta_id t = i" using all by force+
  have uniq: "u = t" if "u \<in> set (map snd ?m)" "ta_id u = i" for u
    using that all assms(2) by force
  have "List.find (\<lambda>u. ta_id u = i) (rev ?c) = (if was_interrupted t then Some (interrupted_task now t) else None)"
  proof (cases "was_interrupted t")
    case True
    then have "interrupted_task now t \<in> set (rev ?c)" using t(1) by auto
    then have "List.find (\<lambda>u. ta_id u = i) (rev ?c) \<noteq> None" using t(2) interrupted_same_id unfolding find_None_iff by metis
    moreover have "v = interrupted_task now t" if "List.find (\<lambda>u. ta_id u = i) (rev ?c) = Some v" for v
    proof -
      from find_in [OF that] have v: "v \<in> interrupted_task now ` set (filter was_interrupted (map snd ?m))" "ta_id v = i"
        unfolding set_rev set_map by blast+
      then obtain u where "u \<in> set (filter was_interrupted (map snd ?m))" "v = interrupted_task now u" by blast
      with uniq [of u] v(2) interrupted_same_id show ?thesis by (metis filter_is_subset subsetD)
    qed
    ultimately show ?thesis using True by (metis option.exhaust)
  next
    case False
    then show ?thesis using uniq by (auto simp: find_None_iff)
  qed
  then have task: "task_of s i = Some (if was_interrupted t then interrupted_task now t else t)"
    using assms(2) by (simp add: s upsert_all)
  have "sd_runs s = [] \<and> sd_executed s = []" using rest by (simp add: s load_scheduler_def Let_def)
  moreover have "\<not> is_due now (interrupted_task now t)" "ta_mode t = ''once'' \<Longrightarrow> \<not> ta_enabled (interrupted_task now t)"
    using assms(3) by (auto simp: is_due_def interrupted_task_def Let_def nonzero_def split: option.splits if_splits)
  moreover have "ta_last_status (interrupted_task now t) = Some ''interrupted:manual_rerun_required''"
    by (auto simp: interrupted_task_def Let_def split: option.splits)
  ultimately show ?thesis using task by simp
qed

section \<open>History\<close>

text \<open>The history of runs is bounded: trimming ends, and it leaves at most the given number of runs, or only
  runs that have not reached a terminal status; it forgets terminal runs alone and keeps the order of
  the others.\<close>

theorem history_is_bounded:
  "case trim_run_history n s of s' \<Rightarrow>
     (length (sd_history s') \<le> n \<or> filter (is_terminal_run s) (sd_history s') = []) \<and>
     filter (\<lambda>r. \<not> is_terminal_run s r) (sd_history s') = filter (\<lambda>r. \<not> is_terminal_run s r) (sd_history s) \<and>
     subseq (sd_history s') (sd_history s)"
proof (induction n s rule: trim_run_history.induct)
  case (1 n s)
  show ?case
  proof (cases "length (sd_history s) \<le> n")
    case True
    then show ?thesis by (simp add: trim_run_history.simps [of n s])
  next
    case long: False
    show ?thesis
    proof (cases "List.find (is_terminal_run s) (sd_history s)")
      case None
      with long have "trim_run_history n s = s" by (simp add: trim_run_history.simps [of n s])
      with None show ?thesis by (auto simp: find_None_iff filter_empty_conv)
    next
      case (Some r)
      then have r: "is_terminal_run s r" by (auto simp: find_Some_iff)
      have same: "is_terminal_run (forget_run r s) = is_terminal_run s" by (rule ext) (simp add: is_terminal_run_def)
      have h: "sd_history (forget_run r s) = filter (\<lambda>k. k \<noteq> r) (sd_history s)" by (simp add: forget_run_def split: option.splits)
      have "trim_run_history n s = trim_run_history n (forget_run r s)"
        using long Some by (subst (1) trim_run_history.simps) simp
      moreover have "filter (\<lambda>k. \<not> is_terminal_run s k \<and> k \<noteq> r) (sd_history s) = filter (\<lambda>k. \<not> is_terminal_run s k) (sd_history s)"
        using r by (intro filter_cong) auto
      ultimately show ?thesis using 1 [OF long Some] unfolding same h
        by (auto simp: conj_commute intro: subseq_order.trans subseq_filter_left)
    qed
  qed
qed

section \<open>A run cancelled before its first step\<close>

text \<open>
  The identifier of the task stays among the active ones and nothing alive will take it away.
\<close>

definition blocked_task :: "string \<Rightarrow> scheduler \<Rightarrow> bool" where
  "blocked_task i s \<longleftrightarrow> i \<in> set (sd_active s) \<and>
     list_all (\<lambda>r. case run_of s r of None \<Rightarrow> True | Some x \<Rightarrow> ru_task_id x = i \<longrightarrow> ru_phase x = Ended) (map fst (sd_runs s))"

lemma blocked_iff:
  "blocked_task i s \<longleftrightarrow> i \<in> set (sd_active s) \<and> (\<forall>r x. run_of s r = Some x \<and> ru_phase x \<noteq> Ended \<longrightarrow> ru_task_id x \<noteq> i)"
proof -
  have "r \<in> fst ` set (sd_runs s)" if "run_of s r = Some x" for r x using map_of_SomeD [OF that] by force
  then show ?thesis by (fastforce simp: blocked_task_def list_all_iff split: option.splits)
qed

lemma blocked_frame: "blocked_task i s \<Longrightarrow> sd_active s' = sd_active s \<Longrightarrow> sd_runs s' = sd_runs s \<Longrightarrow> blocked_task i s'"
  by (simp add: blocked_task_def)

lemma blocked_put:
  "blocked_task i s \<Longrightarrow> i \<in> set (sd_active s') \<Longrightarrow> sd_runs s' = od_set r x (sd_runs s) \<Longrightarrow> ru_task_id x \<noteq> i \<Longrightarrow> blocked_task i s'"
  by (auto simp: blocked_iff)

lemma blocked_queue: "blocked_task i s \<Longrightarrow> blocked_task i (queue_task scrub q saved t s)"
  by (rule queue_cases [OF refl, of scrub q saved t s]) (auto intro: blocked_frame blocked_put simp: blocked_iff)

lemma blocked_finish:
  assumes "blocked_task i s" and "settled_for x t settled" and "ru_task_id x \<noteq> i" and "ta_id t \<noteq> i"
  shows "blocked_task i (finish_run scrub now saved r settled s)"
proof -
  note f = run_end_fields [OF assms(2) refl, of scrub now saved r s]
  obtain x' where "sd_runs (finish_run scrub now saved r settled s) = od_set r x' (sd_runs s)" "ru_task_id x' = ru_task_id x" using f(4) by blast
  with f(1) assms show ?thesis by (intro blocked_put [OF assms(1), of _ r x']) (auto simp: blocked_iff)
qed

lemma blocked_run_step:
  assumes "blocked_task i s" and "sched_inv s"
  shows "blocked_task i (start_run scrub r now saved saved_end s)" "blocked_task i (begin_run scrub r now ok saved s)"
    "blocked_task i (end_run scrub r now ending saved s)"
proof -
  have own: "ru_task_id x \<noteq> i" if "run_of s r = Some x" "ru_phase x \<noteq> Ended" for x using assms(1) that by (auto simp: blocked_iff)
  have other: "ta_id t \<noteq> i" if "run_of s r = Some x" "task_of s (ru_task_id x) = Some t" "ru_phase x \<noteq> Ended" for x t
    using that own [of x] assms(2) by (auto simp: sched_inv_def tasks_named_def)
  have up: "blocked_task i (upsert_task b t s)" for b t by (rule blocked_frame [OF assms(1)]) auto
  have log: "blocked_task i (s\<lparr>sd_log := l\<rparr>)" "blocked_task i (s\<lparr>sd_log := l, sd_executed := e\<rparr>)" for l e
    by (rule blocked_frame [OF assms(1)]; simp)+
  have put: "blocked_task i u \<Longrightarrow> ru_task_id x \<noteq> i \<Longrightarrow> blocked_task i (set_run k x u)" for u k x
    by (rule blocked_put [of i u _ k x]) (auto simp: blocked_iff)
  show "blocked_task i (start_run scrub r now saved saved_end s)"
    using assms(1) up by (auto simp: start_run_def Let_def intro!: put blocked_finish [OF _ settled_ways(1)] dest: own other split: option.splits)
  show "blocked_task i (begin_run scrub r now ok saved s)"
    using assms(1) log by (auto simp: begin_run_def Let_def dest: own other split: option.splits prod.splits
      intro!: put blocked_finish [OF _ settled_ways(1)] dest!: emit_run(1))
  have way: "settled_for x t (case ending of EndCommitted result \<Rightarrow> commit_run scrub now r result x t l
      | EndRaised durable \<Rightarrow> fail_run scrub now r durable x t l | EndCancelled durable \<Rightarrow> cancel_run scrub now r durable x t l)" for x t l
    using settled_ways by (cases ending) simp_all
  show "blocked_task i (end_run scrub r now ending saved s)"
    using assms(1) by (auto simp: end_run_def intro!: blocked_finish [OF _ way] blocked_finish [OF _ settled_ways(2)] dest: own other split: option.splits)
qed

lemma blocked_step:
  assumes "blocked_task i s" and "sched_inv s"
  shows "blocked_task i (exec_sched scrub c s)"
proof (cases c)
  case (QueueWanted q saved)
  have "blocked_task i (s\<lparr>sd_wanted := w\<rparr>)" for w by (rule blocked_frame [OF assms(1)]) auto
  with QueueWanted assms(1) show ?thesis by (auto intro!: blocked_queue split: list.splits option.splits)
next
  case (LoopNext q saved)
  have "blocked_task i (s\<lparr>sd_loop := w\<rparr>)" for w by (rule blocked_frame [OF assms(1)]) auto
  with LoopNext assms(1) show ?thesis by (auto simp: loop_next_def Let_def intro!: blocked_queue split: prod.splits list.splits option.splits)
next
  case (SetEnabled j enabled now saved)
  show ?thesis by (rule blocked_frame [OF assms(1)]) (auto simp: SetEnabled set_enabled_def Let_def split: option.splits)
next
  case (RunNow j saved)
  show ?thesis by (rule blocked_frame [OF assms(1)]) (auto simp: RunNow run_now_def Let_def split: option.splits)
next
  case (AddTask t saved)
  show ?thesis by (rule blocked_frame [OF assms(1)]) (auto simp: AddTask)
next
  case (RemoveTask k saved)
  show ?thesis by (rule blocked_frame [OF assms(1)]) (auto simp: RemoveTask remove_stored_def)
next
  case (LoopStart now)
  show ?thesis by (rule blocked_frame [OF assms(1)]) (auto simp: LoopStart)
next
  case (CancelUnstarted r)
  with assms(1) show ?thesis by (auto simp: cancel_unstarted_def blocked_iff split: option.splits)
qed (use blocked_run_step [OF assms] in simp_all)

lemma blocked_stays: "reachable_sched scrub s \<Longrightarrow> blocked_task i s \<Longrightarrow> blocked_task i (fold (exec_sched scrub) cs s)"
  by (induction cs arbitrary: s) (auto intro: reachable_sched.step blocked_step reachable_sched_inv)

text \<open>Cancelling a run before its first step blocks its task: no later command ever gives it a live run again.\<close>

lemma cancelled_before_start_blocks:
  assumes "reachable_sched scrub s" and "run_of s r = Some x" and "ru_phase x = NotStarted"
  shows "blocked_task (ru_task_id x) (fold (exec_sched scrub) cs (exec_sched scrub (CancelUnstarted r) s))"
proof (rule blocked_stays [OF reachable_sched.step [OF assms(1)]])
  have "ru_task_id x \<in> set (sd_active s)" using reachable_sched_inv [OF assms(1)] assms(2,3) by (auto simp: sched_inv_def runs_listed_def)
  moreover have "ru_task_id y \<noteq> ru_task_id x" if "run_of s k = Some y" "ru_phase y \<noteq> Ended" "k \<noteq> r" for k y
    using reachable_sched_inv [OF assms(1)] that assms(2,3) unfolding sched_inv_def runs_listed_def by (metis option.inject run_phase.distinct(5))
  ultimately show "blocked_task (ru_task_id x) (exec_sched scrub (CancelUnstarted r) s)"
    using assms(2,3) by (auto simp: cancel_unstarted_def blocked_iff)
qed

section \<open>A session\<close>

definition once_task :: sched_task where
  "once_task = new_task ''t'' ''tea'' ''tell me'' ''user'' ''once'' 60 0"

definition sample_ids :: queue_ids where
  "sample_ids = \<lparr>qi_job = ''j'', qi_run = ''r'', qi_request = ''q'', qi_workspace = ''w'', qi_epoch = 0, qi_now = 100\<rparr>"

definition running_sched :: scheduler where
  "running_sched = fold (exec_sched id) [LoopStart 100, LoopNext sample_ids True, RunStart ''r'' 100 True True, RunBegin ''r'' 101 True True]
     (the (start_scheduler id ''w'' 90 True [once_task] (new_job_log 4 8 None)))"

definition running_run :: sched_run where
  "running_run = the (run_of running_sched ''r'')"

lemma running_started: "start_scheduler id ''w'' 90 True [once_task] (new_job_log 4 8 None) \<noteq> None"
  by code_simp

lemma running_reachable: "reachable_sched id running_sched"
  unfolding running_sched_def using running_started by (intro reachable_fold) (auto intro: reachable_sched.started)

lemma running_facts:
  "run_of running_sched ''r'' \<noteq> None" "ru_phase running_run = Executing" "ru_task_id running_run = ''t''"
  "task_of running_sched ''t'' \<noteq> None" "ta_mode (the (task_of running_sched ''t'')) = ''once''" "sd_wanted running_sched = []"
  by code_simp+

lemma running_is: "run_of running_sched ''r'' = Some running_run"
  using running_facts(1) by (simp add: running_run_def)

theorem one_live_run_per_task_witness:
  "map_of (sd_by_task running_sched) ''t'' = Some ''r'' \<and> ''t'' \<in> set (sd_active running_sched)"
  using one_live_run_per_task [OF running_reachable running_is running_is] running_facts(2,3) by simp

lemma running_ends: "live_run ''r'' running_sched" "\<not> live_run ''r'' (exec_sched id (RunEnd ''r'' 102 (EndRaised None) True) running_sched)"
  by code_simp+

theorem finished_once_task_rests_witness:
  "switched_off ''t'' (fold (exec_sched id) [LoopStart 500, LoopNext sample_ids True]
     (exec_sched id (RunEnd ''r'' 102 (EndRaised None) True) running_sched))"
proof -
  let ?cs = "[LoopStart 500, LoopNext sample_ids True]"
  have "task_of running_sched (ru_task_id running_run) = Some (the (task_of running_sched ''t''))"
    using running_facts(3,4) by simp
  from finished_once_task_rests [OF running_reachable running_is running_ends(1) _ running_ends(2) this running_facts(5), of ?cs]
  show ?thesis using running_facts(3,6) by simp
qed

definition queued_file :: "sched_task list" where
  "queued_file = [once_task\<lparr>ta_last_status := Some ''queued''\<rparr>]"

lemma queued_starts:
  "start_scheduler id ''w'' 90 True queued_file (new_job_log 4 8 None) \<noteq> None"
  by code_simp

theorem interrupted_tasks_wait_witness:
  "\<not> is_due 90 (interrupted_task 90 (once_task\<lparr>ta_last_status := Some ''queued''\<rparr>)) \<and>
     sd_runs (the (start_scheduler id ''w'' 90 True queued_file (new_job_log 4 8 None))) = []"
proof -
  obtain s where s: "start_scheduler id ''w'' 90 True queued_file (new_job_log 4 8 None) = Some s" using queued_starts by blast
  have t: "task_of (load_scheduler queued_file (new_job_log 4 8 None)) ''t'' = Some (once_task\<lparr>ta_last_status := Some ''queued''\<rparr>)"
    by (simp add: load_scheduler_def Let_def queued_file_def once_task_def new_task_def)
  have "was_interrupted (once_task\<lparr>ta_last_status := Some ''queued''\<rparr>)" by (simp add: was_interrupted_def)
  with interrupted_tasks_wait [OF s t] s show ?thesis by (simp add: once_task_def new_task_def)
qed

end
