(* ===== verification/Json_Text.thy ===== *)
theory Json_Text
  imports Json_Order Plan_Steps
begin

text \<open>
  The JSON text of the planner's strict JSON (\<open>modules/agent/planner.py\<close>, \<open>canonical_json_bytes\<close> and
  \<open>strict_json_loads\<close>): keys sorted, no white space, numbers finite, UTF-8. Text is Latin-1, so a decoded
  code point above 255 is refused here. How a float is written and read is a parameter; the reader's
  fuel bounds the nesting and is enough for every text the writer makes.
\<close>

section \<open>Writing\<close>

definition quote :: char where "quote = CHR 0x22"

definition backslash :: char where "backslash = CHR 0x5C"

definition digit_char :: "nat \<Rightarrow> char" where
  "digit_char n = (if n < 10 then char_of (48 + n) else char_of (87 + n))"

text \<open>The short escapes: character and letter.\<close>

definition escapes :: "(char \<times> char) list" where
  "escapes = [(quote, quote), (backslash, backslash), (CHR 0x0A, CHR ''n''), (CHR 0x0D, CHR ''r''), (CHR 0x09, CHR ''t''),
     (CHR 0x0C, CHR ''f''), (CHR 0x08, CHR ''b'')]"

definition escape_char :: "char \<Rightarrow> string" where
  "escape_char c = (case map_of escapes c of
     Some e \<Rightarrow> [backslash, e]
   | None \<Rightarrow> if of_char c < (32 :: nat)
       then [backslash, CHR ''u'', CHR ''0'', CHR ''0'', digit_char (of_char c div 16), digit_char (of_char c mod 16)]
       else [c])"

definition write_string :: "string \<Rightarrow> string" where
  "write_string s = quote # concat (map escape_char s) @ [quote]"

fun write_nat :: "nat \<Rightarrow> string" where
  "write_nat n = (if n < 10 then [digit_char n] else write_nat (n div 10) @ [digit_char (n mod 10)])"

declare write_nat.simps [simp del]

definition write_int :: "int \<Rightarrow> string" where
  "write_int i = (if i < 0 then CHR ''-'' # write_nat (nat (- i)) else write_nat (nat i))"

fun write_json :: "(pyfloat \<Rightarrow> string) \<Rightarrow> json \<Rightarrow> string"
  and write_items :: "(pyfloat \<Rightarrow> string) \<Rightarrow> json list \<Rightarrow> string"
  and write_members :: "(pyfloat \<Rightarrow> string) \<Rightarrow> dict \<Rightarrow> string" where
  "write_json fl JNull = ''null''"
| "write_json fl (JBool b) = (if b then ''true'' else ''false'')"
| "write_json fl (JInt i) = write_int i"
| "write_json fl (JFloat f) = fl f"
| "write_json fl (JStr s) = write_string s"
| "write_json fl (JList xs) = ''['' @ write_items fl xs @ '']''"
| "write_json fl (JObj d) = ''{'' @ write_members fl d @ ''}''"
| "write_items fl [] = []"
| "write_items fl [x] = write_json fl x"
| "write_items fl (x # y # xs) = write_json fl x @ '','' @ write_items fl (y # xs)"
| "write_members fl [] = []"
| "write_members fl [e] = write_string (fst e) @ '':'' @ write_json fl (snd e)"
| "write_members fl (e # e' # d) = write_string (fst e) @ '':'' @ write_json fl (snd e) @ '','' @ write_members fl (e' # d)"

definition utf8_char :: "char \<Rightarrow> string" where
  "utf8_char c = (if of_char c < (128 :: nat) then [c] else [char_of (192 + of_char c div 64 :: nat), char_of (128 + of_char c mod 64 :: nat)])"

definition utf8_encode :: "string \<Rightarrow> string" where
  "utf8_encode s = concat (map utf8_char s)"

text \<open>A value that is not strict JSON is refused before.\<close>

definition canonical_text :: "(pyfloat \<Rightarrow> string) \<Rightarrow> json \<Rightarrow> string" where
  "canonical_text fl v = utf8_encode (write_json fl (sort_json v))"

section \<open>Reading\<close>

definition json_digit :: "char \<Rightarrow> bool" where
  "json_digit c \<longleftrightarrow> of_char c \<in> {48..<58 :: nat}"

definition skip_space :: "string \<Rightarrow> string" where
  "skip_space s = dropWhile (\<lambda>c. c \<in> {CHR '' '', CHR 0x09, CHR 0x0A, CHR 0x0D}) s"

definition hex_value :: "char \<Rightarrow> nat option" where
  "hex_value c = (let n = of_char c in if 48 \<le> n \<and> n < 58 then Some (n - 48) else if 97 \<le> n \<and> n < 103 then Some (n - 87)
     else if 65 \<le> n \<and> n < 71 then Some (n - 55) else None)"

definition hex4 :: "char \<Rightarrow> char \<Rightarrow> char \<Rightarrow> char \<Rightarrow> nat option" where
  "hex4 a b c d = (case (hex_value a, hex_value b, hex_value c, hex_value d) of
     (Some i, Some j, Some k, Some l) \<Rightarrow> Some (4096 * i + 256 * j + 16 * k + l) | _ \<Rightarrow> None)"

definition unescapes :: "(char \<times> char) list" where
  "unescapes = (CHR ''/'', CHR ''/'') # map (\<lambda>(c, e). (e, c)) escapes"

definition with_char :: "char \<Rightarrow> (string \<times> string) option \<Rightarrow> (string \<times> string) option" where
  "with_char c r = map_option (apfst (\<lambda>s. c # s)) r"

text \<open>The rest of a string literal and what follows it.\<close>

fun scan_string :: "string \<Rightarrow> (string \<times> string) option" where
  "scan_string [] = None"
| "scan_string (c # t) =
     (if c = quote then Some ([], t)
      else if c = backslash then (case t of
          [] \<Rightarrow> None
        | e # u \<Rightarrow>
            if e = CHR ''u'' then (case u of
                h1 # h2 # h3 # h4 # w \<Rightarrow> (case hex4 h1 h2 h3 h4 of
                    None \<Rightarrow> None
                  | Some n \<Rightarrow> if n < 256 then with_char (char_of n) (scan_string w) else None)
              | _ \<Rightarrow> None)
            else (case map_of unescapes e of None \<Rightarrow> None | Some x \<Rightarrow> with_char x (scan_string u)))
      else if of_char c < (32 :: nat) then None
      else with_char c (scan_string t))"

definition read_nat :: "string \<Rightarrow> nat" where
  "read_nat s = foldl (\<lambda>n c. 10 * n + (of_char c - 48)) 0 s"

definition fraction_part :: "string \<Rightarrow> string" where
  "fraction_part s = (case s of
     [] \<Rightarrow> []
   | c # t \<Rightarrow> if c = CHR ''.'' \<and> takeWhile json_digit t \<noteq> [] then c # takeWhile json_digit t else [])"

definition exponent_part :: "string \<Rightarrow> string" where
  "exponent_part s = (case s of
     [] \<Rightarrow> []
   | c # t \<Rightarrow>
       if c \<in> {CHR ''e'', CHR ''E''}
       then (let sign = takeWhile (\<lambda>x. x \<in> {CHR ''+'', CHR ''-''}) (take 1 t); ds = takeWhile json_digit (drop (length sign) t)
             in if ds = [] then [] else c # sign @ ds)
       else [])"

definition integer_part :: "string \<Rightarrow> string" where
  "integer_part s = (case s of [] \<Rightarrow> [] | c # t \<Rightarrow> if c = CHR ''0'' then [c] else takeWhile json_digit s)"

definition scan_number :: "(string \<Rightarrow> pyfloat) \<Rightarrow> string \<Rightarrow> (json \<times> string) option" where
  "scan_number fr s =
     (let sign = takeWhile (\<lambda>x. x = CHR ''-'') (take 1 s); t = drop (length sign) s; ip = integer_part t; u = drop (length ip) t;
          fp = fraction_part u; ep = exponent_part (drop (length fp) u); rest = drop (length fp + length ep) u
      in if ip = [] then None
         else if fp = [] \<and> ep = [] then Some (JInt (if sign = [] then int (read_nat ip) else - int (read_nat ip)), rest)
         else Some (JFloat (fr (sign @ ip @ fp @ ep)), rest))"

fun parse_value :: "(string \<Rightarrow> pyfloat) \<Rightarrow> nat \<Rightarrow> string \<Rightarrow> (json \<times> string) option"
  and parse_items :: "(string \<Rightarrow> pyfloat) \<Rightarrow> nat \<Rightarrow> string \<Rightarrow> (json list \<times> string) option"
  and parse_members :: "(string \<Rightarrow> pyfloat) \<Rightarrow> nat \<Rightarrow> string \<Rightarrow> (dict \<times> string) option" where
  "parse_value fr 0 s = None"
| "parse_value fr (Suc n) s = (case s of
     [] \<Rightarrow> None
   | c # t \<Rightarrow>
       if c = quote then map_option (apfst JStr) (scan_string t)
       else if c = CHR ''{'' then
         (if take 1 (skip_space t) = ''}'' then Some (JObj [], drop 1 (skip_space t))
          else (case parse_members fr n (skip_space t) of
              None \<Rightarrow> None
            | Some (d, r) \<Rightarrow> if distinct (map fst d) then Some (JObj d, r) else None))
       else if c = CHR ''['' then
         (if take 1 (skip_space t) = '']'' then Some (JList [], drop 1 (skip_space t))
          else map_option (apfst JList) (parse_items fr n (skip_space t)))
       else if take 4 s = ''null'' then Some (JNull, drop 4 s)
       else if take 4 s = ''true'' then Some (JBool True, drop 4 s)
       else if take 5 s = ''false'' then Some (JBool False, drop 5 s)
       else scan_number fr s)"
| "parse_items fr 0 s = None"
| "parse_items fr (Suc n) s = (case parse_value fr n s of
     None \<Rightarrow> None
   | Some (v, r) \<Rightarrow> (case skip_space r of
       [] \<Rightarrow> None
     | c # u \<Rightarrow>
         if c = CHR '','' then map_option (apfst (\<lambda>vs. v # vs)) (parse_items fr n (skip_space u))
         else if c = CHR '']'' then Some ([v], u)
         else None))"
| "parse_members fr 0 s = None"
| "parse_members fr (Suc n) s = (case s of
     [] \<Rightarrow> None
   | q # t \<Rightarrow>
       if q \<noteq> quote then None
       else (case scan_string t of
           None \<Rightarrow> None
         | Some (k, r) \<Rightarrow> (case skip_space r of
             [] \<Rightarrow> None
           | c # u \<Rightarrow>
               if c \<noteq> CHR '':'' then None
               else (case parse_value fr n (skip_space u) of
                   None \<Rightarrow> None
                 | Some (v, w) \<Rightarrow> (case skip_space w of
                     [] \<Rightarrow> None
                   | e # x \<Rightarrow>
                       if e = CHR '','' then map_option (apfst (\<lambda>d. (k, v) # d)) (parse_members fr n (skip_space x))
                       else if e = CHR ''}'' then Some ([(k, v)], x)
                       else None)))))"

fun utf8_decode :: "string \<Rightarrow> string option" where
  "utf8_decode [] = Some []"
| "utf8_decode (c # t) =
     (let n = of_char c :: nat
      in if n < 128 then map_option (\<lambda>s. c # s) (utf8_decode t)
         else (case t of
             [] \<Rightarrow> None
           | d # u \<Rightarrow>
               let m = of_char d :: nat
               in if n \<in> {194, 195} \<and> 128 \<le> m \<and> m < 192
                  then map_option (\<lambda>s. char_of ((n - 192) * 64 + (m - 128)) # s) (utf8_decode u) else None))"

definition strict_json_loads :: "(string \<Rightarrow> pyfloat) \<Rightarrow> string \<Rightarrow> json option" where
  "strict_json_loads fr bytes = (case utf8_decode bytes of
     None \<Rightarrow> None
   | Some s \<Rightarrow> (case parse_value fr (2 * length s) (skip_space s) of
       None \<Rightarrow> None
     | Some (v, r) \<Rightarrow> if skip_space r = [] \<and> strict_json v then Some v else None))"

end
