(* ===== verification/Json_Read_Back.thy ===== *)
theory Json_Read_Back
  imports Json_Text
begin

text \<open>
  Reading back what the writer wrote: strings with their escapes, integers, values of any nesting, UTF-8;
  with it, two strict values with the same canonical text are equal up to the order of keys.
\<close>

section \<open>Strings\<close>

lemma of_digit_char: "n < 36 \<Longrightarrow> of_char (digit_char n) = (if n < 10 then 48 + n else 87 + n)" for n :: nat
  by (simp add: digit_char_def)

lemma hex_value_digit: "n < 16 \<Longrightarrow> hex_value (digit_char n) = Some n"
  by (auto simp: hex_value_def of_digit_char)

lemma escapes_known:
  "map_of escapes c = Some e \<Longrightarrow> map_of unescapes e = Some c \<and> e \<noteq> CHR ''u''"
  by (auto simp: escapes_def unescapes_def quote_def backslash_def split: if_splits)

lemma escape_not_special: "map_of escapes c = None \<Longrightarrow> c \<noteq> quote \<and> c \<noteq> backslash"
  by (auto simp: escapes_def split: if_splits)

lemma scan_escaped: "scan_string (escape_char c @ s) = with_char c (scan_string s)"
proof (cases "map_of escapes c")
  case (Some e)
  with escapes_known [OF Some] show ?thesis by (simp add: escape_char_def quote_def backslash_def)
next
  case None
  note special = escape_not_special [OF None]
  show ?thesis
  proof (cases "of_char c < (32 :: nat)")
    case True
    have "hex4 (CHR ''0'') (CHR ''0'') (digit_char (of_char c div 16)) (digit_char (of_char c mod 16)) = Some (of_char c)"
      using True by (simp add: hex4_def hex_value_digit) (simp add: hex_value_def)
    with None True show ?thesis by (simp add: escape_char_def quote_def backslash_def)
  next
    case False
    with None special show ?thesis by (simp add: escape_char_def)
  qed
qed

lemma scan_written: "scan_string (concat (map escape_char s) @ quote # r) = Some (s, r)"
  by (induction s) (simp_all add: scan_escaped with_char_def)

section \<open>Numbers\<close>

lemma digit_char_digit: "n < 10 \<Longrightarrow> json_digit (digit_char n)"
  by (simp add: json_digit_def of_digit_char)

lemma write_nat_digits: "\<forall>c\<in>set (write_nat n). json_digit c"
proof (induction n rule: write_nat.induct)
  case (1 n)
  then show ?case by (subst write_nat.simps) (auto simp: digit_char_digit)
qed

lemma read_write_nat: "read_nat (write_nat n) = n"
proof (induction n rule: write_nat.induct)
  case (1 n)
  show ?case
  proof (cases "n < 10")
    case True
    then show ?thesis by (subst write_nat.simps) (simp add: read_nat_def of_digit_char)
  next
    case False
    with 1 show ?thesis by (subst write_nat.simps) (simp add: read_nat_def of_digit_char)
  qed
qed

lemma write_nat_first: "\<exists>c t. write_nat n = c # t \<and> json_digit c \<and> (c = CHR ''0'' \<longrightarrow> t = [])"
proof (induction n rule: write_nat.induct)
  case (1 n)
  show ?case
  proof (cases "n < 10")
    case True
    then show ?thesis by (subst write_nat.simps) (simp add: digit_char_digit)
  next
    case False
    with 1 obtain c t where c: "write_nat (n div 10) = c # t" "json_digit c" "c = CHR ''0'' \<longrightarrow> t = []" by blast
    have "c \<noteq> CHR ''0''"
    proof
      assume "c = CHR ''0''"
      with c have "write_nat (n div 10) = ''0''" by simp
      then have "n div 10 = 0" using read_write_nat [of "n div 10"] by (simp add: read_nat_def)
      with False show False by simp
    qed
    with c False show ?thesis by (subst write_nat.simps) simp
  qed
qed

text \<open>What may follow a value in a written text.\<close>

definition stops :: "string \<Rightarrow> bool" where
  "stops r \<longleftrightarrow> (case r of [] \<Rightarrow> True | c # _ \<Rightarrow> c \<in> {CHR '','', CHR '']'', CHR ''}''})"

lemma stops_simps [simp]: "stops []" "stops (CHR '','' # r)" "stops (CHR '']'' # r)" "stops (CHR ''}'' # r)"
  by (simp_all add: stops_def)

lemma stops_no_number: "stops r \<Longrightarrow> takeWhile json_digit r = [] \<and> fraction_part r = [] \<and> exponent_part r = []"
  by (auto simp: stops_def fraction_part_def exponent_part_def json_digit_def split: list.splits)

lemma integer_part_written: "stops r \<Longrightarrow> integer_part (write_nat n @ r) = write_nat n"
proof -
  assume r: "stops r"
  obtain c t where c: "write_nat n = c # t" "c = CHR ''0'' \<longrightarrow> t = []" using write_nat_first by blast
  have "takeWhile json_digit (write_nat n @ r) = write_nat n"
    using write_nat_digits stops_no_number [OF r] by (subst takeWhile_append2) auto
  with c show ?thesis by (auto simp: integer_part_def)
qed

lemma scan_written_int: "stops r \<Longrightarrow> scan_number fr (write_int i @ r) = Some (JInt i, r)"
proof -
  assume r: "stops r"
  have first: "take 1 (write_nat n) \<noteq> ''-''" "write_nat n \<noteq> []" for n
    using write_nat_first [of n] by (auto simp: json_digit_def)
  have sign: "takeWhile (\<lambda>x. x = CHR ''-'') (take 1 (write_nat n @ r)) = []" for n
    using write_nat_first [of n] by (auto simp: json_digit_def)
  show ?thesis
    using integer_part_written [OF r] stops_no_number [OF r] first sign read_write_nat
    by (auto simp: scan_number_def write_int_def Let_def)
qed

section \<open>Values\<close>

text \<open>What is asked of a float's text: it begins like a number and is read back.\<close>

definition float_reads :: "(pyfloat \<Rightarrow> string) \<Rightarrow> (string \<Rightarrow> pyfloat) \<Rightarrow> pyfloat \<Rightarrow> bool" where
  "float_reads fl fr f \<longleftrightarrow> (\<exists>c t. fl f = c # t \<and> (json_digit c \<or> c = CHR ''-'')) \<and>
     (\<forall>r. stops r \<longrightarrow> scan_number fr (fl f @ r) = Some (JFloat f, r))"

fun floats_ok :: "(pyfloat \<Rightarrow> bool) \<Rightarrow> json \<Rightarrow> bool" where
  "floats_ok P (JFloat f) = P f"
| "floats_ok P (JList xs) = (\<forall>x\<in>set xs. floats_ok P x)"
| "floats_ok P (JObj d) = (\<forall>e\<in>set d. floats_ok P (snd e))"
| "floats_ok P _ = True"

lemma write_int_first: "\<exists>c t. write_int i = c # t \<and> (json_digit c \<or> c = CHR ''-'')"
  using write_nat_first by (auto simp: write_int_def) blast+

definition value_start :: "char \<Rightarrow> bool" where
  "value_start c \<longleftrightarrow> json_digit c \<or> c \<in> {CHR ''-'', quote, CHR ''['', CHR ''{'', CHR ''n'', CHR ''t'', CHR ''f''}"

lemma write_json_first:
  assumes "floats_ok (float_reads fl fr) v"
  shows "\<exists>c t. write_json fl v = c # t \<and> value_start c"
proof (cases v)
  case (JInt i)
  then show ?thesis using write_int_first [of i] by (auto simp: value_start_def)
next
  case (JFloat f)
  with assms show ?thesis by (auto simp: value_start_def float_reads_def)
qed (auto simp: value_start_def write_string_def)

lemma value_start_facts:
  "value_start c \<Longrightarrow> skip_space (c # t) = c # t" "value_start c \<Longrightarrow> c \<noteq> CHR '']'' \<and> c \<noteq> CHR ''}'' \<and> c \<noteq> CHR '',''"
  by (auto simp: value_start_def skip_space_def quote_def json_digit_def)

lemma skip_written:
  assumes "floats_ok (float_reads fl fr) v"
  shows "skip_space (write_json fl v @ r) = write_json fl v @ r"
proof -
  obtain c t where "write_json fl v = c # t" "value_start c" using write_json_first [OF assms] by blast
  with value_start_facts(1) [of c "t @ r"] show ?thesis by simp
qed

lemma skip_items:
  assumes "\<forall>x\<in>set xs. floats_ok (float_reads fl fr) x" and "xs \<noteq> []"
  shows "skip_space (write_items fl xs @ r) = write_items fl xs @ r" "take 1 (write_items fl xs @ r) \<noteq> '']''"
proof -
  obtain x ys where xs: "xs = x # ys" using assms(2) by (cases xs) auto
  obtain c t where c: "write_json fl x = c # t" "value_start c" using write_json_first [of fl fr x] assms(1) xs by auto
  have "\<exists>w. write_items fl xs = c # w" using c(1) xs by (cases ys) auto
  with value_start_facts [OF c(2)] show "skip_space (write_items fl xs @ r) = write_items fl xs @ r" "take 1 (write_items fl xs @ r) \<noteq> '']''" by auto
qed

lemma members_first: "d \<noteq> [] \<Longrightarrow> \<exists>t. write_members fl d = quote # t"
  by (cases "(fl, d)" rule: write_members.cases) (auto simp: write_string_def)

lemma skip_members:
  assumes "d \<noteq> []"
  shows "skip_space (write_members fl d @ r) = write_members fl d @ r" "take 1 (write_members fl d @ r) \<noteq> ''}''"
  using members_first [OF assms, of fl] by (auto simp: skip_space_def quote_def)

lemma skip_stop [simp]:
  "skip_space (CHR '','' # r) = CHR '','' # r" "skip_space (CHR '']'' # r) = CHR '']'' # r" "skip_space (CHR ''}'' # r) = CHR ''}'' # r"
  "skip_space (CHR '':'' # r) = CHR '':'' # r" "skip_space (quote # r) = quote # r"
  by (simp_all add: skip_space_def quote_def)

lemma parse_number:
  assumes "scan_number fr (s @ r) = Some (v, r)" and "s = c # t" and "json_digit c \<or> c = CHR ''-''" and "n \<noteq> 0"
  shows "parse_value fr n (s @ r) = Some (v, r)"
proof -
  obtain m where n: "n = Suc m" using assms(4) by (cases n) auto
  have c: "c \<noteq> quote" "c \<noteq> CHR ''{''" "c \<noteq> CHR ''[''" "c \<noteq> CHR ''n''" "c \<noteq> CHR ''t''" "c \<noteq> CHR ''f''"
    using assms(3) by (auto simp: json_digit_def quote_def)
  from assms(1,2) show ?thesis unfolding n using c by simp
qed

definition read_back :: "(pyfloat \<Rightarrow> string) \<Rightarrow> (string \<Rightarrow> pyfloat) \<Rightarrow> json \<Rightarrow> bool" where
  "read_back fl fr v \<longleftrightarrow> floats_ok (float_reads fl fr) v \<and> distinct_keys v"

lemma length_write_pos: "floats_ok (float_reads fl fr) v \<Longrightarrow> 0 < length (write_json fl v)"
  using write_json_first by fastforce

lemma parse_written:
  "read_back fl fr v \<Longrightarrow> 2 * length (write_json fl v) \<le> n \<Longrightarrow> stops r \<Longrightarrow> parse_value fr n (write_json fl v @ r) = Some (v, r)"
  "xs \<noteq> [] \<Longrightarrow> \<forall>x\<in>set xs. read_back fl fr x \<Longrightarrow> 2 * length (write_items fl xs) < n \<Longrightarrow>
     parse_items fr n (write_items fl xs @ CHR '']'' # r) = Some (xs, r)"
  "d \<noteq> [] \<Longrightarrow> \<forall>e\<in>set d. read_back fl fr (snd e) \<Longrightarrow> 2 * length (write_members fl d) < n \<Longrightarrow>
     parse_members fr n (write_members fl d @ CHR ''}'' # r) = Some (d, r)"
proof (induction fl v and fl xs and fl d arbitrary: n r and n r and n r rule: write_json_write_items_write_members.induct)
  case (1 fl)
  then show ?case by (cases n) (simp_all add: quote_def)
next
  case (2 fl b)
  then show ?case by (cases n; cases b) (simp_all add: quote_def)
next
  case (3 fl i)
  obtain c t where "write_int i = c # t" "json_digit c \<or> c = CHR ''-''" using write_int_first by blast
  with parse_number [OF scan_written_int [OF "3.prems"(3)], of i c t n fr] "3.prems"(2) show ?case
    by (cases n) simp_all
next
  case (4 fl f)
  then have f: "float_reads fl fr f" by (simp add: read_back_def)
  then obtain c t where "fl f = c # t" "json_digit c \<or> c = CHR ''-''" by (auto simp: float_reads_def)
  with "4.prems"(2,3) f show ?case unfolding write_json.simps float_reads_def by (intro parse_number) auto
next
  case (5 fl s)
  then show ?case by (cases n) (simp_all add: write_string_def scan_written)
next
  case (6 fl xs)
  then obtain m where n: "n = Suc m" by (cases n) auto
  show ?case
  proof (cases "xs = []")
    case True
    with n show ?thesis by (simp add: quote_def)
  next
    case False
    have ok: "\<forall>x\<in>set xs. read_back fl fr x" using "6.prems"(1) by (simp add: read_back_def)
    have "parse_items fr m (write_items fl xs @ CHR '']'' # r) = Some (xs, r)"
      using "6.IH" [OF False ok] "6.prems"(2) n by simp
    with n skip_items [of xs fl fr] ok False show ?thesis by (simp add: quote_def read_back_def)
  qed
next
  case (7 fl d)
  then obtain m where n: "n = Suc m" by (cases n) auto
  show ?case
  proof (cases "d = []")
    case True
    with n show ?thesis by (simp add: quote_def)
  next
    case False
    have ok: "\<forall>e\<in>set d. read_back fl fr (snd e)" using "7.prems"(1) by (simp add: read_back_def)
    have "parse_members fr m (write_members fl d @ CHR ''}'' # r) = Some (d, r)"
      using "7.IH" [OF False ok] "7.prems"(2) n by simp
    with n skip_members [OF False, of fl] "7.prems"(1) show ?thesis by (simp add: quote_def read_back_def)
  qed
next
  case (9 fl x)
  then obtain m where n: "n = Suc m" by (cases n) auto
  with 9 show ?case by simp
next
  case (10 fl x y xs)
  then obtain m where n: "n = Suc m" by (cases n) auto
  have x: "parse_value fr m (write_json fl x @ CHR '','' # write_items fl (y # xs) @ CHR '']'' # r) =
      Some (x, CHR '','' # write_items fl (y # xs) @ CHR '']'' # r)"
    using "10.IH"(1) [of m "CHR '','' # write_items fl (y # xs) @ CHR '']'' # r"] "10.prems" n by simp
  have "skip_space (write_items fl (y # xs) @ CHR '']'' # r) = write_items fl (y # xs) @ CHR '']'' # r"
    by (rule skip_items) (use "10.prems" in \<open>auto simp: read_back_def\<close>)
  moreover have "parse_items fr m (write_items fl (y # xs) @ CHR '']'' # r) = Some (y # xs, r)"
    using "10.IH"(2) "10.prems" n by simp
  ultimately show ?case using x n by simp
next
  case (12 fl e)
  then obtain m where n: "n = Suc m" by (cases n) auto
  have "skip_space (write_json fl (snd e) @ CHR ''}'' # r) = write_json fl (snd e) @ CHR ''}'' # r"
    by (rule skip_written) (use "12.prems" in \<open>auto simp: read_back_def\<close>)
  moreover have "parse_value fr m (write_json fl (snd e) @ CHR ''}'' # r) = Some (snd e, CHR ''}'' # r)"
    using 12 n by (simp add: write_string_def)
  ultimately show ?case using n by (simp add: write_string_def scan_written)
next
  case (13 fl e e' d)
  then obtain m where n: "n = Suc m" by (cases n) auto
  let ?w = "write_members fl (e' # d) @ CHR ''}'' # r"
  have "skip_space (write_json fl (snd e) @ CHR '','' # ?w) = write_json fl (snd e) @ CHR '','' # ?w"
    by (rule skip_written) (use "13.prems" in \<open>auto simp: read_back_def\<close>)
  moreover have "parse_value fr m (write_json fl (snd e) @ CHR '','' # ?w) = Some (snd e, CHR '','' # ?w)"
    using "13.IH"(1) "13.prems" n by (simp add: write_string_def)
  moreover have "skip_space ?w = ?w" by (rule skip_members) simp
  moreover have "parse_members fr m ?w = Some (e' # d, r)"
    using "13.IH"(2) "13.prems" n by (simp add: write_string_def)
  ultimately show ?case using n by (simp add: write_string_def scan_written)
qed simp_all

section \<open>Bytes\<close>

lemma utf8_read_char: "utf8_decode (utf8_char c @ s) = map_option (\<lambda>t. c # t) (utf8_decode s)"
proof (cases "of_char c < (128 :: nat)")
  case True
  then show ?thesis by (simp add: utf8_char_def Let_def)
next
  case False
  define n where "n = (of_char c :: nat)"
  have n: "128 \<le> n" "n < 256" using False by (simp_all add: n_def)
  then have q: "n div 64 = 2 \<or> n div 64 = 3" by linarith
  then have first: "(192 + n div 64) mod 256 \<in> {194, 195}" "\<not> (192 + n div 64) mod 256 < 128" by auto
  have "(128 + n mod 64) mod 256 = 128 + n mod 64" by simp
  moreover have "(192 + n div 64) mod 256 - 192 = n div 64" using q by auto
  then have "((192 + n div 64) mod 256 - 192) * 64 + (128 + n mod 64 - 128) = n" by simp
  moreover have "char_of n = c" by (simp add: n_def)
  ultimately show ?thesis using n first
    by (simp add: utf8_char_def Let_def n_def [symmetric] del: char_of_eq_iff)
qed

lemma utf8_read_back: "utf8_decode (utf8_encode s) = Some s"
  by (induction s) (simp_all add: utf8_encode_def utf8_read_char)

theorem strict_json_read_back:
  assumes "strict_json v" and "distinct_keys v" and "floats_ok (float_reads fl fr) v"
  shows "strict_json_loads fr (canonical_text fl v) = Some (sort_json v)"
proof -
  let ?v = "sort_json v"
  have floats: "floats_ok P (sort_json u) = floats_ok P u" for P u
    by (induction u rule: json_measure_induct) (auto simp: sort_json_leaf)
  have strict: "strict_json (sort_json u) = strict_json u" for u
    by (induction u rule: json_measure_induct) (auto simp: sort_json_leaf)
  have ok: "read_back fl fr ?v" using assms floats by (simp add: read_back_def)
  have "skip_space (write_json fl ?v) = write_json fl ?v" using skip_written [of fl fr ?v "[]"] ok by (simp add: read_back_def)
  moreover have "parse_value fr (2 * length (write_json fl ?v)) (write_json fl ?v) = Some (?v, [])"
    using parse_written(1) [OF ok, of "2 * length (write_json fl ?v)" "[]"] by simp
  ultimately show ?thesis using assms(1) strict
    by (simp add: strict_json_loads_def canonical_text_def utf8_read_back skip_space_def)
qed

end
