(* ===== verification/Failure_Recovery.thy ===== *)
theory Failure_Recovery
  imports Json_Read_Back Plan_Execution Ordered_Dict
begin

text \<open>
  Failure recovery (\<open>modules/agent/failure_recovery.py\<close>): the closed taxonomy of failures, the steps a
  retry runs again, and the hash that identifies a plan whatever the order of its steps. Exceptions are
  given by what the classifier looks at; SHA-256 and the texts of values that are no strings are
  parameters.
\<close>

section \<open>Classification\<close>

datatype failure_kind =
    FailValidation | FailPolicy | FailPermission | FailTimeout | FailCancel | FailProvider | FailTool | FailInternal | FailVerification

text \<open>\<open>text.split()\<close>: the words between runs of white space.\<close>

function words :: "string \<Rightarrow> string list" where
  "words s =
     (let t = dropWhile py_isspace s
      in if t = [] then [] else takeWhile (\<lambda>c. \<not> py_isspace c) t # words (dropWhile (\<lambda>c. \<not> py_isspace c) t))"
  by pat_completeness auto
termination
proof (relation "measure length", simp)
  fix s t :: string
  assume t: "t = dropWhile py_isspace s" "t \<noteq> []"
  from t(2) obtain c u where "t = c # u" using list.exhaust by blast
  moreover from this have "\<not> py_isspace c" using t hd_dropWhile [of py_isspace s] by (metis list.sel(1))
  moreover have "length (dropWhile py_isspace s) \<le> length s" by (rule length_dropWhile_le)
  ultimately show "(dropWhile (\<lambda>c. \<not> py_isspace c) t, s) \<in> measure length"
    using t length_dropWhile_le [of "\<lambda>c. \<not> py_isspace c" u] by simp
qed

declare words.simps [simp del]

definition dash_to_underscore :: "string \<Rightarrow> string" where
  "dash_to_underscore s = map (\<lambda>c. if c = CHR ''-'' then CHR ''_'' else c) s"

definition status_key :: "string option \<Rightarrow> string" where
  "status_key status = join_text ''_'' (words (dash_to_underscore (py_lower (text_or_empty status))))"

definition mentions :: "string list \<Rightarrow> string \<Rightarrow> bool" where
  "mentions parts s \<longleftrightarrow> list_ex (\<lambda>p. sublist p s) parts"

definition classify_failure :: "string option \<Rightarrow> string option \<Rightarrow> string option \<Rightarrow> failure_kind" where
  "classify_failure status err cause =
     (let key = status_key status; msg = join_text '' '' [py_lower (text_or_empty err), py_lower (text_or_empty cause)]
      in if mentions [''validation''] key \<or> take 12 key = ''invalid_plan'' then FailValidation
         else if mentions [''permission''] key then FailPermission
         else if mentions [''policy'', ''forbidden'', ''denied''] key then FailPolicy
         else if mentions [''timeout'', ''timed_out''] key then FailTimeout
         else if mentions [''cancel''] key then FailCancel
         else if mentions [''provider'', ''model'', ''rate_limit''] key then FailProvider
         else if mentions [''verification'', ''verify''] key then FailVerification
         else if mentions [''tool''] key then FailTool
         else if mentions [''timeout'', ''timed out'', ''deadline''] msg then FailTimeout
         else if mentions [''cancel'', ''aborted'', ''interrupted''] msg then FailCancel
         else if mentions [''permission'', ''forbidden'', ''access denied''] msg then FailPermission
         else if mentions [''policy'', ''not allowed'', ''blocked''] msg then FailPolicy
         else if mentions [''provider'', ''rate limit'', ''model unavailable''] msg then FailProvider
         else if mentions [''process crash'', ''restart after'', ''runtime terminated''] msg then FailInternal
         else if key \<in> {''error'', ''failed'', ''tool_error''} then FailTool
         else FailInternal)"

text \<open>A failed step, as it is reported; \<open>None\<close> is the ValueError of a failure without a step.\<close>

record step_failure =
  fa_step_id :: string
  fa_kind :: failure_kind
  fa_message :: string
  fa_retryable :: bool
  fa_status :: "string option"
  fa_cause :: "string option"
  fa_metadata :: dict
  fa_timestamp :: string

definition failure_post_init :: "step_failure \<Rightarrow> step_failure option" where
  "failure_post_init f = (if fa_step_id f = [] then None else Some f)"

primrec failure_name :: "failure_kind \<Rightarrow> string" where
  "failure_name FailValidation = ''validation''"
| "failure_name FailPolicy = ''policy''"
| "failure_name FailPermission = ''permission''"
| "failure_name FailTimeout = ''timeout''"
| "failure_name FailCancel = ''cancel''"
| "failure_name FailProvider = ''provider''"
| "failure_name FailTool = ''tool''"
| "failure_name FailInternal = ''internal''"
| "failure_name FailVerification = ''verification''"

definition failure_to_dict :: "step_failure \<Rightarrow> dict" where
  "failure_to_dict f = [(''step_id'', JStr (fa_step_id f)), (''kind'', JStr (failure_name (fa_kind f))), (''message'', JStr (fa_message f)),
     (''retryable'', JBool (fa_retryable f)), (''status'', case fa_status f of None \<Rightarrow> JNull | Some t \<Rightarrow> JStr t),
     (''cause'', case fa_cause f of None \<Rightarrow> JNull | Some t \<Rightarrow> JStr t), (''metadata'', JObj (fa_metadata f)),
     (''timestamp'', JStr (fa_timestamp f))]"

text \<open>
  An exception as the classifier sees it: is it a TimeoutError, a ConnectionError, an OSError with which
  number; its class name, the status codes it carries in the order they are tried, and the code in an
  \<open>LLM API\<close> message.
\<close>

record provider_exception =
  px_timeout :: bool
  px_connection :: bool
  px_name :: string
  px_codes :: "json list"
  px_message_code :: "int option"
  px_errno :: "int option"

record provider_failure =
  pf_kind :: failure_kind
  pf_reason :: string
  pf_retryable :: bool

definition provider_timeout :: provider_failure where
  "provider_timeout = \<lparr>pf_kind = FailTimeout, pf_reason = ''provider_timeout'', pf_retryable = True\<rparr>"

definition provider_unavailable :: provider_failure where
  "provider_unavailable = \<lparr>pf_kind = FailProvider, pf_reason = ''provider_unavailable'', pf_retryable = True\<rparr>"

fun first_int :: "json list \<Rightarrow> int option" where
  "first_int [] = None"
| "first_int (JInt i # vs) = Some i"
| "first_int (v # vs) = first_int vs"

definition timeout_names :: "string list" where
  "timeout_names = [''apitimeouterror'', ''connecttimeout'', ''pooltimeout'', ''readtimeout'', ''writetimeout'']"

definition network_names :: "string list" where
  "network_names = [''apiconnectionerror'', ''connecterror'', ''networkerror'', ''ratelimiterror'', ''remotedisconnected'',
     ''serverdisconnectederror'']"

text \<open>The numbers of the network errors, with the platform's own ones as a parameter.\<close>

definition classify_provider_runtime_exception :: "int list \<Rightarrow> provider_exception \<Rightarrow> provider_failure option" where
  "classify_provider_runtime_exception platform x =
     (let name = py_lower (px_name x);
          code = (case first_int (px_codes x) of Some i \<Rightarrow> Some i | None \<Rightarrow> px_message_code x)
      in if px_timeout x then Some provider_timeout
         else if px_connection x then Some provider_unavailable
         else if name \<in> set timeout_names then Some provider_timeout
         else if name \<in> set network_names then Some provider_unavailable
         else (case code of
             Some c \<Rightarrow>
               if c = 408 then Some provider_timeout
               else if c = 429 \<or> 500 \<le> c \<and> c \<le> 599 then Some provider_unavailable
               else if 400 \<le> c \<and> c \<le> 499
                 then Some \<lparr>pf_kind = FailProvider, pf_reason = ''provider_request_rejected'', pf_retryable = False\<rparr>
               else (case px_errno x of
                   Some n \<Rightarrow> if n \<in> set (platform @ [10051, 10053, 10054, 10060, 10061, 10064, 10065]) then Some provider_unavailable else None
                 | None \<Rightarrow> None)
           | None \<Rightarrow> (case px_errno x of
                   Some n \<Rightarrow> if n \<in> set (platform @ [10051, 10053, 10054, 10060, 10061, 10064, 10065]) then Some provider_unavailable else None
                 | None \<Rightarrow> None)))"

section \<open>What a retry runs again\<close>

fun closure_pass :: "(string \<times> string list) list \<Rightarrow> string list \<Rightarrow> string list" where
  "closure_pass [] closure = closure"
| "closure_pass ((i, deps) # steps) closure =
     closure_pass steps (if i \<notin> set closure \<and> list_ex (\<lambda>d. d \<in> set closure) deps then i # closure else closure)"

lemma closure_pass_cases:
  "\<exists>new. closure_pass steps closure = new @ closure \<and> set new \<subseteq> fst ` set steps \<and> set new \<inter> set closure = {}"
proof (induction steps arbitrary: closure)
  case (Cons e steps)
  obtain i deps where e: "e = (i, deps)" by (cases e)
  show ?case
  proof (cases "i \<notin> set closure \<and> list_ex (\<lambda>d. d \<in> set closure) deps")
    case True
    obtain new where new: "closure_pass steps (i # closure) = new @ i # closure" "set new \<subseteq> fst ` set steps" "set new \<inter> set (i # closure) = {}"
      using Cons by blast
    show ?thesis by (rule exI [of _ "new @ [i]"]) (use new True e in auto)
  next
    case False
    obtain new where new: "closure_pass steps closure = new @ closure" "set new \<subseteq> fst ` set steps" "set new \<inter> set closure = {}"
      using Cons by blast
    show ?thesis by (rule exI [of _ new]) (use new False e in auto)
  qed
qed simp

function closure_loop :: "(string \<times> string list) list \<Rightarrow> string list \<Rightarrow> string list" where
  "closure_loop steps closure =
     (let c = closure_pass steps closure in if length c = length closure then closure else closure_loop steps c)"
  by pat_completeness auto
termination
proof (relation "measure (\<lambda>(steps, closure). card (fst ` set steps - set closure))", simp)
  fix steps closure c
  assume c: "c = closure_pass steps closure" "length c \<noteq> length closure"
  obtain new where new: "c = new @ closure" "set new \<subseteq> fst ` set steps" "set new \<inter> set closure = {}"
    using closure_pass_cases [of steps closure] c(1) by blast
  with c(2) have "new \<noteq> []" by auto
  with new have "fst ` set steps - set c \<subset> fst ` set steps - set closure" by (cases new) auto
  then show "((steps, c), steps, closure) \<in> measure (\<lambda>(steps, closure). card (fst ` set steps - set closure))"
    by (simp add: psubset_card_mono)
qed

declare closure_loop.simps [simp del]

text \<open>\<open>None\<close> when the failed step is not in the plan.\<close>

definition retry_closure :: "(string \<times> string list) list \<Rightarrow> string \<Rightarrow> string list option" where
  "retry_closure steps failed = (if failed \<notin> set (map fst steps) then None else Some (closure_loop steps [failed]))"

definition step_links :: "plan_step list \<Rightarrow> (string \<times> string list) list" where
  "step_links steps = map (\<lambda>s. (st_id s, dep_ids s)) steps"

section \<open>The hash of a plan\<close>

definition unordered_fields :: "string list" where
  "unordered_fields = [''depends_on'', ''status_in'', ''status_not_in'', ''content_contains'', ''error_contains'', ''values'',
     ''all_of'', ''any_of'', ''none_of'']"

function normal_value :: "(pyfloat \<Rightarrow> string) \<Rightarrow> string option \<Rightarrow> json \<Rightarrow> json" where
  "normal_value fl f v = (case v of
     JObj d \<Rightarrow> JObj (map (\<lambda>(k, c). (k, normal_value fl (Some k) c)) d)
   | JList xs \<Rightarrow>
       (let ys = map (normal_value fl None) xs
        in JList (case f of Some k \<Rightarrow> if k \<in> set unordered_fields then sort_key (canonical_text fl) ys else ys | None \<Rightarrow> ys))
   | _ \<Rightarrow> v)"
  by pat_completeness auto

termination by (relation "measure (\<lambda>(fl, f, v). size v)") (auto dest: json_child_smaller)

declare normal_value.simps [simp del]

definition id_text :: "(json \<Rightarrow> string) \<Rightarrow> json \<Rightarrow> string" where
  "id_text str_of v = (case v of JStr s \<Rightarrow> s | _ \<Rightarrow> str_of v)"

text \<open>The elements of a value that is iterated; \<open>None\<close> is a TypeError.\<close>

definition elements :: "json \<Rightarrow> json list option" where
  "elements v = (case v of
     JList xs \<Rightarrow> Some xs
   | JStr s \<Rightarrow> Some (map (\<lambda>c. JStr [c]) s)
   | JObj d \<Rightarrow> Some (map (\<lambda>e. JStr (fst e)) d)
   | _ \<Rightarrow> None)"

definition hash_deps :: "(json \<Rightarrow> string) \<Rightarrow> json \<Rightarrow> string list option" where
  "hash_deps str_of v =
     map_option (map (id_text str_of)) (elements (json_or (dict_get (dict_of v) ''depends_on'') (JList [])))"

definition has_id :: "json \<Rightarrow> bool" where
  "has_id v \<longleftrightarrow> is_object v \<and> dict_get (dict_of v) ''id'' \<noteq> JNull"

definition hash_index :: "(json \<Rightarrow> string) \<Rightarrow> json list \<Rightarrow> (string \<times> json) list" where
  "hash_index str_of vs = fold (\<lambda>v. od_set (id_text str_of (dict_get (dict_of v) ''id'')) v) (filter has_id vs) []"

text \<open>The steps without open dependencies, or all of them when there are none.\<close>

definition ready_ids :: "(string \<Rightarrow> string list) \<Rightarrow> string list \<Rightarrow> string list \<Rightarrow> string list" where
  "ready_ids deps remaining finished =
     (let free = sort (filter (\<lambda>i. \<forall>d\<in>set (deps i). d \<in> set finished) remaining) in if free = [] then sort remaining else free)"

lemma ready_ids_some: "remaining \<noteq> [] \<Longrightarrow> ready_ids deps remaining finished \<noteq> []"
  by (simp add: ready_ids_def Let_def)

lemma set_ready_ids: "set (ready_ids deps remaining finished) \<subseteq> set remaining"
  by (auto simp: ready_ids_def Let_def)

function hash_order :: "(string \<Rightarrow> string list) \<Rightarrow> string list \<Rightarrow> string list \<Rightarrow> string list" where
  "hash_order deps remaining finished =
     (if remaining = [] then []
      else (let ready = ready_ids deps remaining finished
        in ready @ hash_order deps (filter (\<lambda>i. i \<notin> set ready) remaining) (finished @ ready)))"
  by pat_completeness auto
termination
proof (relation "measure (\<lambda>(deps, remaining, finished). length remaining)", simp)
  fix deps :: "string \<Rightarrow> string list" and remaining finished ready :: "string list"
  assume "remaining \<noteq> []" "ready = ready_ids deps remaining finished"
  then obtain i where "i \<in> set remaining" "i \<in> set ready"
    using ready_ids_some [of remaining deps finished] set_ready_ids [of deps remaining finished] by (metis all_not_in_conv set_empty subsetD)
  then show "((deps, filter (\<lambda>i. i \<notin> set ready) remaining, finished @ ready), deps, remaining, finished)
      \<in> measure (\<lambda>(deps, remaining, finished). length remaining)"
    by (simp add: length_filter_less)
qed

declare hash_order.simps [simp del]

text \<open>The list that is hashed; \<open>None\<close>: a value that is not strict JSON, or dependencies that cannot be iterated.\<close>

definition canonical_plan :: "(pyfloat \<Rightarrow> string) \<Rightarrow> (json \<Rightarrow> string) \<Rightarrow> json list \<Rightarrow> json list option" where
  "canonical_plan fl str_of steps =
     (if \<not> strict_json (JList steps) then None
      else
        (let vs = map (normal_value fl None) steps; index = hash_index str_of vs;
             deps = (\<lambda>i. case map_of index i of None \<Rightarrow> [] | Some v \<Rightarrow> (case hash_deps str_of v of None \<Rightarrow> [] | Some ds \<Rightarrow> ds))
         in if list_ex (\<lambda>(i, v). hash_deps str_of v = None) index then None
            else Some (map (\<lambda>i. the (map_of index i)) (hash_order deps (map fst index) []) @ filter (\<lambda>v. \<not> has_id v) vs)))"

definition plan_hash :: "(pyfloat \<Rightarrow> string) \<Rightarrow> (json \<Rightarrow> string) \<Rightarrow> (string \<Rightarrow> string) \<Rightarrow> json list \<Rightarrow> string option" where
  "plan_hash fl str_of digest steps = map_option (\<lambda>vs. digest (canonical_text fl (JList vs))) (canonical_plan fl str_of steps)"

end
