(* ===== verification/Resume_Token.thy ===== *)
theory Resume_Token
  imports Failure_Recovery
begin

text \<open>
  Resume tokens (\<open>modules/agent/failure_recovery.py\<close>, \<open>ResumeTokenCodec\<close>): base64 without padding and
  Python's lenient decoder, the signed payload, its checks. Bytes are the characters of a string;
  \<open>mac\<close> is HMAC-SHA256 under the codec's secret.
\<close>

section \<open>Base64\<close>

definition b64_char :: "nat \<Rightarrow> char" where
  "b64_char n = (if n < 26 then char_of (65 + n) else if n < 52 then char_of (71 + n) else if n < 62 then char_of (n - 4)
     else if n = 62 then CHR ''-'' else CHR ''_'')"

text \<open>The decoder's table, after \<open>-\<close> and \<open>_\<close> became \<open>+\<close> and \<open>/\<close>, which are accepted too.\<close>

definition b64_value :: "char \<Rightarrow> nat option" where
  "b64_value c =
     (let n = of_char c
      in if 65 \<le> n \<and> n < 91 then Some (n - 65) else if 97 \<le> n \<and> n < 123 then Some (n - 71)
         else if 48 \<le> n \<and> n < 58 then Some (n + 4) else if c \<in> {CHR ''-'', CHR ''+''} then Some 62
         else if c \<in> {CHR ''_'', CHR ''/''} then Some 63 else None)"

text \<open>\<open>_b64\<close>: the encoding with its padding taken off.\<close>

fun b64 :: "string \<Rightarrow> string" where
  "b64 [] = []"
| "b64 [x] = [b64_char (of_char x div 4), b64_char (of_char x mod 4 * 16)]"
| "b64 [x, y] = [b64_char (of_char x div 4), b64_char (of_char x mod 4 * 16 + of_char y div 16), b64_char (of_char y mod 16 * 4)]"
| "b64 (x # y # z # s) =
     [b64_char (of_char x div 4), b64_char (of_char x mod 4 * 16 + of_char y div 16), b64_char (of_char y mod 16 * 4 + of_char z div 64),
      b64_char (of_char z mod 64)] @ b64 s"

text \<open>
  The decoder: position in the group, bits left over, padding seen. Characters outside the alphabet are
  passed over; padding that completes a group ends the input.
\<close>

fun scan64 :: "nat \<Rightarrow> nat \<Rightarrow> nat \<Rightarrow> string \<Rightarrow> string option" where
  "scan64 q left pads [] = (if q = 0 then Some [] else None)"
| "scan64 q left pads (c # t) =
     (if c = CHR ''='' then
        (if q \<ge> 2 \<and> q + Suc pads \<ge> 4 then Some [] else scan64 q left (if q \<ge> 2 then Suc pads else pads) t)
      else (case b64_value c of
          None \<Rightarrow> scan64 q left pads t
        | Some v \<Rightarrow>
            if q = 0 then scan64 1 v 0 t
            else if q = 1 then map_option (\<lambda>s. char_of (left * 4 + v div 16) # s) (scan64 2 (v mod 16) 0 t)
            else if q = 2 then map_option (\<lambda>s. char_of (left * 16 + v div 4) # s) (scan64 3 (v mod 4) 0 t)
            else map_option (\<lambda>s. char_of (left * 64 + v) # s) (scan64 0 0 0 t)))"

definition is_ascii :: "string \<Rightarrow> bool" where
  "is_ascii s \<longleftrightarrow> list_all (\<lambda>c. of_char c < (128 :: nat)) s"

definition unb64 :: "string \<Rightarrow> string option" where
  "unb64 s = (if is_ascii s then scan64 0 0 0 (s @ replicate ((4 - length s mod 4) mod 4) (CHR ''='')) else None)"

section \<open>Tokens\<close>

datatype token_error = TtlNotPositive | PlanHashMissing | TokenTampered | TokenExpired | TokenScopeMismatch

record token_scope =
  ts_workspace :: "string option"
  ts_session :: string
  ts_turn :: string
  ts_plan_hash :: "string option"
  ts_failed_step :: string

definition scope_fields :: "token_scope \<Rightarrow> string \<Rightarrow> dict" where
  "scope_fields s h = [(''workspace_id'', JStr (text_or_empty (ts_workspace s))), (''session_id'', JStr (ts_session s)),
     (''turn_id'', JStr (ts_turn s)), (''plan_hash'', JStr h), (''failed_step_id'', JStr (ts_failed_step s))]"

definition token_payload :: "token_scope \<Rightarrow> string \<Rightarrow> int \<Rightarrow> int \<Rightarrow> dict" where
  "token_payload s h now ttl = [(''v'', JInt 1)] @ scope_fields s h @ [(''iat'', JInt now), (''exp'', JInt (now + ttl))]"

definition sealed :: "(string \<Rightarrow> string) \<Rightarrow> string \<Rightarrow> string" where
  "sealed mac body = body @ ''.'' @ b64 (mac body)"

definition encode_token :: "(pyfloat \<Rightarrow> string) \<Rightarrow> (string \<Rightarrow> string) \<Rightarrow> token_scope \<Rightarrow> int \<Rightarrow> int \<Rightarrow> token_error + string" where
  "encode_token fl mac s now ttl =
     (if ttl \<le> 0 then Inl TtlNotPositive
      else if text_or_empty (ts_plan_hash s) = [] then Inl PlanHashMissing
      else Inr (sealed mac (b64 (canonical_text fl (JObj (token_payload s (text_or_empty (ts_plan_hash s)) now ttl))))))"

text \<open>\<open>token.split(''.'', 1)\<close> and the check of the signature.\<close>

definition open_token :: "(string \<Rightarrow> pyfloat) \<Rightarrow> (string \<Rightarrow> string) \<Rightarrow> string \<Rightarrow> dict option" where
  "open_token fr mac token =
     (let body = takeWhile (\<lambda>c. c \<noteq> CHR ''.'') token; rest = dropWhile (\<lambda>c. c \<noteq> CHR ''.'') token
      in if rest = [] \<or> \<not> is_ascii body then None
         else (case unb64 (drop 1 rest) of
             None \<Rightarrow> None
           | Some sig \<Rightarrow>
               if sig \<noteq> mac body then None
               else (case unb64 body of
                   None \<Rightarrow> None
                 | Some bytes \<Rightarrow> (case strict_json_loads fr bytes of
                     Some (JObj d) \<Rightarrow> if py_equal (dict_get d ''v'') (JInt 1) then Some d else None
                   | _ \<Rightarrow> None))))"

text \<open>\<open>int(value)\<close>; \<open>None\<close> is a TypeError or a ValueError.\<close>

definition int_of :: "(string \<Rightarrow> int option) \<Rightarrow> json \<Rightarrow> int option" where
  "int_of read v = (case v of
     JInt i \<Rightarrow> Some i
   | JBool b \<Rightarrow> Some (of_bool b)
   | JFloat (Fin r) \<Rightarrow> Some (if 0 \<le> r then \<lfloor>r\<rfloor> else \<lceil>r\<rceil>)
   | JStr s \<Rightarrow> read s
   | _ \<Rightarrow> None)"

definition decode_token :: "(string \<Rightarrow> pyfloat) \<Rightarrow> (string \<Rightarrow> int option) \<Rightarrow> (string \<Rightarrow> string) \<Rightarrow> int \<Rightarrow> token_scope \<Rightarrow> string
    \<Rightarrow> token_error + dict" where
  "decode_token fr read mac clock s token = (case open_token fr mac token of
     None \<Rightarrow> Inl TokenTampered
   | Some d \<Rightarrow> (case (int_of read (dict_get d ''exp''), int_of read (dict_get d ''iat'')) of
       (Some expires, Some issued) \<Rightarrow>
         if expires \<le> issued \<or> expires \<le> clock then Inl TokenExpired
         else if text_or_empty (ts_plan_hash s) = [] then Inl PlanHashMissing
         else if list_all (\<lambda>(k, v). py_equal (dict_get d k) v) (scope_fields s (text_or_empty (ts_plan_hash s))) then Inr d
         else Inl TokenScopeMismatch
     | _ \<Rightarrow> Inl TokenTampered))"

text \<open>\<open>FailureRecoveryManager\<close>: the plan's own hash; a plan without one raises, here \<open>Inl None\<close>.\<close>

record recovery_world =
  rw_float :: "pyfloat \<Rightarrow> string"
  rw_read_float :: "string \<Rightarrow> pyfloat"
  rw_read_int :: "string \<Rightarrow> int option"
  rw_str_of :: "json \<Rightarrow> string"
  rw_digest :: "string \<Rightarrow> string"
  rw_mac :: "string \<Rightarrow> string"

definition hash_of :: "recovery_world \<Rightarrow> json list \<Rightarrow> string option" where
  "hash_of w steps = plan_hash (rw_float w) (rw_str_of w) (rw_digest w) steps"

definition create_resume_token :: "recovery_world \<Rightarrow> string option \<Rightarrow> string \<Rightarrow> string \<Rightarrow> json list \<Rightarrow> step_failure \<Rightarrow> int \<Rightarrow> int
    \<Rightarrow> token_error option + string" where
  "create_resume_token w workspace session turn steps failure now ttl = (case hash_of w steps of
     None \<Rightarrow> Inl None
   | Some h \<Rightarrow> (case encode_token (rw_float w) (rw_mac w)
         \<lparr>ts_workspace = workspace, ts_session = session, ts_turn = turn, ts_plan_hash = Some h, ts_failed_step = fa_step_id failure\<rparr> now ttl of
       Inl e \<Rightarrow> Inl (Some e) | Inr t \<Rightarrow> Inr t))"

definition validate_resume_token :: "recovery_world \<Rightarrow> string option \<Rightarrow> string \<Rightarrow> string \<Rightarrow> json list \<Rightarrow> string \<Rightarrow> int \<Rightarrow> string
    \<Rightarrow> token_error option + dict" where
  "validate_resume_token w workspace session turn steps failed clock token = (case hash_of w steps of
     None \<Rightarrow> Inl None
   | Some h \<Rightarrow> (case decode_token (rw_read_float w) (rw_read_int w) (rw_mac w) clock
         \<lparr>ts_workspace = workspace, ts_session = session, ts_turn = turn, ts_plan_hash = Some h, ts_failed_step = failed\<rparr> token of
       Inl e \<Rightarrow> Inl (Some e) | Inr d \<Rightarrow> Inr d))"

section \<open>Base64 is read back\<close>

lemma b64_value_char: "n < 64 \<Longrightarrow> b64_value (b64_char n) = Some n"
  by (auto simp: b64_char_def b64_value_def Let_def)

lemma of_b64_char: "n < 64 \<Longrightarrow> of_char (b64_char n) \<notin> {61, 46 :: nat} \<and> of_char (b64_char n) < (128 :: nat)"
  by (auto simp: b64_char_def)

lemma b64_char_plain: "n < 64 \<Longrightarrow> b64_char n \<noteq> CHR ''=''" "n < 64 \<Longrightarrow> b64_char n \<noteq> CHR ''.''"
  using of_b64_char [of n] by auto

lemma scan64_char:
  assumes "v < 64"
  shows "scan64 0 left pads (b64_char v # t) = scan64 1 v 0 t"
    "scan64 1 left pads (b64_char v # t) = map_option (\<lambda>s. char_of (left * 4 + v div 16) # s) (scan64 2 (v mod 16) 0 t)"
    "scan64 2 left pads (b64_char v # t) = map_option (\<lambda>s. char_of (left * 16 + v div 4) # s) (scan64 3 (v mod 4) 0 t)"
    "scan64 3 left pads (b64_char v # t) = map_option (\<lambda>s. char_of (left * 64 + v) # s) (scan64 0 0 0 t)"
  using assms by (simp_all add: b64_value_char b64_char_plain)

lemma sixbits:
  fixes x y :: nat
  assumes "x < 256" and "y < 256"
  shows "x div 4 < 64" "x mod 4 * 16 + y div 16 < 64" "x mod 16 * 4 + y div 64 < 64" "x mod 64 < 64" "x mod 4 * 16 < 64" "x mod 16 * 4 < 64"
    "x div 4 * 4 + (x mod 4 * 16 + y div 16) div 16 = x" "(x mod 4 * 16 + y div 16) mod 16 = y div 16"
    "x div 16 * 16 + (x mod 16 * 4 + y div 64) div 4 = x" "(x mod 16 * 4 + y div 64) mod 4 = y div 64"
    "x div 64 * 64 + x mod 64 = x"
proof -
  show "x div 4 < 64" "x mod 4 * 16 + y div 16 < 64" "x mod 16 * 4 + y div 64 < 64" "x mod 64 < 64" "x mod 4 * 16 < 64" "x mod 16 * 4 < 64"
    using assms by linarith+
  have "y div 16 < 16" "y div 64 < 4" using assms(2) by linarith+
  then have "(x mod 4 * 16 + y div 16) div 16 = x mod 4" "(x mod 16 * 4 + y div 64) div 4 = x mod 16"
    "(x mod 4 * 16 + y div 16) mod 16 = y div 16" "(x mod 16 * 4 + y div 64) mod 4 = y div 64" by simp_all
  then show "x div 4 * 4 + (x mod 4 * 16 + y div 16) div 16 = x" "(x mod 4 * 16 + y div 16) mod 16 = y div 16"
    "x div 16 * 16 + (x mod 16 * 4 + y div 64) div 4 = x" "(x mod 16 * 4 + y div 64) mod 4 = y div 64"
    "x div 64 * 64 + x mod 64 = x" by simp_all
qed

lemma scan64_first:
  assumes "x < 256" and "y < 256"
  shows "scan64 0 l p (b64_char (x div 4) # b64_char (x mod 4 * 16 + y div 16) # t) = map_option (\<lambda>s. char_of x # s) (scan64 2 (y div 16) 0 t)"
  unfolding scan64_char(1) [OF sixbits(1) [OF assms]] scan64_char(2) [OF sixbits(2) [OF assms]] sixbits(7,8) [OF assms] ..

lemma scan64_second:
  assumes "y < 256" and "z < 256"
  shows "scan64 2 (y div 16) p (b64_char (y mod 16 * 4 + z div 64) # t) = map_option (\<lambda>s. char_of y # s) (scan64 3 (z div 64) 0 t)"
  unfolding scan64_char(3) [OF sixbits(3) [OF assms]] sixbits(9,10) [OF assms] ..

lemma scan64_third:
  assumes "z < 256"
  shows "scan64 3 (z div 64) p (b64_char (z mod 64) # t) = map_option (\<lambda>s. char_of z # s) (scan64 0 0 0 t)"
  unfolding scan64_char(4) [OF sixbits(4) [OF assms assms]] sixbits(11) [OF assms assms] ..

lemma scan64_written:
  "scan64 0 0 0 (b64 s @ replicate ((4 - length (b64 s) mod 4) mod 4) (CHR ''='')) = Some s"
proof (induction s rule: b64.induct)
  case (2 x)
  have "replicate ((4 - length (b64 [x]) mod 4) mod 4) (CHR ''='') = ''==''" by (simp add: numeral_2_eq_2)
  then show ?case using scan64_first [of "of_char x" 0 0 0 "''==''"] by simp
next
  case (3 x y)
  have "replicate ((4 - length (b64 [x, y]) mod 4) mod 4) (CHR ''='') = ''=''" by simp
  then show ?case using scan64_first [of "of_char x" "of_char y"] scan64_second [of "of_char y" 0 0 "''=''"] by simp
next
  case (4 x y z s)
  have "replicate ((4 - length (b64 (x # y # z # s)) mod 4) mod 4) (CHR ''='') = replicate ((4 - length (b64 s) mod 4) mod 4) (CHR ''='')" by simp
  then show ?case using 4 by (simp add: scan64_first scan64_second scan64_third del: scan64.simps)
qed simp

definition b64_alphabet :: "char set" where
  "b64_alphabet = b64_char ` {..<64}"

lemma in_alphabet: "n < 64 \<Longrightarrow> b64_char n \<in> b64_alphabet"
  by (simp add: b64_alphabet_def)

lemma b64_in_alphabet: "set (b64 s) \<subseteq> b64_alphabet"
proof (induction s rule: b64.induct)
  case (2 x)
  note x = nat_of_char_less_256 [of x]
  show ?case by (simp add: in_alphabet sixbits(1,5) [OF x x])
next
  case (3 x y)
  note x = nat_of_char_less_256 [of x] and y = nat_of_char_less_256 [of y]
  show ?case by (simp add: in_alphabet sixbits(1,2) [OF x y] sixbits(6) [OF y y])
next
  case (4 x y z s)
  note x = nat_of_char_less_256 [of x] and y = nat_of_char_less_256 [of y] and z = nat_of_char_less_256 [of z]
  show ?case using 4 by (simp add: in_alphabet sixbits(1,2) [OF x y] sixbits(3) [OF y z] sixbits(4) [OF z z])
qed simp

lemma b64_plain: "\<forall>c\<in>set (b64 s). of_char c < (128 :: nat) \<and> c \<noteq> CHR ''.''"
  using b64_in_alphabet [of s] of_b64_char b64_char_plain(2) by (fastforce simp: b64_alphabet_def)

theorem base64_read_back: "unb64 (b64 s) = Some s"
proof -
  have "is_ascii (b64 s)" using b64_plain by (auto simp: is_ascii_def list_all_iff)
  then show ?thesis unfolding unb64_def scan64_written by (rule if_P)
qed

text \<open>A token that the codec sealed is opened to what was sealed.\<close>

lemma open_sealed:
  assumes "strict_json_loads fr bytes = Some (JObj d)" and "py_equal (dict_get d ''v'') (JInt 1)"
  shows "open_token fr mac (sealed mac (b64 bytes)) = Some d"
proof -
  have plain: "\<forall>c\<in>set (b64 bytes). c \<noteq> CHR ''.''" "is_ascii (b64 bytes)"
    using b64_plain [of bytes] by (auto simp: is_ascii_def list_all_iff)
  have "takeWhile (\<lambda>c. c \<noteq> CHR ''.'') (sealed mac (b64 bytes)) = b64 bytes"
    "dropWhile (\<lambda>c. c \<noteq> CHR ''.'') (sealed mac (b64 bytes)) = CHR ''.'' # b64 (mac (b64 bytes))"
    using plain(1) by (simp_all add: sealed_def takeWhile_append2 dropWhile_append2)
  with plain(2) assms base64_read_back show ?thesis by (simp add: open_token_def)
qed

end
