(* ===== verification/Failure_Properties.thy ===== *)
theory Failure_Properties
  imports Resume_Token
begin

text \<open>
  What failure recovery promises: a retry takes exactly the failed step and what depends on it; two plans
  have the same hash exactly when they have the same steps; and a resume token is accepted exactly in the
  scope it was made for, until it expires.
\<close>

section \<open>The closure of a retry\<close>

definition dependents :: "(string \<times> string list) list \<Rightarrow> (string \<times> string) set" where
  "dependents steps = {(d, i). \<exists>deps. (i, deps) \<in> set steps \<and> d \<in> set deps}"

lemma closure_pass_sound:
  "set closure \<subseteq> (dependents all)\<^sup>* `` X \<Longrightarrow> set steps \<subseteq> set all \<Longrightarrow> set (closure_pass steps closure) \<subseteq> (dependents all)\<^sup>* `` X"
proof (induction steps arbitrary: closure)
  case (Cons e steps)
  obtain i deps where e: "e = (i, deps)" by (cases e)
  have "i \<in> (dependents all)\<^sup>* `` X" if d: "d \<in> set deps" "d \<in> set closure" for d
  proof -
    have "(d, i) \<in> dependents all" using d(1) Cons.prems(2) e by (auto simp: dependents_def)
    with d(2) Cons.prems(1) show ?thesis by (meson Image_iff rtrancl.rtrancl_into_rtrancl subsetD)
  qed
  then have "set (if i \<notin> set closure \<and> list_ex (\<lambda>d. d \<in> set closure) deps then i # closure else closure) \<subseteq> (dependents all)\<^sup>* `` X"
    using Cons.prems(1) by (auto simp: list_ex_iff)
  from Cons.IH [OF this] Cons.prems(2) e show ?case by simp
qed simp

lemma closure_pass_longer: "length closure \<le> length (closure_pass steps closure)"
  using closure_pass_cases [of steps closure] by auto

lemma closure_pass_closed:
  "length (closure_pass steps closure) = length closure \<Longrightarrow> (i, deps) \<in> set steps \<Longrightarrow> d \<in> set deps \<Longrightarrow> d \<in> set closure \<Longrightarrow> i \<in> set closure"
proof (induction steps arbitrary: closure)
  case (Cons e steps)
  obtain j es where e: "e = (j, es)" by (cases e)
  show ?case
  proof (cases "j \<notin> set closure \<and> list_ex (\<lambda>d. d \<in> set closure) es")
    case True
    then have "length (closure_pass steps (j # closure)) = length closure" using Cons.prems(1) e by simp
    with closure_pass_longer [of "j # closure" steps] show ?thesis by simp
  next
    case False
    with Cons e show ?thesis by (auto simp: list_ex_iff split: if_splits)
  qed
qed simp

lemma closure_loop_exact:
  "set (closure_loop steps closure) = (dependents steps)\<^sup>* `` set closure"
proof (induction steps closure rule: closure_loop.induct)
  case (1 steps closure)
  let ?c = "closure_pass steps closure"
  obtain new where new: "?c = new @ closure" using closure_pass_cases by blast
  show ?case
  proof (cases "length ?c = length closure")
    case True
    have "i \<in> set closure" if "(d, i) \<in> (dependents steps)\<^sup>*" "d \<in> set closure" for d i
      using that by (induction rule: rtrancl_induct) (auto simp: dependents_def intro: closure_pass_closed [OF True])
    with True show ?thesis by (subst closure_loop.simps) auto
  next
    case False
    have "set closure \<subseteq> set ?c" "set ?c \<subseteq> (dependents steps)\<^sup>* `` set closure"
      using new closure_pass_sound [of closure steps "set closure" steps] by auto
    then have "(dependents steps)\<^sup>* `` set ?c = (dependents steps)\<^sup>* `` set closure" by (blast intro: rtrancl_trans)
    with 1 [OF refl False] False show ?thesis by (subst closure_loop.simps) (simp add: Let_def)
  qed
qed

text \<open>C38. A retry takes exactly what it must: for a step of the plan the closure is the step itself and every
  step that depends on it directly or through others, nothing else; an unknown step is refused.\<close>

theorem retry_closure_exact:
  "case retry_closure steps failed of
     None \<Rightarrow> failed \<notin> fst ` set steps
   | Some ids \<Rightarrow> failed \<in> fst ` set steps \<and> (\<forall>i. i \<in> set ids \<longleftrightarrow> (failed, i) \<in> (dependents steps)\<^sup>*)"
  using closure_loop_exact [of steps "[failed]"] by (auto simp: retry_closure_def)

section \<open>Plans with the same hash\<close>

definition well_formed_step :: "(pyfloat \<Rightarrow> string) \<Rightarrow> (string \<Rightarrow> pyfloat) \<Rightarrow> json \<Rightarrow> bool" where
  "well_formed_step fl fr v \<longleftrightarrow> is_object v \<and> distinct_keys v \<and> strict_json v \<and> floats_ok (float_reads fl fr) v \<and>
     is_string_value (dict_get (dict_of v) ''id'') \<and>
     (case dict_get (dict_of v) ''depends_on'' of JNull \<Rightarrow> True | JList xs \<Rightarrow> list_all is_string_value xs | _ \<Rightarrow> False)"

definition step_id_of :: "json \<Rightarrow> string" where
  "step_id_of v = (case dict_get (dict_of v) ''id'' of JStr s \<Rightarrow> s | _ \<Rightarrow> [])"

text \<open>
  Two values that mean the same where a plan is identified: equal leaves; objects with the same values
  under the same keys, in whatever order; lists with the same elements in the same order, except under
  the fields whose order carries no meaning. An element of a list is under no field.
\<close>

definition order_free_fields :: "string set" where
  "order_free_fields = {''depends_on'', ''values'', ''all_of'', ''any_of'', ''none_of'', ''status_in'', ''status_not_in'',
     ''content_contains'', ''error_contains''}"

definition is_leaf :: "json \<Rightarrow> bool" where
  "is_leaf v = (case v of JObj _ \<Rightarrow> False | JList _ \<Rightarrow> False | _ \<Rightarrow> True)"

inductive same_value :: "string option \<Rightarrow> json \<Rightarrow> json \<Rightarrow> bool" where
  leaf: "is_leaf v \<Longrightarrow> same_value f v v"
| object: "dom (map_of d) = dom (map_of e) \<Longrightarrow>
    \<forall>k u v. map_of d k = Some u \<longrightarrow> map_of e k = Some v \<longrightarrow> same_value (Some k) u v \<Longrightarrow> same_value f (JObj d) (JObj e)"
| in_order: "length us = length vs \<Longrightarrow> \<forall>i<length us. same_value None (us ! i) (vs ! i) \<Longrightarrow> same_value f (JList us) (JList vs)"
| any_order: "f = Some k \<Longrightarrow> k \<in> order_free_fields \<Longrightarrow> mset ws = mset vs \<Longrightarrow> length us = length ws \<Longrightarrow>
    \<forall>i<length us. same_value None (us ! i) (ws ! i) \<Longrightarrow> same_value f (JList us) (JList vs)"

definition same_plan :: "json list \<Rightarrow> json list \<Rightarrow> bool" where
  "same_plan a b \<longleftrightarrow> (\<exists>c. mset c = mset b \<and> list_all2 (same_value None) a c)"

text \<open>The forms that are hashed are the same, up to the order of steps.\<close>

definition same_forms :: "(pyfloat \<Rightarrow> string) \<Rightarrow> json list \<Rightarrow> json list \<Rightarrow> bool" where
  "same_forms fl a b \<longleftrightarrow> mset (map (sort_json \<circ> normal_value fl None) a) = mset (map (sort_json \<circ> normal_value fl None) b)"

lemma normal_simps [simp]:
  "normal_value fl f (JObj d) = JObj (map (\<lambda>(k, c). (k, normal_value fl (Some k) c)) d)"
  "normal_value fl f JNull = JNull" "normal_value fl f (JBool b) = JBool b" "normal_value fl f (JInt i) = JInt i"
  "normal_value fl f (JFloat x) = JFloat x" "normal_value fl f (JStr s) = JStr s"
  by (simp_all add: normal_value.simps)

lemma normal_list:
  "\<exists>ys. normal_value fl f (JList xs) = JList ys \<and> mset ys = mset (map (normal_value fl None) xs)"
  by (auto simp: normal_value.simps [of fl f "JList xs"] Let_def split: option.splits)

lemma dict_get_normal:
  "dict_get (map (\<lambda>(k, c). (k, normal_value fl (Some k) c)) d) k = normal_value fl (Some k) (dict_get d k)"
  by (induction d) (auto simp: dict_get_Cons)

lemma normal_keeps:
  "strict_json (normal_value fl f v) = strict_json v \<and> distinct_keys (normal_value fl f v) = distinct_keys v \<and>
     floats_ok P (normal_value fl f v) = floats_ok P v"
proof (induction v arbitrary: f rule: json_measure_induct)
  case (obj d)
  have "map fst (map (\<lambda>(k, c). (k, normal_value fl (Some k) c)) d) = map fst d" by auto
  with obj show ?case by (auto simp: split_def comp_def)
next
  case (list xs)
  obtain ys where ys: "normal_value fl f (JList xs) = JList ys" "mset ys = mset (map (normal_value fl None) xs)"
    using normal_list by blast
  then have "set ys = normal_value fl None ` set xs" by (metis list.set_map mset_eq_setD)
  with ys(1) list show ?case by simp
next
  case (leaf v)
  then show ?case by (cases v) auto
qed

lemmas normal_strict [simp] = normal_keeps [THEN conjunct1] normal_keeps [THEN conjunct2, THEN conjunct1]
  normal_keeps [THEN conjunct2, THEN conjunct2]

text \<open>What the order needs of a step: its id and its dependencies, which sorting keys leaves alone.\<close>

lemma normal_object:
  assumes "well_formed_step fl fr v"
  obtains d where "normal_value fl None v = JObj d" "distinct_keys (JObj d)" "dict_get d ''id'' = JStr (step_id_of v)"
    "\<exists>ds. dict_get d ''depends_on'' = JNull \<or> dict_get d ''depends_on'' = JList (map JStr ds)"
proof -
  from assms obtain e where v: "v = JObj e" by (auto simp: well_formed_step_def)
  from assms obtain i where i: "dict_get e ''id'' = JStr i" by (auto simp: well_formed_step_def v dict_of_def)
  let ?d = "map (\<lambda>(k, c). (k, normal_value fl (Some k) c)) e"
  have "\<exists>ds. dict_get ?d ''depends_on'' = JNull \<or> dict_get ?d ''depends_on'' = JList (map JStr ds)"
  proof (cases "dict_get e ''depends_on''")
    case JNull
    then show ?thesis by (simp add: dict_get_normal)
  next
    case (JList xs)
    obtain ys where ys: "normal_value fl (Some ''depends_on'') (JList xs) = JList ys" "mset ys = mset (map (normal_value fl None) xs)"
      using normal_list by blast
    have "\<forall>x\<in>set xs. \<exists>s. x = JStr s" using assms JList by (auto simp: well_formed_step_def v dict_of_def list_all_iff)
    moreover have "set ys = normal_value fl None ` set xs" using ys(2) by (metis list.set_map mset_eq_setD)
    ultimately have "\<forall>y\<in>set ys. \<exists>s. y = JStr s" by auto
    then obtain ds where "ys = map JStr ds" by (metis ex_map_conv)
    with ys(1) JList show ?thesis by (auto simp: dict_get_normal)
  qed (use assms in \<open>auto simp: well_formed_step_def v dict_of_def\<close>)
  moreover have "distinct_keys (JObj ?d)" using assms normal_keeps [of fl None v] by (simp add: well_formed_step_def v)
  ultimately show thesis by (intro that [of ?d]) (use v i in \<open>simp_all add: dict_get_normal step_id_of_def dict_of_def\<close>)
qed

definition step_text :: "json \<Rightarrow> string" where
  "step_text v = (case v of JStr s \<Rightarrow> s | _ \<Rightarrow> [])"

definition deps_of :: "json \<Rightarrow> string list" where
  "deps_of v = (case dict_get (dict_of v) ''depends_on'' of JList xs \<Rightarrow> map step_text xs | _ \<Rightarrow> [])"

lemma plain_step:
  assumes "dict_get d ''id'' = JStr i" and "dict_get d ''depends_on'' = JNull \<or> dict_get d ''depends_on'' = JList (map JStr ds)"
  shows "has_id (JObj d)" "id_text str_of (dict_get (dict_of (JObj d)) ''id'') = i" "step_id_of (JObj d) = i"
    "hash_deps str_of (JObj d) = Some (deps_of (JObj d))"
proof -
  show "has_id (JObj d)" "id_text str_of (dict_get (dict_of (JObj d)) ''id'') = i" "step_id_of (JObj d) = i"
    using assms(1) by (simp_all add: has_id_def dict_of_def id_text_def step_id_of_def)
  have "map (id_text str_of) (map JStr ds) = ds" "map step_text (map JStr ds) = ds"
    by (simp_all add: id_text_def step_text_def comp_def)
  with assms(2) show "hash_deps str_of (JObj d) = Some (deps_of (JObj d))"
    by (auto simp: hash_deps_def deps_of_def dict_of_def json_or_def elements_def)
qed

lemma sorted_step:
  assumes "distinct_keys (JObj d)" and "dict_get d ''id'' = JStr i"
    and "dict_get d ''depends_on'' = JNull \<or> dict_get d ''depends_on'' = JList (map JStr ds)"
  shows "step_id_of (sort_json (JObj d)) = i" "deps_of (sort_json (JObj d)) = deps_of (JObj d)"
proof -
  have get: "dict_get (sort_key fst (map (\<lambda>e. (fst e, sort_json (snd e))) d)) k = sort_json (dict_get d k)" for k
    using assms(1) by (simp add: dict_get_sorted)
  show "step_id_of (sort_json (JObj d)) = i" using assms(2) get [of "''id''"] by (simp add: step_id_of_def dict_of_def)
  show "deps_of (sort_json (JObj d)) = deps_of (JObj d)"
    using assms(3) get [of "''depends_on''"] by (auto simp: deps_of_def dict_of_def comp_def)
qed

section \<open>The order that is hashed\<close>

lemma hash_order_perm: "distinct remaining \<Longrightarrow> mset (hash_order deps remaining finished) = mset remaining"
proof (induction deps remaining finished rule: hash_order.induct)
  case (1 deps remaining finished)
  show ?case
  proof (cases "remaining = []")
    case True
    then show ?thesis by (simp add: hash_order.simps)
  next
    case False
    let ?ready = "ready_ids deps remaining finished"
    have "distinct ?ready" using 1(2) by (simp add: ready_ids_def Let_def)
    then have ready: "mset ?ready = filter_mset (\<lambda>i. i \<in> set ?ready) (mset remaining)"
      using set_ready_ids [of deps remaining finished] 1(2) unfolding mset_filter [symmetric]
      by (intro set_eq_iff_mset_eq_distinct [THEN iffD1]) auto
    have rest: "mset (hash_order deps (filter (\<lambda>i. i \<notin> set ?ready) remaining) (finished @ ?ready)) =
        filter_mset (\<lambda>i. i \<notin> set ?ready) (mset remaining)"
      unfolding mset_filter [symmetric] by (rule 1(1) [OF False refl]) (use 1(2) in simp)
    have "mset (hash_order deps remaining finished) = mset ?ready + filter_mset (\<lambda>i. i \<notin> set ?ready) (mset remaining)"
      unfolding rest [symmetric] using False by (subst hash_order.simps) (simp add: Let_def)
    also have "\<dots> = mset remaining" unfolding ready by (rule multiset_partition [symmetric])
    finally show ?thesis .
  qed
qed

lemma sort_mset: "mset xs = mset ys \<Longrightarrow> sort xs = sort ys" for xs ys :: "'a::linorder list"
  by (rule properties_for_sort) simp_all

lemma ready_ids_cong:
  assumes "mset remaining = mset remaining'" and "\<And>i. i \<in> set remaining \<Longrightarrow> deps i = deps' i"
  shows "ready_ids deps remaining finished = ready_ids deps' remaining' finished"
proof -
  have set_eq: "set remaining' = set remaining" using assms(1) by (metis set_mset_mset)
  have same: "filter (\<lambda>i. \<forall>d\<in>set (deps i). d \<in> set finished) remaining' = filter (\<lambda>i. \<forall>d\<in>set (deps' i). d \<in> set finished) remaining'"
    using assms(2) set_eq by (intro filter_cong) auto
  have "sort (filter (\<lambda>i. \<forall>d\<in>set (deps i). d \<in> set finished) remaining) = sort (filter (\<lambda>i. \<forall>d\<in>set (deps i). d \<in> set finished) remaining')"
    by (rule sort_mset) (simp add: assms(1))
  then show ?thesis unfolding ready_ids_def sort_mset [OF assms(1)] same by simp
qed

lemma hash_order_cong:
  "mset remaining = mset remaining' \<Longrightarrow> (\<And>i. i \<in> set remaining \<Longrightarrow> deps i = deps' i) \<Longrightarrow>
     hash_order deps remaining finished = hash_order deps' remaining' finished"
proof (induction deps remaining finished arbitrary: remaining' rule: hash_order.induct)
  case (1 deps remaining finished)
  show ?case
  proof (cases "remaining = []")
    case True
    with 1(2) show ?thesis by (simp add: hash_order.simps)
  next
    case False
    then have False': "remaining' \<noteq> []" using 1(2) by auto
    let ?ready = "ready_ids deps remaining finished"
    have same: "ready_ids deps' remaining' finished = ?ready" using ready_ids_cong [OF 1(2,3)] by simp
    have "mset (filter (\<lambda>i. i \<notin> set ?ready) remaining) = mset (filter (\<lambda>i. i \<notin> set ?ready) remaining')"
      by (simp add: 1(2))
    then have "hash_order deps (filter (\<lambda>i. i \<notin> set ?ready) remaining) (finished @ ?ready) =
        hash_order deps' (filter (\<lambda>i. i \<notin> set ?ready) remaining') (finished @ ?ready)"
      by (rule 1(1) [OF False refl]) (use 1(3) in auto)
    moreover have "hash_order deps remaining finished = ?ready @ hash_order deps (filter (\<lambda>i. i \<notin> set ?ready) remaining) (finished @ ?ready)"
      using False by (subst hash_order.simps) (simp add: Let_def)
    moreover have "hash_order deps' remaining' finished = ?ready @ hash_order deps' (filter (\<lambda>i. i \<notin> set ?ready) remaining') (finished @ ?ready)"
      using False' same by (subst hash_order.simps) (simp add: Let_def)
    ultimately show ?thesis by simp
  qed
qed

section \<open>The canonical plan\<close>

definition identified :: "(pyfloat \<Rightarrow> string) \<Rightarrow> (string \<Rightarrow> pyfloat) \<Rightarrow> json list \<Rightarrow> bool" where
  "identified fl fr steps \<longleftrightarrow> list_all (well_formed_step fl fr) steps \<and> distinct (map step_id_of steps)"

lemma normal_step:
  assumes "well_formed_step fl fr v"
  shows "has_id (normal_value fl None v)" "id_text str_of (dict_get (dict_of (normal_value fl None v)) ''id'') = step_id_of v"
    "hash_deps str_of (normal_value fl None v) = Some (deps_of (normal_value fl None v))"
    "step_id_of (sort_json (normal_value fl None v)) = step_id_of v"
    "deps_of (sort_json (normal_value fl None v)) = deps_of (normal_value fl None v)"
proof -
  obtain d ds where d: "normal_value fl None v = JObj d" "distinct_keys (JObj d)" "dict_get d ''id'' = JStr (step_id_of v)"
    "dict_get d ''depends_on'' = JNull \<or> dict_get d ''depends_on'' = JList (map JStr ds)"
    using normal_object [OF assms] by metis
  note p = plain_step [OF d(3,4)] and q = sorted_step [OF d(2-4)]
  show "has_id (normal_value fl None v)" "id_text str_of (dict_get (dict_of (normal_value fl None v)) ''id'') = step_id_of v"
    "hash_deps str_of (normal_value fl None v) = Some (deps_of (normal_value fl None v))"
    "step_id_of (sort_json (normal_value fl None v)) = step_id_of v"
    "deps_of (sort_json (normal_value fl None v)) = deps_of (normal_value fl None v)"
    using p q d(1) by simp_all
qed

lemma index_fold:
  "distinct (map fst m @ map f vs) \<Longrightarrow> fold (\<lambda>v. od_set (f v) (g v)) vs m = m @ map (\<lambda>v. (f v, g v)) vs"
proof (induction vs arbitrary: m)
  case (Cons v vs)
  then have "map_of m (f v) = None" by (auto simp: map_of_eq_None_iff)
  then have "od_set (f v) (g v) m = m @ [(f v, g v)]" by (simp add: od_set_def)
  with Cons.prems Cons.IH [of "m @ [(f v, g v)]"] show ?case by simp
qed simp

definition plan_order :: "(pyfloat \<Rightarrow> string) \<Rightarrow> json list \<Rightarrow> string list" where
  "plan_order fl steps = hash_order (\<lambda>i. case map_of (map (\<lambda>v. (step_id_of v, v)) steps) i of None \<Rightarrow> []
     | Some v \<Rightarrow> deps_of (normal_value fl None v)) (map step_id_of steps) []"

lemma set_plan_order: "distinct (map step_id_of steps) \<Longrightarrow> set (plan_order fl steps) = set (map step_id_of steps)"
  unfolding plan_order_def by (rule mset_eq_setD [OF hash_order_perm])

lemma map_of_image: "map_of (map (\<lambda>v. (f v, g v)) vs) i = map_option g (map_of (map (\<lambda>v. (f v, v)) vs) i)"
  by (induction vs) auto

lemma same_plan_lookup:
  assumes "identified fl fr steps" and "v \<in> set steps"
  shows "map_of (map (\<lambda>v. (step_id_of v, v)) steps) (step_id_of v) = Some v"
  using assms by (simp add: identified_def comp_def)

lemma canonical_plan_identified:
  assumes "identified fl fr steps"
  shows "canonical_plan fl str_of steps =
    Some (map (\<lambda>i. normal_value fl None (the (map_of (map (\<lambda>v. (step_id_of v, v)) steps) i))) (plan_order fl steps))"
proof -
  let ?N = "normal_value fl None"
  have ok: "\<forall>v\<in>set steps. well_formed_step fl fr v" and dist: "distinct (map step_id_of steps)"
    using assms by (auto simp: identified_def list_all_iff)
  have strict: "strict_json (JList steps)" using ok by (auto simp: well_formed_step_def)
  have ids: "filter has_id (map ?N steps) = map ?N steps" "filter (\<lambda>v. \<not> has_id v) (map ?N steps) = []"
    using ok normal_step(1) by (auto simp: filter_empty_conv filter_id_conv)
  have "hash_index str_of (map ?N steps) = fold (\<lambda>v. od_set (step_id_of v) (?N v)) steps []"
    unfolding hash_index_def ids(1) fold_map comp_def using ok normal_step(2) by (intro fold_cong) auto
  then have index: "hash_index str_of (map ?N steps) = map (\<lambda>v. (step_id_of v, ?N v)) steps"
    using index_fold [of "[]" step_id_of steps ?N] dist by simp
  have some: "\<forall>v\<in>set steps. hash_deps str_of (?N v) = Some (deps_of (?N v))" using ok normal_step(3) by blast
  have none: "\<not> list_ex (\<lambda>(i, v). hash_deps str_of v = None) (map (\<lambda>v. (step_id_of v, ?N v)) steps)"
    using some by (auto simp: list_ex_iff)
  have deps: "(\<lambda>i. case map_of (map (\<lambda>v. (step_id_of v, ?N v)) steps) i of None \<Rightarrow> [] | Some v \<Rightarrow> (case hash_deps str_of v of None \<Rightarrow> [] | Some ds \<Rightarrow> ds)) =
      (\<lambda>i. case map_of (map (\<lambda>v. (step_id_of v, v)) steps) i of None \<Rightarrow> [] | Some v \<Rightarrow> deps_of (?N v))"
  proof
    fix i
    show "(case map_of (map (\<lambda>v. (step_id_of v, ?N v)) steps) i of None \<Rightarrow> [] | Some v \<Rightarrow> (case hash_deps str_of v of None \<Rightarrow> [] | Some ds \<Rightarrow> ds)) =
      (case map_of (map (\<lambda>v. (step_id_of v, v)) steps) i of None \<Rightarrow> [] | Some v \<Rightarrow> deps_of (?N v))"
      unfolding map_of_image [of step_id_of ?N]
      using some by (auto split: option.splits dest!: map_of_SomeD)
  qed
  have order: "hash_order (\<lambda>i. case map_of (map (\<lambda>v. (step_id_of v, v)) steps) i of None \<Rightarrow> [] | Some v \<Rightarrow> deps_of (?N v))
      (map fst (map (\<lambda>v. (step_id_of v, ?N v)) steps)) [] = plan_order fl steps"
    by (simp add: plan_order_def comp_def)
  have perm: "set (plan_order fl steps) = step_id_of ` set steps"
    unfolding set_plan_order [OF dist] by simp
  have looked: "the (map_of (map (\<lambda>v. (step_id_of v, ?N v)) steps) i) = ?N (the (map_of (map (\<lambda>v. (step_id_of v, v)) steps) i))"
    if "i \<in> set (plan_order fl steps)" for i
  proof -
    from that perm obtain v where v: "v \<in> set steps" "i = step_id_of v" by blast
    show ?thesis unfolding map_of_image [of step_id_of ?N] v(2) same_plan_lookup [OF assms v(1)] by simp
  qed
  show ?thesis
    unfolding canonical_plan_def Let_def index ids(2) deps order using strict none looked by simp
qed

text \<open>What is hashed, up to the order of keys, is a rearrangement of the plan's steps.\<close>

lemma canonical_perm:
  assumes "identified fl fr steps" and "canonical_plan fl str_of steps = Some vs"
  shows "mset (map sort_json vs) = mset (map (sort_json \<circ> normal_value fl None) steps)"
proof -
  let ?look = "\<lambda>i. the (map_of (map (\<lambda>v. (step_id_of v, v)) steps) i)"
  have dist: "distinct (map step_id_of steps)" using assms(1) by (simp add: identified_def)
  have vs: "vs = map (\<lambda>i. normal_value fl None (?look i)) (plan_order fl steps)" using assms canonical_plan_identified by simp
  let ?G = "\<lambda>i. sort_json (normal_value fl None (?look i))"
  have "mset (plan_order fl steps) = mset (map step_id_of steps)" unfolding plan_order_def by (rule hash_order_perm [OF dist])
  then have "mset (map ?G (plan_order fl steps)) = mset (map ?G (map step_id_of steps))" unfolding mset_map by simp
  moreover have "map ?G (map step_id_of steps) = map (sort_json \<circ> normal_value fl None) steps"
    using same_plan_lookup [OF assms(1)] by simp
  moreover have "map sort_json vs = map ?G (plan_order fl steps)" by (simp add: vs)
  ultimately show ?thesis by (simp only:)
qed

section \<open>Hashes\<close>

lemma canonical_text_list: "map sort_json xs = map sort_json ys \<Longrightarrow> canonical_text fl (JList xs) = canonical_text fl (JList ys)"
  by (simp add: canonical_text_def)

lemma canonical_plan_ok:
  assumes "identified fl fr steps" and "canonical_plan fl str_of steps = Some vs"
  shows "strict_json (JList vs)" "distinct_keys (JList vs)" "floats_ok (float_reads fl fr) (JList vs)"
proof -
  have "mset (map sort_json vs) = mset (map (sort_json \<circ> normal_value fl None) steps)" by (rule canonical_perm [OF assms])
  then have set_eq: "sort_json ` set vs = (sort_json \<circ> normal_value fl None) ` set steps" by (metis list.set_map mset_eq_setD)
  have floats: "floats_ok P (sort_json u) = floats_ok P u" for P u
    by (induction u rule: json_measure_induct) (auto simp: sort_json_leaf)
  have strict: "strict_json (sort_json u) = strict_json u" for u
    by (induction u rule: json_measure_induct) (auto simp: sort_json_leaf)
  have good: "strict_json u \<and> distinct_keys u \<and> floats_ok (float_reads fl fr) u" if "u \<in> set vs" for u
  proof -
    have "sort_json u \<in> (sort_json \<circ> normal_value fl None) ` set steps" using that set_eq by blast
    then obtain v where v: "v \<in> set steps" "sort_json u = sort_json (normal_value fl None v)" by auto
    then have "well_formed_step fl fr v" using assms(1) by (auto simp: identified_def list_all_iff)
    then have "strict_json (normal_value fl None v)" "distinct_keys (normal_value fl None v)" "floats_ok (float_reads fl fr) (normal_value fl None v)"
      by (simp_all add: well_formed_step_def)
    then have "strict_json (sort_json u)" "distinct_keys (sort_json u)" "floats_ok (float_reads fl fr) (sort_json u)"
      unfolding v(2) by (simp_all add: strict floats)
    then show ?thesis by (simp add: strict floats)
  qed
  then show "strict_json (JList vs)" "distinct_keys (JList vs)" "floats_ok (float_reads fl fr) (JList vs)" by auto
qed

lemma same_forms_order:
  assumes "identified fl fr a" and "identified fl fr b" and "same_forms fl a b"
    and "canonical_plan fl str_of a = Some va" and "canonical_plan fl str_of b = Some vb"
  shows "map sort_json va = map sort_json vb"
proof -
  let ?S = "\<lambda>v. sort_json (normal_value fl None v)"
  let ?la = "\<lambda>i. map_of (map (\<lambda>v. (step_id_of v, v)) a) i" and ?lb = "\<lambda>i. map_of (map (\<lambda>v. (step_id_of v, v)) b) i"
  have ok: "well_formed_step fl fr v" if "v \<in> set a \<or> v \<in> set b" for v
    using assms(1,2) that by (auto simp: identified_def list_all_iff)
  have sid: "step_id_of (?S v) = step_id_of v" if "v \<in> set a \<or> v \<in> set b" for v by (rule normal_step(4) [OF ok [OF that]])
  have sdeps: "deps_of (?S v) = deps_of (normal_value fl None v)" if "v \<in> set a \<or> v \<in> set b" for v
    by (rule normal_step(5) [OF ok [OF that]])
  have ids: "map step_id_of (map ?S c) = map step_id_of c" if "set c \<subseteq> set a \<union> set b" for c
    using that sid by (auto simp: subset_iff)
  have "mset (map ?S a) = mset (map ?S b)" using assms(3) by (simp add: same_forms_def comp_def)
  then have "mset (map step_id_of (map ?S a)) = mset (map step_id_of (map ?S b))" unfolding mset_map by simp
  then have ids_same: "mset (map step_id_of a) = mset (map step_id_of b)" using ids [of a] ids [of b] by (simp del: map_map mset_map)
  have look: "\<exists>v w. v \<in> set a \<and> w \<in> set b \<and> step_id_of v = i \<and> step_id_of w = i \<and> ?la i = Some v \<and> ?lb i = Some w \<and> ?S v = ?S w"
    if i: "i \<in> set (map step_id_of a)" for i
  proof -
    obtain v where v: "v \<in> set a" "step_id_of v = i" using i by auto
    have "?S ` set a = ?S ` set b" using mset_eq_setD [OF \<open>mset (map ?S a) = mset (map ?S b)\<close>] by simp
    then have "?S v \<in> ?S ` set b" using v(1) by blast
    then obtain w where w: "w \<in> set b" "?S v = ?S w" by auto
    have "step_id_of w = step_id_of (?S w)" using sid w(1) by simp
    also have "\<dots> = step_id_of (?S v)" unfolding w(2) ..
    also have "\<dots> = i" using sid v by simp
    finally have "step_id_of w = i" .
    moreover have "?la i = Some v" using same_plan_lookup [OF assms(1) v(1)] unfolding v(2) .
    moreover have "?lb i = Some w" using same_plan_lookup [OF assms(2) w(1)] unfolding \<open>step_id_of w = i\<close> .
    ultimately show ?thesis using v w by blast
  qed
  have "plan_order fl a = plan_order fl b"
    unfolding plan_order_def
  proof (rule hash_order_cong [OF ids_same])
    fix i assume "i \<in> set (map step_id_of a)"
    from look [OF this] obtain v w where vw: "v \<in> set a" "w \<in> set b" "?la i = Some v" "?lb i = Some w" "?S v = ?S w" by blast
    have "deps_of (normal_value fl None v) = deps_of (normal_value fl None w)" using sdeps [of v] sdeps [of w] vw by simp
    with vw(3,4) show "(case ?la i of None \<Rightarrow> [] | Some v \<Rightarrow> deps_of (normal_value fl None v)) = (case ?lb i of None \<Rightarrow> [] | Some v \<Rightarrow> deps_of (normal_value fl None v))"
      by simp
  qed
  moreover have "?S (the (?la i)) = ?S (the (?lb i))" if "i \<in> set (plan_order fl a)" for i
  proof -
    have "i \<in> set (map step_id_of a)"
      using that set_plan_order [of a fl] assms(1) unfolding identified_def by blast
    from look [OF this] show ?thesis by auto
  qed
  moreover have "va = map (\<lambda>i. normal_value fl None (the (?la i))) (plan_order fl a)"
    using assms(4) canonical_plan_identified [OF assms(1), of str_of] by simp
  moreover have "vb = map (\<lambda>i. normal_value fl None (the (?lb i))) (plan_order fl b)"
    using assms(5) canonical_plan_identified [OF assms(2), of str_of] by simp
  ultimately show ?thesis by simp
qed

lemma plan_hash_forms:
  assumes "identified fl fr a" and "identified fl fr b"
    and "canonical_plan fl str_of a = Some va" and "canonical_plan fl str_of b = Some vb"
    and "digest (canonical_text fl (JList va)) = digest (canonical_text fl (JList vb)) \<longrightarrow>
      canonical_text fl (JList va) = canonical_text fl (JList vb)"
  shows "plan_hash fl str_of digest a = plan_hash fl str_of digest b \<longleftrightarrow> same_forms fl a b"
proof
  assume "plan_hash fl str_of digest a = plan_hash fl str_of digest b"
  with assms(3-5) have same_text: "canonical_text fl (JList va) = canonical_text fl (JList vb)" by (simp add: plan_hash_def)
  have "strict_json_loads fr (canonical_text fl (JList va)) = Some (sort_json (JList va))"
    by (rule strict_json_read_back) (rule canonical_plan_ok [OF assms(1,3)])+
  moreover have "strict_json_loads fr (canonical_text fl (JList vb)) = Some (sort_json (JList vb))"
    by (rule strict_json_read_back) (rule canonical_plan_ok [OF assms(2,4)])+
  ultimately have "map sort_json va = map sort_json vb" using same_text by simp
  then show "same_forms fl a b" using canonical_perm [OF assms(1,3)] canonical_perm [OF assms(2,4)] by (simp add: same_forms_def)
next
  assume "same_forms fl a b"
  then have "canonical_text fl (JList va) = canonical_text fl (JList vb)"
    by (intro canonical_text_list same_forms_order [OF assms(1,2) _ assms(3,4)])
  then show "plan_hash fl str_of digest a = plan_hash fl str_of digest b" unfolding plan_hash_def assms(3,4) by simp
qed

section \<open>Forms and meanings\<close>

lemma free_fields: "set unordered_fields = order_free_fields"
  by (auto simp: unordered_fields_def order_free_fields_def)

definition regular :: "(pyfloat \<Rightarrow> string) \<Rightarrow> (string \<Rightarrow> pyfloat) \<Rightarrow> json \<Rightarrow> bool" where
  "regular fl fr v \<longleftrightarrow> strict_json v \<and> distinct_keys v \<and> floats_ok (float_reads fl fr) v"

lemma regular_parts:
  "regular fl fr (JObj d) \<Longrightarrow> e \<in> set d \<Longrightarrow> regular fl fr (snd e)" "regular fl fr (JList vs) \<Longrightarrow> v \<in> set vs \<Longrightarrow> regular fl fr v"
  "regular fl fr (JObj d) \<Longrightarrow> map_of d k = Some v \<Longrightarrow> regular fl fr v" "regular fl fr (JObj d) \<Longrightarrow> distinct (map fst d)"
  by (auto simp: regular_def dest: map_of_SomeD)

text \<open>The form of a value: normalised, keys sorted.\<close>

definition form :: "(pyfloat \<Rightarrow> string) \<Rightarrow> string option \<Rightarrow> json \<Rightarrow> json" where
  "form fl f v = sort_json (normal_value fl f v)"

lemma same_text_same_form:
  assumes "regular fl fr u" and "regular fl fr v" and "canonical_text fl (normal_value fl f u) = canonical_text fl (normal_value fl f v)"
  shows "form fl f u = form fl f v"
proof -
  have "strict_json_loads fr (canonical_text fl (normal_value fl f w)) = Some (form fl f w)" if "regular fl fr w" for w
    unfolding form_def by (rule strict_json_read_back) (use that in \<open>simp_all add: regular_def\<close>)
  with assms show ?thesis by (metis option.inject)
qed

lemma map_sort_key: "map h (sort_key (\<lambda>x. g (h x)) xs) = sort_key g (map h xs)"
proof (induction xs)
  case (Cons x xs)
  have "map h (insort_key (\<lambda>x. g (h x)) x ys) = insort_key g (h x) (map h ys)" for ys by (induction ys) auto
  with Cons show ?case by simp
qed simp

lemma form_leaf: "is_leaf v \<Longrightarrow> form fl f v = v"
  by (cases v) (simp_all add: is_leaf_def form_def)

lemma form_object: "form fl f (JObj d) = JObj (sort_key fst (map (\<lambda>(k, v). (k, form fl (Some k) v)) d))"
  by (simp add: form_def comp_def split_def)

lemma form_in_order: "\<nexists>k. f = Some k \<and> k \<in> order_free_fields \<Longrightarrow> form fl f (JList vs) = JList (map (form fl None) vs)"
  by (cases f) (auto simp: form_def normal_value.simps [of fl f "JList vs"] normal_value.simps [of fl "Some _" "JList vs"]
      normal_value.simps [of fl None "JList vs"] free_fields Let_def)

lemma form_any_order:
  assumes "k \<in> order_free_fields"
  shows "form fl (Some k) (JList vs) = JList (sort_key (\<lambda>w. utf8_encode (write_json fl w)) (map (form fl None) vs))"
proof -
  have key: "canonical_text fl = (\<lambda>w. utf8_encode (write_json fl (sort_json w)))" by (simp add: fun_eq_iff canonical_text_def)
  have "map sort_json (sort_key (canonical_text fl) (map (normal_value fl None) vs)) =
      sort_key (\<lambda>w. utf8_encode (write_json fl w)) (map (form fl None) vs)"
    unfolding key map_sort_key [of sort_json "\<lambda>w. utf8_encode (write_json fl w)"] by (simp add: form_def [abs_def] comp_def)
  then show ?thesis
    using assms by (simp add: form_def normal_value.simps [of fl "Some k" "JList vs"] free_fields Let_def)
qed

lemma form_list_any_order_iff:
  assumes "regular fl fr (JList us)" and "regular fl fr (JList vs)" and "k \<in> order_free_fields"
  shows "form fl (Some k) (JList us) = form fl (Some k) (JList vs) \<longleftrightarrow> mset (map (form fl None) us) = mset (map (form fl None) vs)"
proof
  let ?g = "\<lambda>w. utf8_encode (write_json fl w)"
  assume same: "mset (map (form fl None) us) = mset (map (form fl None) vs)"
  have inj: "inj_on ?g (set (map (form fl None) us))"
  proof (rule inj_onI)
    fix a b
    assume ab: "a \<in> set (map (form fl None) us)" "b \<in> set (map (form fl None) us)" "?g a = ?g b"
    from ab(1,2) obtain u v where uv: "u \<in> set us" "v \<in> set us" "a = form fl None u" "b = form fl None v" by auto
    moreover from this have "canonical_text fl (normal_value fl None u) = canonical_text fl (normal_value fl None v)"
      using ab(3) by (simp add: canonical_text_def form_def)
    ultimately show "a = b" using same_text_same_form regular_parts(2) [OF assms(1)] by blast
  qed
  have "mset (map (form fl None) us) = mset (sort_key ?g (map (form fl None) vs))" using same by (simp del: mset_map)
  from sort_key_inj_key_eq [OF this inj] show "form fl (Some k) (JList us) = form fl (Some k) (JList vs)"
    unfolding form_any_order [OF assms(3)] by simp
next
  assume "form fl (Some k) (JList us) = form fl (Some k) (JList vs)"
  then show "mset (map (form fl None) us) = mset (map (form fl None) vs)"
    unfolding form_any_order [OF assms(3)] by (metis json.inject(5) mset_sort)
qed

lemma rearranged: "mset (map h us) = mset (map h vs) \<Longrightarrow> \<exists>ws. mset ws = mset vs \<and> map h us = map h ws"
proof -
  assume "mset (map h us) = mset (map h vs)"
  moreover have "list_all2 (\<lambda>b v. b = h v) (map h vs) vs" by (simp add: list_all2_conv_all_nth)
  ultimately obtain ws where "list_all2 (\<lambda>b v. b = h v) (map h us) ws" "mset ws = mset vs"
    using list_all2_reorder_left_invariance by blast
  then show ?thesis by (auto simp: list_all2_conv_all_nth intro!: exI [of _ ws] nth_equalityI)
qed

lemma same_form:
  "same_value f u v \<Longrightarrow> regular fl fr u \<Longrightarrow> regular fl fr v \<Longrightarrow> form fl f u = form fl f v"
proof (induction rule: same_value.induct)
  case (object d e f)
  have "map_option (form fl (Some k)) (map_of d k) = map_option (form fl (Some k)) (map_of e k)" for k
  proof (cases "map_of d k")
    case None
    with object(1) show ?thesis by (metis domIff)
  next
    case (Some u)
    with object(1) obtain v where "map_of e k = Some v" by (metis domI domIff option.exhaust)
    with Some object show ?thesis by (simp add: regular_parts(3))
  qed
  moreover have "map_of (map (\<lambda>(k, v). (k, form fl (Some k) v)) x) k = map_option (form fl (Some k)) (map_of x k)" for x k
    by (induction x) auto
  ultimately have "map_of (map (\<lambda>(k, v). (k, form fl (Some k) v)) d) = map_of (map (\<lambda>(k, v). (k, form fl (Some k) v)) e)" by auto
  moreover have "map fst (map (\<lambda>(k, v). (k, form fl (Some k) v)) x) = map fst x" for x by auto
  ultimately show ?case
    unfolding form_object using regular_parts(4) object(3,4) by (intro arg_cong [of _ _ JObj] sort_key_eqI) metis+
next
  case (in_order us vs f)
  have forms: "map (form fl None) us = map (form fl None) vs"
    using in_order by (intro nth_equalityI) (auto simp: regular_parts(2))
  show ?case
  proof (cases "\<exists>k. f = Some k \<and> k \<in> order_free_fields")
    case True
    then obtain k where "f = Some k" "k \<in> order_free_fields" by blast
    with forms show ?thesis by (simp add: form_any_order)
  next
    case False
    with forms show ?thesis by (simp add: form_in_order)
  qed
next
  case (any_order f k ws vs us)
  have "map (form fl None) us = map (form fl None) ws"
  proof (rule nth_equalityI)
    fix i assume "i < length (map (form fl None) us)"
    then have i: "i < length us" by simp
    have "ws ! i \<in> set vs" using i any_order(3,4) by (metis mset_eq_setD nth_mem)
    then have "regular fl fr (us ! i)" "regular fl fr (ws ! i)" using i any_order(6,7) by (auto simp: regular_parts(2))
    with any_order(4,5) i show "map (form fl None) us ! i = map (form fl None) ws ! i" by simp
  qed (use any_order(4) in simp)
  moreover have "mset (map (form fl None) ws) = mset (map (form fl None) vs)" using any_order(3) by simp
  ultimately show ?case using form_list_any_order_iff [OF any_order(6,7,2)] any_order(1) by simp
qed (simp add: form_leaf)

lemma form_kind:
  "is_object (form fl f v) = is_object v" "is_leaf (form fl f v) = is_leaf v"
proof -
  have "is_object (form fl f v) = is_object v \<and> is_leaf (form fl f v) = is_leaf v"
  proof (cases v)
    case (JList vs)
    obtain ys where "normal_value fl f (JList vs) = JList ys" using normal_list by blast
    with JList show ?thesis by (simp add: form_def is_leaf_def)
  qed (simp_all add: form_def is_leaf_def)
  then show "is_object (form fl f v) = is_object v" "is_leaf (form fl f v) = is_leaf v" by blast+
qed

lemma form_shape:
  assumes "form fl f u = form fl f v"
  shows "is_object u = is_object v" "is_leaf u = is_leaf v" "is_leaf u \<Longrightarrow> u = v"
proof -
  show "is_object u = is_object v" "is_leaf u = is_leaf v" using assms form_kind by metis+
  then show "u = v" if "is_leaf u" using assms that by (simp add: form_leaf)
qed

lemma same_meaning:
  "form fl f u = form fl f v \<Longrightarrow> regular fl fr u \<Longrightarrow> regular fl fr v \<Longrightarrow> same_value f u v"
proof (induction u arbitrary: f v rule: json_measure_induct)
  case (obj d)
  obtain e where v: "v = JObj e" using form_shape(1) [OF obj(2)] by (cases v) auto
  let ?m = "\<lambda>x. map (\<lambda>(k, v). (k, form fl (Some k) v)) x"
  have fst: "map fst (?m x) = map fst x" for x by auto
  have dist: "distinct (map fst (?m d))" "distinct (map fst (?m e))"
    unfolding fst using obj(3,4) by (simp_all add: v regular_parts(4))
  have "sort_key fst (?m d) = sort_key fst (?m e)" using obj(2) unfolding v form_object by simp
  then have "map_of (sort_key fst (?m d)) = map_of (sort_key fst (?m e))" by (rule arg_cong)
  then have "map_of (?m d) = map_of (?m e)" unfolding map_of_sorted [OF dist(1)] map_of_sorted [OF dist(2)] .
  then have same: "map_of (?m d) k = map_of (?m e) k" for k by simp
  have "map_of (?m x) k = map_option (form fl (Some k)) (map_of x k)" for x k by (induction x) auto
  from same [unfolded this] have looks: "map_option (form fl (Some k)) (map_of d k) = map_option (form fl (Some k)) (map_of e k)" for k .
  show ?case
    unfolding v
  proof (rule same_value.object)
    show "dom (map_of d) = dom (map_of e)" using looks by (intro set_eqI) (metis domIff option.map_disc_iff)
    show "\<forall>k a b. map_of d k = Some a \<longrightarrow> map_of e k = Some b \<longrightarrow> same_value (Some k) a b"
    proof (intro allI impI)
      fix k a b
      assume ab: "map_of d k = Some a" "map_of e k = Some b"
      then have "form fl (Some k) a = form fl (Some k) b" using looks [of k] by simp
      with obj(1) [of "(k, a)" "Some k" b] ab obj(3,4) show "same_value (Some k) a b"
        by (auto simp: v dest: map_of_SomeD intro: regular_parts(3))
    qed
  qed
next
  case (list us)
  obtain vs where v: "v = JList vs" using form_shape(1,2) [OF list(2)] by (cases v) (auto simp: is_leaf_def)
  have parts: "same_value None x y" if "x \<in> set us" "y \<in> set vs" "form fl None x = form fl None y" for x y
    using list(1) [OF that(1) that(3)] that(1,2) list(3,4) by (auto simp: v intro: regular_parts(2))
  show ?case
  proof (cases "\<exists>k. f = Some k \<and> k \<in> order_free_fields")
    case True
    then obtain k where k: "f = Some k" "k \<in> order_free_fields" by blast
    have "mset (map (form fl None) us) = mset (map (form fl None) vs)"
      using form_list_any_order_iff [OF _ _ k(2)] list(2-4) unfolding v k(1) by blast
    from rearranged [OF this] obtain ws where ws: "mset ws = mset vs" "map (form fl None) us = map (form fl None) ws" by blast
    have "length us = length ws" using ws(2) by (metis length_map)
    moreover have "form fl None (us ! i) = form fl None (ws ! i)" "ws ! i \<in> set vs" if "i < length us" for i
    proof -
      show "form fl None (us ! i) = form fl None (ws ! i)" using ws(2) that \<open>length us = length ws\<close> by (metis nth_map)
      show "ws ! i \<in> set vs" using ws(1) that \<open>length us = length ws\<close> by (metis mset_eq_setD nth_mem)
    qed
    ultimately show ?thesis unfolding v using k ws(1) parts by (intro same_value.any_order) auto
  next
    case False
    then have "map (form fl None) us = map (form fl None) vs" using list(2) unfolding v by (simp add: form_in_order)
    then have "length us = length vs" "\<forall>i<length us. form fl None (us ! i) = form fl None (vs ! i)"
      by (metis length_map, metis length_map nth_map)
    then show ?thesis unfolding v using parts by (intro same_value.in_order) auto
  qed
next
  case (leaf u)
  then have "is_leaf u" by (cases u) (auto simp: is_leaf_def)
  with form_shape(3) [OF leaf(3)] show ?case by (auto intro: same_value.leaf)
qed

lemma same_plan_forms:
  assumes "identified fl fr a" and "identified fl fr b"
  shows "same_forms fl a b \<longleftrightarrow> same_plan a b"
proof
  have regular: "regular fl fr v" if "v \<in> set a \<or> v \<in> set b" for v
    using assms that by (auto simp: identified_def list_all_iff well_formed_step_def regular_def)
  have forms: "same_forms fl a b \<longleftrightarrow> mset (map (form fl None) a) = mset (map (form fl None) b)"
    by (simp add: same_forms_def form_def [abs_def] comp_def)
  show "same_plan a b" if "same_forms fl a b"
  proof -
    from that have "mset (map (form fl None) a) = mset (map (form fl None) b)" unfolding forms .
    from rearranged [OF this] obtain c where c: "mset c = mset b" "map (form fl None) a = map (form fl None) c" by blast
    then have "length a = length c" by (metis length_map)
    moreover have "same_value None (a ! i) (c ! i)" if "i < length a" for i
    proof (rule same_meaning)
      show "form fl None (a ! i) = form fl None (c ! i)" using c(2) that \<open>length a = length c\<close> by (metis nth_map)
      have "c ! i \<in> set b" using c(1) that \<open>length a = length c\<close> by (metis mset_eq_setD nth_mem)
      then show "regular fl fr (a ! i)" "regular fl fr (c ! i)" using that regular by auto
    qed
    ultimately show ?thesis unfolding same_plan_def using c(1) by (auto simp: list_all2_conv_all_nth)
  qed
  show "same_forms fl a b" if "same_plan a b"
  proof -
    from that [unfolded same_plan_def] obtain c where c: "mset c = mset b" "list_all2 (same_value None) a c" by (elim exE conjE)
    have "set c = set b" using c(1) by (rule mset_eq_setD)
    have "map (form fl None) a = map (form fl None) c"
    proof (rule nth_equalityI)
      fix i assume "i < length (map (form fl None) a)"
      then have i: "i < length a" "i < length c" "same_value None (a ! i) (c ! i)" using c(2) by (auto simp: list_all2_conv_all_nth)
      have "a ! i \<in> set a" "c ! i \<in> set b" using i nth_mem \<open>set c = set b\<close> by blast+
      then have "regular fl fr (a ! i)" "regular fl fr (c ! i)" using regular by blast+
      with same_form [OF i(3)] i show "map (form fl None) a ! i = map (form fl None) c ! i" by simp
    qed (use c(2) in \<open>simp add: list_all2_lengthD\<close>)
    then show ?thesis unfolding forms using c(1) by (simp add: mset_map)
  qed
qed

lemma plan_hash_same:
  assumes "identified fl fr a" and "identified fl fr b"
    and "canonical_plan fl str_of a = Some va" and "canonical_plan fl str_of b = Some vb"
    and "digest (canonical_text fl (JList va)) = digest (canonical_text fl (JList vb)) \<longrightarrow>
      canonical_text fl (JList va) = canonical_text fl (JList vb)"
  shows "plan_hash fl str_of digest a = plan_hash fl str_of digest b \<longleftrightarrow> same_plan a b"
  using plan_hash_forms [OF assms] same_plan_forms [OF assms(1,2)] by simp

text \<open>C39. The hash identifies the plan: for two plans of well-formed steps with their own ids, and a digest that
  does not collide on their texts, the hashes are equal exactly if the steps of one are those of the other,
  in any order, with equal values: objects whatever the order of their keys, lists element by element,
  and only lists under the nine named fields (depends_on, values, ...) whatever their order. This holds at
  every depth, so the arguments of tools are compared in the same way.\<close>

theorem plan_hash_exact:
  assumes "identified fl fr a" and "identified fl fr b"
    and "canonical_plan fl str_of a = Some va" and "canonical_plan fl str_of b = Some vb"
    and "digest (canonical_text fl (JList va)) = digest (canonical_text fl (JList vb)) \<longrightarrow>
      canonical_text fl (JList va) = canonical_text fl (JList vb)"
  shows "plan_hash fl str_of digest a = plan_hash fl str_of digest b \<longleftrightarrow> same_plan a b"
  by (rule plan_hash_same [OF assms])

end
