(* ===== verification/Token_Properties.thy ===== *)
theory Token_Properties
  imports Failure_Properties
begin

text \<open>
  The resume token of a failed step: accepted exactly in the scope it was made for, for a plan with the
  same steps, before it expires; with the witnesses of the properties of failure recovery.
\<close>

definition plan_text :: "recovery_world \<Rightarrow> json list \<Rightarrow> string" where
  "plan_text w steps = (case canonical_plan (rw_float w) (rw_str_of w) steps of None \<Rightarrow> [] | Some vs \<Rightarrow> canonical_text (rw_float w) (JList vs))"

lemma hash_of_identified:
  assumes "identified (rw_float w) (rw_read_float w) steps"
  shows "hash_of w steps = Some (rw_digest w (plan_text w steps))"
  using canonical_plan_identified [OF assms, of "rw_str_of w"] by (simp add: hash_of_def plan_hash_def plan_text_def)

lemma hash_of_same:
  assumes "identified (rw_float w) (rw_read_float w) a" and "identified (rw_float w) (rw_read_float w) b"
    and "rw_digest w (plan_text w a) = rw_digest w (plan_text w b) \<longrightarrow> plan_text w a = plan_text w b"
  shows "rw_digest w (plan_text w a) = rw_digest w (plan_text w b) \<longleftrightarrow> same_plan a b"
proof -
  obtain va vb where v: "canonical_plan (rw_float w) (rw_str_of w) a = Some va" "canonical_plan (rw_float w) (rw_str_of w) b = Some vb"
    using canonical_plan_identified [OF assms(1)] canonical_plan_identified [OF assms(2)] by blast
  show ?thesis
    using plan_hash_same [OF assms(1,2) v, of "rw_digest w"] assms(3) v by (simp add: plan_hash_def plan_text_def)
qed

section \<open>The payload\<close>

lemma payload_distinct: "distinct (map fst (token_payload s h now ttl))"
  by (simp add: token_payload_def scope_fields_def)

lemma payload_fields:
  "dict_get (token_payload s h now ttl) ''v'' = JInt 1" "dict_get (token_payload s h now ttl) ''iat'' = JInt now"
  "dict_get (token_payload s h now ttl) ''exp'' = JInt (now + ttl)"
  "dict_get (token_payload s h now ttl) ''workspace_id'' = JStr (text_or_empty (ts_workspace s))"
  "dict_get (token_payload s h now ttl) ''session_id'' = JStr (ts_session s)"
  "dict_get (token_payload s h now ttl) ''turn_id'' = JStr (ts_turn s)"
  "dict_get (token_payload s h now ttl) ''plan_hash'' = JStr h"
  "dict_get (token_payload s h now ttl) ''failed_step_id'' = JStr (ts_failed_step s)"
  by (simp_all add: token_payload_def scope_fields_def dict_get_Cons)

lemma payload_read_back:
  "strict_json_loads fr (canonical_text fl (JObj (token_payload s h now ttl))) = Some (JObj (sorted_items (token_payload s h now ttl)))"
proof -
  have "strict_json (JObj (token_payload s h now ttl))" "distinct_keys (JObj (token_payload s h now ttl))"
    "floats_ok (float_reads fl fr) (JObj (token_payload s h now ttl))"
    by (simp_all add: token_payload_def scope_fields_def)
  from strict_json_read_back [OF this] show ?thesis by simp
qed

lemma py_equal_scalars [simp]: "py_equal (JStr s) (JStr t) = (s = t)" "py_equal (JInt i) (JInt j) = (i = j)"
  by (auto simp: py_equal_def)

lemma decode_sealed:
  assumes "0 < ttl" and "text_or_empty (ts_plan_hash s) = h" and "h \<noteq> []"
  shows "decode_token fr read mac clock s (sealed mac (b64 (canonical_text fl (JObj (token_payload s0 h0 now ttl))))) =
    (if now + ttl \<le> clock then Inl TokenExpired
     else if text_or_empty (ts_workspace s) = text_or_empty (ts_workspace s0) \<and> ts_session s = ts_session s0 \<and> ts_turn s = ts_turn s0 \<and>
       h = h0 \<and> ts_failed_step s = ts_failed_step s0 then Inr (sorted_items (token_payload s0 h0 now ttl))
     else Inl TokenScopeMismatch)"
proof -
  let ?d = "sorted_items (token_payload s0 h0 now ttl)"
  note get = dict_get_sorted [OF payload_distinct, of s0 h0 now ttl] payload_fields
  have "open_token fr mac (sealed mac (b64 (canonical_text fl (JObj (token_payload s0 h0 now ttl))))) = Some ?d"
    by (rule open_sealed [OF payload_read_back]) (simp add: get)
  then show ?thesis using assms by (auto simp: decode_token_def get int_of_def scope_fields_def)
qed

text \<open>C40. A resume token is honoured exactly where it belongs: presented to the codec that made it, it is expired
  from its last second on; before, it is accepted for the same workspace (none is the empty one), session,
  turn and failed step and a plan with the same steps, and is out of scope anywhere else.\<close>

theorem resume_token_exact:
  assumes "identified (rw_float w) (rw_read_float w) a" and "identified (rw_float w) (rw_read_float w) b"
    and "rw_digest w (plan_text w a) = rw_digest w (plan_text w b) \<longrightarrow> plan_text w a = plan_text w b"
    and "rw_digest w (plan_text w b) \<noteq> []"
    and "create_resume_token w ws se tu a failure now ttl = Inr token"
  shows "validate_resume_token w ws' se' tu' b failed' clock token =
    (if now + ttl \<le> clock then Inl (Some TokenExpired)
     else if text_or_empty ws' = text_or_empty ws \<and> se' = se \<and> tu' = tu \<and> failed' = fa_step_id failure \<and> same_plan a b
       then Inr (sorted_items (token_payload
         \<lparr>ts_workspace = ws, ts_session = se, ts_turn = tu, ts_plan_hash = hash_of w a, ts_failed_step = fa_step_id failure\<rparr>
         (the (hash_of w a)) now ttl))
     else Inl (Some TokenScopeMismatch))"
proof -
  note hashes = hash_of_identified [OF assms(1)] hash_of_identified [OF assms(2)]
  let ?s = "\<lparr>ts_workspace = ws, ts_session = se, ts_turn = tu, ts_plan_hash = hash_of w a, ts_failed_step = fa_step_id failure\<rparr>"
  have made: "0 < ttl" "token = sealed (rw_mac w) (b64 (canonical_text (rw_float w) (JObj (token_payload ?s (the (hash_of w a)) now ttl))))"
    using assms(5) unfolding create_resume_token_def encode_token_def hashes by (simp_all add: text_or_empty_def split: if_splits)
  show ?thesis
    unfolding validate_resume_token_def hashes(2) made(2)
    using made(1) assms(4) hash_of_same [OF assms(1-3)] by (auto simp: decode_sealed [OF made(1) refl] hashes text_or_empty_def)
qed

section \<open>Witnesses\<close>

text \<open>A plan with a report that depends on two steps, written down in two orders.\<close>

definition gather_step :: json where
  "gather_step = JObj [(''id'', JStr ''a''), (''kind'', JStr ''tool'')]"

definition check_step :: json where
  "check_step = JObj [(''id'', JStr ''b'')]"

definition report_step :: "string list \<Rightarrow> json" where
  "report_step deps = JObj [(''id'', JStr ''c''), (''depends_on'', JList (map JStr deps))]"

definition plan_one :: "json list" where
  "plan_one = [gather_step, check_step, report_step [''a'', ''b'']]"

definition plan_two :: "json list" where
  "plan_two = [report_step [''b'', ''a''], gather_step, check_step]"

definition sample_world :: recovery_world where
  "sample_world = \<lparr>rw_float = (\<lambda>_. ''0''), rw_read_float = (\<lambda>_. PosInf), rw_read_int = (\<lambda>_. None), rw_str_of = (\<lambda>_. []),
     rw_digest = (\<lambda>t. CHR ''h'' # t), rw_mac = (\<lambda>t. ''m'')\<rparr>"

definition sample_failure :: step_failure where
  "sample_failure = \<lparr>fa_step_id = ''b'', fa_kind = FailTool, fa_message = [], fa_retryable = True, fa_status = None, fa_cause = None,
     fa_metadata = [], fa_timestamp = []\<rparr>"

text \<open>A tool step whose arguments are one list under a given key.\<close>

definition call_step :: "string \<Rightarrow> int list \<Rightarrow> json" where
  "call_step k ns = JObj [(''id'', JStr ''d''), (''arguments'', JObj [(k, JList (map JInt ns))])]"

lemma sample_plans: "identified fl fr plan_one" "identified fl fr plan_two" "identified fl fr [call_step k ns]"
  by (simp_all add: identified_def plan_one_def plan_two_def gather_step_def check_step_def report_step_def call_step_def
      well_formed_step_def dict_of_def dict_get_Cons step_id_of_def)

lemma plan_hash_exact_witness:
  "same_plan plan_one plan_two \<and> \<not> same_plan [call_step ''order'' [1, 2]] [call_step ''order'' [2, 1]]"
proof
  obtain va vb where v: "canonical_plan (\<lambda>_. ''0'') (\<lambda>_. []) plan_one = Some va" "canonical_plan (\<lambda>_. ''0'') (\<lambda>_. []) plan_two = Some vb"
    by (rule that [OF canonical_plan_identified [OF sample_plans(1)] canonical_plan_identified [OF sample_plans(2)]])
  have "plan_hash (\<lambda>_. ''0'') (\<lambda>_. []) (\<lambda>t. t) plan_one = plan_hash (\<lambda>_. ''0'') (\<lambda>_. []) (\<lambda>t. t) plan_two" by code_simp
  with plan_hash_exact [OF sample_plans(1,2) v, of "\<lambda>t. t"] show "same_plan plan_one plan_two" by simp
next
  obtain va vb where v: "canonical_plan (\<lambda>_. ''0'') (\<lambda>_. []) [call_step ''order'' [1, 2]] = Some va"
    "canonical_plan (\<lambda>_. ''0'') (\<lambda>_. []) [call_step ''order'' [2, 1]] = Some vb"
    by (rule that [OF canonical_plan_identified [OF sample_plans(3)] canonical_plan_identified [OF sample_plans(3)]])
  have "plan_hash (\<lambda>_. ''0'') (\<lambda>_. []) (\<lambda>t. t) [call_step ''order'' [1, 2]] \<noteq>
      plan_hash (\<lambda>_. ''0'') (\<lambda>_. []) (\<lambda>t. t) [call_step ''order'' [2, 1]]" by code_simp
  with plan_hash_exact [OF sample_plans(3) sample_plans(3) v, of "\<lambda>t. t"]
  show "\<not> same_plan [call_step ''order'' [1, 2]] [call_step ''order'' [2, 1]]" by simp
qed

text \<open>The fields are recognised by name at any depth. Two calls whose arguments list the same entries in another
  order are different calls, but under an argument called \<open>values\<close> they have one hash.\<close>

lemma argument_order_is_lost:
  "call_step ''values'' [1, 2] \<noteq> call_step ''values'' [2, 1] \<and>
     plan_hash (\<lambda>_. ''0'') (\<lambda>_. []) digest [call_step ''values'' [1, 2]] = plan_hash (\<lambda>_. ''0'') (\<lambda>_. []) digest [call_step ''values'' [2, 1]]"
proof
  show "call_step ''values'' [1, 2] \<noteq> call_step ''values'' [2, 1]" by (simp add: call_step_def)
  have "canonical_plan (\<lambda>_. ''0'') (\<lambda>_. []) [call_step ''values'' [1, 2]] = canonical_plan (\<lambda>_. ''0'') (\<lambda>_. []) [call_step ''values'' [2, 1]]"
    by code_simp
  then show "plan_hash (\<lambda>_. ''0'') (\<lambda>_. []) digest [call_step ''values'' [1, 2]] =
      plan_hash (\<lambda>_. ''0'') (\<lambda>_. []) digest [call_step ''values'' [2, 1]]" by (simp add: plan_hash_def)
qed

lemma resume_token_exact_witness:
  "case create_resume_token sample_world None ''s'' ''t'' plan_one sample_failure 1000 900 of
     Inl _ \<Rightarrow> False
   | Inr token \<Rightarrow> \<not> isl (validate_resume_token sample_world (Some []) ''s'' ''t'' plan_two ''b'' 1899 token) \<and>
       validate_resume_token sample_world None ''s'' ''t'' plan_one ''b'' 1900 token = Inl (Some TokenExpired) \<and>
       validate_resume_token sample_world None ''s'' ''t'' plan_one ''c'' 1899 token = Inl (Some TokenScopeMismatch)"
proof -
  obtain token where token: "create_resume_token sample_world None ''s'' ''t'' plan_one sample_failure 1000 900 = Inr token"
    by (simp add: create_resume_token_def hash_of_identified [OF sample_plans(1)] encode_token_def text_or_empty_def sample_world_def)
  have same: "same_plan plan_one plan_one" "same_plan plan_one plan_two"
    unfolding same_plan_forms [where fl = "\<lambda>_. ''0''", OF sample_plans(1) sample_plans(1), symmetric]
      same_plan_forms [where fl = "\<lambda>_. ''0''", OF sample_plans(1) sample_plans(2), symmetric]
    by (simp add: same_forms_def) code_simp
  have sample: "rw_digest sample_world t = CHR ''h'' # t" for t by (simp add: sample_world_def)
  note exact = resume_token_exact [OF sample_plans(1) _ _ _ token, unfolded sample]
  show ?thesis unfolding token using exact [OF sample_plans(1)] exact [OF sample_plans(2)] same by (simp add: text_or_empty_def sample_failure_def)
qed

end
