(* ===== verification/Spec2Isabelle.thy ===== *)
theory Spec2Isabelle
  imports Turn_Service_Properties Context_Properties Plan_Description Plan_Runs Recovery_Documents Recovery_Runs Job_Properties
    Tool_Properties Stream_Properties Scheduler_Properties Token_Properties
begin

text \<open>
  A model of the core of the Yuizaki backend (src/python): a companion application that turns requests
  into semantic turns, plans and executes steps with tools, asks its user for permission, and controls a
  live stream. All paths below are relative to src/python.

  \<^bold>\<open>The program and its parts.\<close> A request is executed by the turn service (modules/agent/turn_service.py): it
  claims the turn in the durable store (modules/agent/turn_store.py), runs it, commits one result together
  with an outbox event, and delivers the event to projections through the dispatcher
  (modules/agent/turn_outbox.py). While a turn runs, the planner's documents are validated
  (modules/agent/planner.py) and the accepted plan is executed step by step (modules/agent/step_executor.py);
  a tool step goes through the tool executor (modules/agent/tool_executor.py), which asks the policy engine
  (modules/agent/policy_engine.py), writes receipts (modules/agent/permission_receipt.py) and records job
  events (modules/agent/companion_events.py). A failed step leaves a marker in the recovery store
  (modules/agent/recovery_store.py) and a resume token (modules/agent/failure_recovery.py). The scheduler
  (modules/agent/scheduler.py, schedule_store.py) starts turns by the clock. The context window
  (modules/llm/context_window.py) cuts a conversation to the model's budget. The stream runtime
  (modules/system/stream_runtime.py, stream_moderation.py) executes confirmed actions of a live stream.

  \<^bold>\<open>Shared theories.\<close> Prelude: Python's text helpers, tables as lists of rows, results as sums, and three
  locales: \<open>guarded_machine\<close> (an invariant kept by every command), \<open>ordered_machine\<close> (and an order in which
  states only grow) and \<open>leased_rows\<close> (a row with a lease that others respect); each is interpreted on the
  machines of the components, which get their facts about runs from it. Python_Json: values and
  dictionaries. Json_Order: equality up to the order of keys. Ordered_Dict: \<open>OrderedDict\<close>. Json_Text and
  Json_Read_Back: the canonical JSON text of planner.py with its strict reader, and that reading back what
  was written gives the value with sorted keys.

  \<^bold>\<open>Turn store.\<close> Turn_Payload holds the documents of a commit, Turn_Tables the five tables, Turn_Claims the
  operations on claims and commits (\<open>claim\<close>, \<open>renew_claim\<close>, \<open>persist\<close>, ...), Outbox_Store the outbox,
  Connector_Deliveries the deliveries of chat connectors; one definition per method, the state is the
  record of tables. Claim_Runs, Outbox_Runs, Delivery_Runs and Turn_Runs run these operations in any order by
  any number of workers with any clocks. Outbox_Dispatcher and Dispatcher_Runs: the dispatcher. Turn_Properties
  states durability, the one-to-one outbox, exclusive claims and fencing, order and at-most-once of handlers, the
  row machines of deliveries, and the rule for sends of unknown outcome.

  \<^bold>\<open>Turn service.\<close> Turn_Service models one execution from lookup to delivery, with the runner, the
  projections and the other executors as arguments; Turn_Service_Runs and Turn_Service_Properties show one
  result per turn, that claims are given back, and a bound on the polls for a claim.

  \<^bold>\<open>Plans.\<close> Plan_Steps: step variants, their dictionaries and post-init. Plan_Validation: the gate
  \<open>validate_plan\<close>. Plan_Correct: the search for cycles is exact. Plan_Description: a declarative description
  of sound plans that uses none of the gate's checks, and that the gate accepts exactly these.
  Plan_Execution: \<open>execute_immediate_steps\<close> with the ordering loop, conditions, guards, the ledger, the
  automatic retries of a tool step (\<open>_execute_tool_step\<close>) and the reasons to stop. Plan_Runs: order, guards,
  and when an effect may be started again.

  \<^bold>\<open>Recovery.\<close> Step_Recovery: argument filter, stored documents and markers of recovery_store.py.
  Recovery_Documents: the filter and the round trip of a stored step. Recovery_Runs: leases and attempts.
  Failure_Recovery and Resume_Token: the failure taxonomy, the retry closure, plan hashes and tokens.
  Failure_Properties describes plans that mean the same by an inductive relation on values and proves that
  hashes agree exactly for them; Token_Properties proves the exact verdict on a token.

  \<^bold>\<open>Events, permissions, tools.\<close> Presentation_Log and Job_Log: the two bounded logs of companion_events.py;
  Presentation_Runs, Job_Runs and Job_Properties their invariants. Permission_Receipt: redaction and
  receipts. Policy_Engine and Policy_Runs: decisions, answers, the stored file. Tool_Result: the envelope of a
  result. Tool_Executor: the whole of \<open>execute\<close> in continuation style, so that an exception skips what the code
  skips. Tool_Runs and Tool_Properties: permission before dispatch, the end of every job, unknown effects.

  \<^bold>\<open>Scheduler, context, stream.\<close> Scheduler, Scheduler_Runs and Scheduler_Properties: tasks, loop and runs as
  commands between two awaits, one live run per task, what happens after a once task's run and after a
  restart. Context_Window and Context_Properties: counting, truncation, window. Stream_Moderation,
  Stream_Runtime, Stream_Runs and Stream_Properties: settings, previews, tickets, executions, events.

  \<^bold>\<open>How state and effects are modelled.\<close> State is a record that every operation returns updated; errors are
  values of a sum or option type; SQL tables are lists of rows in insertion order. Concurrency is a list of
  commands or, inside one operation, a list of commands of others at each await. Clocks, identifiers, answers
  of the user, results of handlers and whether a file could be written are arguments, so a theorem holds for
  all of them. Code outside the repository and library functions the code only calls are parameters: the
  tokenizer (\<open>encode\<close>), case folding, the reading and writing of floats, time stamps, SHA-256 (\<open>digest\<close>), HMAC
  (\<open>mac\<close>), URL parsing, two regular expressions, and time zones. Their only hypotheses are that a digest does
  not collide on the two texts at hand and that a written float is read back.

  \<^bold>\<open>Bounds and termination.\<close> Loops are total functions with a measure: the search for cycles, the ordering
  passes, the closure of a retry, the binary search, the trimming of logs. The only fuel is that of the JSON
  reader, twice the length of the text, shown to be enough for every written text. The polling for a claim is
  bounded by the wait and the least pause, for every environment.

  \<^bold>\<open>Simplifications.\<close> Text is Latin-1; floats are real numbers and three special values, without rounding; a
  failed write leaves a file as it was; the stream runtime has a history file configured. The await in the finally
  block of a scheduled run is one step with the code around it; a cancellation while the turn service waits
  for its renewal task at the end, and an exception of the trace store between the decision on a tool and its
  running event, are left out. The silent-mode, capability, lease and slice checks of
  \<open>execute_immediate_steps\<close> only refuse and are left out, so runs are over-approximated.

  \<^bold>\<open>Not modelled.\<close> Transport (socket server, HTTP routes), the language model client, speech and vision,
  memory search, desktop control, MCP servers and plugins, settings storage, network protocols of platforms:
  I/O around third-party code. Of modelled files: the second loop \<open>execute_tool_steps\<close>, retry handles and the
  journal of the step executor, the planner's prompts, \<open>recheck\<close> of the tool executor, the OBS and Twitch
  adapters (with \<open>obs_profiles\<close> and \<open>obs_probe\<close>, which ask OBS without a ticket).

  Where the code does less than it means to, a lemma shows it and the text before it says so, for example
  \<open>set_cookie_passes\<close>, \<open>reap_removes_active_claim\<close>, \<open>throttled_skips_identity\<close>, \<open>unsaved_close_raises\<close>,
  \<open>text_blocks_overrun\<close>, \<open>folded_terms_are_lost\<close>, \<open>restart_remembers_little\<close>, \<open>timeout_is_known_failure\<close>,
  \<open>argument_order_is_lost\<close>, \<open>cancelled_before_start_blocks\<close>.
\<close>

end
